(* ===== verification/Prelude.thy ===== *)
theory Prelude
  imports Main "HOL-Library.Word" "HOL-Library.Char_ord" "HOL-Library.List_Lexorder"
begin

section \<open>Errors, results and shared list facts\<close>

text \<open>
  What every theory of the development shares: the C++ exceptions the library can meet as a
  datatype, results as the sum of an exception and a value, the sequencing of fallible steps
  (\<open>bindE\<close>), the loop that stops at the first exception (\<open>traverse\<close>), and the collections of
  rewrite rules the component proofs use.
\<close>

subsection \<open>Exceptions\<close>

text \<open>
  An exception is one of nlohmann's (\<open>type_error\<close>, \<open>out_of_range\<close>, \<open>parse_error\<close>, each with its
  numeric id and the text of the error), one of the standard or Boost exceptions the library throws
  itself or meets, or \<open>Foreign\<close>: an object thrown by user code that is not derived from
  \<open>std::exception\<close>. \<open>Undefined\<close> is not an exception: it stands for C++ undefined behaviour, which no
  handler catches.
\<close>

datatype cxx_error =
    Type_error nat string
  | Out_of_range nat string
  | Parse_error string
  | Runtime_error string
  | System_error string
  | Bad_variant_access
  | Std_exception string
  | Foreign string
  | Undefined string

type_synonym 'a result = "cxx_error + 'a"

definition is_out_of_range :: "cxx_error \<Rightarrow> bool" where
  "is_out_of_range e = (case e of Out_of_range _ _ \<Rightarrow> True | _ \<Rightarrow> False)"

definition is_std_exception :: "cxx_error \<Rightarrow> bool" where
  "is_std_exception e = (case e of Foreign _ \<Rightarrow> False | Undefined _ \<Rightarrow> False | _ \<Rightarrow> True)"

definition is_type_error :: "cxx_error \<Rightarrow> bool" where
  "is_type_error e = (case e of Type_error _ _ \<Rightarrow> True | _ \<Rightarrow> False)"

definition is_undefined :: "cxx_error \<Rightarrow> bool" where
  "is_undefined e = (case e of Undefined _ \<Rightarrow> True | _ \<Rightarrow> False)"

lemma error_class_simps [simp]:
  "is_out_of_range (Out_of_range n s)" "\<not> is_out_of_range (Type_error n s)"
  "\<not> is_out_of_range (Undefined s)" "\<not> is_out_of_range (Foreign s)"
  "\<not> is_out_of_range (Parse_error s)" "\<not> is_out_of_range (Runtime_error s)"
  "\<not> is_out_of_range (System_error s)" "\<not> is_out_of_range Bad_variant_access"
  "\<not> is_out_of_range (Std_exception s)"
  "is_std_exception (Type_error n s)" "is_std_exception (Out_of_range n s)"
  "is_std_exception (Parse_error s)" "is_std_exception (Runtime_error s)"
  "is_std_exception (System_error s)" "is_std_exception Bad_variant_access"
  "is_std_exception (Std_exception s)"
  "\<not> is_std_exception (Foreign s)" "\<not> is_std_exception (Undefined s)"
  "is_type_error (Type_error n s)" "\<not> is_type_error (Out_of_range n s)"
  "\<not> is_type_error (Undefined s)" "is_undefined (Undefined s)"
  "\<not> is_undefined (Type_error n s)" "\<not> is_undefined (Out_of_range n s)"
  by (simp_all add: is_out_of_range_def is_std_exception_def is_type_error_def is_undefined_def)

subsection \<open>Sequencing\<close>

definition bindE :: "'a result \<Rightarrow> ('a \<Rightarrow> 'b result) \<Rightarrow> 'b result" where
  "bindE m f = (case m of Inl e \<Rightarrow> Inl e | Inr x \<Rightarrow> f x)"

lemma bindE_simps [simp]:
  "bindE (Inr x) f = f x"
  "bindE (Inl e) f = Inl e"
  by (simp_all add: bindE_def)

lemma bindE_Inr_right [simp]: "bindE m Inr = m"
  by (cases m) simp_all

lemma bindE_assoc: "bindE (bindE m f) g = bindE m (\<lambda>x. bindE (f x) g)"
  by (cases m) simp_all

lemma bindE_eq_Inr_iff: "bindE m f = Inr y \<longleftrightarrow> (\<exists>x. m = Inr x \<and> f x = Inr y)"
  by (cases m) auto

lemma bindE_eq_Inl_iff: "bindE m f = Inl e \<longleftrightarrow> m = Inl e \<or> (\<exists>x. m = Inr x \<and> f x = Inl e)"
  by (cases m) auto

lemma bindE_InlE:
  assumes "bindE m f = Inl e"
  obtains "m = Inl e" | x where "m = Inr x" "f x = Inl e"
  using assms by (cases m) auto

text \<open>The value of the first step is known when the second is reached: what a recursion through
  a fallible step needs for its termination proof.\<close>

lemma bindE_cong [fundef_cong]:
  assumes "m = m'" and "\<And>x. m' = Inr x \<Longrightarrow> f x = f' x"
  shows "bindE m f = bindE m' f'"
  using assms by (cases m') auto

text \<open>A loop that appends the result of each step to a vector and leaves at the first exception.\<close>

fun traverse :: "('a \<Rightarrow> 'b result) \<Rightarrow> 'a list \<Rightarrow> 'b list result" where
  "traverse f [] = Inr []"
| "traverse f (x # xs) = bindE (f x) (\<lambda>y. bindE (traverse f xs) (\<lambda>ys. Inr (y # ys)))"

lemma traverse_cong [fundef_cong]:
  assumes "xs = ys" and "\<And>x. x \<in> set ys \<Longrightarrow> f x = g x"
  shows "traverse f xs = traverse g ys"
proof -
  have "(\<And>x. x \<in> set ys \<Longrightarrow> f x = g x) \<Longrightarrow> traverse f ys = traverse g ys"
    by (induction ys) simp_all
  then show ?thesis using assms by simp
qed

lemma traverse_length: "traverse f xs = Inr ys \<Longrightarrow> length ys = length xs"
  by (induction xs arbitrary: ys) (auto simp: bindE_eq_Inr_iff)

lemma traverse_nth: "traverse f xs = Inr ys \<Longrightarrow> i < length xs \<Longrightarrow> f (xs ! i) = Inr (ys ! i)"
proof (induction xs arbitrary: ys i)
  case (Cons x xs)
  then show ?case by (cases i) (auto simp: bindE_eq_Inr_iff)
qed simp

lemma traverse_map_Inr: "(\<And>x. x \<in> set xs \<Longrightarrow> f (g x) = Inr x) \<Longrightarrow> traverse f (map g xs) = Inr xs"
  by (induction xs) auto

lemma traverse_Inl: "traverse f xs = Inl e \<Longrightarrow> \<exists>x \<in> set xs. f x = Inl e"
  by (induction xs) (auto simp: bindE_eq_Inl_iff)

subsection \<open>Collections\<close>

named_theorems decode_defs \<open>definitions of the field readers a \<open>from_json\<close> is made of\<close>
named_theorems tree_defs \<open>definitions of the request builders\<close>
named_theorems mode_defs \<open>definitions of the option switches of the sender\<close>

end
