(* ===== verification/Machine.thy ===== *)
theory Machine
  imports Prelude
begin

section \<open>Machine numbers\<close>

text \<open>
  The arithmetic conversions the library performs when it reads a number from JSON or stores one:
  integers are words read as two's complement, \<open>float\<close> and \<open>double\<close> are their IEEE 754 bit patterns.
  A conversion decodes the pattern to sign, significand and exponent (\<open>fp_decode\<close>) and encodes the
  nearest representable number, ties to even (\<open>fp_encode\<close>). The conversion of a floating-point number
  to an integer truncates; outside the range of the target it is undefined behaviour.
\<close>

text \<open>\<open>Fin s m x\<close> is the number \<open>(-1)^s * m * 2^x\<close>.\<close>

datatype fp = NaN | Infinite bool | Fin bool nat int

definition fp_bias :: "nat \<Rightarrow> nat" where
  "fp_bias eb = 2 ^ (eb - 1) - 1"

text \<open>The exponent of the smallest positive number of a format with \<open>eb\<close> exponent bits and \<open>mb\<close>
  fraction bits.\<close>

definition fp_emin :: "nat \<Rightarrow> nat \<Rightarrow> int" where
  "fp_emin eb mb = 1 - int (fp_bias eb) - int mb"

definition fp_decode :: "nat \<Rightarrow> nat \<Rightarrow> nat \<Rightarrow> fp" where
  "fp_decode eb mb n =
     (let s = (n div 2 ^ (eb + mb)) mod 2 = 1;
          e = (n div 2 ^ mb) mod 2 ^ eb;
          f = n mod 2 ^ mb
      in if e = 2 ^ eb - 1 then (if f = 0 then Infinite s else NaN)
         else if e = 0 then Fin s f (fp_emin eb mb)
         else Fin s (2 ^ mb + f) (int e - 1 + fp_emin eb mb))"

fun bit_length :: "nat \<Rightarrow> nat" where
  "bit_length n = (if n = 0 then 0 else Suc (bit_length (n div 2)))"

declare bit_length.simps [simp del]

lemma bit_length_simps: "bit_length 0 = 0" "bit_length (Suc 0) = 1"
  "bit_length (numeral n) = Suc (bit_length (numeral n div 2))"
  by (simp_all add: bit_length.simps [of 0] bit_length.simps [of "Suc 0"] bit_length.simps [of "numeral n"])

text \<open>\<open>m / 2^d\<close> rounded to the nearest integer, ties to even.\<close>

definition round_half_even :: "nat \<Rightarrow> nat \<Rightarrow> nat" where
  "round_half_even m d =
     (if d = 0 then m
      else let q = m div 2 ^ d; r = m mod 2 ^ d; half = 2 ^ (d - 1)
           in if half < r \<or> (half = r \<and> odd q) then q + 1 else q)"

definition fp_encode :: "nat \<Rightarrow> nat \<Rightarrow> fp \<Rightarrow> nat" where
  "fp_encode eb mb v =
     (case v of
        NaN \<Rightarrow> (2 ^ eb - 1) * 2 ^ mb + 2 ^ (mb - 1)
      | Infinite s \<Rightarrow> (if s then 2 ^ (eb + mb) else 0) + (2 ^ eb - 1) * 2 ^ mb
      | Fin s m x \<Rightarrow>
          (let q = max (x + int (bit_length m) - int (mb + 1)) (fp_emin eb mb);
               sig = (if q \<le> x then m * 2 ^ nat (x - q) else round_half_even m (nat (q - x)));
               n = (if m = 0 then 0 else nat (q - fp_emin eb mb) * 2 ^ mb + sig)
           in (if s then 2 ^ (eb + mb) else 0) + min n ((2 ^ eb - 1) * 2 ^ mb)))"

definition double_to_float :: "64 word \<Rightarrow> 32 word" where
  "double_to_float d = of_nat (fp_encode 8 23 (fp_decode 11 52 (unat d)))"

definition float_to_double :: "32 word \<Rightarrow> 64 word" where
  "float_to_double f = of_nat (fp_encode 11 52 (fp_decode 8 23 (unat f)))"

definition int64_to_float :: "64 word \<Rightarrow> 32 word" where
  "int64_to_float i = of_nat (fp_encode 8 23 (Fin (sint i < 0) (nat \<bar>sint i\<bar>) 0))"

definition uint64_to_float :: "64 word \<Rightarrow> 32 word" where
  "uint64_to_float n = of_nat (fp_encode 8 23 (Fin False (unat n) 0))"

text \<open>The integral part of a number, with its sign.\<close>

fun fp_trunc :: "fp \<Rightarrow> int option" where
  "fp_trunc (Fin s m x) =
     (let a = (if 0 \<le> x then int m * 2 ^ nat x else int (m div 2 ^ nat (- x)))
      in Some (if s then - a else a))"
| "fp_trunc v = None"

definition double_trunc :: "64 word \<Rightarrow> int option" where
  "double_trunc d = fp_trunc (fp_decode 11 52 (unat d))"

definition double_to_int64 :: "64 word \<Rightarrow> 64 word result" where
  "double_to_int64 d =
     (case double_trunc d of
        Some v \<Rightarrow> if - (2 ^ 63) \<le> v \<and> v < 2 ^ 63 then Inr (word_of_int v)
                  else Inl (Undefined ''floating-point value out of integer range'')
      | None \<Rightarrow> Inl (Undefined ''floating-point value out of integer range''))"

definition double_to_int32 :: "64 word \<Rightarrow> 32 word result" where
  "double_to_int32 d =
     (case double_trunc d of
        Some v \<Rightarrow> if - (2 ^ 31) \<le> v \<and> v < 2 ^ 31 then Inr (word_of_int v)
                  else Inl (Undefined ''floating-point value out of integer range'')
      | None \<Rightarrow> Inl (Undefined ''floating-point value out of integer range''))"

lemma double_to_int64_Inl: "double_to_int64 d = Inl e \<Longrightarrow> is_undefined e"
  by (auto simp: double_to_int64_def split: option.splits if_splits)

lemma double_to_int32_Inl: "double_to_int32 d = Inl e \<Longrightarrow> is_undefined e"
  by (auto simp: double_to_int32_def split: option.splits if_splits)

text \<open>A 32-bit integer widened to 64 bits and narrowed again is unchanged.\<close>

lemma ucast_scast_32 [simp]: "ucast (scast (i :: 32 word) :: 64 word) = i"
  by (rule bit_word_eqI) (simp add: bit_simps)

text \<open>\<open>std::to_string\<close> of an unsigned number.\<close>

fun decimal :: "nat \<Rightarrow> string" where
  "decimal n = (if n < 10 then [char_of (48 + n)] else decimal (n div 10) @ [char_of (48 + n mod 10)])"

declare decimal.simps [simp del]

end
