(* ===== verification/Json.thy ===== *)
theory Json
  imports Prelude Machine
begin

section \<open>JSON values\<close>

text \<open>
  The part of \<open>include/json.hpp\<close> (JSON for Modern C++ 3.10.4) that the library relies on: the value
  type \<open>basic_json\<close>, and the access, conversion and update members it calls. An object is a
  \<open>std::map\<close>: an association list kept in ascending key order (\<open>obj_put\<close>), keys being compared byte
  by byte. \<open>json_get\<close> is the abstraction the component proofs use: the partial function from keys
  to members.
\<close>

datatype json =
    JNull
  | JBool bool
  | JInt "64 word"
  | JUint "64 word"
  | JFloat "64 word"
  | JString string
  | JBinary "8 word list"
  | JArray "json list"
  | JObject "(string \<times> json) list"
  | JDiscarded

text \<open>\<open>type_name()\<close>, the names used in the error texts.\<close>

fun json_type_name :: "json \<Rightarrow> string" where
  "json_type_name JNull = ''null''"
| "json_type_name (JObject m) = ''object''"
| "json_type_name (JArray xs) = ''array''"
| "json_type_name (JString s) = ''string''"
| "json_type_name (JBool b) = ''boolean''"
| "json_type_name (JBinary bs) = ''binary''"
| "json_type_name JDiscarded = ''discarded''"
| "json_type_name (JInt i) = ''number''"
| "json_type_name (JUint n) = ''number''"
| "json_type_name (JFloat d) = ''number''"

fun is_object :: "json \<Rightarrow> bool" where
  "is_object (JObject m) = True"
| "is_object j = False"

fun is_array :: "json \<Rightarrow> bool" where
  "is_array (JArray xs) = True"
| "is_array j = False"

fun is_null :: "json \<Rightarrow> bool" where
  "is_null JNull = True"
| "is_null j = False"

lemma is_object_iff: "is_object j \<longleftrightarrow> (\<exists>m. j = JObject m)"
  by (cases j) simp_all

lemma is_array_iff: "is_array j \<longleftrightarrow> (\<exists>xs. j = JArray xs)"
  by (cases j) simp_all

subsection \<open>Objects as ordered maps\<close>

fun obj_put :: "string \<Rightarrow> json \<Rightarrow> (string \<times> json) list \<Rightarrow> (string \<times> json) list" where
  "obj_put k v [] = [(k, v)]"
| "obj_put k v ((a, b) # m) =
     (if k < a then (k, v) # (a, b) # m
      else if k = a then (k, v) # m
      else (a, b) # obj_put k v m)"

definition obj_sorted :: "(string \<times> json) list \<Rightarrow> bool" where
  "obj_sorted m = sorted_wrt (<) (map fst m)"

lemma map_of_obj_put [simp]: "map_of (obj_put k v m) = (map_of m)(k \<mapsto> v)"
  by (induction m rule: obj_put.induct [of _ k v]) (auto simp: fun_eq_iff)

lemma keys_obj_put: "fst ` set (obj_put k v m) = insert k (fst ` set m)"
  by (induction m rule: obj_put.induct [of _ k v]) auto

lemma obj_put_put [simp]: "obj_put k v' (obj_put k v m) = obj_put k v' m"
  by (induction m rule: obj_put.induct [of _ k v]) auto

lemma obj_sorted_Nil [simp]: "obj_sorted []"
  by (simp add: obj_sorted_def)

lemma obj_put_sorted: "obj_sorted m \<Longrightarrow> obj_sorted (obj_put k v m)"
proof (induction m rule: obj_put.induct [of _ k v])
  case (2 k v a b m)
  have "fst ` set (obj_put k v m) = insert k (fst ` set m)"
    by (rule keys_obj_put)
  with 2 show ?case by (auto simp: obj_sorted_def)
qed (simp add: obj_sorted_def)

text \<open>An ordered map is determined by its members.\<close>

lemma obj_sorted_Cons:
  "obj_sorted ((k, v) # m) \<longleftrightarrow> obj_sorted m \<and> (\<forall>k' \<in> dom (map_of m). k < k')"
  by (auto simp: obj_sorted_def dom_map_of_conv_image_fst)

lemma obj_eqI: "obj_sorted m \<Longrightarrow> obj_sorted m' \<Longrightarrow> map_of m = map_of m' \<Longrightarrow> m = m'"
proof (induction m arbitrary: m')
  case Nil
  then show ?case by (metis map_of_eq_empty_iff map_of.simps(1))
next
  case (Cons kv m)
  obtain k v where kv: "kv = (k, v)" by (cases kv)
  from fun_cong [OF Cons.prems(3), of k] kv have "m' \<noteq> []" by auto
  then obtain k' v' n where m': "m' = (k', v') # n"
    by (metis list.exhaust prod.exhaust)
  from Cons.prems kv m' have below: "\<forall>x \<in> dom (map_of m). k < x" "\<forall>x \<in> dom (map_of n). k' < x"
    by (auto simp: obj_sorted_Cons)
  from Cons.prems(3) kv m' have eq: "(map_of m)(k \<mapsto> v) = (map_of n)(k' \<mapsto> v')"
    by (simp add: fun_upd_def)
  have dom: "insert k (dom (map_of m)) = insert k' (dom (map_of n))"
    using arg_cong [OF eq, of dom] by simp
  have k: "k = k'"
  proof (rule ccontr)
    assume "k \<noteq> k'"
    moreover from dom have "k \<in> insert k' (dom (map_of n))" "k' \<in> insert k (dom (map_of m))"
      by (metis insertI1)+
    ultimately have "k \<in> dom (map_of n)" "k' \<in> dom (map_of m)" by simp_all
    then have "k' < k" "k < k'" using bspec [OF below(2)] bspec [OF below(1)] by simp_all
    then show False by (rule less_asym)
  qed
  with fun_cong [OF eq, of k] have v: "v = v'" by simp
  from below k have none: "map_of m k = None" "map_of n k = None" by (auto simp: dom_def)
  have same: "map_of m = map_of n"
  proof
    fix x
    from fun_cong [OF eq, of x] none k show "map_of m x = map_of n x"
      by (cases "x = k") simp_all
  qed
  from Cons.prems(1,2) kv m' have "obj_sorted m" "obj_sorted n" by (simp_all add: obj_sorted_Cons)
  with same have "m = n" by (rule Cons.IH [rotated -1])
  with k v kv m' show ?case by simp
qed

definition json_get :: "json \<Rightarrow> string \<Rightarrow> json option" where
  "json_get j k = (case j of JObject m \<Rightarrow> map_of m k | _ \<Rightarrow> None)"

lemma json_get_simps [simp]:
  "json_get (JObject m) k = map_of m k"
  "json_get JNull k = None"
  by (simp_all add: json_get_def)

lemma json_get_object: "json_get j k = Some v \<Longrightarrow> is_object j"
  by (cases j) (simp_all add: json_get_def)

lemma json_get_empty: "json_get (JObject []) = Map.empty"
  by (simp add: fun_eq_iff)

text \<open>A value is well formed when every object in it has strictly ascending keys.\<close>

fun wf_json :: "json \<Rightarrow> bool" where
  "wf_json (JArray xs) = (\<forall>x \<in> set xs. wf_json x)"
| "wf_json (JObject m) = (obj_sorted m \<and> (\<forall>kv \<in> set m. wf_json (snd kv)))"
| "wf_json j = True"

lemma wf_json_empty: "wf_json (JObject [])"
  by simp

lemma wf_json_obj_put:
  assumes "wf_json (JObject m)" and "wf_json v"
  shows "wf_json (JObject (obj_put k v m))"
proof -
  have "kv \<in> set (obj_put k v m) \<Longrightarrow> kv \<in> set m \<or> kv = (k, v)" for kv
    by (induction m rule: obj_put.induct [of _ k v]) (auto split: if_splits)
  with assms show ?thesis by (fastforce simp: obj_put_sorted)
qed

subsection \<open>Element access\<close>

text \<open>The checked access \<open>at(key) const\<close>: error 304 on a value that is not an object, error 403 for a
  missing key.\<close>

definition key_not_found :: "string \<Rightarrow> cxx_error" where
  "key_not_found k = Out_of_range 403 (''key '' @ [CHR 0x27] @ k @ [CHR 0x27] @ '' not found'')"

definition json_at :: "json \<Rightarrow> string \<Rightarrow> json result" where
  "json_at j k =
     (case j of
        JObject m \<Rightarrow> (case map_of m k of Some v \<Rightarrow> Inr v | None \<Rightarrow> Inl (key_not_found k))
      | _ \<Rightarrow> Inl (Type_error 304 (''cannot use at() with '' @ json_type_name j)))"

definition json_contains :: "json \<Rightarrow> string \<Rightarrow> bool" where
  "json_contains j k = (case j of JObject m \<Rightarrow> map_of m k \<noteq> None | _ \<Rightarrow> False)"

lemma json_at_object:
  "is_object j \<Longrightarrow>
     json_at j k = (case json_get j k of Some v \<Rightarrow> Inr v | None \<Rightarrow> Inl (key_not_found k))"
  by (cases j) (simp_all add: json_at_def)

lemma json_at_not_object:
  "\<not> is_object j \<Longrightarrow> json_at j k = Inl (Type_error 304 (''cannot use at() with '' @ json_type_name j))"
  by (cases j) (simp_all add: json_at_def)

lemma json_at_Some [simp]: "json_get j k = Some v \<Longrightarrow> json_at j k = Inr v"
  by (cases j) (simp_all add: json_at_def json_get_def)

lemma json_at_None: "is_object j \<Longrightarrow> json_get j k = None \<Longrightarrow> json_at j k = Inl (key_not_found k)"
  by (simp add: json_at_object)

lemma json_at_eq_Inr_iff [simp]: "json_at j k = Inr v \<longleftrightarrow> json_get j k = Some v"
  by (cases j) (auto simp: json_at_def json_get_def split: option.splits)

lemma json_at_InlD:
  "json_at j k = Inl e \<Longrightarrow> (is_object j \<and> e = key_not_found k) \<or> (\<not> is_object j \<and> is_type_error e)"
  by (cases j) (auto simp: json_at_def split: option.splits)

lemma json_contains_iff: "json_contains j k \<longleftrightarrow> json_get j k \<noteq> None"
  by (cases j) (simp_all add: json_contains_def json_get_def)

lemma key_not_found_class [simp]:
  "is_out_of_range (key_not_found k)" "is_std_exception (key_not_found k)"
  "\<not> is_type_error (key_not_found k)" "\<not> is_undefined (key_not_found k)"
  by (simp_all add: key_not_found_def)

text \<open>A member is smaller than its object, so a decoder may recurse on it.\<close>

lemma size_json_member: "(k, v) \<in> set m \<Longrightarrow> size v < size (JObject m)"
  by (induction m) auto

lemma json_get_size: "json_get j k = Some v \<Longrightarrow> size v < size j"
  by (cases j) (auto simp: json_get_def dest!: map_of_SomeD size_json_member)

text \<open>The unchecked access \<open>operator[](key) const\<close>: a missing key is a failed assertion, undefined
  behaviour in a release build.\<close>

definition json_cindex :: "json \<Rightarrow> string \<Rightarrow> json result" where
  "json_cindex j k =
     (case j of
        JObject m \<Rightarrow>
          (case map_of m k of Some v \<Rightarrow> Inr v | None \<Rightarrow> Inl (Undefined ''operator[] const: no such key''))
      | _ \<Rightarrow> Inl (Type_error 305
          (''cannot use operator[] with a string argument with '' @ json_type_name j)))"

text \<open>The inserting access \<open>operator[](key)\<close>. It turns null into an empty object, creates a missing
  member as null, and hands out a reference to the member; \<open>json_upd k f j\<close> is the value of \<open>j\<close>
  after the statement \<open>f\<close> has been run on that reference.\<close>

definition json_upd :: "string \<Rightarrow> (json \<Rightarrow> json result) \<Rightarrow> json \<Rightarrow> json result" where
  "json_upd k f j =
     (case j of
        JNull \<Rightarrow> bindE (f JNull) (\<lambda>v. Inr (JObject [(k, v)]))
      | JObject m \<Rightarrow>
          bindE (f (case map_of m k of Some v \<Rightarrow> v | None \<Rightarrow> JNull)) (\<lambda>v. Inr (JObject (obj_put k v m)))
      | _ \<Rightarrow> Inl (Type_error 305
          (''cannot use operator[] with a string argument with '' @ json_type_name j)))"

definition json_put :: "string \<Rightarrow> json \<Rightarrow> json \<Rightarrow> json result" where
  "json_put k v j = json_upd k (\<lambda>_. Inr v) j"

text \<open>A tree under construction is null or an object.\<close>

definition is_tree :: "json \<Rightarrow> bool" where
  "is_tree j \<longleftrightarrow> j = JNull \<or> is_object j"

lemma is_tree_simps [simp]: "is_tree JNull" "is_tree (JObject m)" "is_object j \<Longrightarrow> is_tree j"
  by (simp_all add: is_tree_def)

lemma json_put_tree:
  assumes "is_tree t"
  obtains t' where "json_put k v t = Inr t'" "is_object t'" "json_get t' = (json_get t)(k \<mapsto> v)"
proof -
  from assms consider "t = JNull" | m where "t = JObject m"
    by (auto simp: is_tree_def is_object_iff)
  then show thesis
  proof cases
    case 1
    then show thesis
      by (intro that [of "JObject [(k, v)]"]) (auto simp: json_put_def json_upd_def fun_eq_iff)
  next
    case 2
    then show thesis
      by (intro that [of "JObject (obj_put k v m)"])
        (auto simp: json_put_def json_upd_def fun_eq_iff)
  qed
qed

lemma json_put_Inr:
  assumes "json_put k v t = Inr t'"
  shows "is_tree t" "is_object t'" "json_get t' = (json_get t)(k \<mapsto> v)"
proof -
  from assms show t: "is_tree t" by (cases t) (auto simp: json_put_def json_upd_def)
  then obtain t'' where "json_put k v t = Inr t''" "is_object t''" "json_get t'' = (json_get t)(k \<mapsto> v)"
    by (rule json_put_tree)
  with assms show "is_object t'" "json_get t' = (json_get t)(k \<mapsto> v)" by simp_all
qed

lemma json_put_wf:
  assumes "json_put k v t = Inr t'" and "wf_json t" and "wf_json v"
  shows "wf_json t'"
proof -
  from json_put_Inr(1) [OF assms(1)] consider "t = JNull" | m where "t = JObject m"
    by (auto simp: is_tree_def is_object_iff)
  then show ?thesis
  proof cases
    case 1
    with assms have "t' = JObject (obj_put k v [])" by (simp add: json_put_def json_upd_def)
    with assms(3) show ?thesis by (simp add: obj_sorted_def)
  next
    case 2
    with assms have "t' = JObject (obj_put k v m)" by (simp add: json_put_def json_upd_def)
    with assms 2 show ?thesis by (simp only: wf_json_obj_put)
  qed
qed

lemma wf_json_eqI:
  assumes "wf_json t" "wf_json t'" "is_object t" "is_object t'" "json_get t = json_get t'"
  shows "t = t'"
proof -
  from assms obtain m n where mn: "t = JObject m" "t' = JObject n" by (auto simp: is_object_iff)
  with assms(5) have "map_of m = map_of n" by (metis ext json_get_simps(1))
  with assms(1,2) mn show ?thesis by (simp add: obj_eqI)
qed

text \<open>\<open>j[key]\<close> read through the inserting access: the member or null.\<close>

definition json_index :: "json \<Rightarrow> string \<Rightarrow> json result" where
  "json_index j k =
     (case j of
        JNull \<Rightarrow> Inr JNull
      | JObject m \<Rightarrow> Inr (case map_of m k of Some v \<Rightarrow> v | None \<Rightarrow> JNull)
      | _ \<Rightarrow> Inl (Type_error 305
          (''cannot use operator[] with a string argument with '' @ json_type_name j)))"

subsection \<open>Arrays and iteration\<close>

text \<open>\<open>push_back\<close>: null becomes an array; anything else but an array is error 308.\<close>

definition json_push_back :: "json \<Rightarrow> json \<Rightarrow> json result" where
  "json_push_back v j =
     (case j of
        JNull \<Rightarrow> Inr (JArray [v])
      | JArray xs \<Rightarrow> Inr (JArray (xs @ [v]))
      | _ \<Rightarrow> Inl (Type_error 308 (''cannot use push_back() with '' @ json_type_name j)))"

text \<open>A statement on the reference \<open>back()\<close>. The library calls it right after a \<open>push_back\<close>, so on a
  non-empty array.\<close>

definition json_upd_back :: "(json \<Rightarrow> json result) \<Rightarrow> json \<Rightarrow> json result" where
  "json_upd_back f j =
     (case j of
        JArray xs \<Rightarrow>
          if xs = [] then Inl (Undefined ''back() of an empty array'')
          else bindE (f (last xs)) (\<lambda>v. Inr (JArray (butlast xs @ [v])))
      | _ \<Rightarrow> Inl (Undefined ''back() of a value that is not an array''))"

fun json_size :: "json \<Rightarrow> nat" where
  "json_size JNull = 0"
| "json_size (JArray xs) = length xs"
| "json_size (JObject m) = length m"
| "json_size j = 1"

fun json_empty :: "json \<Rightarrow> bool" where
  "json_empty JNull = True"
| "json_empty (JArray xs) = (xs = [])"
| "json_empty (JObject m) = (m = [])"
| "json_empty j = False"

text \<open>The values a range-based \<open>for\<close> visits: the elements of an array, the members of an object in key
  order, nothing for null, and a primitive value once.\<close>

fun json_elements :: "json \<Rightarrow> json list" where
  "json_elements JNull = []"
| "json_elements (JArray xs) = xs"
| "json_elements (JObject m) = map snd m"
| "json_elements j = [j]"

lemma json_elements_size: "length (json_elements j) = json_size j"
  by (cases j) simp_all

lemma json_empty_iff: "json_empty j \<longleftrightarrow> json_elements j = []"
  by (cases j) simp_all

lemma json_element_smaller: "is_array j \<Longrightarrow> x \<in> set (json_elements j) \<Longrightarrow> size x < size j"
  by (cases j) (auto dest: size_list_estimation' [where f = size, OF _ order_refl])

subsection \<open>Conversions\<close>

text \<open>\<open>get<T>()\<close> and the implicit conversion for the types the library reads. The widths are those of
  the x86-64 GNU ABI, where \<open>int_fast32_t\<close>, \<open>int_fast64_t\<close> and \<open>int64_t\<close> are \<open>long\<close>. For that type the
  library takes the overload for \<open>number_integer_t\<close>, which refuses booleans; for \<open>int32_t\<close>, \<open>int\<close> and
  \<open>float\<close> it takes the overload for other arithmetic types, which accepts them.\<close>

definition type_must_be :: "string \<Rightarrow> json \<Rightarrow> cxx_error" where
  "type_must_be t j = Type_error 302 (''type must be '' @ t @ '', but is '' @ json_type_name j)"

definition get_bool :: "json \<Rightarrow> bool result" where
  "get_bool j = (case j of JBool b \<Rightarrow> Inr b | _ \<Rightarrow> Inl (type_must_be ''boolean'' j))"

definition get_string :: "json \<Rightarrow> string result" where
  "get_string j = (case j of JString s \<Rightarrow> Inr s | _ \<Rightarrow> Inl (type_must_be ''string'' j))"

definition get_int64 :: "json \<Rightarrow> 64 word result" where
  "get_int64 j =
     (case j of
        JUint n \<Rightarrow> Inr n
      | JInt i \<Rightarrow> Inr i
      | JFloat d \<Rightarrow> double_to_int64 d
      | _ \<Rightarrow> Inl (type_must_be ''number'' j))"

definition get_int32 :: "json \<Rightarrow> 32 word result" where
  "get_int32 j =
     (case j of
        JUint n \<Rightarrow> Inr (ucast n)
      | JInt i \<Rightarrow> Inr (ucast i)
      | JFloat d \<Rightarrow> double_to_int32 d
      | JBool b \<Rightarrow> Inr (if b then 1 else 0)
      | _ \<Rightarrow> Inl (type_must_be ''number'' j))"

definition get_float :: "json \<Rightarrow> 32 word result" where
  "get_float j =
     (case j of
        JUint n \<Rightarrow> Inr (uint64_to_float n)
      | JInt i \<Rightarrow> Inr (int64_to_float i)
      | JFloat d \<Rightarrow> Inr (double_to_float d)
      | JBool b \<Rightarrow> Inr (int64_to_float (if b then 1 else 0))
      | _ \<Rightarrow> Inl (type_must_be ''number'' j))"

lemma type_must_be_class [simp]:
  "is_type_error (type_must_be t j)" "\<not> is_out_of_range (type_must_be t j)"
  "is_std_exception (type_must_be t j)" "\<not> is_undefined (type_must_be t j)"
  by (simp_all add: type_must_be_def)

lemma get_simps [simp]:
  "get_bool (JBool b) = Inr b" "get_string (JString s) = Inr s"
  "get_int64 (JInt i) = Inr i" "get_int64 (JUint n) = Inr n"
  "get_int32 (JInt i) = Inr (ucast i)" "get_int32 (JUint n) = Inr (ucast n)"
  "get_float (JFloat d) = Inr (double_to_float d)"
  by (simp_all add: get_bool_def get_string_def get_int64_def get_int32_def get_float_def)

text \<open>The errors of a conversion are type errors, or the undefined conversion of a floating-point
  number that does not fit.\<close>

definition conversion_error :: "cxx_error \<Rightarrow> bool" where
  "conversion_error e \<longleftrightarrow> is_type_error e \<or> is_undefined e"

lemma conversion_error_simps [simp]:
  "conversion_error (type_must_be t j)" "conversion_error (Type_error n s)"
  "conversion_error (Undefined s)" "\<not> conversion_error (key_not_found k)"
  "\<not> conversion_error (Out_of_range n s)"
  by (simp_all add: conversion_error_def)

lemma get_bool_Inl: "get_bool j = Inl e \<Longrightarrow> conversion_error e"
  by (cases j) (auto simp: get_bool_def)

lemma get_string_Inl: "get_string j = Inl e \<Longrightarrow> conversion_error e"
  by (cases j) (auto simp: get_string_def)

lemma get_int64_Inl: "get_int64 j = Inl e \<Longrightarrow> conversion_error e"
  by (cases j) (auto simp: get_int64_def conversion_error_def dest: double_to_int64_Inl)

lemma get_int32_Inl: "get_int32 j = Inl e \<Longrightarrow> conversion_error e"
  by (cases j) (auto simp: get_int32_def conversion_error_def dest: double_to_int32_Inl)

lemma get_float_Inl: "get_float j = Inl e \<Longrightarrow> conversion_error e"
  by (cases j) (auto simp: get_float_def)

lemmas get_Inl = get_bool_Inl get_string_Inl get_int64_Inl get_int32_Inl get_float_Inl

text \<open>The comparison \<open>j != b\<close> with a boolean: the scalar becomes a JSON boolean, and values of different
  types are unequal.\<close>

definition json_eq_bool :: "json \<Rightarrow> bool \<Rightarrow> bool" where
  "json_eq_bool j b = (case j of JBool c \<Rightarrow> c = b | _ \<Rightarrow> False)"

lemma json_eq_bool_iff: "json_eq_bool j b \<longleftrightarrow> j = JBool b"
  by (cases j) (auto simp: json_eq_bool_def)

end
