(* ===== verification/Decode.thy ===== *)
theory Decode
  imports Json
begin

section \<open>Reading members: the decoding helpers and the contract of \<open>from_json\<close>\<close>

text \<open>
  \<open>types/helpers/optional.h\<close> and \<open>types/helpers/shared.h\<close>: how a member becomes a
  \<open>std::optional\<close>, an optional vector or a \<open>std::shared_ptr\<close>. Every Telegram type has a static
  \<open>from_json(tree)\<close>; the helpers are templates over it. The locale \<open>json_decoder\<close> states what they
  may rely on, \<open>wire_type\<close> adds the wire format the type stands for, and the client lemmas
  are proved once here.
\<close>

subsection \<open>Required members\<close>

text \<open>\<open>tree.at(key)\<close> converted implicitly to the type of the field it initialises.\<close>

definition at_string :: "json \<Rightarrow> string \<Rightarrow> string result" where
  "at_string t k = bindE (json_at t k) get_string"

definition at_int64 :: "json \<Rightarrow> string \<Rightarrow> 64 word result" where
  "at_int64 t k = bindE (json_at t k) get_int64"

definition at_bool :: "json \<Rightarrow> string \<Rightarrow> bool result" where
  "at_bool t k = bindE (json_at t k) get_bool"

definition at_float :: "json \<Rightarrow> string \<Rightarrow> 32 word result" where
  "at_float t k = bindE (json_at t k) get_float"

subsection \<open>The helpers\<close>

text \<open>The handler all helpers share: only \<open>json::out_of_range\<close> is caught, and becomes an empty
  optional.\<close>

definition catch_out_of_range :: "'a option result \<Rightarrow> 'a option result" where
  "catch_out_of_range m =
     (case m of Inr x \<Rightarrow> Inr x | Inl e \<Rightarrow> if is_out_of_range e then Inr None else Inl e)"

definition make_optional_from_json :: "(json \<Rightarrow> 'a result) \<Rightarrow> json \<Rightarrow> string \<Rightarrow> 'a option result" where
  "make_optional_from_json from_json tree path =
     catch_out_of_range
       (bindE (json_at tree path) (\<lambda>child. bindE (from_json child) (\<lambda>x. Inr (Some x))))"

definition make_optional_string :: "json \<Rightarrow> string \<Rightarrow> string option result" where
  "make_optional_string tree path =
     catch_out_of_range (bindE (json_at tree path) (\<lambda>c. bindE (get_string c) (\<lambda>x. Inr (Some x))))"

definition make_optional_int32 :: "json \<Rightarrow> string \<Rightarrow> 32 word option result" where
  "make_optional_int32 tree path =
     catch_out_of_range (bindE (json_at tree path) (\<lambda>c. bindE (get_int32 c) (\<lambda>x. Inr (Some x))))"

definition make_optional_bool :: "json \<Rightarrow> string \<Rightarrow> bool option result" where
  "make_optional_bool tree path =
     catch_out_of_range (bindE (json_at tree path) (\<lambda>c. bindE (get_bool c) (\<lambda>x. Inr (Some x))))"

definition make_optional_int64 :: "json \<Rightarrow> string \<Rightarrow> 64 word option result" where
  "make_optional_int64 tree path =
     catch_out_of_range (bindE (json_at tree path) (\<lambda>c. bindE (get_int64 c) (\<lambda>x. Inr (Some x))))"

definition make_optional_vector_from_json ::
    "(json \<Rightarrow> 'a result) \<Rightarrow> json \<Rightarrow> string \<Rightarrow> 'a list option result" where
  "make_optional_vector_from_json from_json tree path =
     catch_out_of_range
       (bindE (json_at tree path) (\<lambda>entries.
          if json_empty entries \<or> \<not> is_array entries then Inr None
          else bindE (traverse from_json (json_elements entries)) (\<lambda>out. Inr (Some out))))"

definition make_shared_from_json :: "(json \<Rightarrow> 'a result) \<Rightarrow> json \<Rightarrow> string \<Rightarrow> 'a option result" where
  "make_shared_from_json from_json tree path =
     catch_out_of_range
       (bindE (json_at tree path) (\<lambda>child. bindE (from_json child) (\<lambda>x. Inr (Some x))))"

text \<open>An optional \<open>int32_t\<close> initialising an optional \<open>int_fast32_t\<close>.\<close>

definition widen :: "32 word option \<Rightarrow> 64 word option" where
  "widen = map_option scast"

lemma catch_simps [simp]:
  "catch_out_of_range (Inr x) = Inr x"
  "is_out_of_range e \<Longrightarrow> catch_out_of_range (Inl e) = Inr None"
  "\<not> is_out_of_range e \<Longrightarrow> catch_out_of_range (Inl e) = Inl e"
  by (simp_all add: catch_out_of_range_def)

lemma catch_eq_Inl_iff: "catch_out_of_range m = Inl e \<longleftrightarrow> m = Inl e \<and> \<not> is_out_of_range e"
  by (auto simp: catch_out_of_range_def split: sum.splits if_splits)

text \<open>A decoder used through a helper is only called on a member of the tree.\<close>

lemma make_optional_cong [fundef_cong]:
  assumes "t = t'" "k = k'" and "\<And>c. json_get t' k' = Some c \<Longrightarrow> f c = g c"
  shows "make_optional_from_json f t k = make_optional_from_json g t' k'"
  unfolding make_optional_from_json_def using assms
  by (intro arg_cong [where f = catch_out_of_range] bindE_cong) auto

lemma make_shared_cong [fundef_cong]:
  assumes "t = t'" "k = k'" and "\<And>c. json_get t' k' = Some c \<Longrightarrow> f c = g c"
  shows "make_shared_from_json f t k = make_shared_from_json g t' k'"
  unfolding make_shared_from_json_def using assms
  by (intro arg_cong [where f = catch_out_of_range] bindE_cong) auto

subsection \<open>Reading a member of an object\<close>

text \<open>On an object every reader is a function of the member alone.\<close>

definition required :: "string \<Rightarrow> (json \<Rightarrow> 'a result) \<Rightarrow> json option \<Rightarrow> 'a result" where
  "required k conv mem = (case mem of Some v \<Rightarrow> conv v | None \<Rightarrow> Inl (key_not_found k))"

definition optionally :: "(json \<Rightarrow> 'a result) \<Rightarrow> json option \<Rightarrow> 'a option result" where
  "optionally conv mem =
     (case mem of None \<Rightarrow> Inr None
      | Some v \<Rightarrow> catch_out_of_range (bindE (conv v) (\<lambda>x. Inr (Some x))))"

definition vector_of :: "(json \<Rightarrow> 'a result) \<Rightarrow> json option \<Rightarrow> 'a list option result" where
  "vector_of conv mem =
     (case mem of None \<Rightarrow> Inr None
      | Some v \<Rightarrow>
          if json_empty v \<or> \<not> is_array v then Inr None
          else catch_out_of_range (bindE (traverse conv (json_elements v)) (\<lambda>x. Inr (Some x))))"

lemma required_simps [simp]:
  "required k conv (Some v) = conv v" "required k conv None = Inl (key_not_found k)"
  by (simp_all add: required_def)

lemma optionally_None [simp]: "optionally conv None = Inr None"
  by (simp add: optionally_def)

lemma json_at_required: "is_object t \<Longrightarrow> bindE (json_at t k) conv = required k conv (json_get t k)"
  by (simp add: json_at_object required_def split: option.split)

lemma json_at_required': "is_object t \<Longrightarrow> json_at t k = required k Inr (json_get t k)"
  by (simp add: json_at_object required_def)

lemma readers_object:
  assumes "is_object t"
  shows "at_string t k = required k get_string (json_get t k)"
    and "at_int64 t k = required k get_int64 (json_get t k)"
    and "at_bool t k = required k get_bool (json_get t k)"
    and "at_float t k = required k get_float (json_get t k)"
    and "make_optional_string t k = optionally get_string (json_get t k)"
    and "make_optional_int32 t k = optionally get_int32 (json_get t k)"
    and "make_optional_bool t k = optionally get_bool (json_get t k)"
    and "make_optional_int64 t k = optionally get_int64 (json_get t k)"
    and "make_optional_from_json f t k = optionally f (json_get t k)"
    and "make_shared_from_json f t k = optionally f (json_get t k)"
    and "make_optional_vector_from_json f t k = vector_of f (json_get t k)"
  using assms
  by (simp_all add: at_string_def at_int64_def at_bool_def at_float_def make_optional_string_def
      make_optional_int32_def make_optional_bool_def make_optional_int64_def
      make_optional_from_json_def make_shared_from_json_def make_optional_vector_from_json_def
      json_at_object required_def optionally_def vector_of_def split: option.split)

lemma readers_not_object:
  assumes "\<not> is_object t"
  shows "at_string t k = Inl (Type_error 304 (''cannot use at() with '' @ json_type_name t))"
    and "at_int64 t k = Inl (Type_error 304 (''cannot use at() with '' @ json_type_name t))"
    and "at_bool t k = Inl (Type_error 304 (''cannot use at() with '' @ json_type_name t))"
    and "at_float t k = Inl (Type_error 304 (''cannot use at() with '' @ json_type_name t))"
    and "make_optional_string t k = Inl (Type_error 304 (''cannot use at() with '' @ json_type_name t))"
    and "make_optional_from_json f t k = Inl (Type_error 304 (''cannot use at() with '' @ json_type_name t))"
    and "json_at t k = Inl (Type_error 304 (''cannot use at() with '' @ json_type_name t))"
  using assms
  by (simp_all add: at_string_def at_int64_def at_bool_def at_float_def make_optional_string_def
      make_optional_from_json_def json_at_not_object)

text \<open>Reading back a member written in the wire format.\<close>

definition fits32 :: "64 word \<Rightarrow> bool" where
  "fits32 v \<longleftrightarrow> scast (ucast v :: 32 word) = v"

definition float_exact :: "32 word \<Rightarrow> bool" where
  "float_exact f \<longleftrightarrow> double_to_float (float_to_double f) = f"

abbreviation wf_opt :: "('a \<Rightarrow> bool) \<Rightarrow> 'a option \<Rightarrow> bool" where
  "wf_opt P m \<equiv> pred_option P m"

definition JReal :: "32 word \<Rightarrow> json" where
  "JReal f = JFloat (float_to_double f)"

text \<open>The parser stores an integer without a minus sign as unsigned, a negative one as signed.\<close>

definition JNumber :: "64 word \<Rightarrow> json" where
  "JNumber i = (if sint i < 0 then JInt i else JUint i)"

lemma get_JNumber [simp]: "get_int64 (JNumber i) = Inr i" "get_int32 (JNumber i) = Inr (ucast i)"
  by (simp_all add: JNumber_def)

lemma get_float_JReal [simp]: "float_exact f \<Longrightarrow> get_float (JReal f) = Inr f"
  by (simp add: JReal_def float_exact_def)

lemma optionally_simps [simp]:
  "optionally get_string (map_option JString s) = Inr s"
  "optionally get_bool (map_option JBool b) = Inr b"
  "optionally get_int64 (map_option JNumber i) = Inr i"
proof -
  show "optionally get_string (map_option JString s) = Inr s"
    by (cases s) (simp_all add: optionally_def)
  show "optionally get_bool (map_option JBool b) = Inr b"
    by (cases b) (simp_all add: optionally_def)
  show "optionally get_int64 (map_option JNumber i) = Inr i"
    by (cases i) (simp_all add: optionally_def)
qed

lemma optionally_int32 [simp]:
  "optionally get_int32 (map_option JNumber i) = Inr (map_option ucast i)"
  by (cases i) (simp_all add: optionally_def)

lemma widen_ucast [simp]: "wf_opt fits32 i \<Longrightarrow> widen (map_option ucast i) = i"
  by (cases i) (simp_all add: widen_def fits32_def)

lemma optionally_Some [simp]: "conv v = Inr x \<Longrightarrow> optionally conv (Some v) = Inr (Some x)"
  by (simp add: optionally_def)

lemma optionally_map:
  "(\<And>x. m = Some x \<Longrightarrow> f (enc x) = Inr x) \<Longrightarrow> optionally f (map_option enc m) = Inr m"
  by (cases m) (simp_all add: optionally_def)

subsection \<open>Which exceptions a decoder raises\<close>

definition only_raises :: "(cxx_error \<Rightarrow> bool) \<Rightarrow> 'a result \<Rightarrow> bool" where
  "only_raises P m \<longleftrightarrow> (case m of Inl e \<Rightarrow> P e | Inr x \<Rightarrow> True)"

definition decode_error :: "cxx_error \<Rightarrow> bool" where
  "decode_error e \<longleftrightarrow> conversion_error e \<or> (\<exists>k. e = key_not_found k)"

lemma only_raisesD: "only_raises P m \<Longrightarrow> m = Inl e \<Longrightarrow> P e"
  by (simp add: only_raises_def)

lemma only_raisesI: "(\<And>e. m = Inl e \<Longrightarrow> P e) \<Longrightarrow> only_raises P m"
  by (cases m) (simp_all add: only_raises_def)

lemma only_raises_Inr: "only_raises P (Inr x)"
  by (simp add: only_raises_def)

lemma only_raises_bindE:
  "only_raises P m \<Longrightarrow> (\<And>x. only_raises P (f x)) \<Longrightarrow> only_raises P (bindE m f)"
  by (cases m) (simp_all add: only_raises_def)

lemma only_raises_traverse:
  "(\<And>x. only_raises P (f x)) \<Longrightarrow> only_raises P (traverse f xs)"
  by (induction xs) (auto intro: only_raises_bindE only_raises_Inr)

lemma only_raises_catch:
  "only_raises P m \<Longrightarrow> only_raises P (catch_out_of_range m)"
  by (auto simp: only_raises_def catch_out_of_range_def split: sum.splits)

lemma only_raises_json_at: "only_raises decode_error (json_at t k)"
  by (rule only_raisesI) (auto dest: json_at_InlD simp: decode_error_def conversion_error_def)

lemma only_raises_get:
  "only_raises decode_error (get_string j)" "only_raises decode_error (get_int64 j)"
  "only_raises decode_error (get_int32 j)" "only_raises decode_error (get_bool j)"
  "only_raises decode_error (get_float j)"
  by (rule only_raisesI, simp add: decode_error_def get_Inl)+

lemma only_raises_readers:
  "only_raises decode_error (at_string t k)" "only_raises decode_error (at_int64 t k)"
  "only_raises decode_error (at_bool t k)" "only_raises decode_error (at_float t k)"
  "only_raises decode_error (make_optional_string t k)"
  "only_raises decode_error (make_optional_int32 t k)"
  "only_raises decode_error (make_optional_bool t k)"
  "only_raises decode_error (make_optional_int64 t k)"
  by (auto simp: at_string_def at_int64_def at_bool_def at_float_def make_optional_string_def
      make_optional_int32_def make_optional_bool_def make_optional_int64_def
      intro!: only_raises_bindE only_raises_json_at only_raises_get only_raises_catch only_raises_Inr)

lemma only_raises_nested:
  assumes "\<And>c. only_raises decode_error (f c)"
  shows "only_raises decode_error (bindE (json_at t k) f)"
    and "only_raises decode_error (make_optional_from_json f t k)"
    and "only_raises decode_error (make_shared_from_json f t k)"
    and "only_raises decode_error (make_optional_vector_from_json f t k)"
  using assms
  by (auto simp: make_optional_from_json_def make_shared_from_json_def
      make_optional_vector_from_json_def
      intro!: only_raises_bindE only_raises_json_at only_raises_catch only_raises_traverse
        only_raises_Inr)

text \<open>For a recursive decoder it is enough to know the members it is called on.\<close>

lemma only_raises_at_member:
  assumes "\<And>c. json_get t k = Some c \<Longrightarrow> only_raises decode_error (f c)"
  shows "only_raises decode_error (bindE (json_at t k) f)"
  using assms only_raises_json_at [of t k] by (cases "json_at t k") (auto simp: only_raises_def)

lemma only_raises_optional_member:
  assumes "\<And>c. json_get t k = Some c \<Longrightarrow> only_raises decode_error (f c)"
  shows "only_raises decode_error (make_optional_from_json f t k)"
    and "only_raises decode_error (make_shared_from_json f t k)"
  unfolding make_optional_from_json_def make_shared_from_json_def
  by (intro only_raises_catch only_raises_at_member only_raises_bindE [OF assms] only_raises_Inr,
      assumption)+

lemmas raises_members = only_raises_at_member only_raises_optional_member

lemmas raises_intros = only_raises_bindE only_raises_Inr only_raises_readers only_raises_nested
  only_raises_json_at only_raises_traverse

lemma decode_error_class: "decode_error e \<Longrightarrow> is_out_of_range e \<or> conversion_error e"
  by (auto simp: decode_error_def)

subsection \<open>The contract of a decoder\<close>

text \<open>
  What the helpers and the listeners rely on: \<open>dec\<close> refuses a value that is not an object with error
  304, raises nothing but JSON errors, and looks at no member but those named in \<open>keys\<close>.
\<close>

locale json_decoder =
  fixes dec :: "json \<Rightarrow> 'a result"
    and keys :: "string list"
  assumes dec_not_object:
      "\<not> is_object j \<Longrightarrow> dec j = Inl (Type_error 304 (''cannot use at() with '' @ json_type_name j))"
    and dec_raises: "only_raises decode_error (dec j)"
    and dec_frame:
      "is_object j \<Longrightarrow> is_object j' \<Longrightarrow> \<forall>k \<in> set keys. json_get j k = json_get j' k \<Longrightarrow> dec j = dec j'"
begin

lemma optional_missing:
  "is_object t \<Longrightarrow> json_get t k = None \<Longrightarrow> make_optional_from_json dec t k = Inr None"
  by (simp add: readers_object)

lemma optional_never_out_of_range:
  "make_optional_from_json dec t k = Inl e \<Longrightarrow> conversion_error e"
proof -
  assume *: "make_optional_from_json dec t k = Inl e"
  then have "decode_error e"
    by (rule only_raisesD [OF only_raises_nested(2) [OF dec_raises]])
  moreover from * have "\<not> is_out_of_range e"
    by (simp add: make_optional_from_json_def catch_eq_Inl_iff)
  ultimately show ?thesis by (auto dest: decode_error_class)
qed

lemma optional_incomplete:
  assumes "json_get t k = Some c" and "dec c = Inl (key_not_found k')"
  shows "make_optional_from_json dec t k = Inr None"
  using assms by (simp add: make_optional_from_json_def)

lemma vector_length:
  assumes "make_optional_vector_from_json dec t k = Inr (Some xs)"
  shows "\<exists>js. json_get t k = Some (JArray js) \<and> xs \<noteq> [] \<and> length xs = length js
    \<and> (\<forall>i < length xs. dec (js ! i) = Inr (xs ! i))"
proof -
  from assms have obj: "is_object t"
    by (cases "is_object t") (auto simp: make_optional_vector_from_json_def json_at_not_object)
  with assms obtain v where v: "json_get t k = Some v"
    "vector_of dec (Some v) = Inr (Some xs)"
    by (auto simp: readers_object vector_of_def split: option.splits)
  then obtain js where js: "v = JArray js" "js \<noteq> []"
    by (cases v) (auto simp: vector_of_def split: if_splits)
  with v have tr: "traverse dec js = Inr xs"
    by (auto simp: vector_of_def catch_out_of_range_def bindE_def split: sum.splits if_splits)
  then have "length xs = length js" by (rule traverse_length)
  with js v tr show ?thesis by (auto dest: traverse_nth)
qed

end

text \<open>
  The wire format of a type: \<open>enc\<close> writes a value as the object Telegram sends for it, and \<open>dec\<close> reads
  back every value that satisfies \<open>wf\<close>. With the frame law this determines \<open>dec\<close> on every object that
  carries those members, whatever else it carries.
\<close>

locale wire_type = json_decoder dec keys
  for dec :: "json \<Rightarrow> 'a result" and keys :: "string list" +
  fixes enc :: "'a \<Rightarrow> json"
    and wf :: "'a \<Rightarrow> bool"
  assumes enc_object: "is_object (enc x)"
    and dec_enc: "wf x \<Longrightarrow> dec (enc x) = Inr x"
begin

lemma dec_fields:
  assumes "wf x" and "is_object j" and "\<forall>k \<in> set keys. json_get j k = json_get (enc x) k"
  shows "dec j = Inr x"
  using dec_frame [OF assms(2) enc_object assms(3)] dec_enc [OF assms(1)] by simp

lemma optional_roundtrip: "wf_opt wf m \<Longrightarrow> optionally dec (map_option enc m) = Inr m"
  by (rule optionally_map) (simp add: dec_enc)

lemma traverse_roundtrip: "list_all wf xs \<Longrightarrow> traverse dec (map enc xs) = Inr xs"
  by (rule traverse_map_Inr) (simp add: dec_enc list_all_iff)

lemma vector_roundtrip:
  "wf_opt (\<lambda>xs. xs \<noteq> [] \<and> list_all wf xs) m \<Longrightarrow>
     vector_of dec (map_option (\<lambda>xs. JArray (map enc xs)) m) = Inr m"
  by (cases m) (auto simp: vector_of_def traverse_roundtrip)

lemma enc_inj: "wf x \<Longrightarrow> wf y \<Longrightarrow> enc x = enc y \<Longrightarrow> x = y"
  by (metis dec_enc sum.inject(2))

end

subsection \<open>Objects written member by member\<close>

text \<open>The object with the given members, those with no value left out.\<close>

fun put_members :: "(string \<times> json option) list \<Rightarrow> (string \<times> json) list" where
  "put_members [] = []"
| "put_members ((k, None) # kvs) = put_members kvs"
| "put_members ((k, Some v) # kvs) = obj_put k v (put_members kvs)"

definition mk_object :: "(string \<times> json option) list \<Rightarrow> json" where
  "mk_object kvs = JObject (put_members kvs)"

lemma is_object_mk_object [simp]: "is_object (mk_object kvs)"
  by (simp add: mk_object_def)

definition or_else :: "'a option \<Rightarrow> 'a option \<Rightarrow> 'a option" where
  "or_else m r = (case m of Some x \<Rightarrow> Some x | None \<Rightarrow> r)"

lemma or_else_simps [simp]:
  "or_else (Some x) r = Some x" "or_else None r = r" "or_else m None = m"
  by (simp_all add: or_else_def split: option.split)

lemma json_get_mk_object_Nil [simp]: "json_get (mk_object []) k = None"
  by (simp add: mk_object_def)

lemma json_get_mk_object_Cons [simp]:
  "json_get (mk_object ((k', v) # kvs)) k =
     (if k = k' then or_else v (json_get (mk_object kvs) k) else json_get (mk_object kvs) k)"
  by (cases v) (simp_all add: mk_object_def)

lemma put_members_sorted: "obj_sorted (put_members kvs)"
  by (induction kvs rule: put_members.induct) (simp_all add: obj_put_sorted)

end
