(* ===== verification/Trees.thy ===== *)
theory Trees
  imports Decode
begin

section \<open>Building a tree statement by statement\<close>

text \<open>
  The sender and the reply markups fill a JSON tree with a sequence of statements
  \<open>tree[key] = value\<close>, some of them under an \<open>if\<close>. A statement is a function on the tree; \<open>run_stmts\<close>
  runs a sequence. The relation \<open>writes st f\<close> is its abstraction: on every tree the statement
  succeeds, and \<open>f\<close> is what it does to the members. The proofs about a request are then about the
  composition of the \<open>f\<close>, read off the sequence by the rules below.
\<close>

fun run_stmts :: "(json \<Rightarrow> json result) list \<Rightarrow> json \<Rightarrow> json result" where
  "run_stmts [] j = Inr j"
| "run_stmts (st # sts) j = bindE (st j) (run_stmts sts)"

definition only_if :: "bool \<Rightarrow> (json \<Rightarrow> json result) \<Rightarrow> json \<Rightarrow> json result" where
  "only_if c st j = (if c then st j else Inr j)"

lemma only_if_simps [simp]: "only_if True st = st" "only_if False st = Inr"
  by (simp_all add: fun_eq_iff only_if_def)

text \<open>A statement that runs on the value of an optional, if it has one.\<close>

definition if_some :: "'a option \<Rightarrow> ('a \<Rightarrow> json \<Rightarrow> json result) \<Rightarrow> json \<Rightarrow> json result" where
  "if_some m st j = (case m of None \<Rightarrow> Inr j | Some x \<Rightarrow> st x j)"

definition put_string :: "string \<Rightarrow> string \<Rightarrow> json \<Rightarrow> json result" where
  "put_string k s = json_put k (JString s)"

definition put_bool :: "string \<Rightarrow> bool \<Rightarrow> json \<Rightarrow> json result" where
  "put_bool k b = json_put k (JBool b)"

definition put_int :: "string \<Rightarrow> 64 word \<Rightarrow> json \<Rightarrow> json result" where
  "put_int k i = json_put k (JInt i)"

subsection \<open>What a statement writes\<close>

definition writes ::
    "(json \<Rightarrow> json result) \<Rightarrow> ((string \<rightharpoonup> json) \<Rightarrow> (string \<rightharpoonup> json)) \<Rightarrow> bool" where
  "writes st f \<longleftrightarrow>
     (\<forall>t. is_tree t \<and> wf_json t \<longrightarrow>
        (\<exists>t'. st t = Inr t' \<and> is_tree t' \<and> wf_json t' \<and> json_get t' = f (json_get t)))"

lemma writesE:
  assumes "writes st f" "is_tree t" "wf_json t"
  obtains t' where "st t = Inr t'" "is_tree t'" "wf_json t'" "json_get t' = f (json_get t)"
  using assms unfolding writes_def by blast

lemma writes_skip: "writes Inr (\<lambda>m. m)"
  by (simp add: writes_def)

lemma writes_put: "wf_json v \<Longrightarrow> writes (json_put k v) (\<lambda>m. m(k \<mapsto> v))"
  unfolding writes_def by (metis json_put_tree json_put_wf is_tree_simps(3))

lemma writes_put_scalar:
  "writes (put_string k s) (\<lambda>m. m(k \<mapsto> JString s))"
  "writes (put_bool k b) (\<lambda>m. m(k \<mapsto> JBool b))"
  "writes (put_int k i) (\<lambda>m. m(k \<mapsto> JInt i))"
  by (simp_all add: put_string_def put_bool_def put_int_def writes_put)

lemma writes_only_if: "writes st f \<Longrightarrow> writes (only_if c st) (\<lambda>m. if c then f m else m)"
  by (cases c) (simp_all add: writes_def only_if_def)

lemma writes_if_some:
  "(\<And>x. v = Some x \<Longrightarrow> writes (st x) (f x)) \<Longrightarrow>
     writes (if_some v st) (\<lambda>m. case v of None \<Rightarrow> m | Some x \<Rightarrow> f x m)"
  by (cases v) (simp_all add: writes_def if_some_def)

lemma writes_Nil: "writes (run_stmts []) (\<lambda>m. m)"
  by (simp add: writes_def)

lemma writes_Cons:
  assumes "writes st f" and "writes (run_stmts sts) g"
  shows "writes (run_stmts (st # sts)) (\<lambda>m. g (f m))"
  unfolding writes_def
proof (intro allI impI)
  fix t
  assume "is_tree t \<and> wf_json t"
  then obtain t1 where "st t = Inr t1" "is_tree t1" "wf_json t1" "json_get t1 = f (json_get t)"
    using assms(1) by (auto elim: writesE)
  moreover from this obtain t2 where
    "run_stmts sts t1 = Inr t2" "is_tree t2" "wf_json t2" "json_get t2 = g (json_get t1)"
    using assms(2) by (auto elim: writesE)
  ultimately show "\<exists>t'. run_stmts (st # sts) t = Inr t' \<and> is_tree t' \<and> wf_json t'
      \<and> json_get t' = g (f (json_get t))"
    by simp
qed

lemmas writes_intros = writes_Nil writes_Cons writes_put_scalar writes_only_if writes_if_some
  writes_skip

text \<open>The whole sequence, run on a fresh tree.\<close>

lemma writes_fresh:
  assumes "writes (run_stmts sts) f" and "f Map.empty k = Some v"
  obtains t where "run_stmts sts JNull = Inr t" "is_object t" "wf_json t" "json_get t = f Map.empty"
proof -
  have "is_tree JNull" "wf_json JNull" "json_get JNull = Map.empty"
    by (simp_all add: fun_eq_iff)
  with assms(1) obtain t where t: "run_stmts sts JNull = Inr t" "is_tree t" "wf_json t"
    "json_get t = f Map.empty"
    by (metis writesE)
  with assms(2) have "is_object t" by (metis json_get_object)
  with t that show thesis by blast
qed

text \<open>A fresh tree built by a sequence equals the object written member by member.\<close>

lemma writes_mk_object:
  assumes "writes (run_stmts sts) f" and "f Map.empty = json_get (mk_object kvs)"
    and "wf_json (mk_object kvs)" and "json_get (mk_object kvs) k = Some v"
  shows "run_stmts sts JNull = Inr (mk_object kvs)"
proof -
  from assms(2,4) have "f Map.empty k = Some v" by simp
  with assms(1) obtain t where t: "run_stmts sts JNull = Inr t" "is_object t" "wf_json t"
    "json_get t = f Map.empty"
    by (rule writes_fresh)
  with assms(2,3) have "t = mk_object kvs" by (simp add: wf_json_eqI)
  with t show ?thesis by simp
qed

subsection \<open>The inserting access\<close>

text \<open>On a tree, a statement on \<open>tree[key]\<close> reads the member (null when absent) and stores the result.\<close>

lemma json_upd_put:
  "is_tree t \<Longrightarrow> json_upd k f t =
     bindE (f (case json_get t k of Some v \<Rightarrow> v | None \<Rightarrow> JNull)) (\<lambda>v. json_put k v t)"
  by (auto simp: is_tree_def is_object_iff json_upd_def json_put_def)

lemma json_upd_absent: "json_get t k = None \<Longrightarrow> f JNull = Inr v \<Longrightarrow> json_upd k f t = json_put k v t"
  by (cases t) (simp_all add: json_upd_def json_put_def)

lemma wf_json_member: "wf_json t \<Longrightarrow> json_get t k = Some v \<Longrightarrow> wf_json v"
  by (cases t) (auto simp: json_get_def dest!: map_of_SomeD)

lemma writes_touch:
  "writes (json_upd k Inr) (\<lambda>m. m(k \<mapsto> (case m k of None \<Rightarrow> JNull | Some v \<Rightarrow> v)))"
  unfolding writes_def
proof (intro allI impI)
  fix t
  assume t: "is_tree t \<and> wf_json t"
  define v where "v = (case json_get t k of None \<Rightarrow> JNull | Some v \<Rightarrow> v)"
  from t have "wf_json v" by (auto simp: v_def wf_json_member split: option.split)
  with t obtain t' where "json_put k v t = Inr t'" "is_tree t'" "wf_json t'"
    "json_get t' = (json_get t)(k \<mapsto> v)"
    by (metis writesE [OF writes_put])
  with t show "\<exists>t'. json_upd k Inr t = Inr t' \<and> is_tree t' \<and> wf_json t' \<and>
      json_get t' = (json_get t)(k \<mapsto> (case json_get t k of None \<Rightarrow> JNull | Some v \<Rightarrow> v))"
    by (simp add: json_upd_put v_def)
qed

text \<open>Two statements on the same member are one.\<close>

lemma json_upd_fuse: "bindE (json_upd k f t) (json_upd k g) = json_upd k (\<lambda>j. bindE (f j) g) t"
proof (cases t)
  case JNull
  then show ?thesis by (cases "f JNull") (simp_all add: json_upd_def)
next
  case (JObject m)
  then show ?thesis
    by (cases "f (case map_of m k of Some v \<Rightarrow> v | None \<Rightarrow> JNull)") (simp_all add: json_upd_def)
qed (simp_all add: json_upd_def)

lemma json_upd_fuse_stmts:
  "bindE (json_upd k f t) (run_stmts (map (\<lambda>(c, g). only_if c (json_upd k g)) cgs)) =
     json_upd k (\<lambda>j. bindE (f j) (run_stmts (map (\<lambda>(c, g). only_if c g) cgs))) t"
proof (induction cgs arbitrary: f)
  case Nil
  have "run_stmts [] = Inr" by (simp add: fun_eq_iff)
  then show ?case by simp
next
  case (Cons cg cgs)
  obtain c g where cg: "cg = (c, g)" by (cases cg)
  let ?rest = "run_stmts (map (\<lambda>(c, g). only_if c (json_upd k g)) cgs)"
  have "bindE (json_upd k f t) (\<lambda>t1. bindE (only_if c (json_upd k g) t1) ?rest) =
      bindE (json_upd k (\<lambda>j. bindE (f j) (only_if c g)) t) ?rest"
    by (cases c) (simp_all add: bindE_assoc [symmetric] json_upd_fuse)
  with Cons.IH [of "\<lambda>j. bindE (f j) (only_if c g)"] show ?case
    by (simp add: cg bindE_assoc)
qed

subsection \<open>Objects written member by member\<close>

lemma wf_json_mk_object: "(\<forall>kv \<in> set kvs. pred_option wf_json (snd kv)) \<Longrightarrow> wf_json (mk_object kvs)"
  unfolding mk_object_def
  by (induction kvs rule: put_members.induct) (auto simp del: wf_json.simps(2) intro: wf_json_obj_put simp: wf_json_empty)

subsection \<open>Sequences that write each member once\<close>

text \<open>
  Most requests write every member at most once. \<open>sets st k v\<close>: on a tree without the member \<open>k\<close> the
  statement writes \<open>v\<close> there, if it is a value, and nothing else. \<open>fills sts kvs\<close>: the sequence writes
  the members \<open>kvs\<close>, in that order, on a tree that has none of them.
\<close>

definition given :: "bool \<Rightarrow> json \<Rightarrow> json option" where
  "given c v = (if c then Some v else None)"

definition member_upd :: "string \<Rightarrow> json option \<Rightarrow> (string \<rightharpoonup> json) \<Rightarrow> (string \<rightharpoonup> json)" where
  "member_upd k v m = (case v of None \<Rightarrow> m | Some x \<Rightarrow> m(k \<mapsto> x))"

definition sets :: "(json \<Rightarrow> json result) \<Rightarrow> string \<Rightarrow> json option \<Rightarrow> bool" where
  "sets st k v \<longleftrightarrow> pred_option wf_json v \<and>
     (\<forall>t. is_tree t \<and> wf_json t \<and> json_get t k = None \<longrightarrow>
        (\<exists>t'. st t = Inr t' \<and> is_tree t' \<and> wf_json t' \<and> json_get t' = member_upd k v (json_get t)))"

definition fills :: "(json \<Rightarrow> json result) list \<Rightarrow> (string \<times> json option) list \<Rightarrow> bool" where
  "fills sts kvs \<longleftrightarrow> (\<forall>kv \<in> set kvs. pred_option wf_json (snd kv)) \<and>
     (\<forall>t. is_tree t \<and> wf_json t \<and> (\<forall>k \<in> fst ` set kvs. json_get t k = None) \<longrightarrow>
        (\<exists>t'. run_stmts sts t = Inr t' \<and> is_tree t' \<and> wf_json t' \<and>
           json_get t' = (\<lambda>k. or_else (json_get (mk_object kvs) k) (json_get t k))))"

lemma given_simps [simp]: "given True v = Some v" "given False v = None"
  "pred_option P (given c v) \<longleftrightarrow> (c \<longrightarrow> P v)" "given c v = None \<longleftrightarrow> \<not> c"
  by (simp_all add: given_def)

lemma setsE:
  assumes "sets st k v" "is_tree t" "wf_json t" "json_get t k = None"
  obtains t' where "st t = Inr t'" "is_tree t'" "wf_json t'" "json_get t' = member_upd k v (json_get t)"
  using assms unfolding sets_def by blast

lemma fillsE:
  assumes "fills sts kvs" "is_tree t" "wf_json t" "\<forall>k \<in> fst ` set kvs. json_get t k = None"
  obtains t' where "run_stmts sts t = Inr t'" "is_tree t'" "wf_json t'"
    "json_get t' = (\<lambda>k. or_else (json_get (mk_object kvs) k) (json_get t k))"
  using assms unfolding fills_def by blast

lemma sets_writes: "writes st (\<lambda>m. m(k \<mapsto> v)) \<Longrightarrow> wf_json v \<Longrightarrow> sets st k (Some v)"
  by (simp add: sets_def writes_def member_upd_def)

lemma sets_skip: "sets Inr k None"
  by (simp add: sets_def member_upd_def)

lemma sets_put: "wf_json v \<Longrightarrow> sets (json_put k v) k (Some v)"
  by (simp add: sets_writes writes_put)

lemma sets_scalars:
  "sets (put_string k s) k (Some (JString s))" "sets (put_bool k b) k (Some (JBool b))"
  "sets (put_int k i) k (Some (JInt i))"
  by (simp_all add: sets_writes writes_put_scalar)

lemma sets_only_if: "sets st k (Some v) \<Longrightarrow> sets (only_if c st) k (given c v)"
  by (cases c) (simp_all add: sets_skip)

lemma sets_if_some: "(\<And>x. sets (st x) k (Some (f x))) \<Longrightarrow> sets (if_some m st) k (map_option f m)"
proof (cases m)
  case None
  have "if_some None st = Inr" by (simp add: fun_eq_iff if_some_def)
  with None show ?thesis by (simp add: sets_skip)
next
  case (Some x)
  have "if_some (Some x) st = st x" by (simp add: fun_eq_iff if_some_def)
  with Some show "(\<And>x. sets (st x) k (Some (f x))) \<Longrightarrow> sets (if_some m st) k (map_option f m)"
    by simp
qed

lemma fills_Nil: "fills [] []"
  by (simp add: fills_def)

lemma fills_Cons:
  assumes "sets st k v" and "fills sts kvs" and "k \<notin> fst ` set kvs"
  shows "fills (st # sts) ((k, v) # kvs)"
  unfolding fills_def
proof (intro conjI allI impI)
  show "\<forall>kv \<in> set ((k, v) # kvs). pred_option wf_json (snd kv)"
    using assms(1,2) by (simp add: sets_def fills_def)
next
  fix t
  assume t: "is_tree t \<and> wf_json t \<and> (\<forall>k' \<in> fst ` set ((k, v) # kvs). json_get t k' = None)"
  then obtain t1 where t1: "st t = Inr t1" "is_tree t1" "wf_json t1"
    "json_get t1 = member_upd k v (json_get t)"
    using setsE [OF assms(1), of t] by auto
  have "\<forall>k' \<in> fst ` set kvs. json_get t1 k' = None"
    using t t1(4) assms(3) by (auto simp: member_upd_def split: option.split)
  with t1 obtain t2 where t2: "run_stmts sts t1 = Inr t2" "is_tree t2" "wf_json t2"
    "json_get t2 = (\<lambda>k'. or_else (json_get (mk_object kvs) k') (json_get t1 k'))"
    using fillsE [OF assms(2) t1(2,3)] by blast
  have absent: "json_get (mk_object kvs) k = None"
    using assms(3) by (induction kvs rule: put_members.induct) (auto simp: mk_object_def)
  have "json_get t2 = (\<lambda>k'. or_else (json_get (mk_object ((k, v) # kvs)) k') (json_get t k'))"
  proof
    fix k'
    show "json_get t2 k' = or_else (json_get (mk_object ((k, v) # kvs)) k') (json_get t k')"
      using t2(4) t1(4) absent t by (cases "k' = k"; cases v) (auto simp: member_upd_def)
  qed
  with t1 t2 show "\<exists>t'. run_stmts (st # sts) t = Inr t' \<and> is_tree t' \<and> wf_json t' \<and>
      json_get t' = (\<lambda>k'. or_else (json_get (mk_object ((k, v) # kvs)) k') (json_get t k'))"
    by auto
qed

lemmas fills_intros = fills_Nil fills_Cons sets_scalars sets_only_if sets_if_some sets_skip

text \<open>A sequence that writes some member builds the object of its members on a fresh tree.\<close>

lemma fills_object:
  assumes "fills sts ((k, Some v) # kvs)"
  shows "run_stmts sts JNull = Inr (mk_object ((k, Some v) # kvs))"
proof -
  let ?kvs = "(k, Some v) # kvs"
  from assms obtain t where t: "run_stmts sts JNull = Inr t" "is_tree t" "wf_json t"
    "json_get t = (\<lambda>k'. or_else (json_get (mk_object ?kvs) k') (json_get JNull k'))"
    using fillsE [of sts ?kvs JNull] by (metis is_tree_simps(1) json_get_simps(2) wf_json.simps(3))
  then have get: "json_get t = json_get (mk_object ?kvs)"
    by (simp only: json_get_simps or_else_simps)
  then have "json_get t k = Some v" by simp
  then have "is_object t" by (rule json_get_object)
  moreover have "wf_json (mk_object ?kvs)"
    using assms by (intro wf_json_mk_object) (simp add: fills_def)
  ultimately have "t = mk_object ?kvs" using t(3) get by (intro wf_json_eqI) simp_all
  with t(1) show ?thesis by simp
qed

end
