(* ===== verification/Url.thy ===== *)
theory Url
  imports Prelude
begin

section \<open>URLs\<close>

text \<open>
  The URL class of the bundled urdl (\<open>urdl/url.hpp\<close>, \<open>urdl/impl/url.ipp\<close>), which every request and
  every file download goes through: parsing into components, printing, the percent-decoded path, the
  port and the comparison operators. A C string is a list of characters cut at the first NUL;
  reading the terminator is \<open>peek []\<close>. The \<open>ctype\<close> functions are those of the C locale.
\<close>

subsection \<open>Characters and C strings\<close>

definition isdigit :: "char \<Rightarrow> bool" where
  "isdigit c \<longleftrightarrow> CHR ''0'' \<le> c \<and> c \<le> CHR ''9''"

definition isupper :: "char \<Rightarrow> bool" where
  "isupper c \<longleftrightarrow> CHR ''A'' \<le> c \<and> c \<le> CHR ''Z''"

definition isalnum :: "char \<Rightarrow> bool" where
  "isalnum c \<longleftrightarrow> isdigit c \<or> isupper c \<or> (CHR ''a'' \<le> c \<and> c \<le> CHR ''z'')"

definition tolower :: "char \<Rightarrow> char" where
  "tolower c = (if isupper c then char_of (of_char c + (32::nat)) else c)"

definition c_str :: "string \<Rightarrow> string" where
  "c_str s = takeWhile (\<lambda>c. c \<noteq> CHR 0x00) s"

definition peek :: "string \<Rightarrow> char" where
  "peek s = (case s of [] \<Rightarrow> CHR 0x00 | c # _ \<Rightarrow> c)"

definition strcspn :: "string \<Rightarrow> string \<Rightarrow> nat" where
  "strcspn s reject = length (takeWhile (\<lambda>c. c \<notin> set reject) s)"

lemma peek_simps [simp]: "peek [] = CHR 0x00" "peek (c # s) = c"
  by (simp_all add: peek_def)

lemma strcspn_Nil [simp]: "strcspn [] r = 0"
  by (simp add: strcspn_def)

lemma strcspn_Cons [simp]: "strcspn (c # s) r = (if c \<in> set r then 0 else Suc (strcspn s r))"
  by (simp add: strcspn_def)

definition free_of :: "string \<Rightarrow> string \<Rightarrow> bool" where
  "free_of reject s \<longleftrightarrow> list_all (\<lambda>c. c \<notin> set reject) s"

lemma free_of_simps [simp]:
  "free_of r []" "free_of r (c # s) \<longleftrightarrow> c \<notin> set r \<and> free_of r s"
  "free_of r (s @ t) \<longleftrightarrow> free_of r s \<and> free_of r t"
  by (simp_all add: free_of_def)

lemma free_of_iff: "free_of r s \<longleftrightarrow> set s \<inter> set r = {}"
  by (auto simp: free_of_def list_all_iff)

lemma strcspn_append: "free_of r s \<Longrightarrow> strcspn (s @ t) r = length s + strcspn t r"
  by (induction s) simp_all

lemma strcspn_stop: "peek t \<in> set r \<Longrightarrow> t \<noteq> [] \<Longrightarrow> strcspn t r = 0"
  by (cases t) simp_all

lemma strcspn_free: "free_of r (take (strcspn s r) s)"
  by (induction s) auto

lemma peek_strcspn: "drop (strcspn s r) s = [] \<or> peek (drop (strcspn s r) s) \<in> set r"
  by (induction s) auto

lemma c_str_id: "CHR 0x00 \<notin> set s \<Longrightarrow> c_str s = s"
  by (simp add: c_str_def takeWhile_eq_all_conv) (metis)

lemma c_str_free: "CHR 0x00 \<notin> set (c_str s)"
  by (auto simp: c_str_def dest: set_takeWhileD)

subsection \<open>The class and its operations\<close>

record url =
  protocol :: string
  user_info :: string
  host :: string
  port_string :: string
  path_string :: string
  query :: string
  fragment :: string
  ipv6_host :: bool

definition url_empty :: url where
  "url_empty = \<lparr>protocol = [], user_info = [], host = [], port_string = [], path_string = [],
     query = [], fragment = [], ipv6_host = False\<rparr>"

definition hex_digit :: "char \<Rightarrow> nat option" where
  "hex_digit c =
     (if isdigit c then Some (of_char c - of_char (CHR ''0''))
      else if CHR ''a'' \<le> c \<and> c \<le> CHR ''f'' then Some (of_char c - of_char (CHR ''a'') + 10)
      else if CHR ''A'' \<le> c \<and> c \<le> CHR ''F'' then Some (of_char c - of_char (CHR ''A'') + 10)
      else None)"

definition path_mark :: "char \<Rightarrow> bool" where
  "path_mark c \<longleftrightarrow> c \<in> set (''-_.!~*'' @ [CHR 0x27] @ ''():@&=+$,/;'')"

text \<open>The output argument keeps what was appended before a failure.\<close>

fun unescape_loop :: "string \<Rightarrow> string \<Rightarrow> bool \<times> string" where
  "unescape_loop out [] = (True, out)"
| "unescape_loop out (c # s) =
     (if c = CHR 0x25 then
        (case s of
           a # b # rest \<Rightarrow>
             (case hex_digit a of
                None \<Rightarrow> (False, out)
              | Some x \<Rightarrow>
                  (case hex_digit b of
                     None \<Rightarrow> (False, out)
                   | Some y \<Rightarrow> unescape_loop (out @ [char_of (x * 16 + y)]) rest))
         | _ \<Rightarrow> (False, out))
      else if path_mark c \<or> isalnum c then unescape_loop (out @ [c]) s
      else (False, out))"

definition unescape_path :: "string \<Rightarrow> bool \<times> string" where
  "unescape_path s = unescape_loop [] s"

definition invalid_argument :: cxx_error where
  "invalid_argument = System_error ''Invalid argument''"

text \<open>The stages of \<open>from_string\<close>, each from the URL so far and the rest of the input.\<close>

definition parse_protocol :: "string \<Rightarrow> (url \<times> string) result" where
  "parse_protocol s =
     (let n = strcspn s '':''; r = drop n s
      in if peek r \<noteq> CHR '':'' then Inl invalid_argument
         else if peek (drop 1 r) \<noteq> CHR ''/'' then Inl invalid_argument
         else if peek (drop 2 r) \<noteq> CHR ''/'' then Inl invalid_argument
         else Inr (url_empty\<lparr>protocol := map tolower (take n s)\<rparr>, drop 3 r))"

definition parse_user_info :: "url \<times> string \<Rightarrow> (url \<times> string) result" where
  "parse_user_info = (\<lambda>(u, s).
     let n = strcspn s ''@:[/?#''
     in if peek (drop n s) = CHR ''@'' then Inr (u\<lparr>user_info := take n s\<rparr>, drop (n + 1) s)
        else if peek (drop n s) = CHR '':'' then
          (let m = strcspn (drop n s) ''@/?#''
           in if peek (drop (n + m) s) = CHR ''@''
              then Inr (u\<lparr>user_info := take (n + m) s\<rparr>, drop (n + m + 1) s)
              else Inr (u, s))
        else Inr (u, s))"

definition parse_host :: "url \<times> string \<Rightarrow> (url \<times> string) result" where
  "parse_host = (\<lambda>(u, s).
     if peek s = CHR ''['' then
       (let s1 = drop 1 s; n = strcspn s1 '']''; s2 = drop (n + 1) s1
        in if peek (drop n s1) \<noteq> CHR '']'' then Inl invalid_argument
           else if strcspn s2 '':/?#'' \<noteq> 0 then Inl invalid_argument
           else Inr (u\<lparr>host := take n s1, ipv6_host := True\<rparr>, s2))
     else (let n = strcspn s '':/?#'' in Inr (u\<lparr>host := take n s\<rparr>, drop n s)))"

definition parse_port :: "url \<times> string \<Rightarrow> (url \<times> string) result" where
  "parse_port = (\<lambda>(u, s).
     if peek s = CHR '':'' then
       (let s1 = drop 1 s; n = strcspn s1 ''/?#''
        in if n = 0 then Inl invalid_argument
           else if \<not> list_all isdigit (take n s1) then Inl invalid_argument
           else Inr (u\<lparr>port_string := take n s1\<rparr>, drop n s1))
     else Inr (u, s))"

definition parse_path :: "url \<times> string \<Rightarrow> (url \<times> string) result" where
  "parse_path = (\<lambda>(u, s).
     if peek s = CHR ''/'' then
       (let n = strcspn s ''?#''
        in if \<not> fst (unescape_path (take n s)) then Inl invalid_argument
           else Inr (u\<lparr>path_string := take n s\<rparr>, drop n s))
     else Inr (u\<lparr>path_string := ''/''\<rparr>, s))"

definition parse_query :: "url \<times> string \<Rightarrow> (url \<times> string) result" where
  "parse_query = (\<lambda>(u, s).
     if peek s = CHR ''?'' then
       (let s1 = drop 1 s; n = strcspn s1 ''#'' in Inr (u\<lparr>query := take n s1\<rparr>, drop n s1))
     else Inr (u, s))"

definition parse_fragment :: "url \<times> string \<Rightarrow> url result" where
  "parse_fragment = (\<lambda>(u, s).
     Inr (if peek s = CHR ''#'' then u\<lparr>fragment := drop 1 s\<rparr> else u))"

definition url_from_cstring :: "string \<Rightarrow> url result" where
  "url_from_cstring s =
     bindE (parse_protocol s) (\<lambda>p.
     bindE (parse_user_info p) (\<lambda>p.
     bindE (parse_host p) (\<lambda>p.
     bindE (parse_port p) (\<lambda>p.
     bindE (parse_path p) (\<lambda>p.
     bindE (parse_query p) parse_fragment)))))"

definition url_from_string :: "string \<Rightarrow> url result" where
  "url_from_string s = url_from_cstring (c_str s)"

text \<open>\<open>port()\<close>: \<open>std::atoi\<close> of the digits, undefined when they do not fit an \<open>int\<close>, cut to
  \<open>unsigned short\<close>.\<close>

definition atoi :: "string \<Rightarrow> nat" where
  "atoi s = foldl (\<lambda>n c. n * 10 + (of_char c - of_char (CHR ''0''))) 0 (takeWhile isdigit s)"

definition url_port :: "url \<Rightarrow> 16 word result" where
  "url_port u =
     (if port_string u \<noteq> [] then
        (if atoi (port_string u) < 2 ^ 31 then Inr (of_nat (atoi (port_string u)))
         else Inl (Undefined ''std::atoi: value out of range''))
      else if protocol u = ''http'' then Inr 80
      else if protocol u = ''https'' then Inr 443
      else if protocol u = ''ftp'' then Inr 21
      else Inr 0)"

definition url_path :: "url \<Rightarrow> string" where
  "url_path u = snd (unescape_path (path_string u))"

text \<open>\<open>to_string\<close> with the component mask; \<open>url_to_string\<close> is the default, all components.\<close>

definition url_to_string_mask :: "32 word \<Rightarrow> url \<Rightarrow> string" where
  "url_to_string_mask m u =
     (if bit m 0 \<and> protocol u \<noteq> [] then protocol u @ ''://'' else []) @
     (if bit m 1 \<and> user_info u \<noteq> [] then user_info u @ ''@'' else []) @
     (if bit m 2 then
        (if ipv6_host u then ''['' else []) @ host u @ (if ipv6_host u then '']'' else [])
      else []) @
     (if bit m 3 \<and> port_string u \<noteq> [] then '':'' @ port_string u else []) @
     (if bit m 4 \<and> path_string u \<noteq> [] then path_string u else []) @
     (if bit m 5 \<and> query u \<noteq> [] then ''?'' @ query u else []) @
     (if bit m 6 \<and> fragment u \<noteq> [] then ''#'' @ fragment u else [])"

definition url_to_string :: "url \<Rightarrow> string" where
  "url_to_string = url_to_string_mask 127"

definition url_eq :: "url \<Rightarrow> url \<Rightarrow> bool" where
  "url_eq a b \<longleftrightarrow> protocol a = protocol b \<and> user_info a = user_info b \<and> host a = host b
     \<and> port_string a = port_string b \<and> path_string a = path_string b \<and> query a = query b
     \<and> fragment a = fragment b"

definition url_less :: "url \<Rightarrow> url \<Rightarrow> bool" where
  "url_less a b =
     (if protocol a < protocol b then True
      else if protocol b < protocol a then False
      else if user_info a < user_info b then True
      else if user_info b < user_info a then False
      else if host a < host b then True
      else if host b < host a then False
      else if port_string a < port_string b then True
      else if port_string b < port_string a then False
      else if path_string a < path_string b then True
      else if path_string b < path_string a then False
      else if query a < query b then True
      else if query b < query a then False
      else fragment a < fragment b)"

subsection \<open>The escaped path\<close>

definition path_char :: "char \<Rightarrow> bool" where
  "path_char c \<longleftrightarrow> c \<noteq> CHR 0x25 \<and> (path_mark c \<or> isalnum c)"

lemma unescape_loop_plain: "list_all path_char s \<Longrightarrow> unescape_loop out s = (True, out @ s)"
  by (induction s arbitrary: out) (simp_all add: path_char_def)

lemma unescape_plain: "list_all path_char s \<Longrightarrow> unescape_path s = (True, s)"
  by (simp add: unescape_path_def unescape_loop_plain)

text \<open>The decoder inverts percent-encoding: the encoding of the specification writes every character
  outside the allowed set as two hexadecimal digits.\<close>

definition hex_char :: "nat \<Rightarrow> char" where
  "hex_char n = (if n < 10 then char_of (48 + n) else char_of (55 + n))"

fun percent_encode :: "string \<Rightarrow> string" where
  "percent_encode [] = []"
| "percent_encode (c # s) =
     (if path_char c then c # percent_encode s
      else CHR 0x25 # hex_char (of_char c div 16) # hex_char (of_char c mod 16) # percent_encode s)"

lemma hex_digit_char: "n < 16 \<Longrightarrow> hex_digit (hex_char n) = Some n"
proof -
  assume "n < 16"
  then have "n \<in> {..<16}" by simp
  moreover have "{..<16::nat} = set [0..<16]" by auto
  ultimately have "n \<in> set [0..<16]" by simp
  then show ?thesis
    by (simp add: upt_rec) (elim disjE; hypsubst; code_simp)
qed

lemma unescape_loop_encode: "unescape_loop out (percent_encode s) = (True, out @ s)"
proof (induction s arbitrary: out)
  case (Cons c s)
  have "(of_char c :: nat) < 256" by simp
  then have "(of_char c :: nat) div 16 < 16" by (intro less_mult_imp_div_less) simp
  then have "hex_digit (hex_char (of_char c div 16)) = Some (of_char c div 16)"
    by (rule hex_digit_char)
  moreover have "hex_digit (hex_char (of_char c mod 16)) = Some (of_char c mod 16)"
    by (rule hex_digit_char) simp
  moreover have "char_of ((of_char c :: nat) div 16 * 16 + of_char c mod 16) = c" by simp
  ultimately show ?case using Cons by (simp add: path_char_def)
qed simp

subsection \<open>Printing and parsing back\<close>

text \<open>The URLs that \<open>to_string\<close> prints unambiguously.\<close>

definition user_info_ok :: "string \<Rightarrow> bool" where
  "user_info_ok s \<longleftrightarrow> free_of ''@/?#'' s \<and> free_of ''['' (takeWhile (\<lambda>c. c \<noteq> CHR '':'') s)"

definition host_ok :: "bool \<Rightarrow> string \<Rightarrow> bool" where
  "host_ok ipv6 h \<longleftrightarrow>
     (if ipv6 then free_of '']'' h else free_of ''@:/?#'' h \<and> peek h \<noteq> CHR ''['')"

definition wf_url :: "url \<Rightarrow> bool" where
  "wf_url u \<longleftrightarrow>
     protocol u \<noteq> [] \<and> free_of '':'' (protocol u) \<and> map tolower (protocol u) = protocol u
     \<and> user_info_ok (user_info u) \<and> host_ok (ipv6_host u) (host u)
     \<and> list_all isdigit (port_string u)
     \<and> peek (path_string u) = CHR ''/'' \<and> free_of ''?#'' (path_string u)
     \<and> fst (unescape_path (path_string u))
     \<and> free_of ''#'' (query u)"

definition url_has_nul :: "url \<Rightarrow> bool" where
  "url_has_nul u \<longleftrightarrow> CHR 0x00 \<in> set (protocol u @ user_info u @ host u @ port_string u @
     path_string u @ query u @ fragment u)"

definition tail_fragment :: "url \<Rightarrow> string" where
  "tail_fragment u = (if fragment u = [] then [] else CHR ''#'' # fragment u)"

definition tail_query :: "url \<Rightarrow> string" where
  "tail_query u = (if query u = [] then [] else CHR ''?'' # query u) @ tail_fragment u"

definition tail_path :: "url \<Rightarrow> string" where
  "tail_path u = path_string u @ tail_query u"

definition tail_port :: "url \<Rightarrow> string" where
  "tail_port u = (if port_string u = [] then [] else CHR '':'' # port_string u) @ tail_path u"

definition tail_host :: "url \<Rightarrow> string" where
  "tail_host u = (if ipv6_host u then CHR ''['' # host u @ [CHR '']''] else host u) @ tail_port u"

definition tail_user :: "url \<Rightarrow> string" where
  "tail_user u = (if user_info u = [] then [] else user_info u @ ''@'') @ tail_host u"

lemma url_to_string_tails: "protocol u \<noteq> [] \<Longrightarrow> peek (path_string u) = CHR ''/'' \<Longrightarrow>
    url_to_string u = protocol u @ ''://'' @ tail_user u"
  by (auto simp: url_to_string_def url_to_string_mask_def tail_user_def tail_host_def tail_port_def
      tail_path_def tail_query_def tail_fragment_def bit_numeral_rec)

lemma tail_query_peek: "tail_query u = [] \<or> peek (tail_query u) \<in> set ''?#''"
  by (simp add: tail_query_def tail_fragment_def)

lemma tail_path_peek: "wf_url u \<Longrightarrow> tail_path u \<noteq> [] \<and> peek (tail_path u) = CHR ''/''"
  by (cases "path_string u") (auto simp: tail_path_def wf_url_def)

lemma tail_port_peek: "wf_url u \<Longrightarrow> tail_port u \<noteq> [] \<and> peek (tail_port u) \<in> set '':/''"
  using tail_path_peek [of u] by (auto simp: tail_port_def)

lemma isdigit_not_mark: "isdigit c \<Longrightarrow> c \<notin> set ''@/?#:[]''"
  by (auto simp: isdigit_def)

lemma digits_free: "list_all isdigit s \<Longrightarrow> free_of ''@/?#'' s \<and> free_of ''/?#'' s"
  by (induction s) (auto dest: isdigit_not_mark)

lemma strcspn_whole: "free_of r s \<Longrightarrow> t = [] \<or> peek t \<in> set r \<Longrightarrow> strcspn (s @ t) r = length s"
  using strcspn_append [of r s t] by (cases t) simp_all

lemma parse_fragment_tail:
  "parse_fragment (v\<lparr>fragment := []\<rparr>, tail_fragment u) = Inr (v\<lparr>fragment := fragment u\<rparr>)"
  by (simp add: parse_fragment_def tail_fragment_def)

lemma parse_query_tail:
  assumes "free_of ''#'' (query u)"
  shows "parse_query (v\<lparr>query := []\<rparr>, tail_query u) = Inr (v\<lparr>query := query u\<rparr>, tail_fragment u)"
proof -
  have "strcspn (query u @ tail_fragment u) ''#'' = length (query u)"
    using assms by (intro strcspn_whole) (auto simp: tail_fragment_def)
  then show ?thesis
    by (auto simp: parse_query_def tail_query_def tail_fragment_def)
qed

lemma parse_path_tail:
  assumes "wf_url u"
  shows "parse_path (v, tail_path u) = Inr (v\<lparr>path_string := path_string u\<rparr>, tail_query u)"
proof -
  have "strcspn (tail_path u) ''?#'' = length (path_string u)"
    unfolding tail_path_def using assms tail_query_peek [of u]
    by (intro strcspn_whole) (auto simp: wf_url_def)
  then show ?thesis
    using assms tail_path_peek [of u] by (simp add: parse_path_def tail_path_def wf_url_def)
qed

lemma parse_port_tail:
  assumes "wf_url u"
  shows "parse_port (v\<lparr>port_string := []\<rparr>, tail_port u) =
    Inr (v\<lparr>port_string := port_string u\<rparr>, tail_path u)"
proof (cases "port_string u")
  case Nil
  then show ?thesis using tail_path_peek [OF assms] by (simp add: parse_port_def tail_port_def)
next
  case (Cons c s)
  have "strcspn (port_string u @ tail_path u) ''/?#'' = length (port_string u)"
    using assms tail_path_peek [OF assms] digits_free [of "port_string u"]
    by (intro strcspn_whole) (auto simp: wf_url_def)
  then show ?thesis
    using assms Cons by (simp add: parse_port_def tail_port_def wf_url_def Let_def)
qed

lemma parse_host_tail:
  assumes "wf_url u"
  shows "parse_host (v\<lparr>host := [], ipv6_host := False\<rparr>, tail_host u) =
    Inr (v\<lparr>host := host u, ipv6_host := ipv6_host u\<rparr>, tail_port u)"
proof (cases "ipv6_host u")
  case True
  have "strcspn (host u @ [CHR '']''] @ tail_port u) '']'' = length (host u)"
    using assms True by (intro strcspn_whole) (auto simp: wf_url_def host_ok_def)
  moreover have "strcspn (tail_port u) '':/?#'' = 0"
    using tail_port_peek [OF assms] by (intro strcspn_stop) auto
  ultimately show ?thesis
    using True by (simp add: parse_host_def tail_host_def Let_def)
next
  case False
  have "strcspn (host u @ tail_port u) '':/?#'' = length (host u)"
    using assms False tail_port_peek [OF assms]
    by (intro strcspn_whole) (auto simp: wf_url_def host_ok_def free_of_iff)
  moreover have "peek (host u @ tail_port u) \<noteq> CHR ''[''"
    using assms False tail_port_peek [OF assms]
    by (cases "host u") (auto simp: wf_url_def host_ok_def)
  ultimately show ?thesis
    using False by (simp add: parse_host_def tail_host_def Let_def)
qed

text \<open>The user information: everything before an \<open>@\<close> that is not behind a slash.\<close>

lemma parse_user_info_at:
  assumes "user_info_ok ui"
  shows "parse_user_info (v, ui @ CHR ''@'' # r) = Inr (v\<lparr>user_info := ui\<rparr>, r)"
proof (cases "CHR '':'' \<in> set ui")
  case False
  then have "takeWhile (\<lambda>c. c \<noteq> CHR '':'') ui = ui" by (auto simp: takeWhile_eq_all_conv)
  with assms False have "free_of ''@:[/?#'' ui" by (auto simp: user_info_ok_def free_of_iff)
  then have "strcspn (ui @ CHR ''@'' # r) ''@:[/?#'' = length ui" by (intro strcspn_whole) auto
  then show ?thesis by (simp add: parse_user_info_def)
next
  case True
  then obtain a b where ui: "ui = a @ CHR '':'' # b" "CHR '':'' \<notin> set a"
    by (metis split_list_first)
  then have "takeWhile (\<lambda>c. c \<noteq> CHR '':'') ui = a"
    by (auto simp: takeWhile_append)
  with assms ui have a: "free_of ''@:[/?#'' a" and b: "free_of ''@/?#'' (CHR '':'' # b)"
    by (auto simp: user_info_ok_def free_of_iff)
  from a have "strcspn (a @ CHR '':'' # b @ CHR ''@'' # r) ''@:[/?#'' = length a"
    by (intro strcspn_whole) auto
  moreover from b have "strcspn ((CHR '':'' # b) @ CHR ''@'' # r) ''@/?#'' = length (CHR '':'' # b)"
    by (intro strcspn_whole) auto
  ultimately show ?thesis by (simp add: parse_user_info_def ui Let_def)
qed

lemma parse_user_info_none:
  assumes "wf_url u"
  shows "parse_user_info (v, tail_host u) = Inr (v, tail_host u)"
proof (cases "ipv6_host u")
  case True
  then show ?thesis by (simp add: parse_user_info_def tail_host_def)
next
  case False
  let ?s = "tail_host u" and ?n = "strcspn (tail_host u) ''@:[/?#''"
  from False assms have h: "free_of ''@:/?#'' (host u)" and s: "?s = host u @ tail_port u"
    by (auto simp: wf_url_def host_ok_def tail_host_def)
  have path: "free_of ''@/?#'' (if port_string u = [] then [] else CHR '':'' # port_string u)"
    using assms digits_free [of "port_string u"] by (auto simp: wf_url_def)
  have tail: "strcspn (tail_port u) ''@/?#'' =
      length (if port_string u = [] then [] else CHR '':'' # port_string u)"
    unfolding tail_port_def using path tail_path_peek [OF assms] by (intro strcspn_whole) auto
  then have after: "peek (drop (strcspn (tail_port u) ''@/?#'') (tail_port u)) = CHR ''/''"
    using tail_path_peek [OF assms] by (simp add: tail_port_def)
  show ?thesis
  proof (cases "CHR ''['' \<in> set (host u)")
    case True
    then obtain a b where ab: "host u = a @ CHR ''['' # b" "CHR ''['' \<notin> set a"
      by (metis split_list_first)
    with h have "strcspn (a @ CHR ''['' # b @ tail_port u) ''@:[/?#'' = length a"
      by (intro strcspn_whole) (auto simp: free_of_iff)
    then show ?thesis by (simp add: parse_user_info_def s ab)
  next
    case False
    with h have "strcspn (host u @ tail_port u) ''@:[/?#'' = length (host u)"
      using tail_port_peek [OF assms] by (intro strcspn_whole) (auto simp: free_of_iff)
    moreover have "peek (tail_port u) \<noteq> CHR ''@''" using tail_port_peek [OF assms] by auto
    ultimately show ?thesis using after
      by (simp add: parse_user_info_def s Let_def drop_drop [symmetric] add.commute
          del: drop_drop)
  qed
qed

lemma parse_user_info_tail:
  assumes "wf_url u"
  shows "parse_user_info (v\<lparr>user_info := []\<rparr>, tail_user u) =
    Inr (v\<lparr>user_info := user_info u\<rparr>, tail_host u)"
proof (cases "user_info u")
  case Nil
  then show ?thesis using parse_user_info_none [OF assms] by (simp add: tail_user_def)
next
  case (Cons c s)
  with assms parse_user_info_at [of "user_info u" "v\<lparr>user_info := []\<rparr>" "tail_host u"] show ?thesis
    by (simp add: tail_user_def wf_url_def)
qed

lemma parse_protocol_tail:
  assumes "free_of '':'' p" and "map tolower p = p"
  shows "parse_protocol (p @ ''://'' @ r) = Inr (url_empty\<lparr>protocol := p\<rparr>, r)"
proof -
  have "strcspn (p @ ''://'' @ r) '':'' = length p" using assms by (intro strcspn_whole) auto
  then show ?thesis using assms by (simp add: parse_protocol_def Let_def)
qed

lemma url_parse_print:
  assumes "wf_url u"
  shows "url_from_cstring (url_to_string u) = Inr u"
proof -
  have p: "parse_protocol (url_to_string u) =
      Inr (url_empty\<lparr>protocol := protocol u\<rparr>, tail_user u)"
    using assms by (simp add: url_to_string_tails wf_url_def parse_protocol_tail [simplified])
  note stages = parse_user_info_tail [OF assms, of "url_empty\<lparr>protocol := protocol u\<rparr>"]
    parse_host_tail [OF assms, of "url_empty\<lparr>protocol := protocol u, user_info := user_info u\<rparr>"]
    parse_port_tail [OF assms, of "url_empty\<lparr>protocol := protocol u, user_info := user_info u,
      host := host u, ipv6_host := ipv6_host u\<rparr>"]
    parse_path_tail [OF assms]
    parse_query_tail [of u "url_empty\<lparr>protocol := protocol u, user_info := user_info u,
      host := host u, ipv6_host := ipv6_host u, port_string := port_string u,
      path_string := path_string u\<rparr>"]
    parse_fragment_tail [of "url_empty\<lparr>protocol := protocol u, user_info := user_info u,
      host := host u, ipv6_host := ipv6_host u, port_string := port_string u,
      path_string := path_string u, query := query u\<rparr>"]
  from assms have "free_of ''#'' (query u)" by (simp add: wf_url_def)
  with p stages show ?thesis
    by (simp add: url_from_cstring_def url_empty_def)
qed

subsection \<open>What a parsed URL satisfies\<close>

lemma isupper_code: "isupper c \<longleftrightarrow> 65 \<le> (of_char c :: nat) \<and> (of_char c :: nat) \<le> 90"
  by (simp add: isupper_def less_eq_char_def)

lemma tolower_code: "isupper c \<Longrightarrow> (of_char (tolower c) :: nat) = of_char c + 32"
  by (simp add: tolower_def isupper_code)

lemma tolower_idem: "tolower (tolower c) = tolower c"
proof (cases "isupper c")
  case True
  then have "\<not> isupper (tolower c)"
    by (simp only: isupper_code [of "tolower c"] tolower_code isupper_code [of c]) simp
  then show ?thesis by (simp add: tolower_def [of "tolower c"])
qed (simp add: tolower_def)

lemma tolower_eq_low:
  assumes "(of_char d :: nat) < 65"
  shows "tolower c = d \<longleftrightarrow> c = d"
proof (cases "isupper c")
  case True
  then have "(of_char (tolower c) :: nat) > 65" "(of_char c :: nat) \<ge> 65"
    by (simp_all only: tolower_code) (simp_all add: isupper_code)
  with assms show ?thesis by auto
qed (simp add: tolower_def)

lemma tolower_avoids:
  assumes "(of_char d :: nat) < 65" and "d \<notin> set s"
  shows "d \<notin> set (map tolower s)"
proof
  assume "d \<in> set (map tolower s)"
  then obtain c where "c \<in> set s" "tolower c = d" by auto
  with tolower_eq_low [OF assms(1)] assms(2) show False by simp
qed

lemma parse_protocolE:
  assumes "parse_protocol s = Inr (u, r)"
  shows "u = url_empty\<lparr>protocol := map tolower (take (strcspn s '':'') s)\<rparr>"
    and "set r \<subseteq> set s" and "free_of '':'' (take (strcspn s '':'') s)"
proof -
  have "u = url_empty\<lparr>protocol := map tolower (take (strcspn s '':'') s)\<rparr> \<and>
      r = drop (strcspn s '':'' + 3) s"
    using assms unfolding parse_protocol_def Let_def
    by (simp split: if_split_asm add: add.commute)
  then show "u = url_empty\<lparr>protocol := map tolower (take (strcspn s '':'') s)\<rparr>"
    and "set r \<subseteq> set s" and "free_of '':'' (take (strcspn s '':'') s)"
    by (simp_all add: set_drop_subset strcspn_free)
qed

lemma parse_user_infoE:
  assumes "parse_user_info (u, s) = Inr (u', r)" and "user_info u = []"
  shows "\<exists>ui. u' = u\<lparr>user_info := ui\<rparr> \<and> user_info_ok ui \<and> set ui \<subseteq> set s \<and> set r \<subseteq> set s"
proof -
  define n where "n = strcspn s ''@:[/?#''"
  define m where "m = strcspn (drop n s) ''@/?#''"
  have free: "free_of ''@:[/?#'' (take n s)" unfolding n_def by (rule strcspn_free)
  have free_m: "free_of ''@/?#'' (take m (drop n s))" unfolding m_def by (rule strcspn_free)
  have keep: "u\<lparr>user_info := []\<rparr> = u" using assms(2) by simp
  have "(if peek (drop n s) = CHR ''@'' then (u\<lparr>user_info := take n s\<rparr>, drop (n + 1) s)
      else if peek (drop n s) = CHR '':'' \<and> peek (drop (n + m) s) = CHR ''@''
        then (u\<lparr>user_info := take (n + m) s\<rparr>, drop (n + m + 1) s)
      else (u, s)) = (u', r)"
    using assms(1) unfolding parse_user_info_def prod.case Let_def n_def [symmetric] m_def [symmetric]
    by (cases "peek (drop n s) = CHR ''@''"; cases "peek (drop n s) = CHR '':''";
        cases "peek (drop (n + m) s) = CHR ''@''") simp_all
  then consider "u' = u\<lparr>user_info := take n s\<rparr>" "r = drop (n + 1) s"
    | "peek (drop n s) = CHR '':''" "u' = u\<lparr>user_info := take (n + m) s\<rparr>" "r = drop (n + m + 1) s"
    | "u' = u" "r = s"
    by (metis prod.inject)
  then show ?thesis
  proof cases
    case 1
    from free have "user_info_ok (take n s)"
      by (auto simp: user_info_ok_def free_of_iff dest: set_takeWhileD)
    with 1 show ?thesis using set_drop_subset [of _ s] set_take_subset [of _ s] by blast
  next
    case 2
    have "takeWhile (\<lambda>c. c \<noteq> CHR '':'') (take (n + m) s) = take n s"
    proof (cases m)
      case 0
      with 2 free_m show ?thesis
        by (cases "drop n s") (simp_all add: m_def)
    next
      case (Suc k)
      with 2(1) have "take m (drop n s) = CHR '':'' # take k (drop (Suc n) s)"
        by (cases "drop n s") (simp_all add: drop_Suc tl_drop [symmetric])
      with free show ?thesis
        by (auto simp: take_add takeWhile_append free_of_iff)
    qed
    with free free_m have "user_info_ok (take (n + m) s)"
      by (auto simp: user_info_ok_def take_add free_of_iff)
    with 2 show ?thesis using set_drop_subset [of _ s] set_take_subset [of _ s] by blast
  next
    case 3
    with keep show ?thesis by (intro exI [of _ "[]"]) (simp add: user_info_ok_def)
  qed
qed

lemma parse_hostE:
  assumes "parse_host (u, s) = Inr (u', r)" and "\<not> ipv6_host u"
  shows "\<exists>h b. u' = u\<lparr>host := h, ipv6_host := b\<rparr> \<and> (b \<or> CHR ''@'' \<notin> set h \<longrightarrow> host_ok b h)
    \<and> set h \<subseteq> set s \<and> set r \<subseteq> set s"
proof (cases "peek s = CHR ''[''")
  case True
  define n where "n = strcspn (drop 1 s) '']''"
  have "free_of '']'' (take n (drop 1 s))" unfolding n_def by (rule strcspn_free)
  moreover from assms(1) True have "u' = u\<lparr>host := take n (drop 1 s), ipv6_host := True\<rparr>"
    "r = drop (n + 1) (drop 1 s)"
    unfolding parse_host_def prod.case Let_def n_def [symmetric] by (simp_all split: if_split_asm)
  ultimately show ?thesis
    using set_drop_subset [of _ s] set_take_subset [of n "drop 1 s"]
    by (intro exI [of _ "take n (drop 1 s)"] exI [of _ True])
      (simp add: host_ok_def, metis subset_trans)
next
  case False
  define n where "n = strcspn s '':/?#''"
  have "free_of '':/?#'' (take n s)" unfolding n_def by (rule strcspn_free)
  then have "CHR ''@'' \<notin> set (take n s) \<Longrightarrow> free_of ''@:/?#'' (take n s)"
    by (auto simp: free_of_iff)
  moreover have "peek (take n s) \<noteq> CHR ''[''"
    using False by (cases s; cases n) simp_all
  moreover from assms(1) False have "u' = u\<lparr>host := take n s\<rparr>" "r = drop n s"
    unfolding parse_host_def prod.case Let_def n_def [symmetric] by simp_all
  moreover from this assms(2) have "u' = u\<lparr>host := take n s, ipv6_host := False\<rparr>" by simp
  ultimately show ?thesis
    using set_drop_subset [of _ s] set_take_subset [of n s]
    by (intro exI [of _ "take n s"] exI [of _ False]) (simp add: host_ok_def)
qed

lemma parse_portE:
  assumes "parse_port (u, s) = Inr (u', r)" and "port_string u = []"
  shows "\<exists>p. u' = u\<lparr>port_string := p\<rparr> \<and> list_all isdigit p \<and> set p \<subseteq> set s \<and> set r \<subseteq> set s"
proof (cases "peek s = CHR '':''")
  case True
  define n where "n = strcspn (drop 1 s) ''/?#''"
  from assms(1) True have "u' = u\<lparr>port_string := take n (drop 1 s)\<rparr>" "r = drop n (drop 1 s)"
    "list_all isdigit (take n (drop 1 s))"
    unfolding parse_port_def prod.case Let_def n_def [symmetric] by (simp_all split: if_split_asm)
  then show ?thesis
    using set_drop_subset [of _ s] set_take_subset [of n "drop 1 s"]
    by (intro exI [of _ "take n (drop 1 s)"]) (simp, metis subset_trans)
next
  case False
  with assms have "u' = u\<lparr>port_string := []\<rparr>" "r = s" by (simp_all add: parse_port_def)
  then show ?thesis by (intro exI [of _ "[]"]) simp
qed

lemma parse_pathE:
  assumes "parse_path (u, s) = Inr (u', r)"
  shows "\<exists>p. u' = u\<lparr>path_string := p\<rparr> \<and> peek p = CHR ''/'' \<and> free_of ''?#'' p
    \<and> fst (unescape_path p) \<and> set p \<subseteq> insert (CHR ''/'') (set s) \<and> set r \<subseteq> set s"
proof (cases "peek s = CHR ''/''")
  case True
  define n where "n = strcspn s ''?#''"
  have "free_of ''?#'' (take n s)" unfolding n_def by (rule strcspn_free)
  moreover have "peek (take n s) = CHR ''/''" using True by (cases s) (simp_all add: n_def)
  moreover from assms True have "u' = u\<lparr>path_string := take n s\<rparr>" "r = drop n s"
    "fst (unescape_path (take n s))"
    unfolding parse_path_def prod.case Let_def n_def [symmetric] by (simp_all split: if_split_asm)
  ultimately show ?thesis
    using set_drop_subset [of _ s] set_take_subset [of n s]
    by (intro exI [of _ "take n s"]) auto
next
  case False
  with assms have "u' = u\<lparr>path_string := ''/''\<rparr>" "r = s" by (simp_all add: parse_path_def)
  then show ?thesis
    by (intro exI [of _ "''/''"])
      (simp add: unescape_path_def path_mark_def)
qed

lemma parse_queryE:
  assumes "parse_query (u, s) = Inr (u', r)" and "query u = []"
  shows "\<exists>q. u' = u\<lparr>query := q\<rparr> \<and> free_of ''#'' q \<and> set q \<subseteq> set s \<and> set r \<subseteq> set s"
proof (cases "peek s = CHR ''?''")
  case True
  define n where "n = strcspn (drop 1 s) ''#''"
  have "free_of ''#'' (take n (drop 1 s))" unfolding n_def by (rule strcspn_free)
  moreover from assms(1) True have "u' = u\<lparr>query := take n (drop 1 s)\<rparr>" "r = drop n (drop 1 s)"
    unfolding parse_query_def prod.case Let_def n_def [symmetric] by simp_all
  ultimately show ?thesis
    using set_drop_subset [of _ s] set_take_subset [of n "drop 1 s"]
    by (intro exI [of _ "take n (drop 1 s)"]) (simp, metis subset_trans)
next
  case False
  with assms have "u' = u\<lparr>query := []\<rparr>" "r = s" by (simp_all add: parse_query_def)
  then show ?thesis by (intro exI [of _ "[]"]) simp
qed

text \<open>The stages together: the parsed components and the characters they are made of.\<close>

lemma url_parseE:
  assumes "url_from_cstring s = Inr u"
  obtains pr where "protocol u = map tolower pr" "set pr \<subseteq> set s" "free_of '':'' pr"
    "user_info_ok (user_info u)" "set (user_info u) \<subseteq> set s"
    "ipv6_host u \<or> CHR ''@'' \<notin> set (host u) \<longrightarrow> host_ok (ipv6_host u) (host u)" "set (host u) \<subseteq> set s"
    "list_all isdigit (port_string u)" "set (port_string u) \<subseteq> set s"
    "peek (path_string u) = CHR ''/''" "free_of ''?#'' (path_string u)"
    "fst (unescape_path (path_string u))" "set (path_string u) \<subseteq> insert (CHR ''/'') (set s)"
    "free_of ''#'' (query u)" "set (query u) \<subseteq> set s" "set (fragment u) \<subseteq> set s"
proof -
  from assms obtain u1 s1 u2 s2 u3 s3 u4 s4 u5 s5 u6 s6 where
    st: "parse_protocol s = Inr (u1, s1)" "parse_user_info (u1, s1) = Inr (u2, s2)"
    "parse_host (u2, s2) = Inr (u3, s3)" "parse_port (u3, s3) = Inr (u4, s4)"
    "parse_path (u4, s4) = Inr (u5, s5)" "parse_query (u5, s5) = Inr (u6, s6)"
    "parse_fragment (u6, s6) = Inr u"
    by (auto simp: url_from_cstring_def bindE_eq_Inr_iff)
  define pr where "pr = take (strcspn s '':'') s"
  note p1 = parse_protocolE [OF st(1), folded pr_def]
  from p1 have "user_info u1 = []" by (simp add: url_empty_def)
  from parse_user_infoE [OF st(2) this] obtain ui where
    p2: "u2 = u1\<lparr>user_info := ui\<rparr>" "user_info_ok ui" "set ui \<subseteq> set s1" "set s2 \<subseteq> set s1" by blast
  from p1 p2 have "\<not> ipv6_host u2" by (simp add: url_empty_def)
  from parse_hostE [OF st(3) this] obtain h b where
    p3: "u3 = u2\<lparr>host := h, ipv6_host := b\<rparr>" "b \<or> CHR ''@'' \<notin> set h \<longrightarrow> host_ok b h" "set h \<subseteq> set s2"
      "set s3 \<subseteq> set s2" by blast
  from p1 p2 p3 have "port_string u3 = []" by (simp add: url_empty_def)
  from parse_portE [OF st(4) this] obtain po where
    p4: "u4 = u3\<lparr>port_string := po\<rparr>" "list_all isdigit po" "set po \<subseteq> set s3" "set s4 \<subseteq> set s3" by blast
  from parse_pathE [OF st(5)] obtain pa where
    p5: "u5 = u4\<lparr>path_string := pa\<rparr>" "peek pa = CHR ''/''" "free_of ''?#'' pa"
      "fst (unescape_path pa)" "set pa \<subseteq> insert (CHR ''/'') (set s4)" "set s5 \<subseteq> set s4" by blast
  from p1 p2 p3 p4 p5 have "query u5 = []" by (simp add: url_empty_def)
  from parse_queryE [OF st(6) this] obtain q where
    p6: "u6 = u5\<lparr>query := q\<rparr>" "free_of ''#'' q" "set q \<subseteq> set s5" "set s6 \<subseteq> set s5" by blast
  from p1 p2 p3 p4 p5 p6 have none: "fragment u6 = []" by (simp add: url_empty_def)
  from st(7) have u: "u = (if peek s6 = CHR ''#'' then u6\<lparr>fragment := drop 1 s6\<rparr> else u6)"
    by (simp add: parse_fragment_def)
  have subs: "set s1 \<subseteq> set s" "set s2 \<subseteq> set s" "set s3 \<subseteq> set s" "set s4 \<subseteq> set s" "set s5 \<subseteq> set s"
    "set s6 \<subseteq> set s"
    using p1(2) p2(4) p3(4) p4(4) p5(6) p6(4) by (meson subset_trans)+
  have fields: "protocol u = map tolower pr" "user_info u = ui" "host u = h" "ipv6_host u = b"
    "port_string u = po" "path_string u = pa" "query u = q"
    using p1(1) p2(1) p3(1) p4(1) p5(1) p6(1) by (simp_all add: u)
  have frag: "set (fragment u) \<subseteq> set s"
    using none subs(6) set_drop_subset [of 1 s6] by (simp add: u) (meson subset_trans)
  have pr: "set pr \<subseteq> set s" unfolding pr_def by (rule set_take_subset)
  show thesis
  proof (rule that [of pr])
    show "set (user_info u) \<subseteq> set s" "set (host u) \<subseteq> set s" "set (port_string u) \<subseteq> set s"
      "set (query u) \<subseteq> set s" "set (path_string u) \<subseteq> insert (CHR ''/'') (set s)"
      using p2(3) p3(3) p4(3) p5(5) p6(3) subs unfolding fields by (blast intro: subset_trans)+
  qed (use fields p1(3) p2(2) p3(2) p4(2) p5(2,3,4) p6(2) pr frag in simp_all)
qed

lemma url_parse_wf:
  assumes "url_from_cstring s = Inr u" and "protocol u \<noteq> []"
    and "ipv6_host u \<or> CHR ''@'' \<notin> set (host u)"
  shows "wf_url u"
proof -
  from assms(1) obtain pr where pr: "protocol u = map tolower pr" "free_of '':'' pr"
    and rest: "user_info_ok (user_info u)"
    "ipv6_host u \<or> CHR ''@'' \<notin> set (host u) \<longrightarrow> host_ok (ipv6_host u) (host u)"
    "list_all isdigit (port_string u)" "peek (path_string u) = CHR ''/''"
    "free_of ''?#'' (path_string u)" "fst (unescape_path (path_string u))" "free_of ''#'' (query u)"
    by (rule url_parseE)
  have "free_of '':'' (map tolower pr)"
    using pr(2) tolower_avoids [of "CHR '':''" pr] by (simp add: free_of_iff)
  moreover have "map tolower (map tolower pr) = map tolower pr"
    by (simp add: tolower_idem)
  ultimately show ?thesis using pr rest assms by (simp add: wf_url_def)
qed

lemma url_parse_no_nul:
  assumes "url_from_cstring s = Inr u" and "CHR 0x00 \<notin> set s"
  shows "CHR 0x00 \<notin> set (url_to_string u)"
proof -
  from assms(1) obtain pr where pr: "protocol u = map tolower pr" "set pr \<subseteq> set s"
    and rest: "set (user_info u) \<subseteq> set s" "set (host u) \<subseteq> set s" "set (port_string u) \<subseteq> set s"
    "set (path_string u) \<subseteq> insert (CHR ''/'') (set s)" "set (query u) \<subseteq> set s"
    "set (fragment u) \<subseteq> set s"
    by (rule url_parseE)
  from assms(2) have low: "CHR 0x00 \<notin> set (map tolower pr)"
    using pr(2) by (intro tolower_avoids) auto
  have "set (url_to_string u) \<subseteq> set (map tolower pr) \<union> set s \<union> set ''://@[]?#''"
    using pr(1) rest by (auto simp: url_to_string_def url_to_string_mask_def)
  with low assms(2) show ?thesis by auto
qed

subsection \<open>Comparison\<close>

text \<open>The comparison is the lexicographic one on the seven printed components.\<close>

definition url_key :: "url \<Rightarrow> string list" where
  "url_key u = [protocol u, user_info u, host u, port_string u, path_string u, query u, fragment u]"

lemma lex_step:
  "(if x < y then True else if y < x then False else P) \<longleftrightarrow> x < y \<or> x = y \<and> P" for x y :: "'a :: linorder"
  by (cases x y rule: linorder_cases) auto

lemma url_less_key: "url_less a b \<longleftrightarrow> url_key a < url_key b"
  unfolding url_less_def url_key_def lex_step
  by (simp only: Cons_less_Cons simp_thms less_list_code(1))

lemma url_eq_key: "url_eq a b \<longleftrightarrow> url_key a = url_key b"
  by (simp add: url_eq_def url_key_def)

subsection \<open>URLs without user information, port, query and fragment\<close>

definition plain_url :: "string \<Rightarrow> string \<Rightarrow> string \<Rightarrow> url" where
  "plain_url pr h p = \<lparr>protocol = pr, user_info = [], host = h, port_string = [],
     path_string = CHR ''/'' # p, query = [], fragment = [], ipv6_host = False\<rparr>"

lemma reserved_chars [simp]:
  "\<not> path_char (CHR 0x00)" "\<not> path_char (CHR ''?'')" "\<not> path_char (CHR ''#'')"
  "\<not> isalnum (CHR 0x00)" "\<not> isalnum (CHR ''@'')" "\<not> isalnum (CHR '':'')" "\<not> isalnum (CHR ''/'')"
  "\<not> isalnum (CHR ''?'')" "\<not> isalnum (CHR ''#'')" "\<not> isalnum (CHR ''['')"
  by code_simp+

lemma path_char_free: "list_all path_char p \<Longrightarrow> free_of (CHR 0x00 # ''?#'') p"
  by (induction p) auto

lemma url_from_plain:
  assumes "pr = ''https'' \<or> pr = ''http''" and "list_all isalnum (filter (\<lambda>c. c \<noteq> CHR ''.'') h)"
    and "list_all path_char p"
  shows "url_from_string (pr @ ''://'' @ h @ ''/'' @ p) = Inr (plain_url pr h p)"
proof -
  let ?u = "plain_url pr h p"
  from assms(2) have h: "free_of (CHR 0x00 # ''@:/?#['') h"
    by (induction h) (auto split: if_splits)
  then have bracket: "peek h \<noteq> CHR ''[''" by (cases h) auto
  have pr: "free_of (CHR 0x00 # '':'') pr" "map tolower pr = pr" "pr \<noteq> []"
    using assms(1) by (auto simp: tolower_def isupper_def less_eq_char_def)
  have "path_char (CHR ''/'')" by (simp add: path_char_def path_mark_def)
  with assms(3) have path: "unescape_path (CHR ''/'' # p) = (True, CHR ''/'' # p)"
    by (intro unescape_plain) simp
  have wf: "wf_url ?u"
    using pr path path_char_free [OF assms(3)] h bracket
    by (auto simp: wf_url_def plain_url_def user_info_ok_def host_ok_def free_of_iff)
  have print: "url_to_string ?u = pr @ ''://'' @ h @ ''/'' @ p"
    using pr(3) by (simp add: url_to_string_def url_to_string_mask_def bit_numeral_rec plain_url_def)
  have "CHR 0x00 \<notin> set (pr @ ''://'' @ h @ ''/'' @ p)"
    using pr(1) h path_char_free [OF assms(3)] by (auto simp: free_of_iff)
  then show ?thesis
    using url_parse_print [OF wf] unfolding url_from_string_def print by (subst c_str_id)
qed

lemma plain_url_parts:
  "list_all path_char p \<Longrightarrow> url_path (plain_url pr h p) = CHR ''/'' # p"
  "url_port (plain_url ''https'' h p) = Inr 443" "url_port (plain_url ''http'' h p) = Inr 80"
  "host (plain_url pr h p) = h" "query (plain_url pr h p) = []"
  using unescape_plain [of "CHR ''/'' # p"]
  by (simp_all add: url_path_def url_port_def plain_url_def path_char_def path_mark_def)

subsection \<open>Properties\<close>

text \<open>C20: Parsing the printed form of a parsed URL gives the URL back, bracket flag and lower-cased
  protocol included. Two inputs are excluded, because \<open>to_string\<close> leaves out an empty component with
  its separator: an empty protocol, and an empty user information before a host that contains an
  \<open>@\<close>.\<close>

theorem url_reparse:
  assumes "url_from_string s = Inr u" and "protocol u \<noteq> []"
    and "ipv6_host u \<or> CHR ''@'' \<notin> set (host u)"
  shows "url_from_string (url_to_string u) = Inr u"
proof -
  from assms(1) have "url_from_cstring (c_str s) = Inr u" by (simp add: url_from_string_def)
  then have "wf_url u" and "CHR 0x00 \<notin> set (url_to_string u)"
    using assms(2,3) by (simp_all add: url_parse_wf url_parse_no_nul c_str_free)
  then show ?thesis by (simp add: url_from_string_def c_str_id url_parse_print)
qed

theorem url_reparse_witness:
  "\<exists>u. url_from_string ''HTTPS://bot:pw@[::1]:8443/a%20b?x=1#top'' = Inr u \<and>
     url_from_string (url_to_string u) = Inr u"
proof -
  let ?s = "''HTTPS://bot:pw@[::1]:8443/a%20b?x=1#top''"
  let ?u = "\<lparr>protocol = ''https'', user_info = ''bot:pw'', host = ''::1'', port_string = ''8443'',
     path_string = ''/a%20b'', query = ''x=1'', fragment = ''top'', ipv6_host = True\<rparr>"
  have "url_from_string ?s = Inr ?u" by code_simp
  moreover from this have "url_from_string (url_to_string ?u) = Inr ?u"
    by (rule url_reparse) simp_all
  ultimately show ?thesis by blast
qed

text \<open>The path decoder recovers every byte string from its percent-encoded form, and reports
  success on it.\<close>

lemma unescape_inverts_encoding: "unescape_path (percent_encode s) = (True, s)"
  by (simp add: unescape_path_def unescape_loop_encode)

text \<open>\<open>operator<\<close> and \<open>operator==\<close> agree: two URLs are equal exactly when neither is less than
  the other. Neither looks at the bracket flag of the host, so the URL with a bracketed host and the
  one without are equal although they print differently.\<close>

lemma url_order_agrees_with_eq:
  "(url_eq a b = (\<not> url_less a b \<and> \<not> url_less b a)) \<and>
   url_eq (u\<lparr>ipv6_host := True\<rparr>) (u\<lparr>ipv6_host := False\<rparr>) \<and>
   url_to_string (u\<lparr>ipv6_host := True\<rparr>) \<noteq> url_to_string (u\<lparr>ipv6_host := False\<rparr>)"
proof (intro conjI)
  show "url_eq a b = (\<not> url_less a b \<and> \<not> url_less b a)"
    unfolding url_less_key url_eq_key by (metis less_linear less_irrefl)
  show "url_eq (u\<lparr>ipv6_host := True\<rparr>) (u\<lparr>ipv6_host := False\<rparr>)" by (simp add: url_eq_def)
  have "length (url_to_string (u\<lparr>ipv6_host := True\<rparr>)) =
      length (url_to_string (u\<lparr>ipv6_host := False\<rparr>)) + 2"
    by (simp add: url_to_string_def url_to_string_mask_def bit_numeral_rec)
  then show "url_to_string (u\<lparr>ipv6_host := True\<rparr>) \<noteq> url_to_string (u\<lparr>ipv6_host := False\<rparr>)"
    by (metis add_cancel_right_right zero_neq_numeral)
qed

end
