(* ===== verification/Options.thy ===== *)
theory Options
  imports Prelude
begin

section \<open>Option sets\<close>

text \<open>
  \<open>urdl/option_set.hpp\<close> with \<open>urdl/impl/option_set.ipp\<close> and the options of \<open>urdl/http.hpp\<close>: the settings a
  stream and the sender keep. The set is a linked list of wrapped values, at most one per C++ type; the
  \<open>type_info\<close> of a wrapper is its constructor.
\<close>

datatype http_option =
    Request_method string
  | Request_content string
  | Request_content_type string
  | Max_redirects "64 word"
  | User_agent string

datatype option_type = METHOD | CONTENT | CONTENT_TYPE | REDIRECTS | AGENT

fun type_info :: "http_option \<Rightarrow> option_type" where
  "type_info (Request_method _) = METHOD"
| "type_info (Request_content _) = CONTENT"
| "type_info (Request_content_type _) = CONTENT_TYPE"
| "type_info (Max_redirects _) = REDIRECTS"
| "type_info (User_agent _) = AGENT"

text \<open>The default constructors.\<close>

fun default_option :: "option_type \<Rightarrow> http_option" where
  "default_option METHOD = Request_method ''GET''"
| "default_option CONTENT = Request_content []"
| "default_option CONTENT_TYPE = Request_content_type []"
| "default_option REDIRECTS = Max_redirects (- 1)"
| "default_option AGENT = User_agent []"

type_synonym option_set = "http_option list"

fun set_option_wrapper_base :: "http_option \<Rightarrow> option_set \<Rightarrow> option_set" where
  "set_option_wrapper_base n [] = [n]"
| "set_option_wrapper_base n (x # xs) =
     (if type_info n = type_info x then n # xs else x # set_option_wrapper_base n xs)"

fun get_option_wrapper_base :: "option_type \<Rightarrow> option_set \<Rightarrow> http_option option" where
  "get_option_wrapper_base ty [] = None"
| "get_option_wrapper_base ty (x # xs) =
     (if ty = type_info x then Some x else get_option_wrapper_base ty xs)"

fun clear_option_wrapper_base :: "option_type \<Rightarrow> option_set \<Rightarrow> option_set" where
  "clear_option_wrapper_base ty [] = []"
| "clear_option_wrapper_base ty (x # xs) =
     (if ty = type_info x then xs else x # clear_option_wrapper_base ty xs)"

definition option_set_new :: option_set where
  "option_set_new = []"

definition set_option :: "http_option \<Rightarrow> option_set \<Rightarrow> option_set" where
  "set_option n opts = set_option_wrapper_base n opts"

definition clear_option :: "option_type \<Rightarrow> option_set \<Rightarrow> option_set" where
  "clear_option ty opts = clear_option_wrapper_base ty opts"

definition get_option :: "option_type \<Rightarrow> option_set \<Rightarrow> http_option" where
  "get_option ty opts =
     (case get_option_wrapper_base ty opts of Some x \<Rightarrow> x | None \<Rightarrow> default_option ty)"

text \<open>The copy keeps the order; \<open>set_options\<close> sets the options of the other set one after another.\<close>

definition set_options :: "option_set \<Rightarrow> option_set \<Rightarrow> option_set" where
  "set_options other opts = foldl (\<lambda>acc n. set_option n acc) opts other"

text \<open>The values of the typed options.\<close>

definition request_method :: "option_set \<Rightarrow> string" where
  "request_method opts = (case get_option METHOD opts of Request_method v \<Rightarrow> v | _ \<Rightarrow> [])"

definition request_content :: "option_set \<Rightarrow> string" where
  "request_content opts = (case get_option CONTENT opts of Request_content v \<Rightarrow> v | _ \<Rightarrow> [])"

definition request_content_type :: "option_set \<Rightarrow> string" where
  "request_content_type opts =
     (case get_option CONTENT_TYPE opts of Request_content_type v \<Rightarrow> v | _ \<Rightarrow> [])"

definition user_agent :: "option_set \<Rightarrow> string" where
  "user_agent opts = (case get_option AGENT opts of User_agent v \<Rightarrow> v | _ \<Rightarrow> [])"

definition max_redirects :: "option_set \<Rightarrow> 64 word" where
  "max_redirects opts = (case get_option REDIRECTS opts of Max_redirects v \<Rightarrow> v | _ \<Rightarrow> 0)"

subsection \<open>The contract\<close>

text \<open>A store with one value per type: what a client of \<open>option_set\<close> relies on.\<close>

locale typed_store =
  fixes kind :: "'v \<Rightarrow> 'k" and default :: "'k \<Rightarrow> 'v"
    and valid :: "'s \<Rightarrow> bool" and start :: 's
    and get :: "'k \<Rightarrow> 's \<Rightarrow> 'v" and put :: "'v \<Rightarrow> 's \<Rightarrow> 's" and clear :: "'k \<Rightarrow> 's \<Rightarrow> 's"
  assumes valid_start: "valid start"
    and valid_put: "valid s \<Longrightarrow> valid (put v s)"
    and valid_clear: "valid s \<Longrightarrow> valid (clear k s)"
    and get_start: "get k start = default k"
    and get_put: "get k (put v s) = (if k = kind v then v else get k s)"
    and get_clear: "valid s \<Longrightarrow> get k (clear k' s) = (if k = k' then default k else get k s)"
    and kind_get: "kind (get k s) = k"
begin

text \<open>After any number of settings the last one for a type counts.\<close>

lemma get_put_all:
  "get k (foldl (\<lambda>acc v. put v acc) s vs) =
     (case filter (\<lambda>v. kind v = k) vs of [] \<Rightarrow> get k s | v # ws \<Rightarrow> last (v # ws))"
proof (induction vs arbitrary: s)
  case (Cons v vs)
  show ?case
    by (cases "filter (\<lambda>v. kind v = k) vs") (auto simp: Cons get_put)
qed simp

lemma valid_put_all: "valid s \<Longrightarrow> valid (foldl (\<lambda>acc v. put v acc) s vs)"
  by (induction vs arbitrary: s) (auto simp: valid_put)

lemma put_put: "get k (put v (put w s)) = get k (if kind v = kind w then put v s else put w (put v s))"
  by (auto simp: get_put)

end

definition valid_options :: "option_set \<Rightarrow> bool" where
  "valid_options opts \<longleftrightarrow> distinct (map type_info opts)"

lemma set_option_types: "set (map type_info (set_option_wrapper_base n opts)) =
    insert (type_info n) (set (map type_info opts))"
  by (induction opts) auto

lemma get_none: "get_option_wrapper_base ty opts = None \<longleftrightarrow> ty \<notin> set (map type_info opts)"
  by (induction opts) auto

lemma get_base_set: "get_option_wrapper_base ty (set_option_wrapper_base n opts) =
    (if ty = type_info n then Some n else get_option_wrapper_base ty opts)"
  by (induction opts) auto

lemma get_base_clear: "valid_options opts \<Longrightarrow> get_option_wrapper_base ty (clear_option_wrapper_base ty' opts) =
    (if ty = ty' then None else get_option_wrapper_base ty opts)"
  by (induction opts) (auto simp: valid_options_def get_none)

lemma clear_option_types: "set (map type_info (clear_option_wrapper_base ty opts)) \<subseteq> set (map type_info opts)"
  by (induction opts) auto

lemma type_info_get_base: "get_option_wrapper_base ty opts = Some x \<Longrightarrow> type_info x = ty"
  by (induction opts) (auto split: if_splits)

lemma type_info_default [simp]: "type_info (default_option ty) = ty"
  by (cases ty) simp_all

interpretation options: typed_store type_info default_option valid_options option_set_new
  get_option set_option clear_option
proof unfold_locales
  fix s v k k'
  show "valid_options option_set_new" by (simp add: valid_options_def option_set_new_def)
  show "valid_options s \<Longrightarrow> valid_options (set_option v s)"
    by (induction s) (auto simp: valid_options_def set_option_def set_option_types [unfolded set_map])
  show "valid_options s \<Longrightarrow> valid_options (clear_option k s)"
  proof (induction s)
    case (Cons x s)
    then show ?case using clear_option_types [of k s] by (auto simp: valid_options_def clear_option_def)
  qed (simp add: valid_options_def clear_option_def)
  show "get_option k option_set_new = default_option k"
    by (simp add: get_option_def option_set_new_def)
  show "get_option k (set_option v s) = (if k = type_info v then v else get_option k s)"
    by (simp add: get_option_def set_option_def get_base_set)
  show "valid_options s \<Longrightarrow> get_option k (clear_option k' s) =
      (if k = k' then default_option k else get_option k s)"
    by (simp add: get_option_def clear_option_def get_base_clear)
  show "type_info (get_option k s) = k"
    by (auto simp: get_option_def type_info_get_base split: option.split)
qed

text \<open>The typed values after a setting.\<close>

lemma option_values:
  "request_method (set_option n opts) = (case n of Request_method v \<Rightarrow> v | _ \<Rightarrow> request_method opts)"
  "request_content (set_option n opts) = (case n of Request_content v \<Rightarrow> v | _ \<Rightarrow> request_content opts)"
  "request_content_type (set_option n opts) =
     (case n of Request_content_type v \<Rightarrow> v | _ \<Rightarrow> request_content_type opts)"
  "user_agent (set_option n opts) = (case n of User_agent v \<Rightarrow> v | _ \<Rightarrow> user_agent opts)"
  "max_redirects (set_option n opts) = (case n of Max_redirects v \<Rightarrow> v | _ \<Rightarrow> max_redirects opts)"
  by (simp_all add: request_method_def request_content_def request_content_type_def user_agent_def
      max_redirects_def options.get_put split: http_option.split)

lemma option_values_new:
  "request_method option_set_new = ''GET''" "request_content option_set_new = []"
  "request_content_type option_set_new = []" "user_agent option_set_new = []"
  "max_redirects option_set_new = - 1"
  by (simp_all add: request_method_def request_content_def request_content_type_def user_agent_def
      max_redirects_def options.get_start)

end
