(* ===== verification/Types_Files.thy ===== *)
theory Types_Files
  imports Decode
begin

section \<open>Files: photographs, audio, video, stickers\<close>

text \<open>
  The Telegram types that describe files, one group per header of \<open>include/libtelegram/types\<close>: the
  struct as a record, \<open>from_json\<close> reading the members in the order the braced initialiser evaluates
  them, \<open>from_json\<close> with a path, and then the wire format of the type with its interpretation of
  \<open>wire_type\<close>: what the decoder reads back, what it refuses and which members it looks at.
\<close>

subsection \<open>photosize\<close>

record photosize =
  photosize_file_id :: string
  photosize_width :: "64 word"
  photosize_height :: "64 word"
  photosize_file_size :: "64 word option"

definition photosize_from_json :: "json \<Rightarrow> photosize result" where
  "photosize_from_json tree =
     bindE (at_string tree ''file_id'') (\<lambda>file_id.
     bindE (at_int64 tree ''width'') (\<lambda>width.
     bindE (at_int64 tree ''height'') (\<lambda>height.
     bindE (make_optional_int32 tree ''file_size'') (\<lambda>file_size.
     Inr \<lparr>photosize_file_id = file_id, photosize_width = width,
       photosize_height = height, photosize_file_size = widen file_size\<rparr>))))"

definition photosize_from_json_path :: "json \<Rightarrow> string \<Rightarrow> photosize result" where
  [decode_defs]: "photosize_from_json_path tree path = bindE (json_at tree path) photosize_from_json"

definition photosize_keys :: "string list" where
  "photosize_keys = [''file_id'', ''width'', ''height'', ''file_size'']"

definition photosize_to_wire :: "photosize \<Rightarrow> json" where
  "photosize_to_wire x = mk_object
     [(''file_id'', Some (JString (photosize_file_id x))),
      (''width'', Some (JNumber (photosize_width x))),
      (''height'', Some (JNumber (photosize_height x))),
      (''file_size'', map_option JNumber (photosize_file_size x))]"

definition wf_photosize :: "photosize \<Rightarrow> bool" where
  "wf_photosize x \<longleftrightarrow> wf_opt fits32 (photosize_file_size x)"

interpretation photosize_wire: wire_type photosize_from_json photosize_keys photosize_to_wire wf_photosize
proof unfold_locales
  fix j j' :: json and x :: photosize
  show "\<not> is_object j \<Longrightarrow> photosize_from_json j =
      Inl (Type_error 304 (''cannot use at() with '' @ json_type_name j))"
    by (simp add: photosize_from_json_def decode_defs readers_not_object)
  show "only_raises decode_error (photosize_from_json j)"
    by (auto simp: photosize_from_json_def decode_defs intro!: raises_intros)
  show "is_object j \<Longrightarrow> is_object j' \<Longrightarrow>
      \<forall>k \<in> set photosize_keys. json_get j k = json_get j' k \<Longrightarrow>
      photosize_from_json j = photosize_from_json j'"
    by (simp add: photosize_from_json_def photosize_keys_def decode_defs readers_object json_at_required
        json_at_required')
  show "is_object (photosize_to_wire x)"
    by (simp add: photosize_to_wire_def)
  show "wf_photosize x \<Longrightarrow> photosize_from_json (photosize_to_wire x) = Inr x"
    by (simp add: photosize_from_json_def photosize_to_wire_def wf_photosize_def decode_defs readers_object
        json_at_required json_at_required')
qed

subsection \<open>chat_photo\<close>

record chat_photo =
  chat_photo_small_file_id :: string
  chat_photo_big_file_id :: string

definition chat_photo_from_json :: "json \<Rightarrow> chat_photo result" where
  "chat_photo_from_json tree =
     bindE (at_string tree ''small_file_id'') (\<lambda>small_file_id.
     bindE (at_string tree ''big_file_id'') (\<lambda>big_file_id.
     Inr \<lparr>chat_photo_small_file_id = small_file_id, chat_photo_big_file_id = big_file_id\<rparr>))"

definition chat_photo_from_json_path :: "json \<Rightarrow> string \<Rightarrow> chat_photo result" where
  [decode_defs]: "chat_photo_from_json_path tree path = bindE (json_at tree path) chat_photo_from_json"

definition chat_photo_keys :: "string list" where
  "chat_photo_keys = [''small_file_id'', ''big_file_id'']"

definition chat_photo_to_wire :: "chat_photo \<Rightarrow> json" where
  "chat_photo_to_wire x = mk_object
     [(''small_file_id'', Some (JString (chat_photo_small_file_id x))),
      (''big_file_id'', Some (JString (chat_photo_big_file_id x)))]"

definition wf_chat_photo :: "chat_photo \<Rightarrow> bool" where
  "wf_chat_photo x \<longleftrightarrow> True"

interpretation chat_photo_wire: wire_type chat_photo_from_json chat_photo_keys chat_photo_to_wire wf_chat_photo
proof unfold_locales
  fix j j' :: json and x :: chat_photo
  show "\<not> is_object j \<Longrightarrow> chat_photo_from_json j =
      Inl (Type_error 304 (''cannot use at() with '' @ json_type_name j))"
    by (simp add: chat_photo_from_json_def decode_defs readers_not_object)
  show "only_raises decode_error (chat_photo_from_json j)"
    by (auto simp: chat_photo_from_json_def decode_defs intro!: raises_intros)
  show "is_object j \<Longrightarrow> is_object j' \<Longrightarrow>
      \<forall>k \<in> set chat_photo_keys. json_get j k = json_get j' k \<Longrightarrow>
      chat_photo_from_json j = chat_photo_from_json j'"
    by (simp add: chat_photo_from_json_def chat_photo_keys_def decode_defs readers_object json_at_required
        json_at_required')
  show "is_object (chat_photo_to_wire x)"
    by (simp add: chat_photo_to_wire_def)
  show "wf_chat_photo x \<Longrightarrow> chat_photo_from_json (chat_photo_to_wire x) = Inr x"
    by (simp add: chat_photo_from_json_def chat_photo_to_wire_def wf_chat_photo_def decode_defs readers_object
        json_at_required json_at_required')
qed

subsection \<open>audio\<close>

record audio =
  audio_file_id :: string
  audio_duration :: "64 word"
  audio_performer :: "string option"
  audio_title :: "string option"
  audio_mime_type :: "string option"
  audio_file_size :: "64 word option"

definition audio_from_json :: "json \<Rightarrow> audio result" where
  "audio_from_json tree =
     bindE (at_string tree ''file_id'') (\<lambda>file_id.
     bindE (at_int64 tree ''duration'') (\<lambda>duration.
     bindE (make_optional_string tree ''performer'') (\<lambda>performer.
     bindE (make_optional_string tree ''title'') (\<lambda>title.
     bindE (make_optional_string tree ''mime_type'') (\<lambda>mime_type.
     bindE (make_optional_int32 tree ''file_size'') (\<lambda>file_size.
     Inr \<lparr>audio_file_id = file_id, audio_duration = duration,
       audio_performer = performer, audio_title = title, audio_mime_type = mime_type,
       audio_file_size = widen file_size\<rparr>))))))"

definition audio_from_json_path :: "json \<Rightarrow> string \<Rightarrow> audio result" where
  [decode_defs]: "audio_from_json_path tree path = bindE (json_at tree path) audio_from_json"

definition audio_keys :: "string list" where
  "audio_keys = [''file_id'', ''duration'', ''performer'', ''title'', ''mime_type'',
     ''file_size'']"

definition audio_to_wire :: "audio \<Rightarrow> json" where
  "audio_to_wire x = mk_object
     [(''file_id'', Some (JString (audio_file_id x))),
      (''duration'', Some (JNumber (audio_duration x))),
      (''performer'', map_option JString (audio_performer x)),
      (''title'', map_option JString (audio_title x)),
      (''mime_type'', map_option JString (audio_mime_type x)),
      (''file_size'', map_option JNumber (audio_file_size x))]"

definition wf_audio :: "audio \<Rightarrow> bool" where
  "wf_audio x \<longleftrightarrow> wf_opt fits32 (audio_file_size x)"

interpretation audio_wire: wire_type audio_from_json audio_keys audio_to_wire wf_audio
proof unfold_locales
  fix j j' :: json and x :: audio
  show "\<not> is_object j \<Longrightarrow> audio_from_json j =
      Inl (Type_error 304 (''cannot use at() with '' @ json_type_name j))"
    by (simp add: audio_from_json_def decode_defs readers_not_object)
  show "only_raises decode_error (audio_from_json j)"
    by (auto simp: audio_from_json_def decode_defs intro!: raises_intros)
  show "is_object j \<Longrightarrow> is_object j' \<Longrightarrow>
      \<forall>k \<in> set audio_keys. json_get j k = json_get j' k \<Longrightarrow>
      audio_from_json j = audio_from_json j'"
    by (simp add: audio_from_json_def audio_keys_def decode_defs readers_object json_at_required
        json_at_required')
  show "is_object (audio_to_wire x)"
    by (simp add: audio_to_wire_def)
  show "wf_audio x \<Longrightarrow> audio_from_json (audio_to_wire x) = Inr x"
    by (simp add: audio_from_json_def audio_to_wire_def wf_audio_def decode_defs readers_object
        json_at_required json_at_required')
qed

subsection \<open>document\<close>

record document =
  document_file_id :: string
  document_thumb :: "photosize option"
  document_file_name :: "string option"
  document_mime_type :: "string option"
  document_file_size :: "64 word option"

definition document_from_json :: "json \<Rightarrow> document result" where
  "document_from_json tree =
     bindE (at_string tree ''file_id'') (\<lambda>file_id.
     bindE (make_optional_from_json photosize_from_json tree ''thumb'') (\<lambda>thumb.
     bindE (make_optional_string tree ''file_name'') (\<lambda>file_name.
     bindE (make_optional_string tree ''mime_type'') (\<lambda>mime_type.
     bindE (make_optional_int32 tree ''file_size'') (\<lambda>file_size.
     Inr \<lparr>document_file_id = file_id, document_thumb = thumb,
       document_file_name = file_name, document_mime_type = mime_type,
       document_file_size = widen file_size\<rparr>)))))"

definition document_from_json_path :: "json \<Rightarrow> string \<Rightarrow> document result" where
  [decode_defs]: "document_from_json_path tree path = bindE (json_at tree path) document_from_json"

definition document_keys :: "string list" where
  "document_keys = [''file_id'', ''thumb'', ''file_name'', ''mime_type'', ''file_size'']"

definition document_to_wire :: "document \<Rightarrow> json" where
  "document_to_wire x = mk_object
     [(''file_id'', Some (JString (document_file_id x))),
      (''thumb'', map_option photosize_to_wire (document_thumb x)),
      (''file_name'', map_option JString (document_file_name x)),
      (''mime_type'', map_option JString (document_mime_type x)),
      (''file_size'', map_option JNumber (document_file_size x))]"

definition wf_document :: "document \<Rightarrow> bool" where
  "wf_document x \<longleftrightarrow> wf_opt wf_photosize (document_thumb x)
     \<and> wf_opt fits32 (document_file_size x)"

interpretation document_wire: wire_type document_from_json document_keys document_to_wire wf_document
proof unfold_locales
  fix j j' :: json and x :: document
  show "\<not> is_object j \<Longrightarrow> document_from_json j =
      Inl (Type_error 304 (''cannot use at() with '' @ json_type_name j))"
    by (simp add: document_from_json_def decode_defs readers_not_object)
  show "only_raises decode_error (document_from_json j)"
    by (auto simp: document_from_json_def decode_defs intro!: raises_intros photosize_wire.dec_raises)
  show "is_object j \<Longrightarrow> is_object j' \<Longrightarrow>
      \<forall>k \<in> set document_keys. json_get j k = json_get j' k \<Longrightarrow>
      document_from_json j = document_from_json j'"
    by (simp add: document_from_json_def document_keys_def decode_defs readers_object json_at_required
        json_at_required')
  show "is_object (document_to_wire x)"
    by (simp add: document_to_wire_def)
  show "wf_document x \<Longrightarrow> document_from_json (document_to_wire x) = Inr x"
    by (simp add: document_from_json_def document_to_wire_def wf_document_def decode_defs readers_object
        json_at_required json_at_required' photosize_wire.optional_roundtrip photosize_wire.dec_enc)
qed

subsection \<open>video\<close>

record video =
  video_file_id :: string
  video_width :: "64 word"
  video_height :: "64 word"
  video_duration :: "64 word"
  video_thumb :: "photosize option"
  video_mime_type :: "string option"
  video_file_size :: "64 word option"

definition video_from_json :: "json \<Rightarrow> video result" where
  "video_from_json tree =
     bindE (at_string tree ''file_id'') (\<lambda>file_id.
     bindE (at_int64 tree ''width'') (\<lambda>width.
     bindE (at_int64 tree ''height'') (\<lambda>height.
     bindE (at_int64 tree ''duration'') (\<lambda>duration.
     bindE (make_optional_from_json photosize_from_json tree ''thumb'') (\<lambda>thumb.
     bindE (make_optional_string tree ''mime_type'') (\<lambda>mime_type.
     bindE (make_optional_int32 tree ''file_size'') (\<lambda>file_size.
     Inr \<lparr>video_file_id = file_id, video_width = width, video_height = height,
       video_duration = duration, video_thumb = thumb, video_mime_type = mime_type,
       video_file_size = widen file_size\<rparr>)))))))"

definition video_from_json_path :: "json \<Rightarrow> string \<Rightarrow> video result" where
  [decode_defs]: "video_from_json_path tree path = bindE (json_at tree path) video_from_json"

definition video_keys :: "string list" where
  "video_keys = [''file_id'', ''width'', ''height'', ''duration'', ''thumb'', ''mime_type'',
     ''file_size'']"

definition video_to_wire :: "video \<Rightarrow> json" where
  "video_to_wire x = mk_object
     [(''file_id'', Some (JString (video_file_id x))),
      (''width'', Some (JNumber (video_width x))),
      (''height'', Some (JNumber (video_height x))),
      (''duration'', Some (JNumber (video_duration x))),
      (''thumb'', map_option photosize_to_wire (video_thumb x)),
      (''mime_type'', map_option JString (video_mime_type x)),
      (''file_size'', map_option JNumber (video_file_size x))]"

definition wf_video :: "video \<Rightarrow> bool" where
  "wf_video x \<longleftrightarrow> wf_opt wf_photosize (video_thumb x)
     \<and> wf_opt fits32 (video_file_size x)"

interpretation video_wire: wire_type video_from_json video_keys video_to_wire wf_video
proof unfold_locales
  fix j j' :: json and x :: video
  show "\<not> is_object j \<Longrightarrow> video_from_json j =
      Inl (Type_error 304 (''cannot use at() with '' @ json_type_name j))"
    by (simp add: video_from_json_def decode_defs readers_not_object)
  show "only_raises decode_error (video_from_json j)"
    by (auto simp: video_from_json_def decode_defs intro!: raises_intros photosize_wire.dec_raises)
  show "is_object j \<Longrightarrow> is_object j' \<Longrightarrow>
      \<forall>k \<in> set video_keys. json_get j k = json_get j' k \<Longrightarrow>
      video_from_json j = video_from_json j'"
    by (simp add: video_from_json_def video_keys_def decode_defs readers_object json_at_required
        json_at_required')
  show "is_object (video_to_wire x)"
    by (simp add: video_to_wire_def)
  show "wf_video x \<Longrightarrow> video_from_json (video_to_wire x) = Inr x"
    by (simp add: video_from_json_def video_to_wire_def wf_video_def decode_defs readers_object
        json_at_required json_at_required' photosize_wire.optional_roundtrip photosize_wire.dec_enc)
qed

subsection \<open>video_note\<close>

record video_note =
  video_note_file_id :: string
  video_note_length :: "64 word"
  video_note_duration :: "64 word"
  video_note_thumb :: "photosize option"
  video_note_file_size :: "64 word option"

definition video_note_from_json :: "json \<Rightarrow> video_note result" where
  "video_note_from_json tree =
     bindE (at_string tree ''file_id'') (\<lambda>file_id.
     bindE (at_int64 tree ''length'') (\<lambda>length.
     bindE (at_int64 tree ''duration'') (\<lambda>duration.
     bindE (make_optional_from_json photosize_from_json tree ''thumb'') (\<lambda>thumb.
     bindE (make_optional_int32 tree ''file_size'') (\<lambda>file_size.
     Inr \<lparr>video_note_file_id = file_id, video_note_length = length,
       video_note_duration = duration, video_note_thumb = thumb,
       video_note_file_size = widen file_size\<rparr>)))))"

definition video_note_from_json_path :: "json \<Rightarrow> string \<Rightarrow> video_note result" where
  [decode_defs]: "video_note_from_json_path tree path = bindE (json_at tree path) video_note_from_json"

definition video_note_keys :: "string list" where
  "video_note_keys = [''file_id'', ''length'', ''duration'', ''thumb'', ''file_size'']"

definition video_note_to_wire :: "video_note \<Rightarrow> json" where
  "video_note_to_wire x = mk_object
     [(''file_id'', Some (JString (video_note_file_id x))),
      (''length'', Some (JNumber (video_note_length x))),
      (''duration'', Some (JNumber (video_note_duration x))),
      (''thumb'', map_option photosize_to_wire (video_note_thumb x)),
      (''file_size'', map_option JNumber (video_note_file_size x))]"

definition wf_video_note :: "video_note \<Rightarrow> bool" where
  "wf_video_note x \<longleftrightarrow> wf_opt wf_photosize (video_note_thumb x)
     \<and> wf_opt fits32 (video_note_file_size x)"

interpretation video_note_wire: wire_type video_note_from_json video_note_keys video_note_to_wire wf_video_note
proof unfold_locales
  fix j j' :: json and x :: video_note
  show "\<not> is_object j \<Longrightarrow> video_note_from_json j =
      Inl (Type_error 304 (''cannot use at() with '' @ json_type_name j))"
    by (simp add: video_note_from_json_def decode_defs readers_not_object)
  show "only_raises decode_error (video_note_from_json j)"
    by (auto simp: video_note_from_json_def decode_defs intro!: raises_intros photosize_wire.dec_raises)
  show "is_object j \<Longrightarrow> is_object j' \<Longrightarrow>
      \<forall>k \<in> set video_note_keys. json_get j k = json_get j' k \<Longrightarrow>
      video_note_from_json j = video_note_from_json j'"
    by (simp add: video_note_from_json_def video_note_keys_def decode_defs readers_object json_at_required
        json_at_required')
  show "is_object (video_note_to_wire x)"
    by (simp add: video_note_to_wire_def)
  show "wf_video_note x \<Longrightarrow> video_note_from_json (video_note_to_wire x) = Inr x"
    by (simp add: video_note_from_json_def video_note_to_wire_def wf_video_note_def decode_defs readers_object
        json_at_required json_at_required' photosize_wire.optional_roundtrip photosize_wire.dec_enc)
qed

subsection \<open>voice\<close>

record voice =
  voice_file_id :: string
  voice_duration :: "64 word"
  voice_mime_type :: "string option"
  voice_file_size :: "64 word option"

definition voice_from_json :: "json \<Rightarrow> voice result" where
  "voice_from_json tree =
     bindE (at_string tree ''file_id'') (\<lambda>file_id.
     bindE (at_int64 tree ''duration'') (\<lambda>duration.
     bindE (make_optional_string tree ''mime_type'') (\<lambda>mime_type.
     bindE (make_optional_int32 tree ''file_size'') (\<lambda>file_size.
     Inr \<lparr>voice_file_id = file_id, voice_duration = duration,
       voice_mime_type = mime_type, voice_file_size = widen file_size\<rparr>))))"

definition voice_from_json_path :: "json \<Rightarrow> string \<Rightarrow> voice result" where
  [decode_defs]: "voice_from_json_path tree path = bindE (json_at tree path) voice_from_json"

definition voice_keys :: "string list" where
  "voice_keys = [''file_id'', ''duration'', ''mime_type'', ''file_size'']"

definition voice_to_wire :: "voice \<Rightarrow> json" where
  "voice_to_wire x = mk_object
     [(''file_id'', Some (JString (voice_file_id x))),
      (''duration'', Some (JNumber (voice_duration x))),
      (''mime_type'', map_option JString (voice_mime_type x)),
      (''file_size'', map_option JNumber (voice_file_size x))]"

definition wf_voice :: "voice \<Rightarrow> bool" where
  "wf_voice x \<longleftrightarrow> wf_opt fits32 (voice_file_size x)"

interpretation voice_wire: wire_type voice_from_json voice_keys voice_to_wire wf_voice
proof unfold_locales
  fix j j' :: json and x :: voice
  show "\<not> is_object j \<Longrightarrow> voice_from_json j =
      Inl (Type_error 304 (''cannot use at() with '' @ json_type_name j))"
    by (simp add: voice_from_json_def decode_defs readers_not_object)
  show "only_raises decode_error (voice_from_json j)"
    by (auto simp: voice_from_json_def decode_defs intro!: raises_intros)
  show "is_object j \<Longrightarrow> is_object j' \<Longrightarrow>
      \<forall>k \<in> set voice_keys. json_get j k = json_get j' k \<Longrightarrow>
      voice_from_json j = voice_from_json j'"
    by (simp add: voice_from_json_def voice_keys_def decode_defs readers_object json_at_required
        json_at_required')
  show "is_object (voice_to_wire x)"
    by (simp add: voice_to_wire_def)
  show "wf_voice x \<Longrightarrow> voice_from_json (voice_to_wire x) = Inr x"
    by (simp add: voice_from_json_def voice_to_wire_def wf_voice_def decode_defs readers_object
        json_at_required json_at_required')
qed

subsection \<open>mask_position\<close>

datatype point_types = FOREHEAD | EYES | MOUTH | CHIN | POINT_UNKNOWN

record mask_position =
  mask_position_point :: point_types
  mask_position_x_shift :: "32 word"
  mask_position_y_shift :: "32 word"
  mask_position_scale :: "32 word"

definition point_of_string :: "string \<Rightarrow> point_types" where
  "point_of_string s =
     (if s = ''forehead'' then FOREHEAD
      else if s = ''eyes'' then EYES
      else if s = ''mouth'' then MOUTH
      else if s = ''chin'' then CHIN
      else POINT_UNKNOWN)"

definition mask_position_from_json :: "json \<Rightarrow> mask_position result" where
  "mask_position_from_json tree =
     bindE (at_string tree ''point'') (\<lambda>point_str.
     bindE (at_float tree ''x_shift'') (\<lambda>x_shift.
     bindE (at_float tree ''y_shift'') (\<lambda>y_shift.
     bindE (at_float tree ''scale'') (\<lambda>scale.
     Inr \<lparr>mask_position_point = point_of_string point_str, mask_position_x_shift = x_shift,
       mask_position_y_shift = y_shift, mask_position_scale = scale\<rparr>))))"

definition mask_position_from_json_path :: "json \<Rightarrow> string \<Rightarrow> mask_position result" where
  [decode_defs]: "mask_position_from_json_path tree path =
     bindE (json_at tree path) mask_position_from_json"

fun string_of_point :: "point_types \<Rightarrow> string" where
  "string_of_point FOREHEAD = ''forehead''"
| "string_of_point EYES = ''eyes''"
| "string_of_point MOUTH = ''mouth''"
| "string_of_point CHIN = ''chin''"
| "string_of_point POINT_UNKNOWN = ''unknown''"

lemma point_of_string_of_point [simp]: "point_of_string (string_of_point p) = p"
  by (cases p) (simp_all add: point_of_string_def)

definition mask_position_keys :: "string list" where
  "mask_position_keys = [''point'', ''x_shift'', ''y_shift'', ''scale'']"

definition mask_position_to_wire :: "mask_position \<Rightarrow> json" where
  "mask_position_to_wire x = mk_object
     [(''point'', Some (JString (string_of_point (mask_position_point x)))),
      (''x_shift'', Some (JReal (mask_position_x_shift x))),
      (''y_shift'', Some (JReal (mask_position_y_shift x))),
      (''scale'', Some (JReal (mask_position_scale x)))]"

definition wf_mask_position :: "mask_position \<Rightarrow> bool" where
  "wf_mask_position x \<longleftrightarrow> float_exact (mask_position_x_shift x)
     \<and> float_exact (mask_position_y_shift x) \<and> float_exact (mask_position_scale x)"

interpretation mask_position_wire: wire_type mask_position_from_json mask_position_keys mask_position_to_wire wf_mask_position
proof unfold_locales
  fix j j' :: json and x :: mask_position
  show "\<not> is_object j \<Longrightarrow> mask_position_from_json j =
      Inl (Type_error 304 (''cannot use at() with '' @ json_type_name j))"
    by (simp add: mask_position_from_json_def decode_defs readers_not_object)
  show "only_raises decode_error (mask_position_from_json j)"
    by (auto simp: mask_position_from_json_def decode_defs intro!: raises_intros)
  show "is_object j \<Longrightarrow> is_object j' \<Longrightarrow>
      \<forall>k \<in> set mask_position_keys. json_get j k = json_get j' k \<Longrightarrow>
      mask_position_from_json j = mask_position_from_json j'"
    by (simp add: mask_position_from_json_def mask_position_keys_def decode_defs readers_object json_at_required
        json_at_required')
  show "is_object (mask_position_to_wire x)"
    by (simp add: mask_position_to_wire_def)
  show "wf_mask_position x \<Longrightarrow> mask_position_from_json (mask_position_to_wire x) = Inr x"
    by (simp add: mask_position_from_json_def mask_position_to_wire_def wf_mask_position_def decode_defs readers_object
        json_at_required json_at_required')
qed

subsection \<open>sticker\<close>

record sticker =
  sticker_file_id :: string
  sticker_width :: "64 word"
  sticker_height :: "64 word"
  sticker_thumb :: "photosize option"
  sticker_emoji :: "string option"
  sticker_set_name :: "string option"
  sticker_mask_position :: "mask_position option"
  sticker_file_size :: "64 word option"

definition sticker_from_json :: "json \<Rightarrow> sticker result" where
  "sticker_from_json tree =
     bindE (at_string tree ''file_id'') (\<lambda>file_id.
     bindE (at_int64 tree ''width'') (\<lambda>width.
     bindE (at_int64 tree ''height'') (\<lambda>height.
     bindE (make_optional_from_json photosize_from_json tree ''thumb'') (\<lambda>thumb.
     bindE (make_optional_string tree ''emoji'') (\<lambda>emoji.
     bindE (make_optional_string tree ''set_name'') (\<lambda>set_name.
     bindE (make_optional_from_json mask_position_from_json tree ''mask_position'') (\<lambda>mask_position.
     bindE (make_optional_int32 tree ''file_size'') (\<lambda>file_size.
     Inr \<lparr>sticker_file_id = file_id, sticker_width = width, sticker_height = height,
       sticker_thumb = thumb, sticker_emoji = emoji, sticker_set_name = set_name,
       sticker_mask_position = mask_position, sticker_file_size = widen file_size\<rparr>))))))))"

definition sticker_from_json_path :: "json \<Rightarrow> string \<Rightarrow> sticker result" where
  [decode_defs]: "sticker_from_json_path tree path = bindE (json_at tree path) sticker_from_json"

definition sticker_keys :: "string list" where
  "sticker_keys = [''file_id'', ''width'', ''height'', ''thumb'', ''emoji'', ''set_name'',
     ''mask_position'', ''file_size'']"

definition sticker_to_wire :: "sticker \<Rightarrow> json" where
  "sticker_to_wire x = mk_object
     [(''file_id'', Some (JString (sticker_file_id x))),
      (''width'', Some (JNumber (sticker_width x))),
      (''height'', Some (JNumber (sticker_height x))),
      (''thumb'', map_option photosize_to_wire (sticker_thumb x)),
      (''emoji'', map_option JString (sticker_emoji x)),
      (''set_name'', map_option JString (sticker_set_name x)),
      (''mask_position'', map_option mask_position_to_wire (sticker_mask_position x)),
      (''file_size'', map_option JNumber (sticker_file_size x))]"

definition wf_sticker :: "sticker \<Rightarrow> bool" where
  "wf_sticker x \<longleftrightarrow> wf_opt wf_photosize (sticker_thumb x)
     \<and> wf_opt wf_mask_position (sticker_mask_position x)
     \<and> wf_opt fits32 (sticker_file_size x)"

interpretation sticker_wire: wire_type sticker_from_json sticker_keys sticker_to_wire wf_sticker
proof unfold_locales
  fix j j' :: json and x :: sticker
  show "\<not> is_object j \<Longrightarrow> sticker_from_json j =
      Inl (Type_error 304 (''cannot use at() with '' @ json_type_name j))"
    by (simp add: sticker_from_json_def decode_defs readers_not_object)
  show "only_raises decode_error (sticker_from_json j)"
    by (auto simp: sticker_from_json_def decode_defs intro!: raises_intros photosize_wire.dec_raises mask_position_wire.dec_raises)
  show "is_object j \<Longrightarrow> is_object j' \<Longrightarrow>
      \<forall>k \<in> set sticker_keys. json_get j k = json_get j' k \<Longrightarrow>
      sticker_from_json j = sticker_from_json j'"
    by (simp add: sticker_from_json_def sticker_keys_def decode_defs readers_object json_at_required
        json_at_required')
  show "is_object (sticker_to_wire x)"
    by (simp add: sticker_to_wire_def)
  show "wf_sticker x \<Longrightarrow> sticker_from_json (sticker_to_wire x) = Inr x"
    by (simp add: sticker_from_json_def sticker_to_wire_def wf_sticker_def decode_defs readers_object
        json_at_required json_at_required' photosize_wire.optional_roundtrip photosize_wire.dec_enc mask_position_wire.optional_roundtrip mask_position_wire.dec_enc)
qed

subsection \<open>sticker_set\<close>

record sticker_set =
  sticker_set_name :: string
  sticker_set_title :: string
  sticker_set_contains_masks :: bool
  sticker_set_stickers :: "sticker list"

text \<open>The stickers are read before the other members.\<close>

definition sticker_set_from_json :: "json \<Rightarrow> sticker_set result" where
  "sticker_set_from_json tree =
     bindE (json_at tree ''stickers'') (\<lambda>entries.
     bindE (traverse sticker_from_json (json_elements entries)) (\<lambda>these_stickers.
     bindE (at_string tree ''name'') (\<lambda>name.
     bindE (at_string tree ''title'') (\<lambda>title.
     bindE (at_bool tree ''contains_masks'') (\<lambda>contains_masks.
     Inr \<lparr>sticker_set_name = name, sticker_set_title = title,
       sticker_set_contains_masks = contains_masks, sticker_set_stickers = these_stickers\<rparr>)))))"

definition sticker_set_from_json_path :: "json \<Rightarrow> string \<Rightarrow> sticker_set result" where
  [decode_defs]: "sticker_set_from_json_path tree path =
     bindE (json_at tree path) sticker_set_from_json"

definition sticker_set_keys :: "string list" where
  "sticker_set_keys = [''stickers'', ''name'', ''title'', ''contains_masks'']"

definition sticker_set_to_wire :: "sticker_set \<Rightarrow> json" where
  "sticker_set_to_wire x = mk_object
     [(''name'', Some (JString (sticker_set_name x))),
      (''title'', Some (JString (sticker_set_title x))),
      (''contains_masks'', Some (JBool (sticker_set_contains_masks x))),
      (''stickers'', Some (JArray (map sticker_to_wire (sticker_set_stickers x))))]"

definition wf_sticker_set :: "sticker_set \<Rightarrow> bool" where
  "wf_sticker_set x \<longleftrightarrow> list_all wf_sticker (sticker_set_stickers x)"

interpretation sticker_set_wire: wire_type sticker_set_from_json sticker_set_keys sticker_set_to_wire wf_sticker_set
proof unfold_locales
  fix j j' :: json and x :: sticker_set
  show "\<not> is_object j \<Longrightarrow> sticker_set_from_json j =
      Inl (Type_error 304 (''cannot use at() with '' @ json_type_name j))"
    by (simp add: sticker_set_from_json_def decode_defs readers_not_object)
  show "only_raises decode_error (sticker_set_from_json j)"
    by (auto simp: sticker_set_from_json_def decode_defs intro!: raises_intros sticker_wire.dec_raises)
  show "is_object j \<Longrightarrow> is_object j' \<Longrightarrow>
      \<forall>k \<in> set sticker_set_keys. json_get j k = json_get j' k \<Longrightarrow>
      sticker_set_from_json j = sticker_set_from_json j'"
    by (simp add: sticker_set_from_json_def sticker_set_keys_def decode_defs readers_object json_at_required
        json_at_required')
  show "is_object (sticker_set_to_wire x)"
    by (simp add: sticker_set_to_wire_def)
  show "wf_sticker_set x \<Longrightarrow> sticker_set_from_json (sticker_set_to_wire x) = Inr x"
    by (simp add: sticker_set_from_json_def sticker_set_to_wire_def wf_sticker_set_def decode_defs readers_object
        json_at_required json_at_required' sticker_wire.optional_roundtrip sticker_wire.dec_enc sticker_wire.traverse_roundtrip)
qed

subsection \<open>user_profile_photos\<close>

record user_profile_photos =
  user_profile_photos_total_count :: "64 word"
  user_profile_photos_photos :: "photosize list list"

text \<open>Two nested loops fill a vector of vectors; they iterate whatever value they meet.\<close>

definition user_profile_photos_from_json :: "json \<Rightarrow> user_profile_photos result" where
  "user_profile_photos_from_json tree =
     bindE (json_at tree ''photos'') (\<lambda>photo_entries1.
     bindE (traverse (\<lambda>photo_entries2. traverse photosize_from_json (json_elements photo_entries2))
              (json_elements photo_entries1)) (\<lambda>these_photos.
     bindE (at_int64 tree ''total_count'') (\<lambda>total_count.
     Inr \<lparr>user_profile_photos_total_count = total_count,
       user_profile_photos_photos = these_photos\<rparr>)))"

definition user_profile_photos_from_json_path :: "json \<Rightarrow> string \<Rightarrow> user_profile_photos result" where
  [decode_defs]: "user_profile_photos_from_json_path tree path =
     bindE (json_at tree path) user_profile_photos_from_json"

definition user_profile_photos_keys :: "string list" where
  "user_profile_photos_keys = [''photos'', ''total_count'']"

definition user_profile_photos_to_wire :: "user_profile_photos \<Rightarrow> json" where
  "user_profile_photos_to_wire x = mk_object
     [(''total_count'', Some (JNumber (user_profile_photos_total_count x))),
      (''photos'', Some (JArray (map (\<lambda>ps. JArray (map photosize_to_wire ps))
         (user_profile_photos_photos x))))]"

definition wf_user_profile_photos :: "user_profile_photos \<Rightarrow> bool" where
  "wf_user_profile_photos x \<longleftrightarrow> list_all (list_all wf_photosize) (user_profile_photos_photos x)"

lemma photo_rows_roundtrip:
  "list_all (list_all wf_photosize) rows \<Longrightarrow>
     traverse (\<lambda>r. traverse photosize_from_json (json_elements r))
       (map (\<lambda>ps. JArray (map photosize_to_wire ps)) rows) = Inr rows"
  by (rule traverse_map_Inr) (simp add: photosize_wire.traverse_roundtrip list_all_iff)

interpretation user_profile_photos_wire: wire_type user_profile_photos_from_json user_profile_photos_keys user_profile_photos_to_wire wf_user_profile_photos
proof unfold_locales
  fix j j' :: json and x :: user_profile_photos
  show "\<not> is_object j \<Longrightarrow> user_profile_photos_from_json j =
      Inl (Type_error 304 (''cannot use at() with '' @ json_type_name j))"
    by (simp add: user_profile_photos_from_json_def decode_defs readers_not_object)
  show "only_raises decode_error (user_profile_photos_from_json j)"
    by (auto simp: user_profile_photos_from_json_def decode_defs intro!: raises_intros photosize_wire.dec_raises)
  show "is_object j \<Longrightarrow> is_object j' \<Longrightarrow>
      \<forall>k \<in> set user_profile_photos_keys. json_get j k = json_get j' k \<Longrightarrow>
      user_profile_photos_from_json j = user_profile_photos_from_json j'"
    by (simp add: user_profile_photos_from_json_def user_profile_photos_keys_def decode_defs readers_object json_at_required
        json_at_required')
  show "is_object (user_profile_photos_to_wire x)"
    by (simp add: user_profile_photos_to_wire_def)
  show "wf_user_profile_photos x \<Longrightarrow> user_profile_photos_from_json (user_profile_photos_to_wire x) = Inr x"
    by (simp add: user_profile_photos_from_json_def user_profile_photos_to_wire_def wf_user_profile_photos_def decode_defs readers_object
        json_at_required json_at_required' photosize_wire.optional_roundtrip photosize_wire.dec_enc photo_rows_roundtrip)
qed

end
