(* ===== verification/Types_Facts.thy ===== *)
theory Types_Facts
  imports Types_Files
begin

section \<open>People, places and payments\<close>

text \<open>
  The remaining leaf types of \<open>include/libtelegram/types\<close>: users, contacts, locations, venues, invoices
  and payments, in the form of \<open>Types_Files\<close>.
\<close>

subsection \<open>user\<close>

record user =
  user_id :: "64 word"
  user_is_bot :: bool
  user_first_name :: string
  user_last_name :: "string option"
  user_username :: "string option"
  user_language_code :: "string option"

definition user_from_json :: "json \<Rightarrow> user result" where
  "user_from_json tree =
     bindE (at_int64 tree ''id'') (\<lambda>id.
     bindE (at_bool tree ''is_bot'') (\<lambda>is_bot.
     bindE (at_string tree ''first_name'') (\<lambda>first_name.
     bindE (make_optional_string tree ''last_name'') (\<lambda>last_name.
     bindE (make_optional_string tree ''username'') (\<lambda>username.
     bindE (make_optional_string tree ''language_code'') (\<lambda>language_code.
     Inr \<lparr>user_id = id, user_is_bot = is_bot, user_first_name = first_name,
       user_last_name = last_name, user_username = username, user_language_code = language_code\<rparr>))))))"

definition user_from_json_path :: "json \<Rightarrow> string \<Rightarrow> user result" where
  [decode_defs]: "user_from_json_path tree path = bindE (json_at tree path) user_from_json"

definition user_keys :: "string list" where
  "user_keys = [''id'', ''is_bot'', ''first_name'', ''last_name'', ''username'',
     ''language_code'']"

definition user_to_wire :: "user \<Rightarrow> json" where
  "user_to_wire x = mk_object
     [(''id'', Some (JNumber (user_id x))),
      (''is_bot'', Some (JBool (user_is_bot x))),
      (''first_name'', Some (JString (user_first_name x))),
      (''last_name'', map_option JString (user_last_name x)),
      (''username'', map_option JString (user_username x)),
      (''language_code'', map_option JString (user_language_code x))]"

definition wf_user :: "user \<Rightarrow> bool" where
  "wf_user x \<longleftrightarrow> True"

interpretation user_wire: wire_type user_from_json user_keys user_to_wire wf_user
proof unfold_locales
  fix j j' :: json and x :: user
  show "\<not> is_object j \<Longrightarrow> user_from_json j =
      Inl (Type_error 304 (''cannot use at() with '' @ json_type_name j))"
    by (simp add: user_from_json_def decode_defs readers_not_object)
  show "only_raises decode_error (user_from_json j)"
    by (auto simp: user_from_json_def decode_defs intro!: raises_intros)
  show "is_object j \<Longrightarrow> is_object j' \<Longrightarrow>
      \<forall>k \<in> set user_keys. json_get j k = json_get j' k \<Longrightarrow>
      user_from_json j = user_from_json j'"
    by (simp add: user_from_json_def user_keys_def decode_defs readers_object json_at_required
        json_at_required')
  show "is_object (user_to_wire x)"
    by (simp add: user_to_wire_def)
  show "wf_user x \<Longrightarrow> user_from_json (user_to_wire x) = Inr x"
    by (simp add: user_from_json_def user_to_wire_def wf_user_def decode_defs readers_object
        json_at_required json_at_required')
qed

subsection \<open>contact\<close>

record contact =
  contact_phone_number :: string
  contact_first_name :: string
  contact_last_name :: "string option"
  contact_user_id :: "64 word option"

definition contact_from_json :: "json \<Rightarrow> contact result" where
  "contact_from_json tree =
     bindE (at_string tree ''phone_number'') (\<lambda>phone_number.
     bindE (at_string tree ''first_name'') (\<lambda>first_name.
     bindE (make_optional_string tree ''last_name'') (\<lambda>last_name.
     bindE (make_optional_int32 tree ''user_id'') (\<lambda>user_id.
     Inr \<lparr>contact_phone_number = phone_number, contact_first_name = first_name,
       contact_last_name = last_name, contact_user_id = widen user_id\<rparr>))))"

definition contact_from_json_path :: "json \<Rightarrow> string \<Rightarrow> contact result" where
  [decode_defs]: "contact_from_json_path tree path = bindE (json_at tree path) contact_from_json"

definition contact_keys :: "string list" where
  "contact_keys = [''phone_number'', ''first_name'', ''last_name'', ''user_id'']"

definition contact_to_wire :: "contact \<Rightarrow> json" where
  "contact_to_wire x = mk_object
     [(''phone_number'', Some (JString (contact_phone_number x))),
      (''first_name'', Some (JString (contact_first_name x))),
      (''last_name'', map_option JString (contact_last_name x)),
      (''user_id'', map_option JNumber (contact_user_id x))]"

definition wf_contact :: "contact \<Rightarrow> bool" where
  "wf_contact x \<longleftrightarrow> wf_opt fits32 (contact_user_id x)"

interpretation contact_wire: wire_type contact_from_json contact_keys contact_to_wire wf_contact
proof unfold_locales
  fix j j' :: json and x :: contact
  show "\<not> is_object j \<Longrightarrow> contact_from_json j =
      Inl (Type_error 304 (''cannot use at() with '' @ json_type_name j))"
    by (simp add: contact_from_json_def decode_defs readers_not_object)
  show "only_raises decode_error (contact_from_json j)"
    by (auto simp: contact_from_json_def decode_defs intro!: raises_intros)
  show "is_object j \<Longrightarrow> is_object j' \<Longrightarrow>
      \<forall>k \<in> set contact_keys. json_get j k = json_get j' k \<Longrightarrow>
      contact_from_json j = contact_from_json j'"
    by (simp add: contact_from_json_def contact_keys_def decode_defs readers_object json_at_required
        json_at_required')
  show "is_object (contact_to_wire x)"
    by (simp add: contact_to_wire_def)
  show "wf_contact x \<Longrightarrow> contact_from_json (contact_to_wire x) = Inr x"
    by (simp add: contact_from_json_def contact_to_wire_def wf_contact_def decode_defs readers_object
        json_at_required json_at_required')
qed

subsection \<open>location\<close>

record location =
  location_latitude :: "32 word"
  location_longitude :: "32 word"

definition location_from_json :: "json \<Rightarrow> location result" where
  "location_from_json tree =
     bindE (at_float tree ''latitude'') (\<lambda>latitude.
     bindE (at_float tree ''longitude'') (\<lambda>longitude.
     Inr \<lparr>location_latitude = latitude, location_longitude = longitude\<rparr>))"

definition location_from_json_path :: "json \<Rightarrow> string \<Rightarrow> location result" where
  [decode_defs]: "location_from_json_path tree path = bindE (json_at tree path) location_from_json"

definition location_keys :: "string list" where
  "location_keys = [''latitude'', ''longitude'']"

definition location_to_wire :: "location \<Rightarrow> json" where
  "location_to_wire x = mk_object
     [(''latitude'', Some (JReal (location_latitude x))),
      (''longitude'', Some (JReal (location_longitude x)))]"

definition wf_location :: "location \<Rightarrow> bool" where
  "wf_location x \<longleftrightarrow> float_exact (location_latitude x)
     \<and> float_exact (location_longitude x)"

interpretation location_wire: wire_type location_from_json location_keys location_to_wire wf_location
proof unfold_locales
  fix j j' :: json and x :: location
  show "\<not> is_object j \<Longrightarrow> location_from_json j =
      Inl (Type_error 304 (''cannot use at() with '' @ json_type_name j))"
    by (simp add: location_from_json_def decode_defs readers_not_object)
  show "only_raises decode_error (location_from_json j)"
    by (auto simp: location_from_json_def decode_defs intro!: raises_intros)
  show "is_object j \<Longrightarrow> is_object j' \<Longrightarrow>
      \<forall>k \<in> set location_keys. json_get j k = json_get j' k \<Longrightarrow>
      location_from_json j = location_from_json j'"
    by (simp add: location_from_json_def location_keys_def decode_defs readers_object json_at_required
        json_at_required')
  show "is_object (location_to_wire x)"
    by (simp add: location_to_wire_def)
  show "wf_location x \<Longrightarrow> location_from_json (location_to_wire x) = Inr x"
    by (simp add: location_from_json_def location_to_wire_def wf_location_def decode_defs readers_object
        json_at_required json_at_required')
qed

subsection \<open>venue\<close>

record venue =
  venue_location :: location
  venue_title :: string
  venue_address :: string
  venue_foursquare_id :: "string option"

definition venue_from_json :: "json \<Rightarrow> venue result" where
  "venue_from_json tree =
     bindE (location_from_json_path tree ''location'') (\<lambda>location.
     bindE (at_string tree ''title'') (\<lambda>title.
     bindE (at_string tree ''address'') (\<lambda>address.
     bindE (make_optional_string tree ''foursquare_id'') (\<lambda>foursquare_id.
     Inr \<lparr>venue_location = location, venue_title = title, venue_address = address,
       venue_foursquare_id = foursquare_id\<rparr>))))"

definition venue_from_json_path :: "json \<Rightarrow> string \<Rightarrow> venue result" where
  [decode_defs]: "venue_from_json_path tree path = bindE (json_at tree path) venue_from_json"

definition venue_keys :: "string list" where
  "venue_keys = [''location'', ''title'', ''address'', ''foursquare_id'']"

definition venue_to_wire :: "venue \<Rightarrow> json" where
  "venue_to_wire x = mk_object
     [(''location'', Some (location_to_wire (venue_location x))),
      (''title'', Some (JString (venue_title x))),
      (''address'', Some (JString (venue_address x))),
      (''foursquare_id'', map_option JString (venue_foursquare_id x))]"

definition wf_venue :: "venue \<Rightarrow> bool" where
  "wf_venue x \<longleftrightarrow> wf_location (venue_location x)"

interpretation venue_wire: wire_type venue_from_json venue_keys venue_to_wire wf_venue
proof unfold_locales
  fix j j' :: json and x :: venue
  show "\<not> is_object j \<Longrightarrow> venue_from_json j =
      Inl (Type_error 304 (''cannot use at() with '' @ json_type_name j))"
    by (simp add: venue_from_json_def decode_defs readers_not_object)
  show "only_raises decode_error (venue_from_json j)"
    by (auto simp: venue_from_json_def decode_defs intro!: raises_intros location_wire.dec_raises)
  show "is_object j \<Longrightarrow> is_object j' \<Longrightarrow>
      \<forall>k \<in> set venue_keys. json_get j k = json_get j' k \<Longrightarrow>
      venue_from_json j = venue_from_json j'"
    by (simp add: venue_from_json_def venue_keys_def decode_defs readers_object json_at_required
        json_at_required')
  show "is_object (venue_to_wire x)"
    by (simp add: venue_to_wire_def)
  show "wf_venue x \<Longrightarrow> venue_from_json (venue_to_wire x) = Inr x"
    by (simp add: venue_from_json_def venue_to_wire_def wf_venue_def decode_defs readers_object
        json_at_required json_at_required' location_wire.optional_roundtrip location_wire.dec_enc)
qed

subsection \<open>invoice\<close>

record invoice =
  invoice_title :: string
  invoice_description :: string
  invoice_start_parameter :: string
  invoice_currency :: string
  invoice_total_amount :: "64 word"

definition invoice_from_json :: "json \<Rightarrow> invoice result" where
  "invoice_from_json tree =
     bindE (at_string tree ''title'') (\<lambda>title.
     bindE (at_string tree ''description'') (\<lambda>description.
     bindE (at_string tree ''start_parameter'') (\<lambda>start_parameter.
     bindE (at_string tree ''currency'') (\<lambda>currency.
     bindE (at_int64 tree ''total_amount'') (\<lambda>total_amount.
     Inr \<lparr>invoice_title = title, invoice_description = description,
       invoice_start_parameter = start_parameter, invoice_currency = currency,
       invoice_total_amount = total_amount\<rparr>)))))"

definition invoice_from_json_path :: "json \<Rightarrow> string \<Rightarrow> invoice result" where
  [decode_defs]: "invoice_from_json_path tree path = bindE (json_at tree path) invoice_from_json"

definition invoice_keys :: "string list" where
  "invoice_keys = [''title'', ''description'', ''start_parameter'', ''currency'',
     ''total_amount'']"

definition invoice_to_wire :: "invoice \<Rightarrow> json" where
  "invoice_to_wire x = mk_object
     [(''title'', Some (JString (invoice_title x))),
      (''description'', Some (JString (invoice_description x))),
      (''start_parameter'', Some (JString (invoice_start_parameter x))),
      (''currency'', Some (JString (invoice_currency x))),
      (''total_amount'', Some (JNumber (invoice_total_amount x)))]"

definition wf_invoice :: "invoice \<Rightarrow> bool" where
  "wf_invoice x \<longleftrightarrow> True"

interpretation invoice_wire: wire_type invoice_from_json invoice_keys invoice_to_wire wf_invoice
proof unfold_locales
  fix j j' :: json and x :: invoice
  show "\<not> is_object j \<Longrightarrow> invoice_from_json j =
      Inl (Type_error 304 (''cannot use at() with '' @ json_type_name j))"
    by (simp add: invoice_from_json_def decode_defs readers_not_object)
  show "only_raises decode_error (invoice_from_json j)"
    by (auto simp: invoice_from_json_def decode_defs intro!: raises_intros)
  show "is_object j \<Longrightarrow> is_object j' \<Longrightarrow>
      \<forall>k \<in> set invoice_keys. json_get j k = json_get j' k \<Longrightarrow>
      invoice_from_json j = invoice_from_json j'"
    by (simp add: invoice_from_json_def invoice_keys_def decode_defs readers_object json_at_required
        json_at_required')
  show "is_object (invoice_to_wire x)"
    by (simp add: invoice_to_wire_def)
  show "wf_invoice x \<Longrightarrow> invoice_from_json (invoice_to_wire x) = Inr x"
    by (simp add: invoice_from_json_def invoice_to_wire_def wf_invoice_def decode_defs readers_object
        json_at_required json_at_required')
qed

subsection \<open>shipping_address\<close>

record shipping_address =
  shipping_address_country_code :: string
  shipping_address_state :: string
  shipping_address_city :: string
  shipping_address_street_line1 :: string
  shipping_address_street_line2 :: string
  shipping_address_post_code :: string

definition shipping_address_from_json :: "json \<Rightarrow> shipping_address result" where
  "shipping_address_from_json tree =
     bindE (at_string tree ''country_code'') (\<lambda>country_code.
     bindE (at_string tree ''state'') (\<lambda>state.
     bindE (at_string tree ''city'') (\<lambda>city.
     bindE (at_string tree ''street_line1'') (\<lambda>street_line1.
     bindE (at_string tree ''street_line2'') (\<lambda>street_line2.
     bindE (at_string tree ''post_code'') (\<lambda>post_code.
     Inr \<lparr>shipping_address_country_code = country_code, shipping_address_state = state,
       shipping_address_city = city, shipping_address_street_line1 = street_line1,
       shipping_address_street_line2 = street_line2, shipping_address_post_code = post_code\<rparr>))))))"

definition shipping_address_from_json_path :: "json \<Rightarrow> string \<Rightarrow> shipping_address result" where
  [decode_defs]: "shipping_address_from_json_path tree path = bindE (json_at tree path) shipping_address_from_json"

definition shipping_address_keys :: "string list" where
  "shipping_address_keys = [''country_code'', ''state'', ''city'', ''street_line1'',
     ''street_line2'', ''post_code'']"

definition shipping_address_to_wire :: "shipping_address \<Rightarrow> json" where
  "shipping_address_to_wire x = mk_object
     [(''country_code'', Some (JString (shipping_address_country_code x))),
      (''state'', Some (JString (shipping_address_state x))),
      (''city'', Some (JString (shipping_address_city x))),
      (''street_line1'', Some (JString (shipping_address_street_line1 x))),
      (''street_line2'', Some (JString (shipping_address_street_line2 x))),
      (''post_code'', Some (JString (shipping_address_post_code x)))]"

definition wf_shipping_address :: "shipping_address \<Rightarrow> bool" where
  "wf_shipping_address x \<longleftrightarrow> True"

interpretation shipping_address_wire: wire_type shipping_address_from_json shipping_address_keys shipping_address_to_wire wf_shipping_address
proof unfold_locales
  fix j j' :: json and x :: shipping_address
  show "\<not> is_object j \<Longrightarrow> shipping_address_from_json j =
      Inl (Type_error 304 (''cannot use at() with '' @ json_type_name j))"
    by (simp add: shipping_address_from_json_def decode_defs readers_not_object)
  show "only_raises decode_error (shipping_address_from_json j)"
    by (auto simp: shipping_address_from_json_def decode_defs intro!: raises_intros)
  show "is_object j \<Longrightarrow> is_object j' \<Longrightarrow>
      \<forall>k \<in> set shipping_address_keys. json_get j k = json_get j' k \<Longrightarrow>
      shipping_address_from_json j = shipping_address_from_json j'"
    by (simp add: shipping_address_from_json_def shipping_address_keys_def decode_defs readers_object json_at_required
        json_at_required')
  show "is_object (shipping_address_to_wire x)"
    by (simp add: shipping_address_to_wire_def)
  show "wf_shipping_address x \<Longrightarrow> shipping_address_from_json (shipping_address_to_wire x) = Inr x"
    by (simp add: shipping_address_from_json_def shipping_address_to_wire_def wf_shipping_address_def decode_defs readers_object
        json_at_required json_at_required')
qed

subsection \<open>order_info\<close>

record order_info =
  order_info_name :: "string option"
  order_info_phone_number :: "string option"
  order_info_email :: "string option"
  order_info_shipping_address :: "shipping_address option"

definition order_info_from_json :: "json \<Rightarrow> order_info result" where
  "order_info_from_json tree =
     bindE (make_optional_string tree ''name'') (\<lambda>name.
     bindE (make_optional_string tree ''phone_number'') (\<lambda>phone_number.
     bindE (make_optional_string tree ''email'') (\<lambda>email.
     bindE (make_optional_from_json shipping_address_from_json tree ''shipping_address'') (\<lambda>shipping_address.
     Inr \<lparr>order_info_name = name, order_info_phone_number = phone_number,
       order_info_email = email, order_info_shipping_address = shipping_address\<rparr>))))"

definition order_info_from_json_path :: "json \<Rightarrow> string \<Rightarrow> order_info result" where
  [decode_defs]: "order_info_from_json_path tree path = bindE (json_at tree path) order_info_from_json"

definition order_info_keys :: "string list" where
  "order_info_keys = [''name'', ''phone_number'', ''email'', ''shipping_address'']"

definition order_info_to_wire :: "order_info \<Rightarrow> json" where
  "order_info_to_wire x = mk_object
     [(''name'', map_option JString (order_info_name x)),
      (''phone_number'', map_option JString (order_info_phone_number x)),
      (''email'', map_option JString (order_info_email x)),
      (''shipping_address'', map_option shipping_address_to_wire (order_info_shipping_address x))]"

definition wf_order_info :: "order_info \<Rightarrow> bool" where
  "wf_order_info x \<longleftrightarrow> wf_opt wf_shipping_address (order_info_shipping_address x)"

interpretation order_info_wire: wire_type order_info_from_json order_info_keys order_info_to_wire wf_order_info
proof unfold_locales
  fix j j' :: json and x :: order_info
  show "\<not> is_object j \<Longrightarrow> order_info_from_json j =
      Inl (Type_error 304 (''cannot use at() with '' @ json_type_name j))"
    by (simp add: order_info_from_json_def decode_defs readers_not_object)
  show "only_raises decode_error (order_info_from_json j)"
    by (auto simp: order_info_from_json_def decode_defs intro!: raises_intros shipping_address_wire.dec_raises)
  show "is_object j \<Longrightarrow> is_object j' \<Longrightarrow>
      \<forall>k \<in> set order_info_keys. json_get j k = json_get j' k \<Longrightarrow>
      order_info_from_json j = order_info_from_json j'"
    by (simp add: order_info_from_json_def order_info_keys_def decode_defs readers_object json_at_required
        json_at_required')
  show "is_object (order_info_to_wire x)"
    by (simp add: order_info_to_wire_def)
  show "wf_order_info x \<Longrightarrow> order_info_from_json (order_info_to_wire x) = Inr x"
    by (simp add: order_info_from_json_def order_info_to_wire_def wf_order_info_def decode_defs readers_object
        json_at_required json_at_required' shipping_address_wire.optional_roundtrip shipping_address_wire.dec_enc)
qed

subsection \<open>successful_payment\<close>

record successful_payment =
  successful_payment_currency :: string
  successful_payment_total_amount :: "64 word"
  successful_payment_invoice_payload :: string
  successful_payment_shipping_option_id :: "string option"
  successful_payment_order_info :: "order_info option"
  successful_payment_telegram_payment_charge_id :: string
  successful_payment_provider_payment_charge_id :: string

definition successful_payment_from_json :: "json \<Rightarrow> successful_payment result" where
  "successful_payment_from_json tree =
     bindE (at_string tree ''currency'') (\<lambda>currency.
     bindE (at_int64 tree ''total_amount'') (\<lambda>total_amount.
     bindE (at_string tree ''invoice_payload'') (\<lambda>invoice_payload.
     bindE (make_optional_string tree ''shipping_option_id'') (\<lambda>shipping_option_id.
     bindE (make_optional_from_json order_info_from_json tree ''order_info'') (\<lambda>order_info.
     bindE (at_string tree ''telegram_payment_charge_id'') (\<lambda>telegram_payment_charge_id.
     bindE (at_string tree ''provider_payment_charge_id'') (\<lambda>provider_payment_charge_id.
     Inr \<lparr>successful_payment_currency = currency,
       successful_payment_total_amount = total_amount,
       successful_payment_invoice_payload = invoice_payload,
       successful_payment_shipping_option_id = shipping_option_id,
       successful_payment_order_info = order_info,
       successful_payment_telegram_payment_charge_id = telegram_payment_charge_id,
       successful_payment_provider_payment_charge_id = provider_payment_charge_id\<rparr>)))))))"

definition successful_payment_from_json_path :: "json \<Rightarrow> string \<Rightarrow> successful_payment result" where
  [decode_defs]: "successful_payment_from_json_path tree path = bindE (json_at tree path) successful_payment_from_json"

definition successful_payment_keys :: "string list" where
  "successful_payment_keys = [''currency'', ''total_amount'', ''invoice_payload'',
     ''shipping_option_id'', ''order_info'', ''telegram_payment_charge_id'',
     ''provider_payment_charge_id'']"

definition successful_payment_to_wire :: "successful_payment \<Rightarrow> json" where
  "successful_payment_to_wire x = mk_object
     [(''currency'', Some (JString (successful_payment_currency x))),
      (''total_amount'', Some (JNumber (successful_payment_total_amount x))),
      (''invoice_payload'', Some (JString (successful_payment_invoice_payload x))),
      (''shipping_option_id'', map_option JString (successful_payment_shipping_option_id x)),
      (''order_info'', map_option order_info_to_wire (successful_payment_order_info x)),
      (''telegram_payment_charge_id'', Some (JString (successful_payment_telegram_payment_charge_id x))),
      (''provider_payment_charge_id'', Some (JString (successful_payment_provider_payment_charge_id x)))]"

definition wf_successful_payment :: "successful_payment \<Rightarrow> bool" where
  "wf_successful_payment x \<longleftrightarrow> wf_opt wf_order_info (successful_payment_order_info x)"

interpretation successful_payment_wire: wire_type successful_payment_from_json successful_payment_keys successful_payment_to_wire wf_successful_payment
proof unfold_locales
  fix j j' :: json and x :: successful_payment
  show "\<not> is_object j \<Longrightarrow> successful_payment_from_json j =
      Inl (Type_error 304 (''cannot use at() with '' @ json_type_name j))"
    by (simp add: successful_payment_from_json_def decode_defs readers_not_object)
  show "only_raises decode_error (successful_payment_from_json j)"
    by (auto simp: successful_payment_from_json_def decode_defs intro!: raises_intros order_info_wire.dec_raises)
  show "is_object j \<Longrightarrow> is_object j' \<Longrightarrow>
      \<forall>k \<in> set successful_payment_keys. json_get j k = json_get j' k \<Longrightarrow>
      successful_payment_from_json j = successful_payment_from_json j'"
    by (simp add: successful_payment_from_json_def successful_payment_keys_def decode_defs readers_object json_at_required
        json_at_required')
  show "is_object (successful_payment_to_wire x)"
    by (simp add: successful_payment_to_wire_def)
  show "wf_successful_payment x \<Longrightarrow> successful_payment_from_json (successful_payment_to_wire x) = Inr x"
    by (simp add: successful_payment_from_json_def successful_payment_to_wire_def wf_successful_payment_def decode_defs readers_object
        json_at_required json_at_required' order_info_wire.optional_roundtrip order_info_wire.dec_enc)
qed

end
