(* ===== verification/Dtoa.thy ===== *)
theory Dtoa
  imports Machine "HOL-Library.Signed_Division"
begin

unbundle bit_operations_syntax

section \<open>Printing floating-point numbers\<close>

text \<open>
  \<open>to_chars\<close> of \<open>json.hpp\<close> and the Grisu2 algorithm under it (namespace \<open>dtoa_impl\<close>), for \<open>double\<close>: the
  code the JSON serialiser prints a number with. Significands are 64-bit words and the products wrap
  as in C++; exponents are of type \<open>int\<close> in the code and stay below 1200 in absolute value. Two loops
  end only for the arguments they are meant for, and the table of cached powers has 79 entries: outside
  of that the functions have no value (\<open>None\<close>, undefined behaviour in C++). That they always have a
  value when \<open>to_chars\<close> calls them is proved below.
\<close>

subsection \<open>Floating-point numbers with a 64-bit significand\<close>

record diyfp =
  diy_f :: "64 word"
  diy_e :: int

definition diyfp_sub :: "diyfp \<Rightarrow> diyfp \<Rightarrow> diyfp" where
  "diyfp_sub x y = \<lparr>diy_f = diy_f x - diy_f y, diy_e = diy_e x\<rparr>"

definition diyfp_mul :: "diyfp \<Rightarrow> diyfp \<Rightarrow> diyfp" where
  "diyfp_mul x y =
     (let u_lo = diy_f x AND 0xFFFFFFFF; u_hi = drop_bit 32 (diy_f x);
          v_lo = diy_f y AND 0xFFFFFFFF; v_hi = drop_bit 32 (diy_f y);
          p0 = u_lo * v_lo; p1 = u_lo * v_hi; p2 = u_hi * v_lo; p3 = u_hi * v_hi;
          p0_hi = drop_bit 32 p0;
          p1_lo = p1 AND 0xFFFFFFFF; p1_hi = drop_bit 32 p1;
          p2_lo = p2 AND 0xFFFFFFFF; p2_hi = drop_bit 32 p2;
          Q = p0_hi + p1_lo + p2_lo + push_bit 31 1;
          h = p3 + p2_hi + p1_hi + drop_bit 32 Q
      in \<lparr>diy_f = h, diy_e = diy_e x + diy_e y + 64\<rparr>)"

partial_function (option) diyfp_normalize :: "diyfp \<Rightarrow> diyfp option" where [code]:
  "diyfp_normalize x =
     (if drop_bit 63 (diy_f x) = 0
      then diyfp_normalize \<lparr>diy_f = push_bit 1 (diy_f x), diy_e = diy_e x - 1\<rparr>
      else Some x)"

definition diyfp_normalize_to :: "diyfp \<Rightarrow> int \<Rightarrow> diyfp" where
  "diyfp_normalize_to x target_exponent =
     \<lparr>diy_f = push_bit (nat (diy_e x - target_exponent)) (diy_f x), diy_e = target_exponent\<rparr>"

text \<open>\<open>boundaries\<close>: the number and the halves of the way to its neighbours.\<close>

record boundaries =
  bound_w :: diyfp
  bound_minus :: diyfp
  bound_plus :: diyfp

definition compute_boundaries :: "64 word \<Rightarrow> boundaries option" where
  "compute_boundaries bits =
     (let E = drop_bit 52 bits; F = bits AND (push_bit 52 1 - 1);
          v = (if E = 0 then \<lparr>diy_f = F, diy_e = 1 - 1075\<rparr>
               else \<lparr>diy_f = F + push_bit 52 1, diy_e = uint E - 1075\<rparr>);
          m_plus = \<lparr>diy_f = 2 * diy_f v + 1, diy_e = diy_e v - 1\<rparr>;
          m_minus = (if F = 0 \<and> E > 1 then \<lparr>diy_f = 4 * diy_f v - 1, diy_e = diy_e v - 2\<rparr>
                     else \<lparr>diy_f = 2 * diy_f v - 1, diy_e = diy_e v - 1\<rparr>)
      in Option.bind (diyfp_normalize m_plus) (\<lambda>w_plus.
         Option.bind (diyfp_normalize v) (\<lambda>w.
         Some \<lparr>bound_w = w, bound_minus = diyfp_normalize_to m_minus (diy_e w_plus),
               bound_plus = w_plus\<rparr>)))"

subsection \<open>The cached powers of ten\<close>

text \<open>Each entry is \<open>(f, e, k)\<close> with \<open>f * 2^e\<close> close to \<open>10^k\<close>.\<close>

definition kCachedPowers :: "(64 word \<times> int \<times> int) list" where
  "kCachedPowers =
    [(0xAB70FE17C79AC6CA, - 1060, - 300), (0xFF77B1FCBEBCDC4F, - 1034, - 292),
     (0xBE5691EF416BD60C, - 1007, - 284), (0x8DD01FAD907FFC3C, - 980, - 276),
     (0xD3515C2831559A83, - 954, - 268), (0x9D71AC8FADA6C9B5, - 927, - 260),
     (0xEA9C227723EE8BCB, - 901, - 252), (0xAECC49914078536D, - 874, - 244),
     (0x823C12795DB6CE57, - 847, - 236), (0xC21094364DFB5637, - 821, - 228),
     (0x9096EA6F3848984F, - 794, - 220), (0xD77485CB25823AC7, - 768, - 212),
     (0xA086CFCD97BF97F4, - 741, - 204), (0xEF340A98172AACE5, - 715, - 196),
     (0xB23867FB2A35B28E, - 688, - 188), (0x84C8D4DFD2C63F3B, - 661, - 180),
     (0xC5DD44271AD3CDBA, - 635, - 172), (0x936B9FCEBB25C996, - 608, - 164),
     (0xDBAC6C247D62A584, - 582, - 156), (0xA3AB66580D5FDAF6, - 555, - 148),
     (0xF3E2F893DEC3F126, - 529, - 140), (0xB5B5ADA8AAFF80B8, - 502, - 132),
     (0x87625F056C7C4A8B, - 475, - 124), (0xC9BCFF6034C13053, - 449, - 116),
     (0x964E858C91BA2655, - 422, - 108), (0xDFF9772470297EBD, - 396, - 100),
     (0xA6DFBD9FB8E5B88F, - 369, - 92), (0xF8A95FCF88747D94, - 343, - 84),
     (0xB94470938FA89BCF, - 316, - 76), (0x8A08F0F8BF0F156B, - 289, - 68),
     (0xCDB02555653131B6, - 263, - 60), (0x993FE2C6D07B7FAC, - 236, - 52),
     (0xE45C10C42A2B3B06, - 210, - 44), (0xAA242499697392D3, - 183, - 36),
     (0xFD87B5F28300CA0E, - 157, - 28), (0xBCE5086492111AEB, - 130, - 20),
     (0x8CBCCC096F5088CC, - 103, - 12), (0xD1B71758E219652C, - 77, - 4),
     (0x9C40000000000000, - 50, 4), (0xE8D4A51000000000, - 24, 12),
     (0xAD78EBC5AC620000, 3, 20), (0x813F3978F8940984, 30, 28),
     (0xC097CE7BC90715B3, 56, 36), (0x8F7E32CE7BEA5C70, 83, 44),
     (0xD5D238A4ABE98068, 109, 52), (0x9F4F2726179A2245, 136, 60),
     (0xED63A231D4C4FB27, 162, 68), (0xB0DE65388CC8ADA8, 189, 76),
     (0x83C7088E1AAB65DB, 216, 84), (0xC45D1DF942711D9A, 242, 92),
     (0x924D692CA61BE758, 269, 100), (0xDA01EE641A708DEA, 295, 108),
     (0xA26DA3999AEF774A, 322, 116), (0xF209787BB47D6B85, 348, 124),
     (0xB454E4A179DD1877, 375, 132), (0x865B86925B9BC5C2, 402, 140),
     (0xC83553C5C8965D3D, 428, 148), (0x952AB45CFA97A0B3, 455, 156),
     (0xDE469FBD99A05FE3, 481, 164), (0xA59BC234DB398C25, 508, 172),
     (0xF6C69A72A3989F5C, 534, 180), (0xB7DCBF5354E9BECE, 561, 188),
     (0x88FCF317F22241E2, 588, 196), (0xCC20CE9BD35C78A5, 614, 204),
     (0x98165AF37B2153DF, 641, 212), (0xE2A0B5DC971F303A, 667, 220),
     (0xA8D9D1535CE3B396, 694, 228), (0xFB9B7CD9A4A7443C, 720, 236),
     (0xBB764C4CA7A44410, 747, 244), (0x8BAB8EEFB6409C1A, 774, 252),
     (0xD01FEF10A657842C, 800, 260), (0x9B10A4E5E9913129, 827, 268),
     (0xE7109BFBA19C0C9D, 853, 276), (0xAC2820D9623BF429, 880, 284),
     (0x80444B5E7AA7CF85, 907, 292), (0xBF21E44003ACDD2D, 933, 300),
     (0x8E679C2F5E44FF8F, 960, 308), (0xD433179D9C8CB841, 986, 316),
     (0x9E19DB92B4E31BA9, 1013, 324)]"

definition get_cached_power_for_binary_exponent :: "int \<Rightarrow> (64 word \<times> int \<times> int) option" where
  "get_cached_power_for_binary_exponent e =
     (let f = - 60 - e - 1;
          k = (f * 78913) sdiv 2 ^ 18 + (if f > 0 then 1 else 0);
          index = (300 + k + 7) sdiv 8
      in if 0 \<le> index \<and> index < 79 then Some (kCachedPowers ! nat index) else None)"

definition find_largest_pow10 :: "32 word \<Rightarrow> nat \<times> 32 word" where
  "find_largest_pow10 n =
     (if n \<ge> 1000000000 then (10, 1000000000)
      else if n \<ge> 100000000 then (9, 100000000)
      else if n \<ge> 10000000 then (8, 10000000)
      else if n \<ge> 1000000 then (7, 1000000)
      else if n \<ge> 100000 then (6, 100000)
      else if n \<ge> 10000 then (5, 10000)
      else if n \<ge> 1000 then (4, 1000)
      else if n \<ge> 100 then (3, 100)
      else if n \<ge> 10 then (2, 10)
      else (1, 1))"

subsection \<open>Generating the digits\<close>

definition digit_char :: "nat \<Rightarrow> char" where
  "digit_char d = char_of (48 + d)"

text \<open>\<open>buf[len - 1]--\<close>.\<close>

definition decrement_last :: "string \<Rightarrow> string" where
  "decrement_last buf = butlast buf @ [char_of (of_char (last buf) + 255 :: nat)]"

partial_function (option) grisu2_round ::
    "string \<Rightarrow> 64 word \<Rightarrow> 64 word \<Rightarrow> 64 word \<Rightarrow> 64 word \<Rightarrow> string option" where [code]:
  "grisu2_round buf dist delta rest ten_k =
     (if rest < dist \<and> delta - rest \<ge> ten_k \<and>
         (rest + ten_k < dist \<or> dist - rest > rest + ten_k - dist)
      then grisu2_round (decrement_last buf) dist delta (rest + ten_k) ten_k
      else Some buf)"

text \<open>The loop over the fraction. \<open>sh\<close> is \<open>-one.e\<close>, so that \<open>one.f\<close> is \<open>push_bit sh 1\<close>. The loop ends
  whatever the arguments: \<open>p2 * 10\<close> has one more trailing zero bit than \<open>p2\<close>.\<close>

function grisu2_fraction ::
    "string \<Rightarrow> nat \<Rightarrow> int \<Rightarrow> 64 word \<Rightarrow> 64 word \<Rightarrow> 64 word \<Rightarrow> nat \<Rightarrow> (string \<times> int) option" where
  "grisu2_fraction buf m decimal_exponent p2 delta dist sh =
     (let p2' = p2 * 10;
          buf' = buf @ [digit_char (unat (drop_bit sh p2'))];
          r = p2' AND (push_bit sh 1 - 1);
          delta' = delta * 10;
          dist' = dist * 10
      in if r \<le> delta' then
           map_option (\<lambda>b. (b, decimal_exponent - int (m + 1)))
             (grisu2_round buf' dist' delta' r (push_bit sh 1))
         else grisu2_fraction buf' (m + 1) decimal_exponent r delta' dist' sh)"
  by pat_completeness auto

definition odd_depth :: "64 word \<Rightarrow> nat set" where
  "odd_depth p = {i. i \<le> 64 \<and> \<not> 2 ^ i dvd unat p}"

lemma odd_depth_step:
  assumes "p * 10 AND (push_bit sh 1 - 1) \<noteq> 0"
  shows "card (odd_depth (p * 10 AND (push_bit sh 1 - 1))) < card (odd_depth p)"
proof -
  let ?r = "p * 10 AND (push_bit sh 1 - 1)"
  have "?r = take_bit sh (p * 10)"
    by (simp add: push_bit_eq_mult flip: mask_eq_exp_minus_1 take_bit_eq_mask)
  then have r: "unat ?r = (unat p * 10 mod 2 ^ 64) mod 2 ^ sh"
    by (simp only: unsigned_take_bit_eq) (simp add: take_bit_eq_mod unat_word_ariths)
  have step: "2 ^ Suc i dvd unat ?r" if "i < 64" "2 ^ i dvd unat p" for i
  proof -
    from that(2) have "(2 :: nat) ^ Suc i dvd unat p * 10"
      by (auto simp: dvd_def)
    moreover from that(1) have "(2 :: nat) ^ Suc i dvd 2 ^ 64" by (intro le_imp_power_dvd) simp
    ultimately have d: "(2 :: nat) ^ Suc i dvd unat p * 10 mod 2 ^ 64" by (rule dvd_mod)
    show ?thesis
    proof (cases "Suc i \<le> sh")
      case True
      then have "(2 :: nat) ^ Suc i dvd 2 ^ sh" by (rule le_imp_power_dvd)
      with d show ?thesis unfolding r by (rule dvd_mod)
    next
      case False
      then have "(2 :: nat) ^ sh dvd 2 ^ Suc i" by (intro le_imp_power_dvd) simp
      with d have "(2 :: nat) ^ sh dvd unat p * 10 mod 2 ^ 64" by (rule dvd_trans [rotated])
      then show ?thesis unfolding r by simp
    qed
  qed
  have fin: "finite (odd_depth p)" by (simp add: odd_depth_def)
  from assms have "p \<noteq> 0" by (cases "p = 0") simp_all
  then have "unat p \<noteq> 0" by (simp add: unat_eq_zero)
  moreover have "unat p < 2 ^ 64" using unsigned_less [of p, where ?'a = nat] by simp
  ultimately have "\<not> 2 ^ 64 dvd unat p" using dvd_imp_le [of "2 ^ 64" "unat p"] by linarith
  then have top: "64 \<in> odd_depth p" by (simp add: odd_depth_def)
  have "odd_depth ?r \<subseteq> Suc ` (odd_depth p - {64})"
  proof
    fix j assume j: "j \<in> odd_depth ?r"
    then obtain i where i: "j = Suc i" by (cases j) (auto simp: odd_depth_def)
    with j step [of i] have "i \<in> odd_depth p - {64}" by (auto simp: odd_depth_def)
    with i show "j \<in> Suc ` (odd_depth p - {64})" by simp
  qed
  then have "card (odd_depth ?r) \<le> card (Suc ` (odd_depth p - {64}))"
    by (rule card_mono [rotated]) (simp add: fin)
  also have "\<dots> < card (odd_depth p)"
    using card_Diff1_less [OF fin top] by (simp add: card_image)
  finally show ?thesis .
qed

termination grisu2_fraction
proof (relation "measure (\<lambda>(_, _, _, p2, _, _, _). card (odd_depth p2))", goal_cases)
  case (2 buf m decimal_exponent p2 delta dist sh x xa xb xc xd)
  then have "xb \<noteq> 0" by auto
  with odd_depth_step [of p2 sh] 2 show ?case by simp
qed simp

declare grisu2_fraction.simps [simp del]

text \<open>The loop over the integral part, from digit \<open>n\<close> down.\<close>

fun grisu2_integral ::
    "nat \<Rightarrow> string \<Rightarrow> int \<Rightarrow> 32 word \<Rightarrow> 32 word \<Rightarrow> 64 word \<Rightarrow> 64 word \<Rightarrow> 64 word \<Rightarrow> nat \<Rightarrow>
     (string \<times> int) option" where
  "grisu2_integral 0 buf decimal_exponent p1 pow10 p2 delta dist sh =
     grisu2_fraction buf 0 decimal_exponent p2 delta dist sh"
| "grisu2_integral (Suc n) buf decimal_exponent p1 pow10 p2 delta dist sh =
     (let buf' = buf @ [digit_char (unat (p1 div pow10))];
          r = p1 mod pow10;
          rest = push_bit sh (ucast r) + p2
      in if rest \<le> delta then
           map_option (\<lambda>b. (b, decimal_exponent + int n))
             (grisu2_round buf' dist delta rest (push_bit sh (ucast pow10)))
         else grisu2_integral n buf' decimal_exponent r (pow10 div 10) p2 delta dist sh)"

definition grisu2_digit_gen :: "int \<Rightarrow> diyfp \<Rightarrow> diyfp \<Rightarrow> diyfp \<Rightarrow> (string \<times> int) option" where
  "grisu2_digit_gen decimal_exponent M_minus w M_plus =
     (let delta = diy_f (diyfp_sub M_plus M_minus);
          dist = diy_f (diyfp_sub M_plus w);
          sh = nat (- diy_e M_plus);
          p1 = ucast (drop_bit sh (diy_f M_plus)) :: 32 word;
          p2 = diy_f M_plus AND (push_bit sh 1 - 1);
          (k, pow10) = find_largest_pow10 p1
      in grisu2_integral k [] decimal_exponent p1 pow10 p2 delta dist sh)"

definition grisu2_scaled :: "diyfp \<Rightarrow> diyfp \<Rightarrow> diyfp \<Rightarrow> (string \<times> int) option" where
  "grisu2_scaled m_minus v m_plus =
     Option.bind (get_cached_power_for_binary_exponent (diy_e m_plus)) (\<lambda>(f, e, k).
       let c_minus_k = \<lparr>diy_f = f, diy_e = e\<rparr>;
           w = diyfp_mul v c_minus_k;
           w_minus = diyfp_mul m_minus c_minus_k;
           w_plus = diyfp_mul m_plus c_minus_k;
           M_minus = \<lparr>diy_f = diy_f w_minus + 1, diy_e = diy_e w_minus\<rparr>;
           M_plus = \<lparr>diy_f = diy_f w_plus - 1, diy_e = diy_e w_plus\<rparr>
       in grisu2_digit_gen (- k) M_minus w M_plus)"

definition grisu2 :: "64 word \<Rightarrow> (string \<times> int) option" where
  "grisu2 value_bits =
     Option.bind (compute_boundaries value_bits) (\<lambda>b.
       grisu2_scaled (bound_minus b) (bound_w b) (bound_plus b))"

subsection \<open>Formatting\<close>

definition append_exponent :: "string \<Rightarrow> int \<Rightarrow> string" where
  "append_exponent buf e =
     (let k = nat \<bar>e\<bar>
      in buf @ (if e < 0 then ''-'' else ''+'') @
         (if k < 10 then [CHR ''0'', digit_char k]
          else if k < 100 then [digit_char (k div 10), digit_char (k mod 10)]
          else [digit_char (k div 100), digit_char (k mod 100 div 10), digit_char (k mod 100 mod 10)]))"

definition format_buffer :: "string \<Rightarrow> int \<Rightarrow> int \<Rightarrow> int \<Rightarrow> string" where
  "format_buffer buf decimal_exponent min_exp max_exp =
     (let k = int (length buf); n = k + decimal_exponent
      in if k \<le> n \<and> n \<le> max_exp then buf @ replicate (nat (n - k)) (CHR ''0'') @ ''.0''
         else if 0 < n \<and> n \<le> max_exp then take (nat n) buf @ ''.'' @ drop (nat n) buf
         else if min_exp < n \<and> n \<le> 0 then ''0.'' @ replicate (nat (- n)) (CHR ''0'') @ buf
         else append_exponent
           ((if k = 1 then buf else take 1 buf @ ''.'' @ drop 1 buf) @ ''e'') (n - 1))"

definition dtoa_to_chars :: "64 word \<Rightarrow> string option" where
  "dtoa_to_chars value_bits =
     (let sign = (if bit value_bits 63 then ''-'' else []);
          v = value_bits AND (push_bit 63 1 - 1)
      in if v = 0 then Some (sign @ ''0.0'')
         else Option.bind (grisu2 v) (\<lambda>(buf, decimal_exponent).
           Some (sign @ format_buffer buf decimal_exponent (- 4) 15)))"

end
