(* ===== verification/Grisu_Powers.thy ===== *)
theory Grisu_Powers
  imports Complex_Main Dtoa
begin

section \<open>The cached powers of ten\<close>

text \<open>
  Every entry \<open>(f, e, k)\<close> of the table is the power \<open>10^k\<close> rounded to the nearest 64-bit significand, and
  the entry that is chosen scales a number into the range the digit generation needs.
\<close>

subsection \<open>The table\<close>

text \<open>The table is checked from \<open>10^4\<close> upwards and downwards, with the power of five carried along.\<close>

definition near :: "int \<Rightarrow> int \<Rightarrow> int \<Rightarrow> bool" where
  "near a b c \<longleftrightarrow> 2 * a \<le> 2 * b + c \<and> 2 * b \<le> 2 * a + c"

definition fits_index :: "64 word \<times> int \<times> int \<Rightarrow> bool" where
  "fits_index = (\<lambda>(f, e, k). 2 ^ 63 \<le> uint f \<and> 78913 * (e + 34) < (k - 8) * 2 ^ 18 \<and> k * 2 ^ 18 < 78913 * (e + 64))"

fun chain_up :: "int \<Rightarrow> int \<Rightarrow> (64 word \<times> int \<times> int) list \<Rightarrow> bool" where
  "chain_up k p [] = True"
| "chain_up k p ((f, e, k') # xs) = (k' = k \<and> fits_index (f, e, k') \<and>
     near (uint f * 2 ^ nat (e - k)) (p * 2 ^ nat (k - e)) (2 ^ nat (e - k)) \<and> chain_up (k + 8) (p * 390625) xs)"

fun chain_down :: "int \<Rightarrow> int \<Rightarrow> (64 word \<times> int \<times> int) list \<Rightarrow> bool" where
  "chain_down n p [] = True"
| "chain_down n p ((f, e, k) # xs) = (k = - n \<and> fits_index (f, e, k) \<and> n + e \<le> 0 \<and>
     near (uint f * p) (2 ^ nat (- e - n)) p \<and> chain_down (n + 8) (p * 390625) xs)"

lemma table_up: "chain_up 4 625 (drop 38 kCachedPowers)"
  by code_simp

lemma table_down: "chain_down 4 625 (rev (take 38 kCachedPowers))"
  by code_simp

lemma table_length: "length kCachedPowers = 79"
  by code_simp

text \<open>\<open>f * 2^e\<close> is within half a unit of \<open>10^k\<close>.\<close>

definition power_ok :: "64 word \<times> int \<times> int \<Rightarrow> bool" where
  "power_ok = (\<lambda>(f, e, k).
     \<bar>real (unat f) * 2 powi e - 10 powi k\<bar> \<le> 2 powi e / 2 \<and> fits_index (f, e, k))"

lemma near_real: "near a b c \<longleftrightarrow> \<bar>real_of_int a - real_of_int b\<bar> \<le> real_of_int c / 2"
  unfolding near_def by linarith

lemma near_up:
  assumes "near (uint f * 2 ^ nat (e - k)) (5 ^ nat k * 2 ^ nat (k - e)) (2 ^ nat (e - k))" and "0 \<le> k"
    and "fits_index (f, e, k)"
  shows "power_ok (f, e, k)"
proof -
  define c :: real where "c = 2 powi (k - int (nat (k - e)))"
  have c: "0 < c" by (simp add: c_def)
  have e: "2 ^ nat (e - k) * c = 2 powi e"
    by (simp add: c_def power_int_of_nat [symmetric] power_int_add [symmetric] del: power_int_of_nat)
  have k: "5 ^ nat k * 2 ^ nat (k - e) * c = 10 powi k"
  proof -
    have "2 ^ nat (k - e) * c = (2 :: real) ^ nat k"
      using assms(2) by (simp add: c_def power_int_of_nat [symmetric] power_int_add [symmetric] del: power_int_of_nat)
    moreover have "(5 :: real) ^ nat k * 2 ^ nat k = 10 ^ nat k" by (simp add: power_mult_distrib [symmetric])
    ultimately show ?thesis using assms(2) by (simp add: mult.assoc power_int_def)
  qed
  from assms(1) have "\<bar>real (unat f) * 2 ^ nat (e - k) - 5 ^ nat k * 2 ^ nat (k - e)\<bar> \<le> 2 ^ nat (e - k) / 2"
    by (simp add: near_real)
  then have "\<bar>real (unat f) * 2 ^ nat (e - k) - 5 ^ nat k * 2 ^ nat (k - e)\<bar> * c \<le> 2 ^ nat (e - k) / 2 * c"
    using c by (intro mult_right_mono) simp_all
  also have "\<bar>real (unat f) * 2 ^ nat (e - k) - 5 ^ nat k * 2 ^ nat (k - e)\<bar> * c =
      \<bar>real (unat f) * (2 ^ nat (e - k) * c) - 5 ^ nat k * 2 ^ nat (k - e) * c\<bar>"
    using c by (simp add: abs_mult_pos left_diff_distrib mult.assoc)
  finally show ?thesis unfolding k power_ok_def using e assms(3) by simp
qed

lemma near_down:
  assumes "near (uint f * 5 ^ nat n) (2 ^ nat (- e - n)) (5 ^ nat n)" and "0 \<le> n" and "n + e \<le> 0"
    and "fits_index (f, e, - n)"
  shows "power_ok (f, e, - n)"
proof -
  define c :: real where "c = 2 powi e / 5 ^ nat n"
  have c: "0 < c" by (simp add: c_def)
  have "(2 :: real) ^ nat (- e - n) * 2 powi e = 2 powi (- n)"
    using assms(3) by (simp add: power_int_of_nat [symmetric] power_int_add [symmetric] del: power_int_of_nat)
  then have k: "2 ^ nat (- e - n) * c = 10 powi (- n)"
    using assms(2) power_mult_distrib [of "2 :: real" 5 "nat n"]
    by (simp add: c_def power_int_def field_simps)
  from assms(1) have "\<bar>real (unat f) * 5 ^ nat n - 2 ^ nat (- e - n)\<bar> \<le> 5 ^ nat n / 2"
    by (simp add: near_real)
  then have "\<bar>real (unat f) * 5 ^ nat n - 2 ^ nat (- e - n)\<bar> * c \<le> 5 ^ nat n / 2 * c"
    using c by (intro mult_right_mono) simp_all
  also have "\<bar>real (unat f) * 5 ^ nat n - 2 ^ nat (- e - n)\<bar> * c =
      \<bar>real (unat f) * (5 ^ nat n * c) - 2 ^ nat (- e - n) * c\<bar>"
    using c by (simp add: abs_mult_pos left_diff_distrib mult.assoc)
  finally show ?thesis unfolding k power_ok_def using assms(4) by (simp add: c_def)
qed

lemma chain_up_ok:
  assumes "chain_up k p xs" and "0 \<le> k" and "p = 5 ^ nat k" and "i < length xs"
  shows "power_ok (xs ! i) \<and> snd (snd (xs ! i)) = k + 8 * int i"
  using assms
proof (induction k p xs arbitrary: i rule: chain_up.induct)
  case (2 k p f e k' xs)
  have "5 ^ nat k * 390625 = (5 :: int) ^ nat (k + 8)"
    using "2.prems"(2) by (simp add: nat_add_distrib power_add)
  with 2 show ?case
    by (cases i) (auto simp: near_up)
qed simp

lemma chain_down_ok:
  assumes "chain_down n p xs" and "0 \<le> n" and "p = 5 ^ nat n" and "i < length xs"
  shows "power_ok (xs ! i) \<and> snd (snd (xs ! i)) = - n - 8 * int i"
  using assms
proof (induction n p xs arbitrary: i rule: chain_down.induct)
  case (2 n p f e k xs)
  have "5 ^ nat n * 390625 = (5 :: int) ^ nat (n + 8)"
    using "2.prems"(2) by (simp add: nat_add_distrib power_add)
  with 2 show ?case
    by (cases i) (auto simp: near_down)
qed simp

lemma table_ok:
  assumes "i < 79"
  shows "power_ok (kCachedPowers ! i)" "snd (snd (kCachedPowers ! i)) = 8 * int i - 300"
proof -
  have "power_ok (kCachedPowers ! i) \<and> snd (snd (kCachedPowers ! i)) = 8 * int i - 300"
  proof (cases "38 \<le> i")
    case True
    with assms chain_up_ok [OF table_up, of "i - 38"] table_length show ?thesis by simp
  next
    case False
    then have "rev (take 38 kCachedPowers) ! (37 - i) = kCachedPowers ! i"
      using table_length by (simp add: rev_nth)
    with False chain_down_ok [OF table_down, of "37 - i"] table_length show ?thesis by simp
  qed
  then show "power_ok (kCachedPowers ! i)" "snd (snd (kCachedPowers ! i)) = 8 * int i - 300" by simp_all
qed

subsection \<open>The choice\<close>

lemma cached_power_choice:
  assumes "- 1137 \<le> q" and "q \<le> 960"
  obtains f e k where "get_cached_power_for_binary_exponent q = Some (f, e, k)" "power_ok (f, e, k)"
    "- 60 \<le> e + q + 64" "e + q + 64 \<le> - 32"
proof -
  define x where "x = - 61 - q"
  define k0 where "k0 = (x * 78913) sdiv 2 ^ 18 + (if x > 0 then 1 else 0)"
  define index where "index = (300 + k0 + 7) sdiv 8"
  have x: "- 1021 \<le> x" "x \<le> 1076" using assms by (simp_all add: x_def)
  have div_bounds: "y div 262144 * 262144 \<le> y \<and> y < (y div 262144 + 1) * 262144" for y :: int
    using div_mult_mod_eq [of y 262144] pos_mod_bound [of 262144 y] pos_mod_sign [of 262144 y]
    by (simp only: distrib_right) linarith
  have k0: "(k0 - 1) * 2 ^ 18 \<le> x * 78913" "x * 78913 \<le> k0 * 2 ^ 18"
    using div_bounds [of "x * 78913"] div_bounds [of "- (x * 78913)"]
    by (auto simp: k0_def signed_divide_int_def sgn_if split: if_splits)
  with x have "- 307 \<le> k0" "k0 \<le> 324" by simp_all
  then have index8: "index = (307 + k0) div 8" by (simp add: index_def signed_divide_int_def sgn_if)
  with \<open>- 307 \<le> k0\<close> \<open>k0 \<le> 324\<close> have range: "0 \<le> index" "index < 79" by simp_all
  have "index * 8 \<le> 307 + k0" "307 + k0 < index * 8 + 8" unfolding index8 by presburger+
  obtain f e k where entry: "kCachedPowers ! nat index = (f, e, k)" by (metis prod_cases3)
  have "nat index < 79" using range by simp
  from table_ok [OF this] entry range have ok: "power_ok (f, e, k)" "k = 8 * index - 300" by simp_all
  from ok(1) have "78913 * (e + 34) < (k - 8) * 2 ^ 18" "k * 2 ^ 18 < 78913 * (e + 64)"
    by (simp_all add: power_ok_def fits_index_def)
  with k0 ok(2) \<open>index * 8 \<le> 307 + k0\<close> \<open>307 + k0 < index * 8 + 8\<close>
  have "e + 34 < x" "x < e + 64" by simp_all
  then have "- 60 \<le> e + q + 64" "e + q + 64 \<le> - 32" by (simp_all add: x_def)
  moreover have "get_cached_power_for_binary_exponent q = Some (f, e, k)"
    using range entry unfolding get_cached_power_for_binary_exponent_def Let_def
    by (simp add: index_def k0_def x_def)
  ultimately show ?thesis using ok(1) by (intro that)
qed

end
