(* ===== verification/Strtod.thy ===== *)
theory Strtod
  imports Machine
begin

section \<open>Reading numbers\<close>

text \<open>
  The functions of the C library the lexer of \<open>json.hpp\<close> converts a number with, on the texts the lexer
  has accepted: \<open>strtoull\<close> and \<open>strtoll\<close> with their range check (\<open>None\<close> stands for \<open>ERANGE\<close>), and \<open>strtod\<close>,
  which rounds the exact decimal value to the nearest double, ties to even, and to infinity above the
  largest one.
\<close>

definition is_digit :: "char \<Rightarrow> bool" where
  "is_digit c \<longleftrightarrow> CHR ''0'' \<le> c \<and> c \<le> CHR ''9''"

definition digit_value :: "char \<Rightarrow> nat" where
  "digit_value c = of_char c - 48"

definition digits_value :: "string \<Rightarrow> nat" where
  "digits_value s = foldl (\<lambda>n c. 10 * n + digit_value c) 0 s"

definition strtoull :: "string \<Rightarrow> 64 word option" where
  "strtoull s = (let n = digits_value s in if n < 2 ^ 64 then Some (of_nat n) else None)"

text \<open>The text of a negative number: a minus sign and digits.\<close>

definition strtoll :: "string \<Rightarrow> 64 word option" where
  "strtoll s = (let v = - int (digits_value (drop 1 s))
     in if - (2 ^ 63) \<le> v then Some (word_of_int v) else None)"

text \<open>\<open>num / den\<close> rounded to the nearest integer, ties to even.\<close>

definition round_ratio :: "nat \<Rightarrow> nat \<Rightarrow> nat" where
  "round_ratio num den =
     (let q = num div den; r = num mod den
      in if den < 2 * r \<or> (den = 2 * r \<and> odd q) then q + 1 else q)"

text \<open>The largest \<open>e\<close> with \<open>2^e * den \<le> num\<close>, for positive numbers.\<close>

definition ratio_exponent :: "nat \<Rightarrow> nat \<Rightarrow> int" where
  "ratio_exponent num den =
     (let e = int (bit_length num) - int (bit_length den)
      in if den * 2 ^ nat e \<le> num * 2 ^ nat (- e) then e else e - 1)"

text \<open>The bits of the double nearest to \<open>num / den\<close>.\<close>

definition ratio_to_double :: "nat \<Rightarrow> nat \<Rightarrow> nat" where
  "ratio_to_double num den =
     (if num = 0 then 0
      else
        (let q = max (ratio_exponent num den - 52) (fp_emin 11 52);
             sig = round_ratio (num * 2 ^ nat (- q)) (den * 2 ^ nat q)
         in min (nat (q - fp_emin 11 52) * 2 ^ 52 + sig) ((2 ^ 11 - 1) * 2 ^ 52)))"

text \<open>The decimal value of the text: an optional minus sign, digits, an optional fraction, an optional
  exponent.\<close>

definition strtod :: "string \<Rightarrow> 64 word" where
  "strtod s =
     (let negative = (take 1 s = ''-'');
          t = (if negative then drop 1 s else s);
          whole = takeWhile is_digit t;
          t1 = dropWhile is_digit t;
          fraction = (if take 1 t1 = ''.'' then takeWhile is_digit (drop 1 t1) else []);
          t2 = (if take 1 t1 = ''.'' then dropWhile is_digit (drop 1 t1) else t1);
          e = (case t2 of
                 [] \<Rightarrow> 0
               | _ # u \<Rightarrow>
                   if take 1 u = ''-'' then - int (digits_value (takeWhile is_digit (drop 1 u)))
                   else int (digits_value (takeWhile is_digit
                     (if take 1 u = ''+'' then drop 1 u else u))));
          x = e - int (length fraction);
          n = digits_value (whole @ fraction);
          bits = ratio_to_double (n * 10 ^ nat x) (10 ^ nat (- x))
      in of_nat (bits + (if negative then 2 ^ 63 else 0)))"

end
