(* ===== verification/Grisu_Digits.thy ===== *)
theory Grisu_Digits
  imports Dtoa Strtod
begin

unbundle bit_operations_syntax

section \<open>The digits Grisu2 generates\<close>

text \<open>
  What the loops of \<open>grisu2_digit_gen\<close> compute, as natural numbers: the digits are a number in the
  interval from \<open>M_minus\<close> to \<open>M_plus\<close>, and none of the products and shifts overflows.
\<close>

subsection \<open>Words as natural numbers\<close>

lemma unat_less_64: "unat (x :: 64 word) < 2 ^ 64"
  using unsigned_less [of x, where ?'a = nat] by simp

lemma unat_mult_64: "unat x * unat y < 2 ^ 64 \<Longrightarrow> unat (x * y) = unat x * unat y" for x y :: "64 word"
  by (simp add: unat_word_ariths)

lemma unat_plus_64: "unat x + unat y < 2 ^ 64 \<Longrightarrow> unat (x + y) = unat x + unat y" for x y :: "64 word"
  by (simp add: unat_word_ariths)

lemma unat_minus_64: "y \<le> x \<Longrightarrow> unat (x - y) = unat x - unat y" for x y :: "64 word"
  by (rule unat_sub)

lemma unat_push_bit_64: "unat x * 2 ^ n < 2 ^ 64 \<Longrightarrow> unat (push_bit n x) = unat x * 2 ^ n" for x :: "64 word"
  by (simp only: unsigned_push_bit_eq) (simp add: take_bit_eq_mod push_bit_eq_mult)

lemma unat_drop_bit_64: "unat (drop_bit n x) = unat x div 2 ^ n" for x :: "64 word"
  by (simp only: unsigned_drop_bit_eq) (simp add: take_bit_eq_mod drop_bit_eq_div unat_less_64 [simplified])

lemma unat_mask_64: "unat (x AND (push_bit n 1 - 1)) = unat x mod 2 ^ n" for x :: "64 word"
proof -
  have "x AND (push_bit n 1 - 1) = take_bit n x"
    by (simp add: push_bit_eq_mult flip: mask_eq_exp_minus_1 take_bit_eq_mask)
  then show ?thesis by (simp only: unsigned_take_bit_eq) (simp add: take_bit_eq_mod)
qed

subsection \<open>The product\<close>

text \<open>The product of two significands is rounded to the nearest.\<close>

lemma mul_halves:
  fixes a b c d M :: nat
  assumes "0 < M"
  shows "((b * M + a) * (d * M + c) + h * M) div (M * M) =
    b * d + b * c div M + a * d div M + (a * c div M + a * d mod M + b * c mod M + h) div M"
proof -
  let ?Q = "a * c div M + a * d mod M + b * c mod M + h"
  define ac ac' ad ad' bc bc' where
    defs: "ac = a * c div M" "ac' = a * c mod M" "ad = a * d div M" "ad' = a * d mod M"
      "bc = b * c div M" "bc' = b * c mod M"
  have split: "a * c = ac * M + ac'" "a * d = ad * M + ad'" "b * c = bc * M + bc'" by (simp_all add: defs)
  have "(b * M + a) * (d * M + c) + h * M = b * d * (M * M) + (b * c) * M + (a * d) * M + a * c + h * M"
    by (simp add: algebra_simps)
  also have "\<dots> = (b * d + bc + ad) * (M * M) + ((ac + ad' + bc' + h) * M + ac')"
    unfolding split by (simp add: algebra_simps)
  finally have "(b * M + a) * (d * M + c) + h * M =
      (b * d + b * c div M + a * d div M) * (M * M) + (?Q * M + a * c mod M)"
    by (simp add: defs)
  then have "((b * M + a) * (d * M + c) + h * M) div (M * M) = b * d + b * c div M + a * d div M + (?Q * M + a * c mod M) div (M * M)"
    using assms by simp
  also have "(?Q * M + a * c mod M) div (M * M) = (?Q * M + a * c mod M) div M div M"
    by (simp add: div_mult2_eq)
  also have "(?Q * M + a * c mod M) div M = ?Q"
    using assms by simp
  finally show ?thesis .
qed

lemma diyfp_mul_f: "unat (diy_f (diyfp_mul x y)) = (unat (diy_f x) * unat (diy_f y) + 2 ^ 63) div 2 ^ 64"
proof -
  define u v where "u = diy_f x" and "v = diy_f y"
  define a b c d where "a = unat u mod 2 ^ 32" and "b = unat u div 2 ^ 32"
    and "c = unat v mod 2 ^ 32" and "d = unat v div 2 ^ 32"
  have mask: "(0xFFFFFFFF :: 64 word) = push_bit 32 1 - 1" by simp
  have ab: "unat (u AND 0xFFFFFFFF) = a" "unat (drop_bit 32 u) = b"
    "unat (v AND 0xFFFFFFFF) = c" "unat (drop_bit 32 v) = d"
    unfolding mask by (simp_all only: unat_mask_64 unat_drop_bit_64 a_def b_def c_def d_def)
  have small: "a < 2 ^ 32" "b < 2 ^ 32" "c < 2 ^ 32" "d < 2 ^ 32"
    using unat_less_64 [of u] unat_less_64 [of v] by (simp_all add: a_def b_def c_def d_def less_mult_imp_div_less)
  have prod: "x' * y' < 2 ^ 64" if "x' < 2 ^ 32" "y' < 2 ^ 32" for x' y' :: nat
    using mult_strict_mono [OF that] by simp
  define p0 p1 p2 p3 where "p0 = (u AND 0xFFFFFFFF) * (v AND 0xFFFFFFFF)" and "p1 = (u AND 0xFFFFFFFF) * drop_bit 32 v"
    and "p2 = drop_bit 32 u * (v AND 0xFFFFFFFF)" and "p3 = drop_bit 32 u * drop_bit 32 v"
  have p: "unat p0 = a * c" "unat p1 = a * d" "unat p2 = b * c" "unat p3 = b * d"
    by (simp_all only: p0_def p1_def p2_def p3_def unat_mult_64 ab prod [OF small(1,3)] prod [OF small(1,4)]
        prod [OF small(2,3)] prod [OF small(2,4)])
  define Q where "Q = drop_bit 32 p0 + (p1 AND 0xFFFFFFFF) + (p2 AND 0xFFFFFFFF) + push_bit 31 1"
  have parts: "unat (drop_bit 32 p0) = a * c div 2 ^ 32" "unat (p1 AND 0xFFFFFFFF) = a * d mod 2 ^ 32"
    "unat (p2 AND 0xFFFFFFFF) = b * c mod 2 ^ 32" "unat (push_bit 31 1 :: 64 word) = 2 ^ 31"
    unfolding mask by (simp_all only: unat_mask_64 unat_drop_bit_64 p) simp
  have "a * c div 2 ^ 32 < 2 ^ 32" using prod [OF small(1,3)] by (simp add: less_mult_imp_div_less)
  then have Q: "unat Q = a * c div 2 ^ 32 + a * d mod 2 ^ 32 + b * c mod 2 ^ 32 + 2 ^ 31"
    unfolding Q_def using mod_less_divisor [of "2 ^ 32" "a * d"] mod_less_divisor [of "2 ^ 32" "b * c"]
    by (simp add: unat_plus_64 parts)
  have uv: "unat u = b * 2 ^ 32 + a" "unat v = d * 2 ^ 32 + c" by (simp_all add: a_def b_def c_def d_def)
  have total: "(unat u * unat v + 2 ^ 63) div 2 ^ 64 =
      b * d + b * c div 2 ^ 32 + a * d div 2 ^ 32 + unat Q div 2 ^ 32"
    using mul_halves [of "2 ^ 32" b a d c "2 ^ 31"] unfolding Q uv by simp
  have "unat u * unat v \<le> (2 ^ 64 - 1) * (2 ^ 64 - 1)"
    using unat_less_64 [of u] unat_less_64 [of v] by (intro mult_le_mono) simp_all
  then have "(unat u * unat v + 2 ^ 63) div 2 ^ 64 < 2 ^ 64" by (intro less_mult_imp_div_less) simp
  then have "unat (p3 + drop_bit 32 p2 + drop_bit 32 p1 + drop_bit 32 Q) =
      b * d + b * c div 2 ^ 32 + a * d div 2 ^ 32 + unat Q div 2 ^ 32"
    unfolding total by (simp add: unat_plus_64 unat_drop_bit_64 p)
  then show ?thesis
    unfolding u_def [symmetric] v_def [symmetric] total
    by (simp add: diyfp_mul_def Let_def Q_def p0_def p1_def p2_def p3_def u_def v_def)
qed

subsection \<open>Rounding the last digit\<close>

lemma digits_value_snoc: "digits_value (s @ [c]) = 10 * digits_value s + digit_value c"
  by (simp add: digits_value_def)

lemma digit_char_facts: "d < 10 \<Longrightarrow> is_digit (digit_char d)" "d < 10 \<Longrightarrow> digit_value (digit_char d) = d"
  by (simp_all add: is_digit_def digit_value_def digit_char_def less_eq_char_def)

lemma decrement_last_digit: "0 < d \<Longrightarrow> d < 10 \<Longrightarrow> decrement_last (buf @ [digit_char d]) = buf @ [digit_char (d - 1)]"
proof -
  assume d: "0 < d" "d < 10"
  then have "(48 + d + 255) mod 256 = 48 + (d - 1)" by (simp add: mod_if)
  then have "char_of (48 + d + 255) = (char_of (48 + (d - 1)) :: char)"
    by (metis char_of_mod_256)
  with d show ?thesis by (simp add: decrement_last_def digit_char_def)
qed

text \<open>While the digit is decremented, the rest stays below \<open>delta\<close>, and the digit above zero.\<close>

lemma grisu2_round_digit:
  assumes "d < 10" and "unat rest + d * unat ten_k > unat delta" and "unat rest \<le> unat delta" and "0 < ten_k"
  shows "\<exists>d' rest'. grisu2_round (buf @ [digit_char d]) dist delta rest ten_k = Some (buf @ [digit_char d']) \<and>
    0 < d' \<and> d' < 10 \<and> rest' \<le> unat delta \<and> rest' + d' * unat ten_k = unat rest + d * unat ten_k"
  using assms
proof (induction d arbitrary: rest)
  case 0
  then show ?case by simp
next
  case (Suc d)
  show ?case
  proof (cases "rest < dist \<and> delta - rest \<ge> ten_k \<and> (rest + ten_k < dist \<or> dist - rest > rest + ten_k - dist)")
    case False
    then have "grisu2_round (buf @ [digit_char (Suc d)]) dist delta rest ten_k = Some (buf @ [digit_char (Suc d)])"
      by (subst grisu2_round.simps) auto
    with Suc.prems show ?thesis by (intro exI [of _ "Suc d"] exI [of _ "unat rest"]) simp
  next
    case True
    from Suc.prems(3) have le: "rest \<le> delta" by (simp add: word_le_nat_alt)
    from True have "unat ten_k \<le> unat delta - unat rest"
      by (simp add: word_le_nat_alt unat_minus_64 [OF le])
    with Suc.prems(3) have sum: "unat rest + unat ten_k \<le> unat delta" by simp
    then have rest: "unat (rest + ten_k) = unat rest + unat ten_k"
      using unat_less_64 [of delta] by (intro unat_plus_64) simp
    have "grisu2_round (buf @ [digit_char (Suc d)]) dist delta rest ten_k =
        grisu2_round (buf @ [digit_char d]) dist delta (rest + ten_k) ten_k"
      using True decrement_last_digit [of "Suc d" buf] Suc.prems(1) by (subst grisu2_round.simps) simp
    with Suc.IH [of "rest + ten_k"] Suc.prems rest sum show ?thesis by (simp add: algebra_simps)
  qed
qed

subsection \<open>The loops over the digits\<close>

lemma digits_value_append: "digits_value (s @ t) = digits_value s * 10 ^ length t + digits_value t"
  by (induction t rule: rev_induct) (simp_all add: digits_value_snoc append_assoc [symmetric] algebra_simps
      del: append_assoc, simp add: digits_value_def)

lemma digits_value_digit: "d < 10 \<Longrightarrow> digits_value [digit_char d] = d"
  by (simp add: digits_value_def digit_char_facts)

lemma grisu2_fraction_digits:
  assumes "unat delta < unat p2" and "unat p2 < 2 ^ sh" and "sh \<le> 60"
  shows "\<exists>ds rest. grisu2_fraction buf m dexp p2 delta dist sh = Some (buf @ ds, dexp - int (m + length ds)) \<and>
    list_all is_digit ds \<and> unat p2 * 10 ^ length ds = digits_value ds * 2 ^ sh + rest \<and>
    rest \<le> unat delta * 10 ^ length ds"
  using assms
proof (induction buf m dexp p2 delta dist sh rule: grisu2_fraction.induct)
  case (1 buf m dexp p2 delta dist sh)
  define p2' d r where "p2' = p2 * 10" and "d = unat (drop_bit sh p2')" and "r = p2' AND (push_bit sh 1 - 1)"
  have "(2 :: nat) ^ sh \<le> 2 ^ 60" using "1.prems"(3) by (intro power_increasing) simp_all
  with "1.prems" have small: "unat p2 * 10 < 2 ^ 64" "unat delta * 10 < 2 ^ 64" by simp_all
  have p2': "unat p2' = unat p2 * 10" unfolding p2'_def using small(1) by (simp add: unat_mult_64)
  have delta': "unat (delta * 10) = unat delta * 10" using small(2) by (simp add: unat_mult_64)
  have r: "unat r = unat p2 * 10 mod 2 ^ sh" unfolding r_def unat_mask_64 p2' ..
  have d: "d = unat p2 * 10 div 2 ^ sh" unfolding d_def unat_drop_bit_64 p2' ..
  have d10: "d < 10" unfolding d using "1.prems"(2) by (simp add: less_mult_imp_div_less)
  have split: "unat p2 * 10 = d * 2 ^ sh + unat r" unfolding d r by (rule div_mult_mod_eq [symmetric])
  have one: "unat (push_bit sh 1 :: 64 word) = 2 ^ sh"
    using \<open>(2 :: nat) ^ sh \<le> 2 ^ 60\<close> unat_push_bit_64 [of 1 sh] by simp
  show ?case
  proof (cases "r \<le> delta * 10")
    case True
    have "unat (delta * 10) < unat r + d * unat (push_bit sh 1 :: 64 word)"
      using split "1.prems"(1) delta' one by simp
    moreover have "unat r \<le> unat (delta * 10)" using True by (simp add: word_le_nat_alt)
    moreover have "0 < (push_bit sh 1 :: 64 word)" using one by (simp add: word_less_nat_alt)
    ultimately obtain d' rest where
      round: "grisu2_round (buf @ [digit_char d]) (dist * 10) (delta * 10) r (push_bit sh 1) = Some (buf @ [digit_char d'])"
        "d' < 10" "rest \<le> unat (delta * 10)"
      and sum: "rest + d' * unat (push_bit sh 1 :: 64 word) = unat r + d * unat (push_bit sh 1 :: 64 word)"
      using grisu2_round_digit [OF d10, of "delta * 10" r "push_bit sh 1" buf "dist * 10"] by blast
    have "grisu2_fraction buf m dexp p2 delta dist sh =
        map_option (\<lambda>b. (b, dexp - int (m + 1)))
          (grisu2_round (buf @ [digit_char d]) (dist * 10) (delta * 10) r (push_bit sh 1))"
      using True unfolding r_def d_def p2'_def by (subst grisu2_fraction.simps) (simp only: Let_def if_True)
    moreover have "unat p2 * 10 = d' * 2 ^ sh + rest" using sum split unfolding one by simp
    ultimately show ?thesis using round
      by (intro exI [of _ "[digit_char d']"] exI [of _ rest])
        (simp add: digit_char_facts digits_value_digit delta')
  next
    case False
    then have "unat (delta * 10) < unat r" by (simp add: word_le_nat_alt)
    moreover have "unat r < 2 ^ sh" unfolding r by simp
    ultimately obtain ds rest where
      ds: "grisu2_fraction (buf @ [digit_char d]) (m + 1) dexp r (delta * 10) (dist * 10) sh =
        Some ((buf @ [digit_char d]) @ ds, dexp - int (m + 1 + length ds))" "list_all is_digit ds"
      "unat r * 10 ^ length ds = digits_value ds * 2 ^ sh + rest" "rest \<le> unat (delta * 10) * 10 ^ length ds"
      using "1.IH" [OF p2'_def refl r_def refl refl] False "1.prems"(3) unfolding d_def by blast
    have "grisu2_fraction buf m dexp p2 delta dist sh =
        Some (buf @ digit_char d # ds, dexp - int (m + length (digit_char d # ds)))"
      using ds(1) False unfolding r_def d_def p2'_def
      by (subst grisu2_fraction.simps) (simp only: Let_def if_False, simp)
    moreover have "unat p2 * 10 ^ length (digit_char d # ds) = digits_value (digit_char d # ds) * 2 ^ sh + rest"
    proof -
      have "unat p2 * 10 ^ length (digit_char d # ds) = (d * 2 ^ sh + unat r) * 10 ^ length ds"
        by (simp add: split [symmetric])
      also have "\<dots> = (d * 10 ^ length ds + digits_value ds) * 2 ^ sh + rest"
        using ds(3) by (simp add: algebra_simps)
      also have "d * 10 ^ length ds + digits_value ds = digits_value (digit_char d # ds)"
        using digits_value_append [of "[digit_char d]" ds] d10 by (simp add: digits_value_digit)
      finally show ?thesis .
    qed
    ultimately show ?thesis using ds(2,4) d10
      by (intro exI [of _ "digit_char d # ds"] exI [of _ rest]) (simp add: digit_char_facts delta')
  qed
qed

text \<open>What the digits \<open>ds\<close> and their exponent \<open>x\<close> are for a number \<open>T\<close> and an interval of length \<open>delta\<close> below
  it.\<close>

definition digits_of :: "nat \<Rightarrow> nat \<Rightarrow> nat \<Rightarrow> string \<Rightarrow> int \<Rightarrow> bool" where
  "digits_of T delta one ds x \<longleftrightarrow> list_all is_digit ds \<and>
     (\<exists>rest. T * 10 ^ nat (- x) = digits_value ds * 10 ^ nat x * one + rest \<and> rest \<le> delta * 10 ^ nat (- x))"

lemma digits_of_Cons:
  assumes "digits_of T' delta one ds (int n - int (length ds))" and "d < 10" and "T = d * 10 ^ n * one + T'"
  shows "digits_of T delta one (digit_char d # ds) (int n - int (length ds))"
proof -
  let ?x = "int n - int (length ds)"
  from assms(1) obtain rest where rest: "T' * 10 ^ nat (- ?x) = digits_value ds * 10 ^ nat ?x * one + rest"
    "rest \<le> delta * 10 ^ nat (- ?x)" and ds: "list_all is_digit ds" by (auto simp: digits_of_def)
  have exps: "(10 :: nat) ^ n * 10 ^ nat (- ?x) = 10 ^ length ds * 10 ^ nat ?x"
    unfolding power_add [symmetric] by (rule arg_cong [where f = "power 10"]) linarith
  have "T * 10 ^ nat (- ?x) = d * (10 ^ n * 10 ^ nat (- ?x)) * one + T' * 10 ^ nat (- ?x)"
    unfolding assms(3) by (simp add: algebra_simps)
  also have "\<dots> = (d * 10 ^ length ds + digits_value ds) * 10 ^ nat ?x * one + rest"
    unfolding exps rest(1) by (simp add: algebra_simps)
  also have "d * 10 ^ length ds + digits_value ds = digits_value (digit_char d # ds)"
    using digits_value_append [of "[digit_char d]" ds] assms(2) by (simp add: digits_value_digit)
  finally show ?thesis using rest(2) ds assms(2) by (auto simp: digits_of_def digit_char_facts)
qed

lemma unat_ucast_32: "unat (ucast (w :: 32 word) :: 64 word) = unat w"
proof -
  have "unat w < 2 ^ 32" using unsigned_less [of w, where ?'a = nat] by simp
  then show ?thesis by (simp only: unsigned_ucast_eq) (simp add: take_bit_eq_mod)
qed

lemma grisu2_integral_digits:
  assumes "unat p1 < 10 ^ n" and "0 < n \<Longrightarrow> unat pow10 = 10 ^ (n - 1)" and "unat p2 < 2 ^ sh" and "sh \<le> 60"
    and "unat p1 * 2 ^ sh + unat p2 < 2 ^ 64" and "unat delta < unat p1 * 2 ^ sh + unat p2"
    and "0 < n \<Longrightarrow> 10 ^ (n - 1) * 2 ^ sh < (2 :: nat) ^ 64"
  shows "\<exists>ds. grisu2_integral n buf dexp p1 pow10 p2 delta dist sh =
      Some (buf @ ds, dexp + (int n - int (length ds))) \<and>
    digits_of (unat p1 * 2 ^ sh + unat p2) (unat delta) (2 ^ sh) ds (int n - int (length ds)) \<and>
    (0 < n \<longrightarrow> 10 ^ (n - 1) \<le> unat p1 \<longrightarrow> ds \<noteq> [] \<and> hd ds \<noteq> CHR ''0'')"
  using assms
proof (induction n arbitrary: buf p1 pow10)
  case 0
  then show ?case using grisu2_fraction_digits [of delta p2 sh buf 0 dexp dist]
    by (auto simp: digits_of_def)
next
  case (Suc n)
  let ?T = "unat p1 * 2 ^ sh + unat p2"
  define d r where "d = unat (p1 div pow10)" and "r = p1 mod pow10"
  have pow10: "unat pow10 = 10 ^ n" using Suc.prems(2) by simp
  have d: "d = unat p1 div 10 ^ n" and r: "unat r = unat p1 mod 10 ^ n"
    unfolding d_def r_def by (simp_all add: unat_div unat_mod pow10)
  have d10: "d < 10" using Suc.prems(1) unfolding d by (simp add: less_mult_imp_div_less mult.commute)
  have split: "unat p1 = d * 10 ^ n + unat r" unfolding d r by (rule div_mult_mod_eq [symmetric])
  have T: "?T = d * 10 ^ n * 2 ^ sh + (unat r * 2 ^ sh + unat p2)" unfolding split by (simp add: algebra_simps)
  with Suc.prems(5) have small: "unat r * 2 ^ sh + unat p2 < 2 ^ 64" by simp
  have push: "unat (push_bit sh (ucast r) :: 64 word) = unat r * 2 ^ sh"
    using unat_push_bit_64 [of "ucast r" sh] add_lessD1 [OF small] unfolding unat_ucast_32 .
  define rest where "rest = push_bit sh (ucast r) + p2"
  have rest: "unat rest = unat r * 2 ^ sh + unat p2"
    unfolding rest_def using unat_plus_64 [of "push_bit sh (ucast r)" p2] small unfolding push .
  have head: "10 ^ n \<le> unat p1 \<Longrightarrow> digit_char d \<noteq> CHR ''0''"
    using div_greater_zero_iff [of "unat p1" "10 ^ n"] d digit_char_facts(2) [OF d10]
    by (auto simp: digit_value_def)
  show ?case
  proof (cases "rest \<le> delta")
    case True
    have ten: "unat (push_bit sh (ucast pow10) :: 64 word) = 10 ^ n * 2 ^ sh"
      using unat_push_bit_64 [of "ucast pow10" sh] Suc.prems(7) unfolding unat_ucast_32 pow10 by simp
    have "unat delta < unat rest + d * unat (push_bit sh (ucast pow10) :: 64 word)"
      using Suc.prems(6) unfolding T rest ten by (simp add: algebra_simps)
    moreover have "unat rest \<le> unat delta" using True by (simp add: word_le_nat_alt)
    moreover have "0 < (push_bit sh (ucast pow10) :: 64 word)" by (simp only: word_less_nat_alt ten) simp
    ultimately obtain d' rest' where
      round: "grisu2_round (buf @ [digit_char d]) dist delta rest (push_bit sh (ucast pow10)) = Some (buf @ [digit_char d'])"
        "0 < d'" "d' < 10" "rest' \<le> unat delta"
      and sum: "rest' + d' * unat (push_bit sh (ucast pow10) :: 64 word) =
        unat rest + d * unat (push_bit sh (ucast pow10) :: 64 word)"
      using grisu2_round_digit [OF d10, of delta rest "push_bit sh (ucast pow10)" buf dist] by blast
    have "grisu2_integral (Suc n) buf dexp p1 pow10 p2 delta dist sh =
        map_option (\<lambda>b. (b, dexp + int n))
          (grisu2_round (buf @ [digit_char d]) dist delta rest (push_bit sh (ucast pow10)))"
      using True unfolding rest_def r_def d_def by (simp only: grisu2_integral.simps Let_def if_True)
    moreover have "?T = d' * 10 ^ n * 2 ^ sh + rest'" using sum unfolding ten T rest by (simp add: algebra_simps)
    moreover have "digit_char d' \<noteq> CHR ''0''"
      using round(2) digit_char_facts(2) [OF round(3)] by (auto simp: digit_value_def)
    ultimately show ?thesis using round
      by (intro exI [of _ "[digit_char d']"]) (simp add: digits_of_def digit_char_facts digits_value_digit)
  next
    case False
    then have big: "unat delta < unat r * 2 ^ sh + unat p2" unfolding rest [symmetric] by (simp add: word_le_nat_alt)
    have "unat r < 10 ^ n" unfolding r by simp
    moreover have "0 < n \<Longrightarrow> unat (pow10 div 10) = 10 ^ (n - 1)"
      by (cases n) (simp_all add: unat_div pow10)
    moreover have "0 < n \<Longrightarrow> 10 ^ (n - 1) * 2 ^ sh < (2 :: nat) ^ 64"
    proof -
      have "10 ^ (n - 1) * 2 ^ sh \<le> 10 ^ n * (2 :: nat) ^ sh" by (intro mult_le_mono1 power_increasing) simp_all
      then show ?thesis using Suc.prems(7) [OF zero_less_Suc] unfolding diff_Suc_1 by (rule le_less_trans)
    qed
    ultimately obtain ds where
      ds: "grisu2_integral n (buf @ [digit_char d]) dexp r (pow10 div 10) p2 delta dist sh =
        Some ((buf @ [digit_char d]) @ ds, dexp + (int n - int (length ds)))"
      "digits_of (unat r * 2 ^ sh + unat p2) (unat delta) (2 ^ sh) ds (int n - int (length ds))"
      using Suc.IH [of r "pow10 div 10" "buf @ [digit_char d]"] Suc.prems(3,4) small big by blast
    have "grisu2_integral (Suc n) buf dexp p1 pow10 p2 delta dist sh =
        Some (buf @ digit_char d # ds, dexp + (int (Suc n) - int (length (digit_char d # ds))))"
      using ds(1) False unfolding rest_def r_def d_def
      by (simp only: grisu2_integral.simps Let_def if_False, simp)
    with digits_of_Cons [OF ds(2) d10 T] head show ?thesis
      by (intro exI [of _ "digit_char d # ds"]) simp
  qed
qed

lemma find_largest_pow10_spec:
  assumes "0 < unat p" and "find_largest_pow10 p = (k, pow10)"
  shows "0 < k" "unat pow10 = 10 ^ (k - 1)" "10 ^ (k - 1) \<le> unat p" "unat p < 10 ^ k"
proof -
  have "unat p < 2 ^ 32" using unsigned_less [of p, where ?'a = nat] by simp
  then have "0 < k \<and> unat pow10 = 10 ^ (k - 1) \<and> 10 ^ (k - 1) \<le> unat p \<and> unat p < 10 ^ k"
    using assms by (auto simp: find_largest_pow10_def word_le_nat_alt split: if_splits)
  then show "0 < k" "unat pow10 = 10 ^ (k - 1)" "10 ^ (k - 1) \<le> unat p" "unat p < 10 ^ k" by simp_all
qed

lemma grisu2_digit_gen_digits:
  assumes "diy_e M_plus = - int sh" and "32 \<le> sh" and "sh \<le> 60" and "2 ^ sh \<le> unat (diy_f M_plus)"
    and "0 < unat (diy_f M_minus)" and "unat (diy_f M_minus) \<le> unat (diy_f M_plus)"
  shows "\<exists>ds x. grisu2_digit_gen dexp M_minus w M_plus = Some (ds, dexp + x) \<and>
    digits_of (unat (diy_f M_plus)) (unat (diy_f M_plus) - unat (diy_f M_minus)) (2 ^ sh) ds x \<and>
    ds \<noteq> [] \<and> hd ds \<noteq> CHR ''0''"
proof -
  let ?M = "diy_f M_plus"
  define p1 :: "32 word" where "p1 = ucast (drop_bit sh ?M)"
  define p2 where "p2 = ?M AND (push_bit sh 1 - 1)"
  define delta where "delta = diy_f (diyfp_sub M_plus M_minus)"
  obtain k pow10 where pow10: "find_largest_pow10 p1 = (k, pow10)" by fastforce
  have "(2 :: nat) ^ 32 * 2 ^ 32 \<le> 2 ^ sh * 2 ^ 32"
    using assms(2) by (intro mult_le_mono1 power_increasing) simp_all
  then have "unat ?M < 2 ^ 32 * 2 ^ sh" using unat_less_64 [of ?M] by simp
  then have "unat ?M div 2 ^ sh < 2 ^ 32" by (rule less_mult_imp_div_less)
  then have p1: "unat p1 = unat ?M div 2 ^ sh"
    unfolding p1_def by (simp only: unsigned_ucast_eq unat_drop_bit_64) (simp add: take_bit_eq_mod)
  have p2: "unat p2 = unat ?M mod 2 ^ sh" unfolding p2_def by (rule unat_mask_64)
  have delta: "unat delta = unat ?M - unat (diy_f M_minus)"
    using assms(6) by (simp add: delta_def diyfp_sub_def unat_minus_64 word_le_nat_alt)
  have whole: "unat p1 * 2 ^ sh + unat p2 = unat ?M" unfolding p1 p2 by (rule div_mult_mod_eq)
  have "0 < unat p1" unfolding p1 using assms(4) by (simp add: div_greater_zero_iff)
  note spec = find_largest_pow10_spec [OF this pow10]
  have "10 ^ (k - 1) * 2 ^ sh \<le> unat p1 * 2 ^ sh" using spec(3) by (rule mult_le_mono1)
  also have "\<dots> < 2 ^ 64" using whole unat_less_64 [of ?M] by linarith
  finally have top: "10 ^ (k - 1) * 2 ^ sh < (2 :: nat) ^ 64" .
  have sh: "nat (- diy_e M_plus) = sh" using assms(1) by simp
  have "unat p2 < 2 ^ sh" unfolding p2 by simp
  then obtain ds where
    "grisu2_integral k [] dexp p1 pow10 p2 delta (diy_f (diyfp_sub M_plus w)) sh =
      Some ([] @ ds, dexp + (int k - int (length ds)))"
    "digits_of (unat ?M) (unat delta) (2 ^ sh) ds (int k - int (length ds))"
    "ds \<noteq> []" "hd ds \<noteq> CHR ''0''"
    using grisu2_integral_digits [of p1 k pow10 p2 sh delta "[]" dexp "diy_f (diyfp_sub M_plus w)"]
      spec assms(3,5,6) whole unat_less_64 [of ?M] delta top by auto
  moreover have "grisu2_digit_gen dexp M_minus w M_plus =
      grisu2_integral k [] dexp p1 pow10 p2 delta (diy_f (diyfp_sub M_plus w)) sh"
    using pow10 by (simp add: grisu2_digit_gen_def Let_def sh p1_def p2_def delta_def)
  ultimately show ?thesis unfolding delta by auto
qed

end
