(* ===== verification/Grisu.thy ===== *)
theory Grisu
  imports Grisu_Powers Grisu_Digits
begin

unbundle bit_operations_syntax

section \<open>Grisu2 is correct\<close>

text \<open>
  The decimal number Grisu2 finds for a positive double lies strictly between the halves of the way to
  its neighbours (\<open>grisu2_interval\<close>). The cached powers are within half a unit of the powers of ten
  they stand for, a product is rounded by at most another half, and the interval is narrowed by one
  unit on either side.
\<close>

subsection \<open>A double and its neighbours\<close>

text \<open>The double with the bits \<open>n\<close>, not negative and finite, is \<open>double_m n * 2^(double_x n)\<close>.\<close>

definition double_m :: "nat \<Rightarrow> nat" where
  "double_m n = (if n div 2 ^ 52 = 0 then n mod 2 ^ 52 else 2 ^ 52 + n mod 2 ^ 52)"

definition double_x :: "nat \<Rightarrow> int" where
  "double_x n = (if n div 2 ^ 52 = 0 then - 1074 else int (n div 2 ^ 52) - 1075)"

definition lower_closer :: "nat \<Rightarrow> bool" where
  "lower_closer n \<longleftrightarrow> n mod 2 ^ 52 = 0 \<and> 1 < n div 2 ^ 52"

definition half_above :: "nat \<Rightarrow> real" where
  "half_above n = real (2 * double_m n + 1) * 2 powi (double_x n - 1)"

definition half_below :: "nat \<Rightarrow> real" where
  "half_below n =
     (if lower_closer n then real (4 * double_m n - 1) * 2 powi (double_x n - 2)
      else real (2 * double_m n - 1) * 2 powi (double_x n - 1))"

lemma double_m_bounds:
  assumes "0 < n"
  shows "0 < double_m n" "double_m n < 2 ^ 53"
  using assms mod_less_divisor [of "2 ^ 52" n] by (auto simp: double_m_def intro!: gr0I)

subsection \<open>Normalisation\<close>

lemma diyfp_normalize_shift:
  assumes "2 ^ 63 \<le> unat f * 2 ^ s" and "unat f * 2 ^ s < 2 ^ 64"
  shows "\<exists>f'. diyfp_normalize \<lparr>diy_f = f, diy_e = e\<rparr> = Some \<lparr>diy_f = f', diy_e = e - int s\<rparr> \<and>
    unat f' = unat f * 2 ^ s"
  using assms
proof (induction s arbitrary: f e)
  case 0
  then have "unat (drop_bit 63 f) \<noteq> 0" by (simp only: unat_drop_bit_64) (simp add: div_greater_zero_iff)
  then have "drop_bit 63 f \<noteq> 0" by (metis unat_0)
  then show ?case by (subst diyfp_normalize.simps) simp
next
  case (Suc s)
  have "unat f * 2 \<le> unat f * 2 ^ Suc s" by simp
  with Suc.prems(2) have small: "unat f * 2 < 2 ^ 64" by linarith
  then have "unat (drop_bit 63 f) = 0" by (simp only: unat_drop_bit_64) simp
  then have top: "drop_bit 63 f = 0" by (simp only: unat_eq_zero)
  have f': "unat (push_bit 1 f) = unat f * 2" using unat_push_bit_64 [of f 1] small by simp
  with Suc.IH [of "push_bit 1 f" "e - 1"] Suc.prems obtain g where
    "diyfp_normalize \<lparr>diy_f = push_bit 1 f, diy_e = e - 1\<rparr> = Some \<lparr>diy_f = g, diy_e = e - 1 - int s\<rparr>"
    "unat g = unat f * 2 * 2 ^ s" by (auto simp: mult.assoc)
  with top show ?case by (subst diyfp_normalize.simps) (simp add: algebra_simps)
qed

lemma normal_shift:
  fixes f :: nat
  assumes "0 < f" and "f < 2 ^ 64"
  obtains s where "2 ^ 63 \<le> f * 2 ^ s" "f * 2 ^ s < 2 ^ 64"
proof -
  have "\<exists>s. 2 ^ 63 \<le> f * 2 ^ s \<and> f * 2 ^ s < 2 ^ 64" if "2 ^ 63 \<le> f * 2 ^ k" for k
    using that
  proof (induction k)
    case 0
    with assms(2) show ?case by (intro exI [of _ 0]) simp
  next
    case (Suc k)
    show ?case
    proof (cases "2 ^ 63 \<le> f * 2 ^ k")
      case True
      then show ?thesis by (rule Suc.IH)
    next
      case False
      with Suc.prems show ?thesis by (intro exI [of _ "Suc k"]) simp
    qed
  qed
  moreover have "2 ^ 63 \<le> f * 2 ^ 63" using assms(1) by simp
  ultimately show ?thesis using that by blast
qed

text \<open>The boundaries, with the common exponent \<open>q\<close> of the upper one.\<close>

lemma compute_boundaries_spec:
  assumes "0 < unat bits" and "unat bits < 2047 * 2 ^ 52"
  obtains w fm fp q where
    "compute_boundaries bits =
      Some \<lparr>bound_w = w, bound_minus = \<lparr>diy_f = fm, diy_e = q\<rparr>, bound_plus = \<lparr>diy_f = fp, diy_e = q\<rparr>\<rparr>"
    "real (unat fp) * 2 powi q = half_above (unat bits)" "real (unat fm) * 2 powi q = half_below (unat bits)"
    "2 ^ 63 \<le> unat fp" "unat fm + 8 \<le> unat fp" "0 < unat fm" "- 1137 \<le> q" "q \<le> 960"
proof -
  let ?n = "unat bits"
  define E F where "E = drop_bit 52 bits" and "F = bits AND (push_bit 52 1 - 1)"
  have E: "unat E = ?n div 2 ^ 52" unfolding E_def by (rule unat_drop_bit_64)
  have F: "unat F = ?n mod 2 ^ 52" unfolding F_def by (rule unat_mask_64)
  have E0: "E = 0 \<longleftrightarrow> ?n div 2 ^ 52 = 0" "E > 1 \<longleftrightarrow> 1 < ?n div 2 ^ 52" "F = 0 \<longleftrightarrow> ?n mod 2 ^ 52 = 0"
    unfolding E [symmetric] F [symmetric] by (simp_all add: word_less_nat_alt unat_eq_zero)
  define m x where "m = double_m ?n" and "x = double_x ?n"
  note m = double_m_bounds [OF assms(1), folded m_def]
  define vf ve where "vf = (if E = 0 then F else F + push_bit 52 1)" and "ve = (if E = 0 then 1 - 1075 else uint E - 1075)"
  have vf: "unat vf = m"
  proof -
    have "unat (push_bit 52 1 :: 64 word) = 2 ^ 52" using unat_push_bit_64 [of 1 52] by simp
    then have "unat (F + push_bit 52 1) = unat F + 2 ^ 52"
      using unat_plus_64 [of F "push_bit 52 1"] mod_less_divisor [of "2 ^ 52" ?n] unfolding F by simp
    then show ?thesis by (simp add: vf_def m_def double_m_def E0(1) F)
  qed
  have ve: "ve = x"
    using E by (simp add: ve_def x_def double_x_def E0(1) uint_nat)
  have x: "- 1074 \<le> x" "x \<le> 971"
    using assms(2) less_mult_imp_div_less [of ?n 2047 "2 ^ 52"] by (auto simp: x_def double_x_def)
  have plus: "unat (2 * vf + 1) = 2 * m + 1"
    using m(2) unat_mult_64 [of 2 vf] unat_plus_64 [of "2 * vf" 1] by (simp add: vf)
  obtain s where s: "2 ^ 63 \<le> (2 * m + 1) * 2 ^ s" "(2 * m + 1) * 2 ^ s < 2 ^ 64"
    using normal_shift [of "2 * m + 1"] m(2) by auto
  have s_bounds: "10 \<le> s" "s \<le> 62"
  proof -
    show "10 \<le> s"
    proof (rule ccontr)
      assume "\<not> 10 \<le> s"
      then have "(2 * m + 1) * 2 ^ s \<le> (2 * m + 1) * 2 ^ 9" by (intro mult_le_mono power_increasing) simp_all
      with s(1) m(2) show False by simp
    qed
    show "s \<le> 62"
    proof (rule ccontr)
      assume "\<not> s \<le> 62"
      then have "3 * 2 ^ 63 \<le> (2 * m + 1) * 2 ^ s" using m(1) by (intro mult_le_mono power_increasing) simp_all
      with s(2) show False by simp
    qed
  qed
  define q where "q = x - 1 - int s"
  from diyfp_normalize_shift [of "2 * vf + 1" s "ve - 1"] s obtain fp where
    fp: "diyfp_normalize \<lparr>diy_f = 2 * vf + 1, diy_e = ve - 1\<rparr> = Some \<lparr>diy_f = fp, diy_e = q\<rparr>"
      "unat fp = (2 * m + 1) * 2 ^ s" by (auto simp: plus q_def ve)
  obtain s' where "2 ^ 63 \<le> m * 2 ^ s'" "m * 2 ^ s' < 2 ^ 64" using normal_shift [of m] m by auto
  with diyfp_normalize_shift [of vf s' ve] obtain w where
    w: "diyfp_normalize \<lparr>diy_f = vf, diy_e = ve\<rparr> = Some w" by (auto simp: vf)
  define lm where "lm = (if F = 0 \<and> E > 1 then \<lparr>diy_f = 4 * vf - 1, diy_e = ve - 2\<rparr>
    else \<lparr>diy_f = 2 * vf - 1, diy_e = ve - 1\<rparr>)"
  define fm where "fm = diy_f (diyfp_normalize_to lm q)"
  have closer: "F = 0 \<and> E > 1 \<longleftrightarrow> lower_closer ?n" by (simp add: E0 lower_closer_def)
  have result: "compute_boundaries bits =
      Some \<lparr>bound_w = w, bound_minus = \<lparr>diy_f = fm, diy_e = q\<rparr>, bound_plus = \<lparr>diy_f = fp, diy_e = q\<rparr>\<rparr>"
  proof -
    have v: "(if E = 0 then \<lparr>diy_f = F, diy_e = 1 - 1075\<rparr>
        else \<lparr>diy_f = F + push_bit 52 1, diy_e = uint E - 1075\<rparr>) = \<lparr>diy_f = vf, diy_e = ve\<rparr>"
      by (simp add: vf_def ve_def)
    show ?thesis unfolding compute_boundaries_def Let_def E_def [symmetric] F_def [symmetric] v
      by (simp add: fp w lm_def fm_def diyfp_normalize_to_def)
  qed
  have fm: "real (unat fm) * 2 powi q = half_below ?n \<and> unat fm + 8 \<le> unat fp \<and> 0 < unat fm"
  proof (cases "lower_closer ?n")
    case True
    obtain t where t: "s = Suc t" "9 \<le> t" using s_bounds by (cases s) auto
    have "unat (4 * vf) = 4 * m" using m(2) unat_mult_64 [of 4 vf] by (simp add: vf)
    then have low: "unat (4 * vf - 1) = 4 * m - 1"
      using m(1) unat_minus_64 [of 1 "4 * vf"] by (simp add: word_le_nat_alt)
    have "nat (ve - 2 - q) = t" by (simp add: ve q_def t)
    moreover have le: "(4 * m - 1) * 2 ^ t + 3 * 2 ^ t = (2 * m + 1) * 2 ^ s"
      using m(1) by (simp add: t algebra_simps diff_mult_distrib)
    then have "(4 * m - 1) * 2 ^ t < 2 ^ 64" using s(2) by linarith
    ultimately have f: "unat fm = (4 * m - 1) * 2 ^ t"
      using True closer unat_push_bit_64 [of "4 * vf - 1" t]
      by (simp add: fm_def diyfp_normalize_to_def lm_def low)
    have "(2 :: nat) ^ 9 \<le> 2 ^ t" using t(2) by (intro power_increasing) simp_all
    with le f fp(2) have "unat fm + 8 \<le> unat fp" by simp
    moreover have "(2 :: real) ^ t * 2 powi q = 2 powi (x - 2)"
      by (simp add: q_def t power_int_of_nat [symmetric] power_int_add [symmetric] del: power_int_of_nat)
    then have "real (unat fm) * 2 powi q = half_below ?n"
      using True by (simp add: f half_below_def m_def x_def mult.assoc del: of_nat_diff)
    ultimately show ?thesis using m(1) f by simp
  next
    case False
    have "unat (2 * vf) = 2 * m" using m(2) unat_mult_64 [of 2 vf] by (simp add: vf)
    then have low: "unat (2 * vf - 1) = 2 * m - 1"
      using m(1) unat_minus_64 [of 1 "2 * vf"] by (simp add: word_le_nat_alt)
    have "nat (ve - 1 - q) = s" by (simp add: ve q_def)
    moreover have le: "(2 * m - 1) * 2 ^ s + 2 * 2 ^ s = (2 * m + 1) * 2 ^ s"
      using m(1) by (simp add: algebra_simps diff_mult_distrib)
    then have "(2 * m - 1) * 2 ^ s < 2 ^ 64" using s(2) by linarith
    ultimately have f: "unat fm = (2 * m - 1) * 2 ^ s"
      using False closer unat_push_bit_64 [of "2 * vf - 1" s]
      by (auto simp: fm_def diyfp_normalize_to_def lm_def low)
    have "(2 :: nat) ^ 9 \<le> 2 ^ s" using s_bounds(1) by (intro power_increasing) simp_all
    with le f fp(2) have "unat fm + 8 \<le> unat fp" by simp
    moreover have "(2 :: real) ^ s * 2 powi q = 2 powi (x - 1)"
      by (simp add: q_def power_int_of_nat [symmetric] power_int_add [symmetric] del: power_int_of_nat)
    then have "real (unat fm) * 2 powi q = half_below ?n"
      using False by (simp add: f half_below_def m_def x_def mult.assoc del: of_nat_diff)
    ultimately show ?thesis using m(1) f by simp
  qed
  have "(2 :: real) ^ s * 2 powi q = 2 powi (x - 1)"
    by (simp add: q_def power_int_of_nat [symmetric] power_int_add [symmetric] del: power_int_of_nat)
  then have "real (unat fp) * 2 powi q = half_above ?n"
    unfolding fp(2) half_above_def m_def [symmetric] x_def [symmetric] of_nat_mult of_nat_power
    by (simp only: mult.assoc) simp
  with that [OF result] fm fp(2) s(1) s_bounds x show ?thesis by (simp add: q_def)
qed

subsection \<open>Scaling\<close>

text \<open>The product with a cached power, narrowed by one unit, stays inside of the exact product.\<close>

lemma scaled_above:
  fixes f c p :: nat
  assumes "f < 2 ^ 64" and "p = (f * c + 2 ^ 63) div 2 ^ 64" and "\<bar>real c * u - t\<bar> \<le> u / 2" and "0 < u"
  shows "(real p - 1) * (u * 2 ^ 64) < real f * t"
proof -
  have "p * 2 ^ 64 \<le> f * c + 2 ^ 63" unfolding assms(2) by (rule div_times_less_eq_dividend)
  then have "real p * 2 ^ 64 \<le> real f * real c + 2 ^ 63"
    unfolding of_nat_le_iff [where 'a = real, symmetric] by simp
  then have 1: "(real p - 1) * 2 ^ 64 \<le> real f * real c - 2 ^ 63" by simp
  have f: "real f < 2 ^ 64" using assms(1) by simp
  have "real f * (real c * u - u / 2) \<le> real f * t" using assms(3) by (intro mult_left_mono) linarith+
  moreover have "(real p - 1) * 2 ^ 64 * u \<le> (real f * real c - 2 ^ 63) * u" using 1 assms(4) by (intro mult_right_mono) simp_all
  moreover have "real f * (u / 2) < 2 ^ 63 * u" using f assms(4) by simp
  ultimately show ?thesis by (simp add: algebra_simps)
qed

lemma scaled_below:
  fixes f c p :: nat
  assumes "f < 2 ^ 64" and "p = (f * c + 2 ^ 63) div 2 ^ 64" and "\<bar>real c * u - t\<bar> \<le> u / 2" and "0 < u"
  shows "real f * t < (real p + 1) * (u * 2 ^ 64)"
proof -
  have "f * c + 2 ^ 63 < (p + 1) * 2 ^ 64"
    unfolding assms(2) using dividend_less_div_times [of "2 ^ 64" "f * c + 2 ^ 63"] by (simp add: distrib_right)
  then have "real f * real c + 2 ^ 63 < (real p + 1) * 2 ^ 64"
    unfolding of_nat_less_iff [where 'a = real, symmetric] by simp
  then have 1: "real f * real c + 2 ^ 63 \<le> (real p + 1) * 2 ^ 64" by simp
  have f: "real f < 2 ^ 64" using assms(1) by simp
  have "real f * t \<le> real f * (real c * u + u / 2)" using assms(3) by (intro mult_left_mono) linarith+
  moreover have "(real f * real c + 2 ^ 63) * u \<le> (real p + 1) * 2 ^ 64 * u" using 1 assms(4) by (intro mult_right_mono) simp_all
  moreover have "real f * (u / 2) < 2 ^ 63 * u" using f assms(4) by simp
  ultimately show ?thesis by (simp add: algebra_simps)
qed

text \<open>The digits as a real number.\<close>

lemma digits_of_real:
  assumes "digits_of T delta one ds x" and "delta \<le> T"
  shows "list_all is_digit ds" "real (digits_value ds) * 10 powi x * real one \<le> real T"
    "real (T - delta) \<le> real (digits_value ds) * 10 powi x * real one"
proof -
  from assms(1) obtain rest where ds: "list_all is_digit ds"
    and rest: "T * 10 ^ nat (- x) = digits_value ds * 10 ^ nat x * one + rest" "rest \<le> delta * 10 ^ nat (- x)"
    by (auto simp: digits_of_def)
  define c :: real where "c = 10 ^ nat (- x)"
  have c: "0 < c" by (simp add: c_def)
  have x: "(10 :: real) ^ nat x = 10 powi x * c"
    by (cases "0 \<le> x") (simp_all add: c_def power_int_def power_inverse power_mult_distrib [symmetric])
  have T: "real T * c = real (digits_value ds) * 10 powi x * real one * c + real rest"
    using arg_cong [OF rest(1), of real] x by (simp add: c_def algebra_simps)
  have "real rest \<le> real delta * c"
    using rest(2) unfolding of_nat_le_iff [where 'a = real, symmetric] by (simp add: c_def)
  with T have "(real T - real delta) * c \<le> real (digits_value ds) * 10 powi x * real one * c"
    by (simp add: left_diff_distrib)
  with c have "real T - real delta \<le> real (digits_value ds) * 10 powi x * real one" by simp
  moreover from T have "real (digits_value ds) * 10 powi x * real one * c \<le> real T * c" by simp
  with c have "real (digits_value ds) * 10 powi x * real one \<le> real T" by simp
  ultimately show "list_all is_digit ds" "real (digits_value ds) * 10 powi x * real one \<le> real T"
    "real (T - delta) \<le> real (digits_value ds) * 10 powi x * real one"
    using ds assms(2) by (simp_all add: of_nat_diff)
qed

lemma rounded_products:
  fixes fp fm c :: nat
  assumes "2 ^ 63 \<le> fp" and "fm + 8 \<le> fp" and "2 ^ 63 \<le> c"
    and "pp = (fp * c + 2 ^ 63) div 2 ^ 64" and "pm = (fm * c + 2 ^ 63) div 2 ^ 64"
  shows "2 ^ 62 \<le> pp" "pm + 4 \<le> pp"
proof -
  have "2 ^ 62 * 2 ^ 64 \<le> fp * c" using mult_le_mono [OF assms(1,3)] by simp
  then show "2 ^ 62 \<le> pp" unfolding assms(4) by (simp add: less_eq_div_iff_mult_less_eq)
  have "(fm + 8) * c \<le> fp * c" using assms(2) by (rule mult_le_mono1)
  then have "fm * c + 4 * 2 ^ 64 \<le> fp * c" using assms(3) by (simp add: distrib_right)
  then have "(fm * c + 2 ^ 63 + 4 * 2 ^ 64) div 2 ^ 64 \<le> (fp * c + 2 ^ 63) div 2 ^ 64" by (intro div_le_mono) simp
  then show "pm + 4 \<le> pp" unfolding assms(4,5) by simp
qed

lemma grisu2_interval:
  assumes "0 < unat bits" and "unat bits < 2047 * 2 ^ 52"
  obtains buf dexp where "grisu2 bits = Some (buf, dexp)" "list_all is_digit buf" "buf \<noteq> []" "hd buf \<noteq> CHR ''0''"
    "half_below (unat bits) < real (digits_value buf) * 10 powi dexp"
    "real (digits_value buf) * 10 powi dexp < half_above (unat bits)"
proof -
  obtain w fm fp q where bounds:
    "compute_boundaries bits =
      Some \<lparr>bound_w = w, bound_minus = \<lparr>diy_f = fm, diy_e = q\<rparr>, bound_plus = \<lparr>diy_f = fp, diy_e = q\<rparr>\<rparr>"
    "real (unat fp) * 2 powi q = half_above (unat bits)" "real (unat fm) * 2 powi q = half_below (unat bits)"
    "2 ^ 63 \<le> unat fp" "unat fm + 8 \<le> unat fp" "0 < unat fm" "- 1137 \<le> q" "q \<le> 960" by (rule compute_boundaries_spec [OF assms])
  obtain c e k where power:
    "get_cached_power_for_binary_exponent q = Some (c, e, k)" "power_ok (c, e, k)"
    "- 60 \<le> e + q + 64" "e + q + 64 \<le> - 32" by (rule cached_power_choice [OF bounds(7,8)])
  define sh where "sh = nat (- (e + q + 64))"
  have sh: "e + q + 64 = - int sh" "32 \<le> sh" "sh \<le> 60" using power(3,4) by (auto simp: sh_def)
  define cp where "cp = \<lparr>diy_f = c, diy_e = e\<rparr>"
  define W P N where "W = diyfp_mul w cp" and "P = diyfp_mul \<lparr>diy_f = fp, diy_e = q\<rparr> cp"
    and "N = diyfp_mul \<lparr>diy_f = fm, diy_e = q\<rparr> cp"
  define pp pm where "pp = unat (diy_f P)" and "pm = unat (diy_f N)"
  have pp: "pp = (unat fp * unat c + 2 ^ 63) div 2 ^ 64" and pm: "pm = (unat fm * unat c + 2 ^ 63) div 2 ^ 64"
    unfolding pp_def pm_def P_def N_def diyfp_mul_f by (simp_all add: cp_def)
  have exps: "diy_e P = - int sh" using sh by (simp add: P_def cp_def diyfp_mul_def Let_def)
  note ok = power(2) [unfolded power_ok_def fits_index_def prod.case]
  have close: "\<bar>real (unat c) * 2 powi e - 10 powi k\<bar> \<le> 2 powi e / 2" using ok by (rule conjunct1)
  have "2 ^ 63 \<le> uint c" using conjunct2 [OF ok] by (rule conjunct1)
  then have "int (2 ^ 63) \<le> int (unat c)" by simp
  then have c: "2 ^ 63 \<le> unat c" by (rule of_nat_le_iff [THEN iffD1])
  note prods = rounded_products [OF bounds(4,5) c pp pm]
  define Mp Mm where "Mp = \<lparr>diy_f = diy_f P - 1, diy_e = diy_e P\<rparr>" and "Mm = \<lparr>diy_f = diy_f N + 1, diy_e = diy_e N\<rparr>"
  have Mp: "unat (diy_f Mp) = pp - 1"
    using prods(1) unat_minus_64 [of 1 "diy_f P"] by (simp add: Mp_def pp_def word_le_nat_alt)
  have Mm: "unat (diy_f Mm) = pm + 1"
    using prods(2) unat_less_64 [of "diy_f P"] unat_plus_64 [of "diy_f N" 1] by (simp add: Mm_def pm_def pp_def)
  have "(2 :: nat) ^ sh \<le> 2 ^ 60" using sh(3) by (intro power_increasing) simp_all
  moreover have "(2 :: nat) ^ 60 + 1 \<le> 2 ^ 62" by simp
  ultimately have "2 ^ sh \<le> unat (diy_f Mp)" using prods(1) unfolding Mp by linarith
  moreover have "diy_e Mp = - int sh" using exps by (simp add: Mp_def)
  moreover have "0 < unat (diy_f Mm)" "unat (diy_f Mm) \<le> unat (diy_f Mp)"
    using prods(2) unfolding Mp Mm by linarith+
  ultimately have "\<exists>ds x. grisu2_digit_gen (- k) Mm W Mp = Some (ds, - k + x) \<and>
      digits_of (pp - 1) (pp - 1 - (pm + 1)) (2 ^ sh) ds x \<and> ds \<noteq> [] \<and> hd ds \<noteq> CHR ''0''"
    using grisu2_digit_gen_digits [of Mp sh Mm "- k" W] sh(2,3) unfolding Mp Mm by metis
  then obtain ds x where
    gen: "grisu2_digit_gen (- k) Mm W Mp = Some (ds, - k + x)" "ds \<noteq> []" "hd ds \<noteq> CHR ''0''"
    and digits: "digits_of (pp - 1) (pp - 1 - (pm + 1)) (2 ^ sh) ds x"
    by (elim exE conjE)
  note real = digits_of_real [OF digits diff_le_self]
  define V where "V = real (digits_value ds) * 10 powi x"
  have one: "real (2 ^ sh) * (2 powi e * 2 ^ 64 * 2 powi q) = 1"
  proof -
    have "2 powi e * 2 ^ 64 * 2 powi q = (2 :: real) powi (e + 64 + q)" by (simp add: power_int_add)
    also have "e + 64 + q = - int sh" using sh(1) by simp
    finally show ?thesis by (simp add: power_int_minus)
  qed
  have q0: "0 < (2 :: real) powi q" and s0: "0 < 2 powi e * 2 ^ 64 * (2 :: real) powi q" by simp_all
  have f64: "unat fp < 2 ^ 64" "unat fm < 2 ^ 64" by (rule unat_less_64)+
  have "V * real (2 ^ sh) \<le> real pp - 1" using real(2) prods(1) by (simp add: V_def of_nat_diff)
  then have "V * real (2 ^ sh) * (2 powi e * 2 ^ 64 * 2 powi q) \<le> (real pp - 1) * (2 powi e * 2 ^ 64 * 2 powi q)"
    using s0 by (intro mult_right_mono) simp_all
  then have "V \<le> (real pp - 1) * (2 powi e * 2 ^ 64) * 2 powi q"
    using one by (simp only: mult.assoc mult_1_right)
  also have "\<dots> < real (unat fp) * 10 powi k * 2 powi q"
    using scaled_above [OF f64(1) pp close] q0 by (intro mult_strict_right_mono) simp_all
  also have "\<dots> = half_above (unat bits) * 10 powi k" unfolding bounds(2) [symmetric] by simp
  finally have above: "V < half_above (unat bits) * 10 powi k" .
  have "half_below (unat bits) * 10 powi k = real (unat fm) * 10 powi k * 2 powi q"
    unfolding bounds(3) [symmetric] by simp
  also have "\<dots> < (real pm + 1) * (2 powi e * 2 ^ 64) * 2 powi q"
    using scaled_below [OF f64(2) pm close] q0 by (intro mult_strict_right_mono) simp_all
  also have "\<dots> \<le> V"
  proof -
    have "pp - 1 - (pp - 1 - (pm + 1)) = pm + 1" using prods(2) by simp
    then have "real pm + 1 \<le> V * real (2 ^ sh)" using real(3) by (simp add: V_def)
    then have "(real pm + 1) * (2 powi e * 2 ^ 64 * 2 powi q) \<le> V * real (2 ^ sh) * (2 powi e * 2 ^ 64 * 2 powi q)"
      using s0 by (intro mult_right_mono) simp_all
    then show ?thesis using one by (simp only: mult.assoc mult_1_right)
  qed
  finally have below: "half_below (unat bits) * 10 powi k < V" .
  have ten: "real (digits_value ds) * 10 powi (- k + x) * 10 powi k = V"
    by (simp add: V_def power_int_add [symmetric] mult.assoc)
  have k0: "0 < (10 :: real) powi k" by simp
  have "grisu2 bits = Some (ds, - k + x)"
    using gen(1) power(1) by (simp add: grisu2_def bounds(1) grisu2_scaled_def Let_def Mp_def Mm_def W_def P_def N_def cp_def)
  moreover have "half_below (unat bits) < real (digits_value ds) * 10 powi (- k + x)"
    using below unfolding ten [symmetric] using k0 by simp
  moreover have "real (digits_value ds) * 10 powi (- k + x) < half_above (unat bits)"
    using above unfolding ten [symmetric] using k0 by simp
  ultimately show ?thesis using that gen(2,3) real(1) by blast
qed

end
