(* ===== verification/Float_Text.thy ===== *)
theory Float_Text
  imports Grisu
begin

section \<open>Printed doubles\<close>

text \<open>
  \<open>strtod\<close> gives back every double from the text \<open>to_chars\<close> prints: a number between the halves of the way to
  the neighbours of a double rounds to it (\<open>ratio_to_double_nearest\<close>), Grisu2 finds such a number, and
  the text that \<open>format_buffer\<close> lays out has its value and the form of a JSON number with a fraction or an
  exponent.
\<close>

subsection \<open>Rounding to the nearest double\<close>

lemma bit_length_bounds: "0 < n \<Longrightarrow> 2 ^ (bit_length n - 1) \<le> n \<and> n < 2 ^ bit_length n \<and> 0 < bit_length n"
proof (induction n rule: bit_length.induct)
  case (1 n)
  show ?case
  proof (cases "n = 1")
    case True
    then show ?thesis by (simp add: bit_length_simps)
  next
    case False
    define d where "d = n div 2"
    have d: "2 * d \<le> n" "n < 2 * d + 2" by (simp_all add: d_def)
    from False 1 have IH: "2 ^ (bit_length d - 1) \<le> d \<and> d < 2 ^ bit_length d \<and> 0 < bit_length d"
      by (simp add: d_def)
    moreover have "bit_length n = Suc (bit_length d)" using 1(2) by (simp add: bit_length.simps [of n] d_def)
    moreover have "(2 :: nat) ^ bit_length d = 2 * 2 ^ (bit_length d - 1)"
      using IH by (cases "bit_length d") simp_all
    ultimately show ?thesis using d by auto
  qed
qed

lemma powi_less: "x < y \<Longrightarrow> (2 :: real) powi x < 2 powi y"
  by (intro power_int_strict_increasing) simp_all

lemma powi_le: "x \<le> y \<Longrightarrow> (2 :: real) powi x \<le> 2 powi y"
  by (intro power_int_increasing) simp_all

lemma powi_cross:
  assumes "0 < den"
  shows "den * 2 ^ nat e \<le> num * 2 ^ nat (- e) \<longleftrightarrow> 2 powi e \<le> real num / real den"
proof -
  have "den * 2 ^ nat e \<le> num * 2 ^ nat (- e) \<longleftrightarrow> real den * 2 ^ nat e \<le> real num * 2 ^ nat (- e)"
    unfolding of_nat_le_iff [where 'a = real, symmetric] by simp
  also have "\<dots> \<longleftrightarrow> 2 powi e \<le> real num / real den"
    using assms by (cases "0 \<le> e") (simp_all add: power_int_def field_simps)
  finally show ?thesis .
qed

lemma ratio_exponent_spec:
  assumes "0 < num" and "0 < den"
  shows "2 powi ratio_exponent num den \<le> real num / real den"
    "real num / real den < 2 powi (ratio_exponent num den + 1)"
proof -
  define a b where "a = bit_length num" and "b = bit_length den"
  define e where "e = int a - int b"
  note n = bit_length_bounds [OF assms(1), folded a_def] and d = bit_length_bounds [OF assms(2), folded b_def]
  have num: "2 powi (int a - 1) \<le> real num" "real num < 2 powi int a"
    using n of_nat_le_iff [of "2 ^ (a - 1)" num, where 'a = real] of_nat_less_iff [of num "2 ^ a", where 'a = real]
    by (auto simp: power_int_def nat_diff_distrib)
  have den: "2 powi (int b - 1) \<le> real den" "real den < 2 powi int b"
    using d of_nat_le_iff [of "2 ^ (b - 1)" den, where 'a = real] of_nat_less_iff [of den "2 ^ b", where 'a = real]
    by (auto simp: power_int_def nat_diff_distrib)
  have den0: "0 < real den" using assms(2) by simp
  have "2 powi (e - 1) * real den \<le> 2 powi (e - 1) * 2 powi int b" using den(2) by (intro mult_left_mono) simp_all
  also have "\<dots> = 2 powi (int a - 1)" by (subst power_int_add [symmetric]) (simp_all add: e_def)
  finally have "2 powi (e - 1) * real den \<le> real num" using num(1) by (rule order_trans)
  then have low: "2 powi (e - 1) \<le> real num / real den" using den0 by (simp add: field_simps)
  have "(2 :: real) powi int a = 2 powi (e + 1) * 2 powi (int b - 1)" by (subst power_int_add [symmetric]) (simp_all add: e_def)
  also have "\<dots> \<le> 2 powi (e + 1) * real den" using den(1) by (intro mult_left_mono) simp_all
  finally have "real num < 2 powi (e + 1) * real den" using num(2) by (rule order.strict_trans2 [rotated])
  then have high: "real num / real den < 2 powi (e + 1)" using den0 by (simp add: field_simps)
  show "2 powi ratio_exponent num den \<le> real num / real den"
    "real num / real den < 2 powi (ratio_exponent num den + 1)"
    using low high powi_cross [OF assms(2), of e num]
    by (auto simp: ratio_exponent_def Let_def a_def [symmetric] b_def [symmetric] e_def [symmetric])
qed

lemma ratio_exponent_eq:
  assumes "0 < num" and "0 < den" and "2 powi e \<le> real num / real den" and "real num / real den < 2 powi (e + 1)"
  shows "ratio_exponent num den = e"
proof -
  note r = ratio_exponent_spec [OF assms(1,2)]
  have "\<not> ratio_exponent num den + 1 \<le> e" using r(2) assms(3) powi_le [of "ratio_exponent num den + 1" e] by linarith
  moreover have "\<not> e + 1 \<le> ratio_exponent num den" using r(1) assms(4) powi_le [of "e + 1" "ratio_exponent num den"] by linarith
  ultimately show ?thesis by linarith
qed

lemma ratio_exponent_less:
  assumes "0 < num" and "0 < den" and "real num / real den < 2 powi e"
  shows "ratio_exponent num den < e"
proof (rule ccontr)
  assume "\<not> ratio_exponent num den < e"
  then have "e \<le> ratio_exponent num den" by simp
  from powi_le [OF this] ratio_exponent_spec(1) [OF assms(1,2)] assms(3) show False by simp
qed

lemma round_ratio_eq:
  assumes "0 < den" and "\<bar>real num / real den - real k\<bar> < 1 / 2"
  shows "round_ratio num den = k"
proof -
  have den0: "0 < real den" using assms(1) by simp
  from assms(2) have "real num / real den < real k + 1 / 2" "real k - 1 / 2 < real num / real den" by linarith+
  then have "2 * real num < (2 * real k + 1) * real den" "2 * real k * real den < 2 * real num + real den"
    using den0 by (simp_all add: field_simps)
  then have "real (2 * num) < real ((2 * k + 1) * den)" "real (2 * k * den) < real (2 * num + den)"
    by (simp_all add: algebra_simps)
  then have k: "2 * num < (2 * k + 1) * den" "2 * k * den < 2 * num + den"
    unfolding of_nat_less_iff by simp_all
  define q r where "q = num div den" and "r = num mod den"
  have num: "num = q * den + r" "r < den" using assms(1) by (simp_all add: q_def r_def)
  show ?thesis
  proof (cases "k \<le> q")
    case True
    with k(1) num have "q * den < (k + 1) * den" by (simp add: algebra_simps)
    then have "q < k + 1" by (rule mult_less_cancel2 [THEN iffD1, THEN conjunct2])
    with True have "q = k" by simp
    with k(1) num have "2 * r < den" by (simp add: algebra_simps)
    with \<open>q = k\<close> show ?thesis by (simp add: round_ratio_def q_def [symmetric] r_def [symmetric])
  next
    case False
    then have "(q + 1) * den \<le> k * den" by (intro mult_le_mono1) simp
    with k(2) num have "k * den < (q + 2) * den" by (simp add: algebra_simps)
    then have "k < q + 2" by (rule mult_less_cancel2 [THEN iffD1, THEN conjunct2])
    with False have "k = q + 1" by simp
    with k(2) num have "den < 2 * r" by (simp add: algebra_simps)
    with \<open>k = q + 1\<close> show ?thesis by (simp add: round_ratio_def q_def [symmetric] r_def [symmetric])
  qed
qed

lemma double_bits: "n = nat (double_x n + 1074) * 2 ^ 52 + double_m n"
proof (cases "n div 2 ^ 52 = 0")
  case True
  then show ?thesis by (simp add: double_x_def double_m_def)
next
  case False
  then obtain k where k: "n div 2 ^ 52 = Suc k" by (cases "n div 2 ^ 52") simp_all
  have "n = Suc k * 2 ^ 52 + n mod 2 ^ 52" using div_mult_mod_eq [of n "2 ^ 52"] unfolding k by simp
  then show ?thesis using k by (simp add: double_x_def double_m_def)
qed

lemma half_below_le: "real (2 * double_m n - 1) * 2 powi (double_x n - 1) \<le> half_below n"
proof (cases "lower_closer n")
  case True
  have "real (2 * double_m n - 1) * 2 powi (double_x n - 1) = real (2 * (2 * double_m n - 1)) * 2 powi (double_x n - 2)"
    using power_int_add [of "2 :: real" 1 "double_x n - 2"] by simp
  also have "\<dots> \<le> real (4 * double_m n - 1) * 2 powi (double_x n - 2)"
    by (intro mult_right_mono of_nat_mono) simp_all
  finally show ?thesis using True by (simp add: half_below_def)
qed (simp add: half_below_def)

text \<open>With the right exponent, the significand of the nearest double is found.\<close>

lemma ratio_to_double_at:
  assumes "0 < num" and "0 < den" and "max (ratio_exponent num den - 52) (- 1074) = q"
    and "\<bar>real num / real den * 2 powi (- q) - real k\<bar> < 1 / 2"
  shows "ratio_to_double num den = min (nat (q + 1074) * 2 ^ 52 + k) (2047 * 2 ^ 52)"
proof -
  have "real (num * 2 ^ nat (- q)) / real (den * 2 ^ nat q) = real num / real den * 2 powi (- q)"
    by (cases "0 \<le> q") (simp_all add: power_int_def field_simps)
  then have "round_ratio (num * 2 ^ nat (- q)) (den * 2 ^ nat q) = k"
    using assms(2,4) by (intro round_ratio_eq) simp_all
  moreover have "fp_emin 11 52 = - 1074" by (simp add: fp_emin_def fp_bias_def)
  ultimately show ?thesis using assms(1,3) by (simp add: ratio_to_double_def)
qed

lemma ratio_to_double_nearest:
  assumes "0 < n" and "n < 2047 * 2 ^ 52" and "0 < den"
    and "half_below n < real num / real den" and "real num / real den < half_above n"
  shows "ratio_to_double num den = n"
proof -
  define m x X where "m = double_m n" and "x = double_x n" and "X = real num / real den"
  note m = double_m_bounds [OF assms(1), folded m_def]
  have x: "- 1074 \<le> x" "x = - 1074 \<or> 2 ^ 52 \<le> m" by (auto simp: x_def m_def double_x_def double_m_def)
  have X: "real (2 * m - 1) * 2 powi (x - 1) < X" "X < real (2 * m + 1) * 2 powi (x - 1)" "half_below n < X"
    using half_below_le [of n] assms(4,5) by (simp_all add: m_def x_def X_def half_above_def)
  have "0 < real (2 * m - 1) * 2 powi (x - 1)" using m(1) by simp
  with X(1) have "0 < X" by linarith
  then have num: "0 < num" using assms(3) by (simp add: X_def zero_less_divide_iff)
  have "real (2 * m + 1) * 2 powi (x - 1) \<le> 2 ^ 54 * 2 powi (x - 1)" using m(2) by (intro mult_right_mono) simp_all
  also have "\<dots> = 2 powi (x + 52 + 1)" using power_int_add [of "2 :: real" 54 "x - 1"] by (simp add: algebra_simps)
  finally have top: "X < 2 powi (x + 52 + 1)" using X(2) by (rule order.strict_trans2 [rotated])
  have half: "2 powi (x - 1) * 2 powi (- x) = (1 / 2 :: real)"
    using power_int_add [of "2 :: real" "x - 1" "- x"] by (simp add: power_int_minus)
  show ?thesis
  proof (cases "x = - 1074 \<or> 2 powi (x + 52) \<le> X")
    case True
    have "max (ratio_exponent num den - 52) (- 1074) = x"
    proof (cases "2 powi (x + 52) \<le> X")
      case True
      with top ratio_exponent_eq [OF num assms(3), of "x + 52"] x(1) show ?thesis by (simp add: X_def)
    next
      case False
      with \<open>x = - 1074 \<or> 2 powi (x + 52) \<le> X\<close> ratio_exponent_less [OF num assms(3), of "x + 52"]
      show ?thesis by (simp add: X_def)
    qed
    moreover have "\<bar>X * 2 powi (- x) - real m\<bar> < 1 / 2"
    proof -
      have "real (2 * m - 1) * (2 powi (x - 1) * 2 powi (- x)) < X * 2 powi (- x)"
        "X * 2 powi (- x) < real (2 * m + 1) * (2 powi (x - 1) * 2 powi (- x))"
        using X(1,2) by (simp_all only: mult.assoc [symmetric]) (intro mult_strict_right_mono; simp)+
      then have "2 * real m - 1 < 2 * (X * 2 powi (- x))" "2 * (X * 2 powi (- x)) < 2 * real m + 1"
        using m(1) unfolding half by (simp_all add: of_nat_diff)
      then show ?thesis unfolding abs_less_iff by linarith
    qed
    ultimately have "ratio_to_double num den = min (nat (x + 1074) * 2 ^ 52 + m) (2047 * 2 ^ 52)"
      using num assms(3) unfolding X_def by (rule ratio_to_double_at [rotated 2])
    with double_bits [of n] assms(2) show ?thesis by (simp add: m_def x_def)
  next
    case False
    then have xs: "- 1074 < x" and low: "X < 2 powi (x + 52)" using x(1) by simp_all
    have m52: "m = 2 ^ 52"
    proof (rule ccontr)
      assume "m \<noteq> 2 ^ 52"
      with x(2) xs have "2 ^ 53 + 1 \<le> 2 * m - 1" by simp
      then have "(2 ^ 53 :: real) * 2 powi (x - 1) \<le> real (2 * m - 1) * 2 powi (x - 1)"
        using of_nat_mono [of "2 ^ 53" "2 * m - 1", where ?'a = real] by (intro mult_right_mono) simp_all
      moreover have "(2 ^ 53 :: real) * 2 powi (x - 1) = 2 powi (x + 52)"
        using power_int_add [of "2 :: real" 53 "x - 1"] by (simp add: algebra_simps)
      ultimately show False using X(1) low by linarith
    qed
    have "lower_closer n"
      using m52 xs mod_less_divisor [of "2 ^ 52" n]
      by (cases "n div 2 ^ 52 = 0") (simp_all add: lower_closer_def m_def x_def double_m_def double_x_def)
    then have below: "real (4 * m - 1) * 2 powi (x - 2) < X" using X(3) by (simp add: half_below_def m_def x_def)
    have "(2 ^ 53 :: real) * 2 powi (x - 2) \<le> real (4 * m - 1) * 2 powi (x - 2)" unfolding m52 by (intro mult_right_mono) simp_all
    moreover have "(2 ^ 53 :: real) * 2 powi (x - 2) = 2 powi (x + 51)"
      using power_int_add [of "2 :: real" 53 "x - 2"] by (simp add: algebra_simps)
    ultimately have "2 powi (x + 51) \<le> X" using below by linarith
    moreover have "X < 2 powi (x + 51 + 1)" using low by (simp only: add.assoc) simp
    ultimately have "ratio_exponent num den = x + 51"
      using num assms(3) unfolding X_def by (intro ratio_exponent_eq)
    then have "max (ratio_exponent num den - 52) (- 1074) = x - 1" using xs by simp
    moreover have "\<bar>X * 2 powi (- (x - 1)) - real (2 ^ 53)\<bar> < 1 / 2"
    proof -
      have quarter: "2 powi (x - 2) * 2 powi (- (x - 1)) = (1 / 2 :: real)"
        using power_int_add [of "2 :: real" "x - 2" "- (x - 1)"] by (simp add: power_int_minus)
      have whole: "2 powi (x + 52) * 2 powi (- (x - 1)) = (2 ^ 53 :: real)"
        using power_int_add [of "2 :: real" "x + 52" "- (x - 1)"] by simp
      have "real (4 * m - 1) * (2 powi (x - 2) * 2 powi (- (x - 1))) < X * 2 powi (- (x - 1))"
        "X * 2 powi (- (x - 1)) < 2 powi (x + 52) * 2 powi (- (x - 1))"
        using below low by (simp_all only: mult.assoc [symmetric]) (intro mult_strict_right_mono; simp)+
      then show ?thesis unfolding quarter whole m52 by (simp add: abs_less_iff)
    qed
    ultimately have "ratio_to_double num den = min (nat (x - 1 + 1074) * 2 ^ 52 + 2 ^ 53) (2047 * 2 ^ 52)"
      using num assms(3) unfolding X_def by (rule ratio_to_double_at [rotated 2])
    moreover have "nat (x - 1 + 1074) * 2 ^ 52 + 2 ^ 53 = n"
    proof -
      have "nat (x + 1074) = Suc (nat (x - 1 + 1074))" using xs by (simp add: Suc_nat_eq_nat_zadd1)
      then show ?thesis using double_bits [of n] m52 by (simp add: m_def x_def)
    qed
    ultimately show ?thesis using assms(2) by simp
  qed
qed

end
