(* ===== verification/Utf8.thy ===== *)
theory Utf8
  imports Machine
begin

unbundle bit_operations_syntax

section \<open>UTF-8\<close>

text \<open>
  The decoder \<open>serializer::decode\<close> of \<open>json.hpp\<close>, a table-driven automaton over bytes, and the
  specification it is measured against: the well-formed byte sequences as ranges of bytes, which is
  also the form in which the lexer checks a string it reads.
\<close>

subsection \<open>The decoder\<close>

definition UTF8_ACCEPT :: nat where
  "UTF8_ACCEPT = 0"

definition UTF8_REJECT :: nat where
  "UTF8_REJECT = 1"

text \<open>The first 256 entries give the class of a byte, the others are rows of 16 successor states.\<close>

definition utf8d :: "nat list" where
  "utf8d =
    [0, 0, 0, 0, 0, 0, 0, 0, 0, 0, 0, 0, 0, 0, 0, 0, 0, 0, 0, 0, 0, 0, 0, 0, 0, 0, 0, 0, 0, 0, 0, 0,
     0, 0, 0, 0, 0, 0, 0, 0, 0, 0, 0, 0, 0, 0, 0, 0, 0, 0, 0, 0, 0, 0, 0, 0, 0, 0, 0, 0, 0, 0, 0, 0,
     0, 0, 0, 0, 0, 0, 0, 0, 0, 0, 0, 0, 0, 0, 0, 0, 0, 0, 0, 0, 0, 0, 0, 0, 0, 0, 0, 0, 0, 0, 0, 0,
     0, 0, 0, 0, 0, 0, 0, 0, 0, 0, 0, 0, 0, 0, 0, 0, 0, 0, 0, 0, 0, 0, 0, 0, 0, 0, 0, 0, 0, 0, 0, 0,
     1, 1, 1, 1, 1, 1, 1, 1, 1, 1, 1, 1, 1, 1, 1, 1, 9, 9, 9, 9, 9, 9, 9, 9, 9, 9, 9, 9, 9, 9, 9, 9,
     7, 7, 7, 7, 7, 7, 7, 7, 7, 7, 7, 7, 7, 7, 7, 7, 7, 7, 7, 7, 7, 7, 7, 7, 7, 7, 7, 7, 7, 7, 7, 7,
     8, 8, 2, 2, 2, 2, 2, 2, 2, 2, 2, 2, 2, 2, 2, 2, 2, 2, 2, 2, 2, 2, 2, 2, 2, 2, 2, 2, 2, 2, 2, 2,
     10, 3, 3, 3, 3, 3, 3, 3, 3, 3, 3, 3, 3, 4, 3, 3,
     11, 6, 6, 6, 5, 8, 8, 8, 8, 8, 8, 8, 8, 8, 8, 8,
     0, 1, 2, 3, 5, 8, 7, 1, 1, 1, 4, 6, 1, 1, 1, 1,
     1, 1, 1, 1, 1, 1, 1, 1, 1, 1, 1, 1, 1, 1, 1, 1, 1, 0, 1, 1, 1, 1, 1, 0, 1, 0, 1, 1, 1, 1, 1, 1,
     1, 2, 1, 1, 1, 1, 1, 2, 1, 2, 1, 1, 1, 1, 1, 1, 1, 1, 1, 1, 1, 1, 1, 2, 1, 1, 1, 1, 1, 1, 1, 1,
     1, 2, 1, 1, 1, 1, 1, 1, 1, 2, 1, 1, 1, 1, 1, 1, 1, 1, 1, 1, 1, 1, 1, 3, 1, 3, 1, 1, 1, 1, 1, 1,
     1, 3, 1, 1, 1, 1, 1, 3, 1, 3, 1, 1, 1, 1, 1, 1, 1, 3, 1, 1, 1, 1, 1, 1, 1, 1, 1, 1, 1, 1, 1, 1]"

definition utf8_decode :: "nat \<times> 32 word \<Rightarrow> char \<Rightarrow> nat \<times> 32 word" where
  "utf8_decode = (\<lambda>(state, codep) c.
     let byte = (of_char c :: 32 word);
         type = utf8d ! of_char c;
         codep' = (if state \<noteq> UTF8_ACCEPT then (byte AND 0x3F) OR push_bit 6 codep
                   else drop_bit type 0xFF AND byte)
     in (utf8d ! (256 + state * 16 + type), codep'))"

subsection \<open>Well-formed sequences\<close>

text \<open>The ranges of the bytes that follow a first byte.\<close>

definition utf8_tails :: "nat \<Rightarrow> (nat \<times> nat) list option" where
  "utf8_tails b =
     (if b < 0x80 then Some []
      else if 0xC2 \<le> b \<and> b \<le> 0xDF then Some [(0x80, 0xBF)]
      else if b = 0xE0 then Some [(0xA0, 0xBF), (0x80, 0xBF)]
      else if b = 0xED then Some [(0x80, 0x9F), (0x80, 0xBF)]
      else if 0xE1 \<le> b \<and> b \<le> 0xEF then Some [(0x80, 0xBF), (0x80, 0xBF)]
      else if b = 0xF0 then Some [(0x90, 0xBF), (0x80, 0xBF), (0x80, 0xBF)]
      else if 0xF1 \<le> b \<and> b \<le> 0xF3 then Some [(0x80, 0xBF), (0x80, 0xBF), (0x80, 0xBF)]
      else if b = 0xF4 then Some [(0x80, 0x8F), (0x80, 0xBF), (0x80, 0xBF)]
      else None)"

definition byte_in :: "nat \<times> nat \<Rightarrow> char \<Rightarrow> bool" where
  "byte_in = (\<lambda>(lo, hi) c. lo \<le> of_char c \<and> of_char c \<le> hi)"

fun utf8_char :: "string \<Rightarrow> bool" where
  "utf8_char [] = False"
| "utf8_char (c # t) =
     (case utf8_tails (of_char c) of None \<Rightarrow> False | Some rs \<Rightarrow> list_all2 byte_in rs t)"

text \<open>The characters of a string, if it is well-formed.\<close>

function utf8_chars :: "string \<Rightarrow> string list option" where
  "utf8_chars [] = Some []"
| "utf8_chars (c # s) =
     (case utf8_tails (of_char c) of
        None \<Rightarrow> None
      | Some rs \<Rightarrow>
          if list_all2 byte_in rs (take (length rs) s)
          then map_option ((#) (c # take (length rs) s)) (utf8_chars (drop (length rs) s))
          else None)"
  by pat_completeness auto

termination
  by (relation "measure length") auto

definition utf8_valid :: "string \<Rightarrow> bool" where
  "utf8_valid s \<longleftrightarrow> utf8_chars s \<noteq> None"

lemma utf8_chars_Nil [simp]: "utf8_chars [] = Some []"
  by simp

declare utf8_chars.simps(2) [simp del]

lemma utf8_chars_append:
  assumes "utf8_char cs"
  shows "utf8_chars (cs @ s) = map_option ((#) cs) (utf8_chars s)"
proof (cases cs)
  case (Cons c t)
  with assms obtain rs where rs: "utf8_tails (of_char c) = Some rs" "list_all2 byte_in rs t"
    by (auto split: option.splits)
  then have "length rs = length t" by (simp add: list_all2_lengthD)
  with Cons rs show ?thesis by (simp add: utf8_chars.simps(2))
qed (use assms in simp)

lemma utf8_charsE:
  assumes "utf8_chars (c # s) = Some css"
  obtains cs t css' where "c # s = cs @ t" "utf8_char cs" "utf8_chars t = Some css'" "css = cs # css'"
proof -
  from assms obtain rs css' where *: "utf8_tails (of_char c) = Some rs"
    "list_all2 byte_in rs (take (length rs) s)" "utf8_chars (drop (length rs) s) = Some css'"
    "css = (c # take (length rs) s) # css'"
    by (auto simp: utf8_chars.simps(2) split: option.splits if_splits)
  show ?thesis
    by (rule that [of "c # take (length rs) s" "drop (length rs) s" css']) (use * in simp_all)
qed

lemma utf8_chars_concat: "utf8_chars s = Some css \<Longrightarrow> concat css = s \<and> list_all utf8_char css"
proof (induction s arbitrary: css rule: length_induct)
  case (1 s)
  show ?case
  proof (cases s)
    case Nil
    with 1 show ?thesis by simp
  next
    case (Cons c s')
    with 1(2) obtain cs t css' where *: "s = cs @ t" "utf8_char cs" "utf8_chars t = Some css'"
      "css = cs # css'" using utf8_charsE by metis
    then have "length t < length s" by (cases cs) auto
    with 1(1) *(3) have "concat css' = t \<and> list_all utf8_char css'" by blast
    with * show ?thesis by simp
  qed
qed

lemma utf8_chars_of: "list_all utf8_char css \<Longrightarrow> utf8_chars (concat css) = Some css"
  by (induction css) (simp_all add: utf8_chars_append)

lemma utf8_valid_iff: "utf8_valid s \<longleftrightarrow> (\<exists>css. list_all utf8_char css \<and> s = concat css)"
  using utf8_chars_concat utf8_chars_of by (fastforce simp: utf8_valid_def)

lemma utf8_valid_append: "utf8_valid s \<Longrightarrow> utf8_valid t \<Longrightarrow> utf8_valid (s @ t)"
  unfolding utf8_valid_iff by (metis concat_append list_all_append)

lemma utf8_valid_char: "utf8_char cs \<Longrightarrow> utf8_valid cs"
  unfolding utf8_valid_iff by (rule exI [of _ "[cs]"]) simp

text \<open>Every string of 7-bit characters is well-formed.\<close>

lemma utf8_valid_ascii: "list_all (\<lambda>c. of_char c < (128 :: nat)) s \<Longrightarrow> utf8_valid s"
proof (induction s)
  case (Cons c s)
  then have "utf8_char [c]" by (simp add: utf8_tails_def)
  from utf8_valid_append [OF utf8_valid_char [OF this], of s] Cons show ?case by simp
qed (simp add: utf8_valid_def)


subsection \<open>The automaton accepts the well-formed sequences\<close>

text \<open>The class of a byte, and the state in which the bytes \<open>rs\<close> are still expected.\<close>

definition byte_class :: "nat \<Rightarrow> nat" where
  "byte_class b =
     (if b < 0x80 then 0 else if b < 0x90 then 1 else if b < 0xA0 then 9 else if b < 0xC0 then 7
      else if b < 0xC2 then 8 else if b < 0xE0 then 2 else if b = 0xE0 then 10
      else if b = 0xED then 4 else if b < 0xF0 then 3 else if b = 0xF0 then 11
      else if b < 0xF4 then 6 else if b = 0xF4 then 5 else 8)"

definition expecting :: "((nat \<times> nat) list \<times> nat) list" where
  "expecting =
     [([], 0), ([(0x80, 0xBF)], 2), ([(0x80, 0xBF), (0x80, 0xBF)], 3),
      ([(0xA0, 0xBF), (0x80, 0xBF)], 4), ([(0x80, 0x9F), (0x80, 0xBF)], 5),
      ([(0x90, 0xBF), (0x80, 0xBF), (0x80, 0xBF)], 6),
      ([(0x80, 0xBF), (0x80, 0xBF), (0x80, 0xBF)], 7),
      ([(0x80, 0x8F), (0x80, 0xBF), (0x80, 0xBF)], 8)]"

lemma utf8d_class: "b < 256 \<Longrightarrow> utf8d ! b = byte_class b"
proof -
  have "take 256 utf8d = map byte_class [0..<256]" by code_simp
  moreover assume "b < 256"
  ultimately show ?thesis by (metis nth_map nth_take nth_upt add_0 length_upt diff_zero)
qed

definition utf8_row :: "nat \<Rightarrow> nat list" where
  "utf8_row st =
     (if st = 0 then [0, 1, 2, 3, 5, 8, 7, 1, 1, 1, 4, 6]
      else if st = 2 then [1, 0, 1, 1, 1, 1, 1, 0, 1, 0, 1, 1]
      else if st = 3 then [1, 2, 1, 1, 1, 1, 1, 2, 1, 2, 1, 1]
      else if st = 4 then [1, 1, 1, 1, 1, 1, 1, 2, 1, 1, 1, 1]
      else if st = 5 then [1, 2, 1, 1, 1, 1, 1, 1, 1, 2, 1, 1]
      else if st = 6 then [1, 1, 1, 1, 1, 1, 1, 3, 1, 3, 1, 1]
      else if st = 7 then [1, 3, 1, 1, 1, 1, 1, 3, 1, 3, 1, 1]
      else [1, 3, 1, 1, 1, 1, 1, 1, 1, 1, 1, 1])"

lemma utf8d_row:
  assumes "st \<in> set (map snd expecting)" and "b < 256"
  shows "utf8d ! (256 + st * 16 + utf8d ! b) = utf8_row st ! byte_class b"
proof -
  have "list_all (\<lambda>st. map (\<lambda>k. utf8d ! (256 + st * 16 + k)) [0..<12] = utf8_row st)
      (map snd expecting)"
    by code_simp
  with assms(1) have "map (\<lambda>k. utf8d ! (256 + st * 16 + k)) [0..<12] = utf8_row st"
    unfolding list_all_iff by blast
  moreover have "byte_class b < 12" by (simp add: byte_class_def)
  ultimately have "utf8d ! (256 + st * 16 + byte_class b) = utf8_row st ! byte_class b"
    by (metis (mono_tags, lifting) add_0 diff_zero length_upt nth_map nth_upt)
  then show ?thesis by (simp add: utf8d_class [OF assms(2)])
qed

lemma byte_class_cases:
  obtains "b < 0x80" "byte_class b = 0"
    | "0x80 \<le> b" "b < 0x90" "byte_class b = 1"
    | "0x90 \<le> b" "b < 0xA0" "byte_class b = 9"
    | "0xA0 \<le> b" "b < 0xC0" "byte_class b = 7"
    | "0xC0 \<le> b" "b < 0xC2" "byte_class b = 8"
    | "0xC2 \<le> b" "b < 0xE0" "byte_class b = 2"
    | "b = 0xE0" "byte_class b = 10"
    | "0xE1 \<le> b" "b < 0xED" "byte_class b = 3"
    | "b = 0xED" "byte_class b = 4"
    | "0xEE \<le> b" "b < 0xF0" "byte_class b = 3"
    | "b = 0xF0" "byte_class b = 11"
    | "0xF1 \<le> b" "b < 0xF4" "byte_class b = 6"
    | "b = 0xF4" "byte_class b = 5"
    | "0xF4 < b" "byte_class b = 8"
proof -
  have "b < 0x80 \<or> 0x80 \<le> b \<and> b < 0x90 \<or> 0x90 \<le> b \<and> b < 0xA0 \<or> 0xA0 \<le> b \<and> b < 0xC0 \<or>
      0xC0 \<le> b \<and> b < 0xC2 \<or> 0xC2 \<le> b \<and> b < 0xE0 \<or> b = 0xE0 \<or> 0xE1 \<le> b \<and> b < 0xED \<or>
      b = 0xED \<or> 0xEE \<le> b \<and> b < 0xF0 \<or> b = 0xF0 \<or> 0xF1 \<le> b \<and> b < 0xF4 \<or> b = 0xF4 \<or> 0xF4 < b"
    by linarith
  then show thesis
    apply (elim disjE conjE)
    subgoal by (rule that(1)) (simp_all add: byte_class_def)
    subgoal by (rule that(2)) (simp_all add: byte_class_def)
    subgoal by (rule that(3)) (simp_all add: byte_class_def)
    subgoal by (rule that(4)) (simp_all add: byte_class_def)
    subgoal by (rule that(5)) (simp_all add: byte_class_def)
    subgoal by (rule that(6)) (simp_all add: byte_class_def)
    subgoal by (rule that(7)) (simp_all add: byte_class_def)
    subgoal by (rule that(8)) (simp_all add: byte_class_def)
    subgoal by (rule that(9)) (simp_all add: byte_class_def)
    subgoal by (rule that(10)) (simp_all add: byte_class_def)
    subgoal by (rule that(11)) (simp_all add: byte_class_def)
    subgoal by (rule that(12)) (simp_all add: byte_class_def)
    subgoal by (rule that(13)) (simp_all add: byte_class_def)
    subgoal by (rule that(14)) (simp_all add: byte_class_def)
    done
qed

text \<open>One byte takes the automaton from expecting \<open>r # rs\<close> to expecting \<open>rs\<close> when it is in the range
  \<open>r\<close>, and to \<open>UTF8_REJECT\<close> when it is not.\<close>

lemma utf8_lead:
  assumes "b < 256"
  shows "case utf8_tails b of
      None \<Rightarrow> utf8d ! (256 + utf8d ! b) = 1
    | Some rs \<Rightarrow> map_of expecting rs = Some (utf8d ! (256 + utf8d ! b))"
proof -
  have *: "utf8d ! (256 + utf8d ! b) = utf8_row 0 ! byte_class b"
    using utf8d_row [of 0, OF _ assms] by (simp add: expecting_def)
  show ?thesis unfolding *
    by (cases b rule: byte_class_cases)
      (simp_all add: utf8_tails_def expecting_def utf8_row_def)
qed

lemma utf8_tail:
  assumes "b < 256" and "map_of expecting ((lo, hi) # rs) = Some st"
  shows "if lo \<le> b \<and> b \<le> hi then map_of expecting rs = Some (utf8d ! (256 + st * 16 + utf8d ! b))
    else utf8d ! (256 + st * 16 + utf8d ! b) = 1"
proof -
  from assms(2) have "((lo, hi) # rs, st) \<in> set expecting" by (rule map_of_SomeD)
  moreover from this have "utf8d ! (256 + st * 16 + utf8d ! b) = utf8_row st ! byte_class b"
    by (intro utf8d_row [OF _ assms(1)]) force
  ultimately show ?thesis
    unfolding expecting_def set_simps insert_iff empty_iff prod.inject list.inject
    by (elim disjE conjE; cases b rule: byte_class_cases) (simp_all add: utf8_row_def)
qed

subsection \<open>Code points\<close>

text \<open>The code point a byte leads to, as a number. It does not overflow in a well-formed sequence.\<close>

lemma unat_of_char [simp]: "unat (of_char c :: 32 word) = of_char c"
proof -
  have "(of_char c :: 32 word) = of_nat (of_char c)" by (simp only: of_nat_of_char)
  moreover have "of_char c mod 2 ^ 32 = (of_char c :: nat)"
    by (rule mod_less) (rule order.strict_trans [OF nat_of_char_less_256], simp)
  ultimately show ?thesis by (simp add: unat_of_nat)
qed

lemma codep_lead:
  assumes "t < 12"
  shows "unat (drop_bit t 0xFF AND (of_char c :: 32 word)) = of_char c mod 2 ^ (8 - t)"
proof -
  have "list_all (\<lambda>t. drop_bit t 0xFF = (mask (8 - t) :: 32 word)) [0..<12]" by code_simp
  with assms have "drop_bit t 0xFF = (mask (8 - t) :: 32 word)" by (simp add: list_all_iff)
  then have "drop_bit t 0xFF AND (of_char c :: 32 word) = take_bit (8 - t) (of_char c)"
    by (simp add: and.commute flip: take_bit_eq_mask)
  then show ?thesis by (simp only: unsigned_take_bit_eq) (simp add: take_bit_eq_mod)
qed

lemma codep_tail:
  assumes "unat codep < 2 ^ 26"
  shows "unat (((of_char c :: 32 word) AND 0x3F) OR push_bit 6 codep) =
    of_char c mod 64 + 64 * unat codep"
proof -
  have low: "(of_char c :: 32 word) AND 0x3F = take_bit 6 (of_char c)"
    by (simp add: take_bit_eq_mask mask_eq_exp_minus_1)
  have "take_bit 6 (of_char c :: 32 word) OR push_bit 6 codep =
      take_bit 6 (of_char c) + push_bit 6 codep"
    by (rule disjunctive_add [symmetric]) (auto simp: bit_simps)
  moreover have "unat (take_bit 6 (of_char c :: 32 word)) = of_char c mod 64"
    by (simp only: unsigned_take_bit_eq) (simp add: take_bit_eq_mod)
  moreover have "unat (push_bit 6 codep) = 64 * unat codep"
    using assms by (simp add: push_bit_eq_mult unat_word_ariths mult.commute)
  moreover have "of_char c mod 64 + 64 * unat codep < 2 ^ 32"
    using assms mod_less_divisor [of 64 "of_char c :: nat"] by simp
  ultimately show ?thesis unfolding low by (simp add: unat_word_ariths)
qed

text \<open>Bounds that hold of the code point while the bytes \<open>rs\<close> are expected.\<close>

definition codep_least :: "(nat \<times> nat) list \<Rightarrow> nat" where
  "codep_least rs =
     (if length rs = 1 then 2
      else if rs = [(0xA0, 0xBF), (0x80, 0xBF)] \<or> rs = [(0x90, 0xBF), (0x80, 0xBF), (0x80, 0xBF)] then 0
      else 1)"

definition codep_most :: "(nat \<times> nat) list \<Rightarrow> nat" where
  "codep_most rs = (if length rs = 1 then 131071 else if length rs = 2 then 2047 else 31)"

definition codep_fits :: "(nat \<times> nat) list \<Rightarrow> 32 word \<Rightarrow> bool" where
  "codep_fits rs cp \<longleftrightarrow> codep_least rs \<le> unat cp \<and> unat cp \<le> codep_most rs"

definition dfa_at :: "(nat \<times> nat) list \<Rightarrow> nat \<times> 32 word \<Rightarrow> bool" where
  "dfa_at rs = (\<lambda>(st, cp). map_of expecting rs = Some st \<and>
     (if rs = [] then 0x80 \<le> unat cp else codep_fits rs cp))"

lemma mod_block:
  fixes b :: nat
  assumes "q * m \<le> b" and "b < q * m + m"
  shows "b mod m = b - q * m"
  using assms by (intro mod_nat_eqI) auto

lemma codep_lead_range:
  assumes "utf8_tails b = Some rs" and "rs \<noteq> []"
  shows "codep_least rs \<le> b mod 2 ^ (8 - byte_class b) \<and> b mod 2 ^ (8 - byte_class b) \<le> codep_most rs"
proof -
  from assms consider "0xC2 \<le> b" "b \<le> 0xDF" "length rs = 1" "byte_class b = 2"
    | "b = 0xE0" "rs = [(0xA0, 0xBF), (0x80, 0xBF)]" "byte_class b = 10"
    | "b = 0xED" "rs = [(0x80, 0x9F), (0x80, 0xBF)]" "byte_class b = 4"
    | "0xE1 \<le> b" "b \<le> 0xEF" "rs = [(0x80, 0xBF), (0x80, 0xBF)]" "byte_class b = 3"
    | "b = 0xF0" "rs = [(0x90, 0xBF), (0x80, 0xBF), (0x80, 0xBF)]" "byte_class b = 11"
    | "0xF1 \<le> b" "b \<le> 0xF3" "rs = [(0x80, 0xBF), (0x80, 0xBF), (0x80, 0xBF)]" "byte_class b = 6"
    | "b = 0xF4" "rs = [(0x80, 0x8F), (0x80, 0xBF), (0x80, 0xBF)]" "byte_class b = 5"
    by (auto simp: utf8_tails_def byte_class_def split: if_splits)
  then show ?thesis
  proof cases
    case 1
    then have "b mod 64 = b - 192" using mod_block [of 3 64 b] by simp
    with 1 show ?thesis by (auto simp: codep_least_def codep_most_def)
  next
    case 4
    then have "b mod 32 = b - 224" using mod_block [of 7 32 b] by simp
    with 4 show ?thesis by (auto simp: codep_least_def codep_most_def)
  next
    case 6
    then have "b mod 4 = b - 240" using mod_block [of 60 4 b] by simp
    with 6 show ?thesis by (auto simp: codep_least_def codep_most_def)
  qed (simp_all add: codep_least_def codep_most_def)
qed

lemma codep_tail_range:
  assumes "map_of expecting ((lo, hi) # rs) = Some st" and "codep_least ((lo, hi) # rs) \<le> n"
    and "n \<le> codep_most ((lo, hi) # rs)" and "lo \<le> b" and "b \<le> hi"
  shows "if rs = [] then 0x80 \<le> b mod 64 + 64 * n
    else codep_least rs \<le> b mod 64 + 64 * n \<and> b mod 64 + 64 * n \<le> codep_most rs"
proof -
  from assms(1) have "((lo, hi) # rs, st) \<in> set expecting" by (rule map_of_SomeD)
  then consider "rs = []" "lo = 0x80" "hi = 0xBF"
    | "rs = [(0x80, 0xBF)]" "lo = 0x80" "hi \<in> {0x9F, 0xBF}"
    | "rs = [(0x80, 0xBF)]" "lo = 0xA0" "hi = 0xBF"
    | "rs = [(0x80, 0xBF), (0x80, 0xBF)]" "lo = 0x80" "hi \<in> {0x8F, 0xBF}"
    | "rs = [(0x80, 0xBF), (0x80, 0xBF)]" "lo = 0x90" "hi = 0xBF"
    by (auto simp: expecting_def)
  then show ?thesis
  proof cases
    case 1
    with assms(2) show ?thesis by (simp add: codep_least_def)
  next
    case 2
    have "b mod 64 < 64" by simp
    with 2 assms(2,3) show ?thesis by (auto simp: codep_least_def codep_most_def)
  next
    case 3
    with assms(4,5) have "b mod 64 = b - 128" using mod_block [of 2 64 b] by simp
    with 3 assms(3,4,5) show ?thesis by (auto simp: codep_least_def codep_most_def)
  next
    case 4
    have "b mod 64 < 64" by simp
    with 4 assms(2,3) show ?thesis by (auto simp: codep_least_def codep_most_def)
  next
    case 5
    with assms(4,5) have "b mod 64 = b - 128" using mod_block [of 2 64 b] by simp
    with 5 assms(3,4,5) show ?thesis by (auto simp: codep_least_def codep_most_def)
  qed
qed

lemma dfa_lead:
  assumes "utf8_tails (of_char c) = Some rs" and "rs \<noteq> []"
  shows "dfa_at rs (utf8_decode (0, cp) c)"
proof -
  let ?b = "of_char c :: nat"
  have st: "map_of expecting rs = Some (utf8d ! (256 + utf8d ! ?b))"
    using utf8_lead [of ?b] assms(1) by simp
  have t: "utf8d ! ?b = byte_class ?b" "byte_class ?b < 12"
    by (simp_all add: utf8d_class byte_class_def)
  have "codep_least rs \<le> ?b mod 2 ^ (8 - byte_class ?b) \<and>
      ?b mod 2 ^ (8 - byte_class ?b) \<le> codep_most rs"
    by (rule codep_lead_range [OF assms])
  then have "codep_fits rs (drop_bit (utf8d ! ?b) 0xFF AND of_char c)"
    unfolding codep_fits_def t(1) codep_lead [OF t(2)] .
  with st assms(2) show ?thesis
    by (simp add: dfa_at_def utf8_decode_def UTF8_ACCEPT_def Let_def)
qed

lemma dfa_tail:
  assumes "dfa_at ((lo, hi) # rs) (st, cp)"
  shows "if byte_in (lo, hi) c then dfa_at rs (utf8_decode (st, cp) c)
    else fst (utf8_decode (st, cp) c) = UTF8_REJECT"
proof -
  let ?b = "of_char c :: nat"
  from assms have st: "map_of expecting ((lo, hi) # rs) = Some st"
    and cp: "codep_fits ((lo, hi) # rs) cp" by (simp_all add: dfa_at_def)
  have "st \<noteq> 0" using st by (auto simp: expecting_def split: if_splits)
  then have decode: "utf8_decode (st, cp) c =
      (utf8d ! (256 + st * 16 + utf8d ! ?b), (of_char c AND 0x3F) OR push_bit 6 cp)"
    by (simp add: utf8_decode_def UTF8_ACCEPT_def Let_def)
  have "unat cp < 2 ^ 26"
    using cp by (auto simp: codep_fits_def codep_most_def split: if_splits)
  note cp' = codep_tail [OF this, of c]
  have "byte_in (lo, hi) c \<Longrightarrow>
      (if rs = [] then 0x80 \<le> unat ((of_char c AND 0x3F) OR push_bit 6 cp)
       else codep_fits rs ((of_char c AND 0x3F) OR push_bit 6 cp))"
    unfolding codep_fits_def cp' using codep_tail_range [OF st, of "unat cp" ?b] cp
    by (simp add: byte_in_def codep_fits_def)
  with utf8_tail [OF nat_of_char_less_256 st, of c] show ?thesis
    by (auto simp: dfa_at_def decode byte_in_def UTF8_REJECT_def split: if_splits)
qed

lemma dfa_codes: "dfa_at rs (st, cp) \<Longrightarrow> (st = UTF8_ACCEPT \<longleftrightarrow> rs = []) \<and> st \<noteq> UTF8_REJECT"
  by (auto simp: dfa_at_def expecting_def UTF8_ACCEPT_def UTF8_REJECT_def split: if_splits)

lemma dfa_ascii:
  assumes "of_char c < (128 :: nat)"
  shows "utf8_decode (0, cp) c = (UTF8_ACCEPT, of_char c)"
proof -
  have zero: "utf8d ! of_char c = 0" using assms by (simp add: utf8d_class byte_class_def)
  have "utf8d ! 256 = 0" by code_simp
  moreover have "unat (drop_bit 0 0xFF AND (of_char c :: 32 word)) = of_char c"
    using codep_lead [of 0 c] assms by simp
  then have "drop_bit 0 0xFF AND (of_char c :: 32 word) = of_char c"
    by (intro word_unat_eq_iff [THEN iffD2]) simp
  ultimately show ?thesis
    by (simp add: utf8_decode_def UTF8_ACCEPT_def Let_def zero)
qed

lemma dfa_invalid_lead:
  assumes "utf8_tails (of_char c) = None"
  shows "fst (utf8_decode (0, cp) c) = UTF8_REJECT"
  using utf8_lead [of "of_char c"] assms
  by (simp add: utf8_decode_def UTF8_ACCEPT_def UTF8_REJECT_def Let_def)

end
