(* ===== verification/Dump.thy ===== *)
theory Dump
  imports Json Utf8 Dtoa
begin

unbundle bit_operations_syntax

section \<open>Serialising JSON\<close>

text \<open>
  The class \<open>serializer\<close> of \<open>json.hpp\<close> and \<open>basic_json::dump\<close>. What is written to the output adapter is
  appended to a string; an exception discards it. Strings are decoded byte by byte (\<open>Utf8\<close>) and
  escaped into a buffer of 512 bytes that is written out when fewer than 13 bytes are left in it.
  Integers are converted backwards into a buffer of 64 bytes, two digits at a time.
\<close>

subsection \<open>Strings\<close>

datatype error_handler = STRICT | REPLACE | IGNORE

text \<open>\<open>written\<close> is what the output adapter has, \<open>string_buffer\<close> the first \<open>bytes\<close> bytes of the buffer.\<close>

record escaper =
  written :: string
  string_buffer :: string
  bytes_after_last_accept :: nat
  undumped_chars :: nat
  utf8_state :: nat
  codepoint :: "32 word"

definition hex_lower :: "nat \<Rightarrow> char" where
  "hex_lower d = char_of (if d < 10 then 48 + d else 87 + d)"

definition hex_upper :: "nat \<Rightarrow> char" where
  "hex_upper d = char_of (if d < 10 then 48 + d else 55 + d)"

text \<open>\<open>"\\u%04x"\<close> of a 16-bit number, and \<open>"%.2X"\<close> of a byte.\<close>

definition backslash :: char where
  "backslash = CHR 0x5C"

definition unicode_escape :: "16 word \<Rightarrow> string" where
  "unicode_escape w =
     (let n = unat w
      in [backslash, CHR ''u'', hex_lower (n div 4096), hex_lower (n div 256 mod 16),
          hex_lower (n div 16 mod 16), hex_lower (n mod 16)])"

definition hex_byte :: "char \<Rightarrow> string" where
  "hex_byte c = [hex_upper (of_char c div 16), hex_upper (of_char c mod 16)]"

text \<open>What the code point \<open>cp\<close>, whose last byte is \<open>c\<close>, adds to the buffer. The earlier bytes of a
  sequence that is not escaped are in the buffer already.\<close>

definition escape_codepoint :: "bool \<Rightarrow> 32 word \<Rightarrow> char \<Rightarrow> string" where
  "escape_codepoint ensure_ascii cp c =
     (if cp = 0x08 then [backslash, CHR ''b'']
      else if cp = 0x09 then [backslash, CHR ''t'']
      else if cp = 0x0A then [backslash, CHR ''n'']
      else if cp = 0x0C then [backslash, CHR ''f'']
      else if cp = 0x0D then [backslash, CHR ''r'']
      else if cp = 0x22 then [backslash, CHR 0x22]
      else if cp = 0x5C then [backslash, backslash]
      else if cp \<le> 0x1F \<or> (ensure_ascii \<and> cp \<ge> 0x7F) then
        (if cp \<le> 0xFFFF then unicode_escape (ucast cp)
         else unicode_escape (ucast (0xD7C0 + drop_bit 10 cp)) @
              unicode_escape (ucast (0xDC00 + (cp AND 0x3FF))))
      else [c])"

definition flush_buffer :: "escaper \<Rightarrow> escaper" where
  "flush_buffer e =
     (if 512 - length (string_buffer e) < 13
      then e\<lparr>written := written e @ string_buffer e, string_buffer := []\<rparr> else e)"

definition accept_codepoint :: "bool \<Rightarrow> char \<Rightarrow> escaper \<Rightarrow> escaper" where
  "accept_codepoint ensure_ascii c e =
     (let e' = flush_buffer (e\<lparr>string_buffer :=
            string_buffer e @ escape_codepoint ensure_ascii (codepoint e) c\<rparr>)
      in e'\<lparr>bytes_after_last_accept := length (string_buffer e'), undumped_chars := 0\<rparr>)"

definition replacement :: "bool \<Rightarrow> string" where
  "replacement ensure_ascii =
     (if ensure_ascii then [backslash, CHR ''u'', CHR ''f'', CHR ''f'', CHR ''f'', CHR ''d'']
      else [CHR 0xEF, CHR 0xBF, CHR 0xBD])"

definition drop_invalid :: "error_handler \<Rightarrow> bool \<Rightarrow> escaper \<Rightarrow> escaper" where
  "drop_invalid handler ensure_ascii e =
     (let e1 = e\<lparr>string_buffer := take (bytes_after_last_accept e) (string_buffer e)\<rparr>;
          e2 = (if handler = REPLACE then
                  (let e' = flush_buffer (e1\<lparr>string_buffer := string_buffer e1 @ replacement ensure_ascii\<rparr>)
                   in e'\<lparr>bytes_after_last_accept := length (string_buffer e')\<rparr>)
                else e1)
      in e2\<lparr>undumped_chars := 0, utf8_state := UTF8_ACCEPT\<rparr>)"

text \<open>The loop over the bytes. \<open>i\<close> is the index of the first byte of the rest.\<close>

function escape_loop ::
    "error_handler \<Rightarrow> bool \<Rightarrow> nat \<Rightarrow> string \<Rightarrow> escaper \<Rightarrow> escaper result" where
  "escape_loop handler ensure_ascii i [] e = Inr e"
| "escape_loop handler ensure_ascii i (c # s) e =
     (case utf8_decode (utf8_state e, codepoint e) c of
        (state, cp) \<Rightarrow>
          let e1 = e\<lparr>utf8_state := state, codepoint := cp\<rparr>
          in if state = UTF8_ACCEPT then
               escape_loop handler ensure_ascii (i + 1) s (accept_codepoint ensure_ascii c e1)
             else if state = UTF8_REJECT then
               (if handler = STRICT then
                  Inl (Type_error 316 (''invalid UTF-8 byte at index '' @ decimal i @ '': 0x'' @ hex_byte c))
                else if undumped_chars e > 0 then
                  escape_loop handler ensure_ascii i (c # s) (drop_invalid handler ensure_ascii e1)
                else escape_loop handler ensure_ascii (i + 1) s (drop_invalid handler ensure_ascii e1))
             else escape_loop handler ensure_ascii (i + 1) s
               (e1\<lparr>string_buffer := (if ensure_ascii then string_buffer e else string_buffer e @ [c]),
                   undumped_chars := undumped_chars e + 1\<rparr>))"
  by pat_completeness auto

termination
  by (relation "measure (\<lambda>(_, _, _, s, e). 2 * length s + (if undumped_chars e > 0 then 1 else 0))")
    (auto simp: drop_invalid_def Let_def)

definition escaper_new :: escaper where
  "escaper_new = \<lparr>written = [], string_buffer = [], bytes_after_last_accept = 0, undumped_chars = 0,
     utf8_state = UTF8_ACCEPT, codepoint = 0\<rparr>"

definition dump_escaped :: "error_handler \<Rightarrow> bool \<Rightarrow> string \<Rightarrow> string result" where
  "dump_escaped handler ensure_ascii s =
     bindE (escape_loop handler ensure_ascii 0 s escaper_new) (\<lambda>e.
     if utf8_state e = UTF8_ACCEPT then Inr (written e @ string_buffer e)
     else
       (case handler of
          STRICT \<Rightarrow> Inl (Type_error 316 (''incomplete UTF-8 string; last byte: 0x'' @ hex_byte (last s)))
        | IGNORE \<Rightarrow> Inr (written e @ take (bytes_after_last_accept e) (string_buffer e))
        | REPLACE \<Rightarrow> Inr (written e @ take (bytes_after_last_accept e) (string_buffer e) @
            replacement ensure_ascii)))"

subsection \<open>Integers\<close>

function count_digits :: "64 word \<Rightarrow> nat" where
  "count_digits x =
     (if x < 10 then 1 else if x < 100 then 2 else if x < 1000 then 3 else if x < 10000 then 4
      else 4 + count_digits (x div 10000))"
  by pat_completeness auto

termination
  by (relation "measure unat") (auto simp: unat_div word_less_nat_alt not_less intro!: div_less_dividend)

declare count_digits.simps [simp del]

definition remove_sign :: "64 word \<Rightarrow> 64 word" where
  "remove_sign x = - (x + 1) + 1"

definition digits_to_99 :: "nat \<Rightarrow> char \<times> char" where
  "digits_to_99 n = (digit_char (n div 10), digit_char (n mod 10))"

text \<open>The loop that fills the buffer backwards from position \<open>p\<close>.\<close>

function fill_digits :: "64 word \<Rightarrow> nat \<Rightarrow> string \<Rightarrow> string" where
  "fill_digits x p buffer =
     (if x \<ge> 100 then
        (case digits_to_99 (unat (x mod 100)) of
           (a, b) \<Rightarrow> fill_digits (x div 100) (p - 2) (buffer[p - 1 := b, p - 2 := a]))
      else if x \<ge> 10 then
        (case digits_to_99 (unat x) of (a, b) \<Rightarrow> buffer[p - 1 := b, p - 2 := a])
      else buffer[p - 1 := digit_char (unat x)])"
  by pat_completeness auto

termination
  by (relation "measure (unat \<circ> fst)")
    (auto simp: unat_div word_le_nat_alt intro!: div_less_dividend)

declare fill_digits.simps [simp del]

definition dump_integer :: "bool \<Rightarrow> string \<Rightarrow> 64 word \<Rightarrow> string" where
  "dump_integer is_signed number_buffer x =
     (if x = 0 then ''0''
      else
        (let is_negative = (is_signed \<and> \<not> 0 \<le> sint x);
             abs_value = (if is_negative then remove_sign x else x);
             n_chars = (if is_negative then 1 + count_digits abs_value else count_digits abs_value);
             buffer = (if is_negative then number_buffer[0 := CHR ''-''] else number_buffer)
         in take n_chars (fill_digits abs_value n_chars buffer)))"

definition number_buffer :: string where
  "number_buffer = replicate 64 (CHR 0x00)"

subsection \<open>Values\<close>

definition dump_float :: "64 word \<Rightarrow> string result" where
  "dump_float x =
     (case fp_decode 11 52 (unat x) of
        Fin s m e \<Rightarrow>
          (case dtoa_to_chars x of
             Some t \<Rightarrow> Inr t
           | None \<Rightarrow> Inl (Undefined ''to_chars''))
      | _ \<Rightarrow> Inr ''null'')"

fun join :: "string \<Rightarrow> string list \<Rightarrow> string" where
  "join sep [] = []"
| "join sep [x] = x"
| "join sep (x # y # ys) = x @ sep @ join sep (y # ys)"

definition quoted :: "string \<Rightarrow> string" where
  "quoted s = CHR 0x22 # s @ [CHR 0x22]"

definition dump_byte :: "8 word \<Rightarrow> string" where
  "dump_byte b = dump_integer False number_buffer (ucast b)"

definition dump_binary :: "bool \<Rightarrow> string \<Rightarrow> string \<Rightarrow> 8 word list \<Rightarrow> string" where
  "dump_binary pretty_print inner outer bs =
     (if pretty_print then
        ''{'' @ [CHR 0x0A] @ inner @ quoted ''bytes'' @ '': ['' @ join '', '' (map dump_byte bs) @ ''],'' @
        [CHR 0x0A] @ inner @ quoted ''subtype'' @ '': null'' @ [CHR 0x0A] @ outer @ ''}''
      else ''{'' @ quoted ''bytes'' @ '':['' @ join '','' (map dump_byte bs) @ ''],'' @ quoted ''subtype'' @ '':null}'')"

text \<open>An indentation is a number of blanks. The indentation string of the code has at least 512 of them
  and is doubled when it is too short, which is enough for the steps the library uses (2).\<close>

definition blanks :: "nat \<Rightarrow> string" where
  "blanks n = replicate n (CHR '' '')"

function dump_value ::
    "json \<Rightarrow> error_handler \<Rightarrow> bool \<Rightarrow> bool \<Rightarrow> nat \<Rightarrow> nat \<Rightarrow> string result" where
  "dump_value JNull handler pretty ascii step cur = Inr ''null''"
| "dump_value (JBool b) handler pretty ascii step cur = Inr (if b then ''true'' else ''false'')"
| "dump_value (JInt i) handler pretty ascii step cur = Inr (dump_integer True number_buffer i)"
| "dump_value (JUint n) handler pretty ascii step cur = Inr (dump_integer False number_buffer n)"
| "dump_value (JFloat d) handler pretty ascii step cur = dump_float d"
| "dump_value (JString s) handler pretty ascii step cur =
     bindE (dump_escaped handler ascii s) (\<lambda>t. Inr (quoted t))"
| "dump_value (JBinary bs) handler pretty ascii step cur =
     Inr (dump_binary pretty (blanks (cur + step)) (blanks cur) bs)"
| "dump_value JDiscarded handler pretty ascii step cur = Inr ''<discarded>''"
| "dump_value (JArray js) handler pretty ascii step cur =
     (if js = [] then Inr ''[]''
      else if pretty then
        bindE (traverse (\<lambda>j. dump_value j handler True ascii step (cur + step)) js) (\<lambda>ts.
          Inr (''['' @ [CHR 0x0A] @
            join ('','' @ [CHR 0x0A]) (map (\<lambda>t. blanks (cur + step) @ t) ts) @
            [CHR 0x0A] @ blanks cur @ '']''))
      else
        bindE (traverse (\<lambda>j. dump_value j handler False ascii step cur) js) (\<lambda>ts.
          Inr (''['' @ join '','' ts @ '']'')))"
| "dump_value (JObject kvs) handler pretty ascii step cur =
     (if kvs = [] then Inr ''{}''
      else if pretty then
        bindE (traverse (\<lambda>kv.
            bindE (dump_escaped handler ascii (fst kv)) (\<lambda>k.
            bindE (dump_value (snd kv) handler True ascii step (cur + step)) (\<lambda>t.
            Inr (blanks (cur + step) @ quoted k @ '': '' @ t)))) kvs) (\<lambda>ts.
          Inr (''{'' @ [CHR 0x0A] @ join ('','' @ [CHR 0x0A]) ts @ [CHR 0x0A] @ blanks cur @ ''}''))
      else
        bindE (traverse (\<lambda>kv.
            bindE (dump_escaped handler ascii (fst kv)) (\<lambda>k.
            bindE (dump_value (snd kv) handler False ascii step cur) (\<lambda>t.
            Inr (quoted k @ '':'' @ t)))) kvs) (\<lambda>ts.
          Inr (''{'' @ join '','' ts @ ''}'')))"
  by pat_completeness auto

termination
  by (relation "measure (size \<circ> fst)")
    (auto dest: json_element_smaller [of "JArray js" for js, simplified] size_json_member)

text \<open>\<open>basic_json::dump\<close> with its defaults for all but the indentation.\<close>

definition json_dump :: "int \<Rightarrow> json \<Rightarrow> string result" where
  "json_dump indent j =
     (if 0 \<le> indent then dump_value j STRICT True False (nat indent) 0
      else dump_value j STRICT False False 0 0)"

subsection \<open>What is written for an integer\<close>

definition show_int :: "int \<Rightarrow> string" where
  "show_int v = (if v < 0 then CHR ''-'' # decimal (nat (- v)) else decimal (nat v))"

lemma decimal_small: "n < 10 \<Longrightarrow> decimal n = [digit_char n]"
  by (simp add: decimal.simps [of n] digit_char_def)

lemma decimal_step: "10 \<le> n \<Longrightarrow> decimal n = decimal (n div 10) @ [digit_char (n mod 10)]"
  by (simp add: decimal.simps [of n] digit_char_def)

lemma decimal_step_100:
  assumes "100 \<le> n"
  shows "decimal n = decimal (n div 100) @ [digit_char (n mod 100 div 10), digit_char (n mod 100 mod 10)]"
proof -
  have "n div 10 mod 10 = n mod 100 div 10" "n mod 100 mod 10 = n mod 10"
    using mod_mult2_eq [of n 10 10] by (simp_all add: mod_mod_cancel)
  moreover have "n div 10 div 10 = n div 100" by (simp add: div_mult2_eq [symmetric])
  moreover have "10 \<le> n div 10" using assms by simp
  ultimately show ?thesis using assms by (simp add: decimal_step [of n] decimal_step [of "n div 10"])
qed

lemma length_decimal_10000: "10000 \<le> n \<Longrightarrow> length (decimal n) = 4 + length (decimal (n div 10000))"
  by (simp add: decimal_step_100 [of n] decimal_step_100 [of "n div 100"] div_mult2_eq [symmetric])

lemma count_digits_decimal: "count_digits x = length (decimal (unat x))"
proof (induction x rule: count_digits.induct)
  case (1 x)
  consider "unat x < 10" | "10 \<le> unat x" "unat x < 100" | "100 \<le> unat x" "unat x < 1000"
    | "1000 \<le> unat x" "unat x < 10000" | "10000 \<le> unat x" by linarith
  then show ?case
  proof cases
    case 5
    with 1 show ?thesis
      by (simp add: count_digits.simps [of x] word_less_nat_alt length_decimal_10000 unat_div)
  qed (simp_all add: count_digits.simps [of x] word_less_nat_alt decimal_small decimal_step
      div_mult2_eq [symmetric])
qed

lemma list_update_two:
  "Suc 0 < p \<Longrightarrow> p \<le> length buf \<Longrightarrow>
     buf[p - Suc 0 := b, p - 2 := a] = take (p - 2) buf @ [a, b] @ drop p buf"
  by (rule nth_equalityI) (auto simp: nth_append nth_list_update nth_Cons' numeral_2_eq_2)

lemma list_update_one:
  "0 < p \<Longrightarrow> p \<le> length buf \<Longrightarrow> buf[p - Suc 0 := a] = take (p - 1) buf @ [a] @ drop p buf"
  by (cases p) (simp_all add: upd_conv_take_nth_drop)

lemma fill_digits_decimal:
  "length (decimal (unat x)) \<le> p \<Longrightarrow> p \<le> length buf \<Longrightarrow>
     fill_digits x p buf = take (p - length (decimal (unat x))) buf @ decimal (unat x) @ drop p buf"
proof (induction x p buf rule: fill_digits.induct)
  case (1 x p buf)
  consider "unat x < 10" | "10 \<le> unat x" "unat x < 100" | "100 \<le> unat x" by linarith
  then show ?case
  proof cases
    case 1
    with "1.prems" show ?thesis
      by (simp add: fill_digits.simps [of x] word_le_nat_alt decimal_small list_update_one)
  next
    case 2
    with "1.prems" show ?thesis
      by (simp add: fill_digits.simps [of x] word_le_nat_alt decimal_small decimal_step digits_to_99_def
          list_update_two numeral_2_eq_2 [symmetric])
  next
    case 3
    let ?q = "decimal (unat x div 100)"
    from 3 "1.prems" have len: "length ?q + 2 \<le> p" "p \<le> length buf"
      by (simp_all add: decimal_step_100)
    from 3 have big: "x \<ge> 100" by (simp add: word_le_nat_alt)
    let ?buf = "buf[p - 1 := digit_char (unat x mod 100 mod 10), p - 2 := digit_char (unat x mod 100 div 10)]"
    have "fill_digits x p buf = fill_digits (x div 100) (p - 2) ?buf"
      using big by (subst fill_digits.simps) (simp add: digits_to_99_def unat_mod)
    also have "\<dots> = take (p - 2 - length ?q) ?buf @ ?q @ drop (p - 2) ?buf"
      using "1.IH" [OF big digits_to_99_def [symmetric]] len by (simp add: unat_div unat_mod)
    also have "\<dots> = take (p - length (decimal (unat x))) buf @ decimal (unat x) @ drop p buf"
      using len 3 by (simp add: list_update_two decimal_step_100 [of "unat x"])
    finally show ?thesis .
  qed
qed

lemma length_decimal_bound: "n < 10 ^ k \<Longrightarrow> 0 < k \<Longrightarrow> length (decimal n) \<le> k"
proof (induction n arbitrary: k rule: decimal.induct)
  case (1 n)
  show ?case
  proof (cases "n < 10")
    case True
    with 1 show ?thesis by (simp add: decimal_small)
  next
    case False
    with 1(2) obtain k' where k: "k = Suc k'" "0 < k'" by (cases k; cases "k - 1") auto
    with 1(2) have "n div 10 < 10 ^ k'" by (simp add: div_less_iff_less_mult mult.commute)
    with 1(1) [OF False] k False show ?thesis by (simp add: decimal_step)
  qed
qed

text \<open>The buffer is long enough, and what it held before does not matter.\<close>

lemma dump_integer_decimal:
  assumes "length buf = 64"
  shows "dump_integer is_signed buf x = show_int (if is_signed then sint x else uint x)"
proof -
  have short: "length (decimal (unat y)) \<le> 20" for y :: "64 word"
  proof (rule length_decimal_bound)
    have "unat y < 2 ^ 64" using unsigned_less [of y, where ?'a = nat] by simp
    then show "unat y < 10 ^ 20" by simp
  qed simp
  show ?thesis
  proof (cases "is_signed \<and> sint x < 0")
    case True
    have "unat (- x) = nat (- sint x)"
    proof -
      have "uint (word_of_int (- sint x) :: 64 word) = (- sint x) mod 2 ^ 64"
        by (simp only: uint_word_of_int) simp
      then have "uint (- x) = (- sint x) mod 2 ^ 64" by simp
      moreover have "- sint x < 2 ^ 64" using sint_ge [of x] by simp
      ultimately show ?thesis using True by (simp add: unat_eq_nat_uint)
    qed
    moreover have "remove_sign x = - x" by (simp add: remove_sign_def)
    ultimately have digits: "unat (remove_sign x) = nat (- sint x)" by simp
    have "x \<noteq> 0" using True by auto
    moreover have "(take 1 buf)[0 := CHR ''-''] = ''-''" using assms by (cases buf) simp_all
    ultimately show ?thesis using True digits short [of "remove_sign x"] assms
      by (simp add: dump_integer_def Let_def count_digits_decimal fill_digits_decimal show_int_def
          take_Cons' take_update_swap)
  next
    case False
    have v: "(if is_signed then sint x else uint x) = int (unat x)"
    proof (cases is_signed)
      case True
      with False have "0 \<le> sint x" by simp
      have "uint (word_of_int (sint x) :: 64 word) = sint x mod 2 ^ 64"
        by (simp only: uint_word_of_int) simp
      then have "sint x = uint x" using \<open>0 \<le> sint x\<close> sint_less [of x] by simp
      with True show ?thesis by simp
    qed simp
    show ?thesis
    proof (cases "x = 0")
      case True
      have "decimal 0 = ''0''" by code_simp
      with True show ?thesis by (simp add: dump_integer_def show_int_def)
    next
      case x: False
      from v have "show_int (if is_signed then sint x else uint x) = decimal (unat x)"
        unfolding v by (simp add: show_int_def)
      moreover have "dump_integer is_signed buf x = decimal (unat x)"
        using False x short [of x] assms
        by (auto simp: dump_integer_def Let_def count_digits_decimal fill_digits_decimal)
      ultimately show ?thesis by simp
    qed
  qed
qed

lemma length_show_int: "length (show_int (if is_signed then sint x else uint x)) \<le> 20" for x :: "64 word"
proof (cases "is_signed \<and> sint x < 0")
  case True
  have "nat (- sint x) < 10 ^ 19" using sint_ge [of x] by (simp add: nat_less_iff)
  then have "length (decimal (nat (- sint x))) \<le> 19" by (rule length_decimal_bound) simp
  with True show ?thesis by (simp add: show_int_def)
next
  case False
  have "nat (if is_signed then sint x else uint x) < 10 ^ 20"
    using sint_less [of x] unsigned_less [of x, where ?'a = nat] by (auto simp: nat_less_iff)
  then have "length (decimal (nat (if is_signed then sint x else uint x))) \<le> 20" by (rule length_decimal_bound) simp
  moreover have "\<not> (if is_signed then sint x else uint x) < 0" using False by auto
  ultimately show ?thesis by (simp only: show_int_def if_False)
qed

text \<open>C35: The number buffer is never overrun: whatever its 64 bytes hold, a signed or unsigned 64-bit integer is
  written as its decimal text, which has at most 20 characters (the smallest integer included), and the
  number of digits the loop counts beforehand is the number of digits it writes.\<close>

theorem integers_fit_buffer:
  assumes "length buf = 64"
  shows "dump_integer is_signed buf x = show_int (if is_signed then sint x else uint x) \<and>
    length (dump_integer is_signed buf x) \<le> 20 \<and> count_digits y = length (decimal (unat y))"
  using dump_integer_decimal [OF assms] length_show_int count_digits_decimal by simp

theorem integers_fit_buffer_witness: "dump_integer True number_buffer (- 5) = ''-5''"
proof -
  have "length number_buffer = 64" by (simp add: number_buffer_def)
  from integers_fit_buffer [OF this, of True "- 5"] have "dump_integer True number_buffer (- 5) = show_int (- 5)" by simp
  moreover have "show_int (- 5) = ''-5''" by code_simp
  ultimately show ?thesis by simp
qed

subsection \<open>What is written for a string\<close>

text \<open>The escaped form of a character, given by its bytes.\<close>

fun escape_char :: "string \<Rightarrow> string" where
  "escape_char [c] = escape_codepoint False (of_char c) c"
| "escape_char cs = cs"

definition escape_string :: "string list \<Rightarrow> string" where
  "escape_string css = concat (map escape_char css)"

definition dumped :: "escaper \<Rightarrow> string" where
  "dumped e = written e @ string_buffer e"

lemma dumped_flush [simp]: "dumped (flush_buffer e) = dumped e"
  by (simp add: dumped_def flush_buffer_def)

lemma flush_state [simp]: "utf8_state (flush_buffer e) = utf8_state e"
  by (simp add: flush_buffer_def)

lemma dumped_marks [simp]:
  "dumped (e\<lparr>bytes_after_last_accept := n, undumped_chars := k\<rparr>) = dumped e"
  by (simp add: dumped_def)

lemma dumped_accept: "dumped (accept_codepoint ascii c e) = dumped e @ escape_codepoint ascii (codepoint e) c"
proof -
  have "dumped (accept_codepoint ascii c e) =
      dumped (flush_buffer (e\<lparr>string_buffer := string_buffer e @ escape_codepoint ascii (codepoint e) c\<rparr>))"
    unfolding accept_codepoint_def Let_def by (rule dumped_marks)
  also have "\<dots> = dumped e @ escape_codepoint ascii (codepoint e) c"
    by (simp only: dumped_flush) (simp add: dumped_def)
  finally show ?thesis .
qed

lemma accept_state [simp]: "utf8_state (accept_codepoint ascii c e) = utf8_state e"
  by (simp add: accept_codepoint_def Let_def)

text \<open>One byte of the loop, by the state it leads to.\<close>

lemma escape_loop_accept:
  "utf8_decode (utf8_state e, codepoint e) c = (UTF8_ACCEPT, cp) \<Longrightarrow>
     escape_loop STRICT False i (c # s) e =
       escape_loop STRICT False (i + 1) s
         (accept_codepoint False c (e\<lparr>utf8_state := UTF8_ACCEPT, codepoint := cp\<rparr>))"
  by simp

lemma escape_loop_reject:
  "fst (utf8_decode (utf8_state e, codepoint e) c) = UTF8_REJECT \<Longrightarrow>
     \<exists>msg. escape_loop STRICT False i (c # s) e = Inl (Type_error 316 msg)"
  by (cases "utf8_decode (utf8_state e, codepoint e) c") (simp add: UTF8_ACCEPT_def UTF8_REJECT_def)

lemma escape_loop_inside:
  "utf8_decode (utf8_state e, codepoint e) c = (st, cp) \<Longrightarrow> st \<noteq> UTF8_ACCEPT \<Longrightarrow> st \<noteq> UTF8_REJECT \<Longrightarrow>
     \<exists>e'. escape_loop STRICT False i (c # s) e = escape_loop STRICT False (i + 1) s e' \<and>
       utf8_state e' = st \<and> codepoint e' = cp \<and> dumped e' = dumped e @ [c]"
  by (rule exI [of _ "e\<lparr>utf8_state := st, codepoint := cp, string_buffer := string_buffer e @ [c],
        undumped_chars := undumped_chars e + 1\<rparr>"]) (simp add: dumped_def)

lemma escape_codepoint_high:
  assumes "0x80 \<le> unat cp"
  shows "escape_codepoint False cp c = [c]"
proof -
  from assms have "cp \<noteq> 0x08" "cp \<noteq> 0x09" "cp \<noteq> 0x0A" "cp \<noteq> 0x0C" "cp \<noteq> 0x0D" "cp \<noteq> 0x22"
    "cp \<noteq> 0x5C" "\<not> cp \<le> 0x1F"
    by (auto simp: word_le_nat_alt)
  then show ?thesis by (simp add: escape_codepoint_def)
qed

text \<open>The bytes that are expected are copied.\<close>

lemma escape_loop_tails:
  assumes "dfa_at rs (utf8_state e, codepoint e)" and "rs \<noteq> []" and "list_all2 byte_in rs t"
  shows "\<exists>e'. escape_loop STRICT False i (t @ s) e = escape_loop STRICT False (i + length t) s e' \<and>
    utf8_state e' = UTF8_ACCEPT \<and> dumped e' = dumped e @ t"
  using assms
proof (induction rs arbitrary: t e i)
  case (Cons r rs)
  from Cons.prems(3) obtain c t' where t: "t = c # t'" "byte_in r c" "list_all2 byte_in rs t'"
    by (auto simp: list_all2_Cons1)
  obtain st cp where d: "utf8_decode (utf8_state e, codepoint e) c = (st, cp)" by fastforce
  with dfa_tail [of "fst r" "snd r" rs "utf8_state e" "codepoint e" c] Cons.prems(1) t(2)
  have at: "dfa_at rs (st, cp)" by simp
  show ?case
  proof (cases "rs = []")
    case True
    with at have "st = UTF8_ACCEPT" "0x80 \<le> unat cp"
      using dfa_codes by (blast, simp add: dfa_at_def)
    with d t True show ?thesis
      by (intro exI [of _ "accept_codepoint False c (e\<lparr>utf8_state := UTF8_ACCEPT, codepoint := cp\<rparr>)"])
        (simp add: dumped_accept escape_codepoint_high, simp add: dumped_def)
  next
    case False
    with at have "st \<noteq> UTF8_ACCEPT" "st \<noteq> UTF8_REJECT" using dfa_codes by blast+
    from escape_loop_inside [OF d this, of i "t' @ s"] obtain e1 where
      e1: "escape_loop STRICT False i (c # t' @ s) e = escape_loop STRICT False (i + 1) (t' @ s) e1"
      "utf8_state e1 = st" "codepoint e1 = cp" "dumped e1 = dumped e @ [c]" by blast
    from Cons.IH [of e1 t' "i + 1"] at False t(3) e1 show ?thesis by (auto simp: t(1))
  qed
qed simp

lemma escape_loop_char:
  assumes "utf8_char cs" and "utf8_state e = UTF8_ACCEPT"
  shows "\<exists>e'. escape_loop STRICT False i (cs @ s) e = escape_loop STRICT False (i + length cs) s e' \<and>
    utf8_state e' = UTF8_ACCEPT \<and> dumped e' = dumped e @ escape_char cs"
proof -
  from assms(1) obtain c t rs where cs: "cs = c # t" "utf8_tails (of_char c) = Some rs"
    "list_all2 byte_in rs t" by (cases cs) (auto split: option.splits)
  show ?thesis
  proof (cases "rs = []")
    case True
    with cs have t: "t = []" by simp
    from cs(2) True have "of_char c < (128 :: nat)" by (auto simp: utf8_tails_def split: if_splits)
    from dfa_ascii [OF this, of "codepoint e"] assms(2)
    have "utf8_decode (utf8_state e, codepoint e) c = (UTF8_ACCEPT, of_char c)"
      by (simp add: UTF8_ACCEPT_def)
    with cs t show ?thesis
      by (intro exI [of _ "accept_codepoint False c (e\<lparr>utf8_state := UTF8_ACCEPT, codepoint := of_char c\<rparr>)"])
        (simp add: dumped_accept, simp add: dumped_def)
  next
    case False
    obtain st cp where d: "utf8_decode (utf8_state e, codepoint e) c = (st, cp)" by fastforce
    with dfa_lead [OF cs(2) False, of "codepoint e"] assms(2) have at: "dfa_at rs (st, cp)"
      by (simp add: UTF8_ACCEPT_def)
    with False have "st \<noteq> UTF8_ACCEPT" "st \<noteq> UTF8_REJECT" using dfa_codes by blast+
    from escape_loop_inside [OF d this, of i "t @ s"] obtain e1 where
      e1: "escape_loop STRICT False i (c # t @ s) e = escape_loop STRICT False (i + 1) (t @ s) e1"
      "utf8_state e1 = st" "codepoint e1 = cp" "dumped e1 = dumped e @ [c]" by blast
    from False cs(3) obtain c' t' where "t = c' # t'" by (cases rs) (auto simp: list_all2_Cons1)
    then have "escape_char cs = cs" by (simp add: cs(1))
    with escape_loop_tails [of rs e1 t "i + 1" s] at False cs e1 show ?thesis by auto
  qed
qed

lemma escape_loop_valid:
  assumes "list_all utf8_char css" and "utf8_state e = UTF8_ACCEPT"
  shows "\<exists>e'. escape_loop STRICT False i (concat css) e = Inr e' \<and> utf8_state e' = UTF8_ACCEPT \<and>
    dumped e' = dumped e @ escape_string css"
  using assms
proof (induction css arbitrary: i e)
  case (Cons cs css)
  then obtain e1 where e1: "escape_loop STRICT False i (cs @ concat css) e =
      escape_loop STRICT False (i + length cs) (concat css) e1"
    "utf8_state e1 = UTF8_ACCEPT" "dumped e1 = dumped e @ escape_char cs"
    using escape_loop_char [of cs e i "concat css"] by auto
  with Cons.IH [of e1 "i + length cs"] Cons.prems show ?case by (auto simp: escape_string_def)
qed (simp add: escape_string_def)

text \<open>A byte that is not expected is an error, and so is the end of the string inside a character.\<close>

lemma escape_loop_bad_tails:
  assumes "dfa_at rs (utf8_state e, codepoint e)" and "\<not> list_all2 byte_in rs (take (length rs) s)"
  shows "(\<exists>msg. escape_loop STRICT False i s e = Inl (Type_error 316 msg)) \<or>
    (\<exists>e'. escape_loop STRICT False i s e = Inr e' \<and> utf8_state e' \<noteq> UTF8_ACCEPT)"
  using assms
proof (induction rs arbitrary: s e i)
  case (Cons r rs)
  show ?case
  proof (cases s)
    case Nil
    with Cons.prems(1) dfa_codes show ?thesis by fastforce
  next
    case (Cons c s')
    obtain st cp where d: "utf8_decode (utf8_state e, codepoint e) c = (st, cp)" by fastforce
    note step = dfa_tail [of "fst r" "snd r" rs "utf8_state e" "codepoint e" c]
    show ?thesis
    proof (cases "byte_in r c")
      case False
      with step Cons.prems(1) have "fst (utf8_decode (utf8_state e, codepoint e) c) = UTF8_REJECT"
        by simp
      with escape_loop_reject Cons show ?thesis by blast
    next
      case True
      with step Cons.prems(1) d have at: "dfa_at rs (st, cp)" by simp
      from True Cons.prems(2) Cons have bad: "\<not> list_all2 byte_in rs (take (length rs) s')" by simp
      then have "rs \<noteq> []" by auto
      with at have "st \<noteq> UTF8_ACCEPT" "st \<noteq> UTF8_REJECT" using dfa_codes by blast+
      from escape_loop_inside [OF d this, of i s'] obtain e1 where
        "escape_loop STRICT False i (c # s') e = escape_loop STRICT False (i + 1) s' e1"
        "utf8_state e1 = st" "codepoint e1 = cp" by blast
      with Cons.IH [of e1 s' "i + 1"] at bad Cons show ?thesis by simp
    qed
  qed
qed simp

lemma escape_loop_invalid:
  assumes "utf8_chars s = None" and "utf8_state e = UTF8_ACCEPT"
  shows "(\<exists>msg. escape_loop STRICT False i s e = Inl (Type_error 316 msg)) \<or>
    (\<exists>e'. escape_loop STRICT False i s e = Inr e' \<and> utf8_state e' \<noteq> UTF8_ACCEPT)"
  using assms
proof (induction s arbitrary: i e rule: length_induct)
  case (1 s)
  then obtain c s' where s: "s = c # s'" by (cases s) simp_all
  show ?case
  proof (cases "utf8_tails (of_char c)")
    case None
    with dfa_invalid_lead 1(3) escape_loop_reject s show ?thesis by (metis UTF8_ACCEPT_def)
  next
    case (Some rs)
    show ?thesis
    proof (cases "list_all2 byte_in rs (take (length rs) s')")
      case True
      let ?cs = "c # take (length rs) s'" and ?t = "drop (length rs) s'"
      from True Some have char: "utf8_char ?cs" by simp
      have split: "s = ?cs @ ?t" by (simp add: s)
      with 1(2) utf8_chars_append [OF char, of ?t] have "utf8_chars ?t = None" by simp
      moreover obtain e' where "escape_loop STRICT False i (?cs @ ?t) e =
          escape_loop STRICT False (i + length ?cs) ?t e'" "utf8_state e' = UTF8_ACCEPT"
        using escape_loop_char [OF char 1(3)] by blast
      moreover have "length ?t < length s" by (simp add: s)
      ultimately show ?thesis using 1(1) split by metis
    next
      case False
      then have "rs \<noteq> []" by auto
      obtain st cp where d: "utf8_decode (utf8_state e, codepoint e) c = (st, cp)" by fastforce
      with dfa_lead [OF Some \<open>rs \<noteq> []\<close>, of "codepoint e"] 1(3) have at: "dfa_at rs (st, cp)"
        by (simp add: UTF8_ACCEPT_def)
      with \<open>rs \<noteq> []\<close> have "st \<noteq> UTF8_ACCEPT" "st \<noteq> UTF8_REJECT" using dfa_codes by blast+
      from escape_loop_inside [OF d this, of i s'] obtain e1 where
        "escape_loop STRICT False i (c # s') e = escape_loop STRICT False (i + 1) s' e1"
        "utf8_state e1 = st" "codepoint e1 = cp" by blast
      with escape_loop_bad_tails [of rs e1 s' "i + 1"] at False s show ?thesis by simp
    qed
  qed
qed

lemma escaper_new_simps [simp]: "utf8_state escaper_new = UTF8_ACCEPT" "dumped escaper_new = []"
  by (simp_all add: escaper_new_def dumped_def)

lemma dump_escaped_valid:
  assumes "utf8_chars s = Some css"
  shows "dump_escaped STRICT False s = Inr (escape_string css)"
proof -
  from utf8_chars_concat [OF assms] have "concat css = s" "list_all utf8_char css" by simp_all
  with escape_loop_valid [of css escaper_new 0] obtain e' where
    "escape_loop STRICT False 0 s escaper_new = Inr e'" "utf8_state e' = UTF8_ACCEPT"
    "dumped e' = escape_string css" by auto
  then show ?thesis by (simp add: dump_escaped_def dumped_def)
qed

lemma dump_escaped_invalid:
  assumes "\<not> utf8_valid s"
  shows "\<exists>msg. dump_escaped STRICT False s = Inl (Type_error 316 msg)"
proof -
  from assms have "utf8_chars s = None" by (simp add: utf8_valid_def)
  from escape_loop_invalid [OF this, of escaper_new 0] show ?thesis
    by (auto simp: dump_escaped_def)
qed

end
