(* ===== verification/Lexer.thy ===== *)
theory Lexer
  imports Dump Strtod
begin

section \<open>The JSON lexer\<close>

text \<open>
  The class \<open>lexer\<close> of \<open>json.hpp\<close>, which turns the bytes of a stream into tokens, one call of \<open>scan\<close> per
  token. Characters are read with \<open>get\<close>, which may be undone once with \<open>unget\<close>; every character read is
  counted in the position and kept in the token string for error messages; the value of a string or
  number is collected in the token buffer. The input adapter is the list of the bytes not yet read, and
  \<open>None\<close> is \<open>char_traits::eof()\<close>. Comments are never enabled by the library and are left out.
\<close>

datatype token_type =
    TOK_uninitialized
  | TOK_literal_true
  | TOK_literal_false
  | TOK_literal_null
  | TOK_value_string
  | TOK_value_unsigned
  | TOK_value_integer
  | TOK_value_float
  | TOK_begin_array
  | TOK_begin_object
  | TOK_end_array
  | TOK_end_object
  | TOK_name_separator
  | TOK_value_separator
  | TOK_parse_error
  | TOK_end_of_input
  | TOK_literal_or_value

fun token_type_name :: "token_type \<Rightarrow> string" where
  "token_type_name TOK_uninitialized = ''<uninitialized>''"
| "token_type_name TOK_literal_true = ''true literal''"
| "token_type_name TOK_literal_false = ''false literal''"
| "token_type_name TOK_literal_null = ''null literal''"
| "token_type_name TOK_value_string = ''string literal''"
| "token_type_name TOK_value_unsigned = ''number literal''"
| "token_type_name TOK_value_integer = ''number literal''"
| "token_type_name TOK_value_float = ''number literal''"
| "token_type_name TOK_begin_array = [CHR 0x27, CHR ''['', CHR 0x27]"
| "token_type_name TOK_begin_object = [CHR 0x27, CHR ''{'', CHR 0x27]"
| "token_type_name TOK_end_array = [CHR 0x27, CHR '']'', CHR 0x27]"
| "token_type_name TOK_end_object = [CHR 0x27, CHR ''}'', CHR 0x27]"
| "token_type_name TOK_name_separator = [CHR 0x27, CHR '':'', CHR 0x27]"
| "token_type_name TOK_value_separator = [CHR 0x27, CHR '','', CHR 0x27]"
| "token_type_name TOK_parse_error = ''<parse error>''"
| "token_type_name TOK_end_of_input = ''end of input''"
| "token_type_name TOK_literal_or_value =
     [CHR 0x27, CHR ''['', CHR 0x27, CHR '','', CHR '' '', CHR 0x27, CHR ''{'', CHR 0x27] @
     '', or a literal''"

subsection \<open>State and input\<close>

record position_t =
  chars_read_total :: nat
  chars_read_current_line :: nat
  lines_read :: nat

record lexer =
  lx_input :: string
  lx_current :: "char option"
  lx_next_unget :: bool
  lx_position :: position_t
  lx_token_string :: string
  lx_token_buffer :: string
  lx_error_message :: string
  lx_value_integer :: "64 word"
  lx_value_unsigned :: "64 word"
  lx_value_float :: "64 word"

definition lexer_new :: "string \<Rightarrow> lexer" where
  "lexer_new s =
     \<lparr>lx_input = s, lx_current = None, lx_next_unget = False,
      lx_position = \<lparr>chars_read_total = 0, chars_read_current_line = 0, lines_read = 0\<rparr>,
      lx_token_string = [], lx_token_buffer = [], lx_error_message = [],
      lx_value_integer = 0, lx_value_unsigned = 0, lx_value_float = 0\<rparr>"

definition newline :: char where
  "newline = CHR 0x0A"

definition lex_get :: "lexer \<Rightarrow> lexer" where
  "lex_get l =
     (let l1 = l\<lparr>lx_position := (lx_position l)\<lparr>chars_read_total := chars_read_total (lx_position l) + 1,
            chars_read_current_line := chars_read_current_line (lx_position l) + 1\<rparr>\<rparr>;
          l2 = (if lx_next_unget l1 then l1\<lparr>lx_next_unget := False\<rparr>
                else
                  (case lx_input l1 of
                     [] \<Rightarrow> l1\<lparr>lx_current := None\<rparr>
                   | c # s \<Rightarrow> l1\<lparr>lx_current := Some c, lx_input := s\<rparr>));
          l3 = (case lx_current l2 of
                  None \<Rightarrow> l2
                | Some c \<Rightarrow> l2\<lparr>lx_token_string := lx_token_string l2 @ [c]\<rparr>)
      in if lx_current l3 = Some newline then
           l3\<lparr>lx_position := (lx_position l3)\<lparr>lines_read := lines_read (lx_position l3) + 1,
             chars_read_current_line := 0\<rparr>\<rparr>
         else l3)"

definition lex_unget :: "lexer \<Rightarrow> lexer" where
  "lex_unget l =
     (let p = lx_position l;
          p1 = p\<lparr>chars_read_total := chars_read_total p - 1\<rparr>;
          p2 = (if chars_read_current_line p1 = 0 then
                  (if lines_read p1 > 0 then p1\<lparr>lines_read := lines_read p1 - 1\<rparr> else p1)
                else p1\<lparr>chars_read_current_line := chars_read_current_line p1 - 1\<rparr>);
          l1 = l\<lparr>lx_next_unget := True, lx_position := p2\<rparr>
      in if lx_current l1 \<noteq> None then l1\<lparr>lx_token_string := butlast (lx_token_string l1)\<rparr> else l1)"

definition lex_add :: "char \<Rightarrow> lexer \<Rightarrow> lexer" where
  "lex_add c l = l\<lparr>lx_token_buffer := lx_token_buffer l @ [c]\<rparr>"

text \<open>\<open>add(current)\<close>. It is never called at the end of the input.\<close>

definition add_current :: "lexer \<Rightarrow> lexer" where
  "add_current l = (case lx_current l of None \<Rightarrow> l | Some c \<Rightarrow> lex_add c l)"

definition lex_reset :: "lexer \<Rightarrow> lexer" where
  "lex_reset l =
     l\<lparr>lx_token_buffer := [],
       lx_token_string := (case lx_current l of None \<Rightarrow> [CHR 0xFF] | Some c \<Rightarrow> [c])\<rparr>"

definition lex_error :: "string \<Rightarrow> lexer \<Rightarrow> lexer" where
  "lex_error msg l = l\<lparr>lx_error_message := msg\<rparr>"

text \<open>The characters \<open>get\<close> has yet to return.\<close>

definition lex_rest :: "lexer \<Rightarrow> string" where
  "lex_rest l =
     (if lx_next_unget l then (case lx_current l of None \<Rightarrow> [] | Some c \<Rightarrow> c # lx_input l)
      else lx_input l)"

definition lex_left :: "lexer \<Rightarrow> nat" where
  "lex_left l = length (lx_input l) + (if lx_next_unget l \<and> lx_current l \<noteq> None then 1 else 0)"

definition lex_ok :: "lexer \<Rightarrow> bool" where
  "lex_ok l \<longleftrightarrow> (lx_next_unget l \<and> lx_current l = None \<longrightarrow> lx_input l = [])"

lemma lex_get_fields [simp]:
  "lx_input (lex_get l) = (if lx_next_unget l then lx_input l else tl (lx_input l))"
  "lx_current (lex_get l) =
     (if lx_next_unget l then lx_current l
      else (case lx_input l of [] \<Rightarrow> None | c # s \<Rightarrow> Some c))"
  "lx_next_unget (lex_get l) = False"
  "lx_token_buffer (lex_get l) = lx_token_buffer l"
  by (simp_all add: lex_get_def Let_def split: list.split option.split)

lemma lex_unget_fields [simp]:
  "lx_input (lex_unget l) = lx_input l" "lx_current (lex_unget l) = lx_current l"
  "lx_next_unget (lex_unget l) = True" "lx_token_buffer (lex_unget l) = lx_token_buffer l"
  by (simp_all add: lex_unget_def Let_def)

lemma lex_get_None: "lx_current (lex_get l) = None \<longleftrightarrow> lex_rest l = []"
  by (simp add: lex_rest_def split: list.split option.split)

lemma lex_get_current: "lex_rest l = c # s \<Longrightarrow> lx_current (lex_get l) = Some c"
  by (auto simp: lex_rest_def split: list.splits option.splits if_splits)

lemma lex_get_rest: "lex_ok l \<Longrightarrow> lex_rest (lex_get l) = tl (lex_rest l)"
  by (simp add: lex_rest_def lex_ok_def split: list.split option.split)

lemma lex_ok_get [simp]: "lex_ok (lex_get l)"
  by (simp add: lex_ok_def)

lemma lex_left_get: "lex_left (lex_get l) \<le> lex_left l"
  by (simp add: lex_left_def)

lemma lex_left_get_less: "lx_current (lex_get l) = Some c \<Longrightarrow> lex_left (lex_get l) < lex_left l"
  by (auto simp: lex_left_def split: list.splits if_splits)

lemma lex_left_unget_get: "lex_left (lex_unget (lex_get l)) \<le> lex_left l"
  by (simp add: lex_left_def split: list.split)

text \<open>What the other operations leave alone.\<close>

lemma lex_left_simps [simp]:
  "lex_left (lex_add c l) = lex_left l"
  "lex_left (add_current l) = lex_left l"
  "lex_left (lex_reset l) = lex_left l"
  "lex_left (lex_error msg l) = lex_left l"
  by (simp_all add: lex_left_def lex_add_def add_current_def lex_reset_def lex_error_def split: option.split)

subsection \<open>Strings\<close>

definition hex_value :: "char \<Rightarrow> nat option" where
  "hex_value c =
     (if CHR ''0'' \<le> c \<and> c \<le> CHR ''9'' then Some (of_char c - 0x30)
      else if CHR ''A'' \<le> c \<and> c \<le> CHR ''F'' then Some (of_char c - 0x37)
      else if CHR ''a'' \<le> c \<and> c \<le> CHR ''f'' then Some (of_char c - 0x57)
      else None)"

text \<open>\<open>get_codepoint\<close>: the loop over the factors, and the code point or -1.\<close>

fun codepoint_digits :: "nat list \<Rightarrow> int \<Rightarrow> lexer \<Rightarrow> int \<times> lexer" where
  "codepoint_digits [] cp l = (cp, l)"
| "codepoint_digits (factor # fs) cp l =
     (let l1 = lex_get l
      in case (case lx_current l1 of None \<Rightarrow> None | Some c \<Rightarrow> hex_value c) of
           None \<Rightarrow> (- 1, l1)
         | Some d \<Rightarrow> codepoint_digits fs (cp + int d * 2 ^ factor) l1)"

definition get_codepoint :: "lexer \<Rightarrow> int \<times> lexer" where
  "get_codepoint l = codepoint_digits [12, 8, 4, 0] 0 l"

text \<open>The ranges of the bytes after a first byte, as the labels of the switch give them.\<close>

definition string_byte_ranges :: "nat \<Rightarrow> (nat \<times> nat) list option" where
  "string_byte_ranges b =
     (if 0xC2 \<le> b \<and> b \<le> 0xDF then Some [(0x80, 0xBF)]
      else if b = 0xE0 then Some [(0xA0, 0xBF), (0x80, 0xBF)]
      else if 0xE1 \<le> b \<and> b \<le> 0xEC \<or> b = 0xEE \<or> b = 0xEF then Some [(0x80, 0xBF), (0x80, 0xBF)]
      else if b = 0xED then Some [(0x80, 0x9F), (0x80, 0xBF)]
      else if b = 0xF0 then Some [(0x90, 0xBF), (0x80, 0xBF), (0x80, 0xBF)]
      else if 0xF1 \<le> b \<and> b \<le> 0xF3 then Some [(0x80, 0xBF), (0x80, 0xBF), (0x80, 0xBF)]
      else if b = 0xF4 then Some [(0x80, 0x8F), (0x80, 0xBF), (0x80, 0xBF)]
      else None)"

fun bytes_in_ranges :: "(nat \<times> nat) list \<Rightarrow> lexer \<Rightarrow> bool \<times> lexer" where
  "bytes_in_ranges [] l = (True, l)"
| "bytes_in_ranges (r # rs) l =
     (let l1 = lex_get l
      in case lx_current l1 of
           None \<Rightarrow> (False, lex_error ''invalid string: ill-formed UTF-8 byte'' l1)
         | Some c \<Rightarrow>
             if byte_in r c then bytes_in_ranges rs (lex_add c l1)
             else (False, lex_error ''invalid string: ill-formed UTF-8 byte'' l1))"

definition next_byte_in_range :: "(nat \<times> nat) list \<Rightarrow> lexer \<Rightarrow> bool \<times> lexer" where
  "next_byte_in_range ranges l = bytes_in_ranges ranges (add_current l)"

text \<open>The bytes of a code point, each reduced to a \<open>char\<close>.\<close>

definition codepoint_bytes :: "nat \<Rightarrow> string" where
  "codepoint_bytes cp =
     (if cp < 0x80 then [char_of cp]
      else if cp \<le> 0x7FF then [char_of (0xC0 + cp div 64), char_of (0x80 + cp mod 64)]
      else if cp \<le> 0xFFFF then
        [char_of (0xE0 + cp div 4096), char_of (0x80 + cp div 64 mod 64), char_of (0x80 + cp mod 64)]
      else
        [char_of (0xF0 + cp div 262144), char_of (0x80 + cp div 4096 mod 64),
         char_of (0x80 + cp div 64 mod 64), char_of (0x80 + cp mod 64)])"

definition add_codepoint :: "int \<Rightarrow> lexer \<Rightarrow> lexer" where
  "add_codepoint cp l = foldl (\<lambda>l c. lex_add c l) l (codepoint_bytes (nat cp))"

definition bad_hex :: string where
  "bad_hex = ''invalid string: '' @ [CHR 0x27, backslash, CHR ''u'', CHR 0x27] @ '' must be followed by 4 hex digits''"

definition bad_surrogate :: string where
  "bad_surrogate = ''invalid string: surrogate U+D800..U+DBFF must be followed by U+DC00..U+DFFF''"

definition lone_surrogate :: string where
  "lone_surrogate = ''invalid string: surrogate U+DC00..U+DFFF must follow U+D800..U+DBFF''"

text \<open>The part after \<open>\u\<close>. The second half of a pair is read only when its introduction matches.\<close>

definition scan_unicode :: "lexer \<Rightarrow> bool \<times> lexer" where
  "scan_unicode l =
     (case get_codepoint l of
        (codepoint1, l1) \<Rightarrow>
          if codepoint1 = - 1 then (False, lex_error bad_hex l1)
          else if 0xD800 \<le> codepoint1 \<and> codepoint1 \<le> 0xDBFF then
            (let l2 = lex_get l1
             in if lx_current l2 \<noteq> Some backslash then (False, lex_error bad_surrogate l2)
                else
                  (let l3 = lex_get l2
                   in if lx_current l3 \<noteq> Some (CHR ''u'') then (False, lex_error bad_surrogate l3)
                      else
                        (case get_codepoint l3 of
                           (codepoint2, l4) \<Rightarrow>
                             if codepoint2 = - 1 then (False, lex_error bad_hex l4)
                             else if 0xDC00 \<le> codepoint2 \<and> codepoint2 \<le> 0xDFFF then
                               (True, add_codepoint (codepoint1 * 1024 + codepoint2 - 0x35FDC00) l4)
                             else (False, lex_error bad_surrogate l4))))
          else if 0xDC00 \<le> codepoint1 \<and> codepoint1 \<le> 0xDFFF then (False, lex_error lone_surrogate l1)
          else (True, add_codepoint codepoint1 l1))"

definition scan_escape :: "lexer \<Rightarrow> bool \<times> lexer" where
  "scan_escape l0 =
     (let l = lex_get l0
      in case lx_current l of
           None \<Rightarrow> (False, lex_error ''invalid string: forbidden character after backslash'' l)
         | Some c \<Rightarrow>
             if c = CHR 0x22 \<or> c = backslash \<or> c = CHR ''/'' then (True, lex_add c l)
             else if c = CHR ''b'' then (True, lex_add (CHR 0x08) l)
             else if c = CHR ''f'' then (True, lex_add (CHR 0x0C) l)
             else if c = CHR ''n'' then (True, lex_add (CHR 0x0A) l)
             else if c = CHR ''r'' then (True, lex_add (CHR 0x0D) l)
             else if c = CHR ''t'' then (True, lex_add (CHR 0x09) l)
             else if c = CHR ''u'' then scan_unicode l
             else (False, lex_error ''invalid string: forbidden character after backslash'' l))"

text \<open>The message for a control character, one per case of the switch.\<close>

definition control_names :: "string list" where
  "control_names =
     [''NUL'', ''SOH'', ''STX'', ''ETX'', ''EOT'', ''ENQ'', ''ACK'', ''BEL'', ''BS'', ''HT'', ''LF'', ''VT'', ''FF'', ''CR'',
      ''SO'', ''SI'', ''DLE'', ''DC1'', ''DC2'', ''DC3'', ''DC4'', ''NAK'', ''SYN'', ''ETB'', ''CAN'', ''EM'', ''SUB'', ''ESC'',
      ''FS'', ''GS'', ''RS'', ''US'']"

definition control_message :: "char \<Rightarrow> string" where
  "control_message c =
     (let code = ''00'' @ hex_byte c;
          short = map_of [(CHR 0x08, CHR ''b''), (CHR 0x09, CHR ''t''), (CHR 0x0A, CHR ''n''),
            (CHR 0x0C, CHR ''f''), (CHR 0x0D, CHR ''r'')] c
      in ''invalid string: control character U+'' @ code @ '' ('' @ control_names ! of_char c @
         '') must be escaped to '' @ [backslash, CHR ''u''] @ code @
         (case short of None \<Rightarrow> [] | Some a \<Rightarrow> '' or '' @ [backslash, a]))"

lemma lex_left_codepoint_digits: "lex_left (snd (codepoint_digits fs cp l)) \<le> lex_left l"
proof (induction fs arbitrary: cp l)
  case (Cons factor fs)
  from Cons [of _ "lex_get l"] lex_left_get [of l] show ?case
    by (auto simp: Let_def split: option.split intro: order_trans simp del: lex_get_fields)
qed simp

lemma lex_left_bytes_in_ranges: "lex_left (snd (bytes_in_ranges rs l)) \<le> lex_left l"
proof (induction rs arbitrary: l)
  case (Cons r rs)
  from Cons [of "lex_add _ (lex_get l)"] lex_left_get [of l] show ?case
    by (auto simp: Let_def split: option.split intro: order_trans simp del: lex_get_fields)
qed simp

lemma lex_left_add_codepoint [simp]: "lex_left (add_codepoint cp l) = lex_left l"
proof -
  have "lex_left (foldl (\<lambda>l c. lex_add c l) l cs) = lex_left l" for cs
    by (induction cs arbitrary: l) simp_all
  then show ?thesis by (simp add: add_codepoint_def)
qed

lemma lex_left_get_codepoint: "lex_left (snd (get_codepoint l)) \<le> lex_left l"
  unfolding get_codepoint_def by (rule lex_left_codepoint_digits)

lemma lex_left_next_byte: "lex_left (snd (next_byte_in_range rs l)) \<le> lex_left l"
  using lex_left_bytes_in_ranges [of rs "add_current l"] by (simp add: next_byte_in_range_def)

lemma lex_left_scan_unicode: "lex_left (snd (scan_unicode l)) \<le> lex_left l"
proof -
  obtain cp l1 where 1: "get_codepoint l = (cp, l1)" by fastforce
  obtain cp' l4 where 4: "get_codepoint (lex_get (lex_get l1)) = (cp', l4)" by fastforce
  from 1 have "lex_left l1 \<le> lex_left l" using lex_left_get_codepoint [of l] by simp
  moreover have "lex_left (lex_get l1) \<le> lex_left l1" "lex_left (lex_get (lex_get l1)) \<le> lex_left (lex_get l1)"
    by (rule lex_left_get)+
  moreover from 4 have "lex_left l4 \<le> lex_left (lex_get (lex_get l1))"
    using lex_left_get_codepoint [of "lex_get (lex_get l1)"] by simp
  ultimately show ?thesis using 1 4 by (auto simp: scan_unicode_def Let_def)
qed

lemma lex_left_scan_escape: "lex_left (snd (scan_escape l)) \<le> lex_left l"
  using lex_left_scan_unicode [of "lex_get l"] lex_left_get [of l]
  by (auto simp: scan_escape_def Let_def split: option.splits)

function scan_string_loop :: "lexer \<Rightarrow> token_type \<times> lexer" where
  "scan_string_loop l0 =
     (let l = lex_get l0
      in case lx_current l of
           None \<Rightarrow> (TOK_parse_error, lex_error ''invalid string: missing closing quote'' l)
         | Some c \<Rightarrow>
             if c = CHR 0x22 then (TOK_value_string, l)
             else if c = backslash then
               (case scan_escape l of (ok, l1) \<Rightarrow>
                  if ok then scan_string_loop l1 else (TOK_parse_error, l1))
             else if of_char c < (0x20 :: nat) then (TOK_parse_error, lex_error (control_message c) l)
             else if of_char c < (0x80 :: nat) then scan_string_loop (add_current l)
             else
               (case string_byte_ranges (of_char c) of
                  None \<Rightarrow> (TOK_parse_error, lex_error ''invalid string: ill-formed UTF-8 byte'' l)
                | Some rs \<Rightarrow>
                    (case next_byte_in_range rs l of (ok, l1) \<Rightarrow>
                       if ok then scan_string_loop l1 else (TOK_parse_error, l1))))"
  by pat_completeness auto

lemma lex_left_after:
  assumes "lx_current (lex_get l0) = Some c" and "f (lex_get l0) = (ok, l1)"
    and "\<And>l. lex_left (snd (f l)) \<le> lex_left l"
  shows "lex_left l1 < lex_left l0"
  using assms(3) [of "lex_get l0"] assms(2) lex_left_get_less [OF assms(1)] by simp

termination scan_string_loop
proof (relation "measure lex_left", goal_cases)
  case (2 l0 l c ok l1)
  then show ?case using lex_left_after [of l0 c scan_escape ok l1] lex_left_scan_escape by simp
next
  case (3 l0 l c)
  then show ?case using lex_left_get_less [of l0 c] by simp
next
  case (4 l0 l c rs ok l1)
  then show ?case using lex_left_after [of l0 c "next_byte_in_range rs" ok l1] lex_left_next_byte by simp
qed simp

declare scan_string_loop.simps [simp del]

definition scan_string :: "lexer \<Rightarrow> token_type \<times> lexer" where
  "scan_string l = scan_string_loop (lex_reset l)"

subsection \<open>Numbers\<close>

text \<open>One function per label of the state machine; a loop of the machine is a recursion.\<close>

definition current_digit :: "lexer \<Rightarrow> bool" where
  "current_digit l = (case lx_current l of None \<Rightarrow> False | Some c \<Rightarrow> is_digit c)"

definition current_in :: "string \<Rightarrow> lexer \<Rightarrow> bool" where
  "current_in cs l = (case lx_current l of None \<Rightarrow> False | Some c \<Rightarrow> c \<in> set cs)"

definition scan_number_float :: "lexer \<Rightarrow> token_type \<times> lexer" where
  "scan_number_float l = (TOK_value_float, l\<lparr>lx_value_float := strtod (lx_token_buffer l)\<rparr>)"

definition scan_number_done :: "token_type \<Rightarrow> lexer \<Rightarrow> token_type \<times> lexer" where
  "scan_number_done number_type l0 =
     (let l = lex_unget l0
      in if number_type = TOK_value_unsigned then
           (case strtoull (lx_token_buffer l) of
              Some x \<Rightarrow> (TOK_value_unsigned, l\<lparr>lx_value_unsigned := x\<rparr>)
            | None \<Rightarrow> scan_number_float l)
         else if number_type = TOK_value_integer then
           (case strtoll (lx_token_buffer l) of
              Some x \<Rightarrow> (TOK_value_integer, l\<lparr>lx_value_integer := x\<rparr>)
            | None \<Rightarrow> scan_number_float l)
         else scan_number_float l)"

function scan_number_any2 :: "token_type \<Rightarrow> lexer \<Rightarrow> token_type \<times> lexer" where
  "scan_number_any2 number_type l0 =
     (let l = lex_get l0
      in if current_digit l then scan_number_any2 number_type (add_current l)
         else scan_number_done number_type l)"
  by pat_completeness auto

lemma lex_left_digit: "current_digit (lex_get l) \<Longrightarrow> lex_left (add_current (lex_get l)) < lex_left l"
  by (auto simp: current_digit_def dest: lex_left_get_less simp del: lex_get_fields split: option.splits)

termination scan_number_any2
  by (relation "measure (lex_left \<circ> snd)") (auto dest: lex_left_digit simp del: lex_left_simps)

definition scan_number_sign :: "token_type \<Rightarrow> lexer \<Rightarrow> token_type \<times> lexer" where
  "scan_number_sign number_type l0 =
     (let l = lex_get l0
      in if current_digit l then scan_number_any2 number_type (add_current l)
         else (TOK_parse_error, lex_error ''invalid number; expected digit after exponent sign'' l))"

definition scan_number_exponent :: "lexer \<Rightarrow> token_type \<times> lexer" where
  "scan_number_exponent l0 =
     (let l = lex_get l0
      in if current_in ''+-'' l then scan_number_sign TOK_value_float (add_current l)
         else if current_digit l then scan_number_any2 TOK_value_float (add_current l)
         else (TOK_parse_error,
           lex_error (''invalid number; expected '' @ [CHR 0x27, CHR ''+'', CHR 0x27] @ '', '' @
             [CHR 0x27, CHR ''-'', CHR 0x27] @ '', or digit after exponent'') l))"

function scan_number_decimal2 :: "lexer \<Rightarrow> token_type \<times> lexer" where
  "scan_number_decimal2 l0 =
     (let l = lex_get l0
      in if current_digit l then scan_number_decimal2 (add_current l)
         else if current_in ''eE'' l then scan_number_exponent (add_current l)
         else scan_number_done TOK_value_float l)"
  by pat_completeness auto

termination
  by (relation "measure lex_left") (auto dest: lex_left_digit simp del: lex_left_simps)

definition scan_number_decimal1 :: "lexer \<Rightarrow> token_type \<times> lexer" where
  "scan_number_decimal1 l0 =
     (let l = lex_get l0
      in if current_digit l then scan_number_decimal2 (add_current l)
         else (TOK_parse_error,
           lex_error (''invalid number; expected digit after '' @ [CHR 0x27, CHR ''.'', CHR 0x27]) l))"

function scan_number_any1 :: "token_type \<Rightarrow> lexer \<Rightarrow> token_type \<times> lexer" where
  "scan_number_any1 number_type l0 =
     (let l = lex_get l0
      in if current_digit l then scan_number_any1 number_type (add_current l)
         else if current_in ''.'' l then scan_number_decimal1 (lex_add (CHR ''.'') l)
         else if current_in ''eE'' l then scan_number_exponent (add_current l)
         else scan_number_done number_type l)"
  by pat_completeness auto

termination
  by (relation "measure (lex_left \<circ> snd)") (auto dest: lex_left_digit simp del: lex_left_simps)

definition scan_number_zero :: "token_type \<Rightarrow> lexer \<Rightarrow> token_type \<times> lexer" where
  "scan_number_zero number_type l0 =
     (let l = lex_get l0
      in if current_in ''.'' l then scan_number_decimal1 (lex_add (CHR ''.'') l)
         else if current_in ''eE'' l then scan_number_exponent (add_current l)
         else scan_number_done number_type l)"

definition scan_number_minus :: "lexer \<Rightarrow> token_type \<times> lexer" where
  "scan_number_minus l0 =
     (let l = lex_get l0
      in if current_in ''0'' l then scan_number_zero TOK_value_integer (add_current l)
         else if current_digit l then scan_number_any1 TOK_value_integer (add_current l)
         else (TOK_parse_error,
           lex_error (''invalid number; expected digit after '' @ [CHR 0x27, CHR ''-'', CHR 0x27]) l))"

definition scan_number :: "lexer \<Rightarrow> token_type \<times> lexer" where
  "scan_number l0 =
     (let l = lex_reset l0
      in if current_in ''-'' l then scan_number_minus (add_current l)
         else if current_in ''0'' l then scan_number_zero TOK_value_unsigned (add_current l)
         else scan_number_any1 TOK_value_unsigned (add_current l))"

declare scan_number_any1.simps [simp del] scan_number_any2.simps [simp del]
  scan_number_decimal2.simps [simp del]

subsection \<open>Literals, white space and tokens\<close>

fun scan_literal_rest :: "string \<Rightarrow> token_type \<Rightarrow> lexer \<Rightarrow> token_type \<times> lexer" where
  "scan_literal_rest [] return_type l = (return_type, l)"
| "scan_literal_rest (c # cs) return_type l =
     (let l1 = lex_get l
      in if (case lx_current l1 of None \<Rightarrow> CHR 0xFF | Some x \<Rightarrow> x) \<noteq> c
         then (TOK_parse_error, lex_error ''invalid literal'' l1)
         else scan_literal_rest cs return_type l1)"

definition scan_literal :: "string \<Rightarrow> token_type \<Rightarrow> lexer \<Rightarrow> token_type \<times> lexer" where
  "scan_literal literal_text return_type l = scan_literal_rest (drop 1 literal_text) return_type l"

definition skip_bom :: "lexer \<Rightarrow> bool \<times> lexer" where
  "skip_bom l =
     (let l1 = lex_get l
      in if lx_current l1 = Some (CHR 0xEF) then
           (let l2 = lex_get l1
            in if lx_current l2 \<noteq> Some (CHR 0xBB) then (False, l2)
               else (let l3 = lex_get l2 in (lx_current l3 = Some (CHR 0xBF), l3)))
         else (True, lex_unget l1))"

definition is_whitespace :: "char \<Rightarrow> bool" where
  "is_whitespace c \<longleftrightarrow> c \<in> {CHR '' '', CHR 0x09, CHR 0x0A, CHR 0x0D}"

function skip_whitespace :: "lexer \<Rightarrow> lexer" where
  "skip_whitespace l0 =
     (let l = lex_get l0
      in case lx_current l of
           None \<Rightarrow> l
         | Some c \<Rightarrow> if is_whitespace c then skip_whitespace l else l)"
  by pat_completeness auto

termination
  by (relation "measure lex_left") (auto dest: lex_left_get_less simp del: lex_get_fields)

declare skip_whitespace.simps [simp del]

definition scan_token :: "lexer \<Rightarrow> token_type \<times> lexer" where
  "scan_token l =
     (case lx_current l of
        None \<Rightarrow> (TOK_end_of_input, l)
      | Some c \<Rightarrow>
          if c = CHR ''['' then (TOK_begin_array, l)
          else if c = CHR '']'' then (TOK_end_array, l)
          else if c = CHR ''{'' then (TOK_begin_object, l)
          else if c = CHR ''}'' then (TOK_end_object, l)
          else if c = CHR '':'' then (TOK_name_separator, l)
          else if c = CHR '','' then (TOK_value_separator, l)
          else if c = CHR ''t'' then scan_literal ''true'' TOK_literal_true l
          else if c = CHR ''f'' then scan_literal ''false'' TOK_literal_false l
          else if c = CHR ''n'' then scan_literal ''null'' TOK_literal_null l
          else if c = CHR 0x22 then scan_string l
          else if c = CHR ''-'' \<or> is_digit c then scan_number l
          else if c = CHR 0x00 then (TOK_end_of_input, l)
          else (TOK_parse_error, lex_error ''invalid literal'' l))"

definition scan :: "lexer \<Rightarrow> token_type \<times> lexer" where
  "scan l =
     (case (if chars_read_total (lx_position l) = 0 then skip_bom l else (True, l)) of
        (ok, l1) \<Rightarrow>
          if \<not> ok then (TOK_parse_error, lex_error ''invalid BOM; must be 0xEF 0xBB 0xBF if given'' l1)
          else scan_token (skip_whitespace l1))"

text \<open>\<open>get_token_string\<close>.\<close>

definition get_token_string :: "lexer \<Rightarrow> string" where
  "get_token_string l =
     concat (map (\<lambda>c. if of_char c \<le> (0x1F :: nat) then ''<U+00'' @ hex_byte c @ ''>'' else [c])
       (lx_token_string l))"

end
