(* ===== verification/Parser.thy ===== *)
theory Parser
  imports Lexer_Facts
begin

section \<open>The JSON parser\<close>

text \<open>
  The classes \<open>parser\<close> and \<open>json_sax_dom_parser\<close> of \<open>json.hpp\<close>, and \<open>operator>>\<close>, the entry the library
  uses: the loop over tokens with its stack of open arrays and objects, and the handler that builds the
  value. The handler keeps pointers to the containers under construction. Only the innermost one is
  written to, so that the model keeps, for each open container, what it holds without its open child
  (\<open>frame\<close>); \<open>dom_result\<close> puts the pieces together, which is what the caller finds in his variable when
  the parser throws.
\<close>

subsection \<open>Building the value\<close>

text \<open>An object has the key the next value goes to (\<open>object_element\<close>).\<close>

datatype frame = Array_frame "json list" | Object_frame "(string \<times> json) list" string

record dom =
  dom_root :: json
  dom_stack :: "frame list"

fun frame_value :: "frame \<Rightarrow> json" where
  "frame_value (Array_frame js) = JArray js"
| "frame_value (Object_frame kvs k) = JObject kvs"

fun frame_put :: "json \<Rightarrow> frame \<Rightarrow> frame" where
  "frame_put v (Array_frame js) = Array_frame (js @ [v])"
| "frame_put v (Object_frame kvs k) = Object_frame (obj_put k v kvs) k"

definition handle_value :: "json \<Rightarrow> dom \<Rightarrow> dom" where
  "handle_value v d =
     (case dom_stack d of
        [] \<Rightarrow> d\<lparr>dom_root := v\<rparr>
      | f # fs \<Rightarrow> d\<lparr>dom_stack := frame_put v f # fs\<rparr>)"

definition dom_start_object :: "dom \<Rightarrow> dom" where
  "dom_start_object d = d\<lparr>dom_stack := Object_frame [] [] # dom_stack d\<rparr>"

definition dom_start_array :: "dom \<Rightarrow> dom" where
  "dom_start_array d = d\<lparr>dom_stack := Array_frame [] # dom_stack d\<rparr>"

definition dom_key :: "string \<Rightarrow> dom \<Rightarrow> dom" where
  "dom_key k d =
     (case dom_stack d of
        Object_frame kvs k' # fs \<Rightarrow>
          d\<lparr>dom_stack := Object_frame (if map_of kvs k = None then obj_put k JNull kvs else kvs) k # fs\<rparr>
      | _ \<Rightarrow> d)"

definition dom_end :: "dom \<Rightarrow> dom" where
  "dom_end d =
     (case dom_stack d of
        [] \<Rightarrow> d
      | f # fs \<Rightarrow> handle_value (frame_value f) (d\<lparr>dom_stack := fs\<rparr>))"

fun close_frames :: "json \<Rightarrow> frame list \<Rightarrow> json" where
  "close_frames v [] = v"
| "close_frames v (f # fs) = close_frames (frame_value (frame_put v f)) fs"

definition dom_result :: "dom \<Rightarrow> json" where
  "dom_result d =
     (case dom_stack d of [] \<Rightarrow> dom_root d | f # fs \<Rightarrow> close_frames (frame_value f) fs)"

subsection \<open>The parser\<close>

record json_parser =
  ps_lexer :: lexer
  ps_last_token :: token_type
  ps_dom :: dom

definition get_token :: "json_parser \<Rightarrow> json_parser" where
  "get_token p = (case scan (ps_lexer p) of (t, l) \<Rightarrow> p\<lparr>ps_lexer := l, ps_last_token := t\<rparr>)"

definition parser_new :: "string \<Rightarrow> json \<Rightarrow> json_parser" where
  "parser_new s r =
     get_token \<lparr>ps_lexer = lexer_new s, ps_last_token = TOK_uninitialized,
       ps_dom = \<lparr>dom_root = r, dom_stack = []\<rparr>\<rparr>"

definition exception_message :: "token_type \<Rightarrow> string \<Rightarrow> json_parser \<Rightarrow> string" where
  "exception_message expected ctx p =
     ''syntax error '' @ (if ctx \<noteq> [] then ''while parsing '' @ ctx @ '' '' else []) @ ''- '' @
     (if ps_last_token p = TOK_parse_error then
        lx_error_message (ps_lexer p) @ ''; last read: '' @ [CHR 0x27] @
          get_token_string (ps_lexer p) @ [CHR 0x27]
      else ''unexpected '' @ token_type_name (ps_last_token p)) @
     (if expected \<noteq> TOK_uninitialized then ''; expected '' @ token_type_name expected else [])"

text \<open>\<open>parse_error::create(101, ...)\<close>.\<close>

definition parse_error_101 :: "token_type \<Rightarrow> string \<Rightarrow> json_parser \<Rightarrow> cxx_error" where
  "parse_error_101 expected ctx p =
     Parse_error (''parse error at line '' @ decimal (lines_read (lx_position (ps_lexer p)) + 1) @
       '', column '' @ decimal (chars_read_current_line (lx_position (ps_lexer p))) @ '': '' @
       exception_message expected ctx p)"

definition number_overflow :: "json_parser \<Rightarrow> cxx_error" where
  "number_overflow p =
     Out_of_range 406 (''number overflow parsing '' @ [CHR 0x27] @ get_token_string (ps_lexer p) @ [CHR 0x27])"

definition is_finite :: "64 word \<Rightarrow> bool" where
  "is_finite d = (case fp_decode 11 52 (unat d) of Fin s m x \<Rightarrow> True | _ \<Rightarrow> False)"

text \<open>What one part of the loop body leads to. The stack of states has its back first; \<open>True\<close> is an array.\<close>

datatype parse_step =
    Next_value "bool list"
  | Evaluate_state
  | Skip_to_state "bool list"
  | Parsed
  | Failed cxx_error

definition parse_value :: "json \<Rightarrow> json_parser \<Rightarrow> parse_step \<times> json_parser" where
  "parse_value v p = (Evaluate_state, p\<lparr>ps_dom := handle_value v (ps_dom p)\<rparr>)"

text \<open>A key and its colon, up to the first token of the value.\<close>

definition parse_key :: "bool list \<Rightarrow> json_parser \<Rightarrow> parse_step \<times> json_parser" where
  "parse_key states p =
     (if ps_last_token p \<noteq> TOK_value_string then
        (Failed (parse_error_101 TOK_value_string ''object key'' p), p)
      else
        (let p1 = get_token (p\<lparr>ps_dom := dom_key (lx_token_buffer (ps_lexer p)) (ps_dom p)\<rparr>)
         in if ps_last_token p1 \<noteq> TOK_name_separator then
              (Failed (parse_error_101 TOK_name_separator ''object separator'' p1), p1)
            else (Next_value states, get_token p1)))"

definition parse_token :: "bool list \<Rightarrow> json_parser \<Rightarrow> parse_step \<times> json_parser" where
  "parse_token states p =
     (case ps_last_token p of
        TOK_begin_object \<Rightarrow>
          (let p1 = get_token (p\<lparr>ps_dom := dom_start_object (ps_dom p)\<rparr>)
           in if ps_last_token p1 = TOK_end_object then
                (Evaluate_state, p1\<lparr>ps_dom := dom_end (ps_dom p1)\<rparr>)
              else parse_key (False # states) p1)
      | TOK_begin_array \<Rightarrow>
          (let p1 = get_token (p\<lparr>ps_dom := dom_start_array (ps_dom p)\<rparr>)
           in if ps_last_token p1 = TOK_end_array then
                (Evaluate_state, p1\<lparr>ps_dom := dom_end (ps_dom p1)\<rparr>)
              else (Next_value (True # states), p1))
      | TOK_value_float \<Rightarrow>
          (if \<not> is_finite (lx_value_float (ps_lexer p)) then (Failed (number_overflow p), p)
           else parse_value (JFloat (lx_value_float (ps_lexer p))) p)
      | TOK_literal_false \<Rightarrow> parse_value (JBool False) p
      | TOK_literal_null \<Rightarrow> parse_value JNull p
      | TOK_literal_true \<Rightarrow> parse_value (JBool True) p
      | TOK_value_integer \<Rightarrow> parse_value (JInt (lx_value_integer (ps_lexer p))) p
      | TOK_value_string \<Rightarrow> parse_value (JString (lx_token_buffer (ps_lexer p))) p
      | TOK_value_unsigned \<Rightarrow> parse_value (JUint (lx_value_unsigned (ps_lexer p))) p
      | TOK_parse_error \<Rightarrow> (Failed (parse_error_101 TOK_uninitialized ''value'' p), p)
      | _ \<Rightarrow> (Failed (parse_error_101 TOK_literal_or_value ''value'' p), p))"

text \<open>After a value: the end, another element, or the end of the container.\<close>

fun parse_state :: "bool list \<Rightarrow> json_parser \<Rightarrow> parse_step \<times> json_parser" where
  "parse_state [] p = (Parsed, p)"
| "parse_state (True # states) p =
     (let p1 = get_token p
      in if ps_last_token p1 = TOK_value_separator then (Next_value (True # states), get_token p1)
         else if ps_last_token p1 = TOK_end_array then
           (Skip_to_state states, p1\<lparr>ps_dom := dom_end (ps_dom p1)\<rparr>)
         else (Failed (parse_error_101 TOK_end_array ''array'' p1), p1))"
| "parse_state (False # states) p =
     (let p1 = get_token p
      in if ps_last_token p1 = TOK_value_separator then parse_key (False # states) (get_token p1)
         else if ps_last_token p1 = TOK_end_object then
           (Skip_to_state states, p1\<lparr>ps_dom := dom_end (ps_dom p1)\<rparr>)
         else (Failed (parse_error_101 TOK_end_object ''object'' p1), p1))"

text \<open>\<open>parse_token\<close> never gives \<open>Parsed\<close> or \<open>Skip_to_state\<close>, and \<open>parse_state\<close> never \<open>Evaluate_state\<close>.\<close>

function sax_parse_loop :: "bool \<Rightarrow> bool list \<Rightarrow> json_parser \<Rightarrow> json_parser \<times> cxx_error option" where
  "sax_parse_loop skip_to_state_evaluation states p =
     (case (if skip_to_state_evaluation then (Evaluate_state, p) else parse_token states p) of
        (Next_value states', p1) \<Rightarrow> sax_parse_loop False states' p1
      | (Failed e, p1) \<Rightarrow> (p1, Some e)
      | (Evaluate_state, p1) \<Rightarrow>
          (case parse_state states p1 of
             (Next_value states', p2) \<Rightarrow> sax_parse_loop False states' p2
           | (Skip_to_state states', p2) \<Rightarrow> sax_parse_loop True states' p2
           | (Failed e, p2) \<Rightarrow> (p2, Some e)
           | (_, p2) \<Rightarrow> (p2, None))
      | (_, p1) \<Rightarrow> (p1, None))"
  by pat_completeness auto

text \<open>The characters left, and one more while the last token is still to be used.\<close>

definition parse_left :: "bool \<Rightarrow> json_parser \<Rightarrow> nat" where
  "parse_left skip p =
     2 * lex_left (ps_lexer p) + (if skip \<or> token_taken (ps_last_token p) then 1 else 0)"

lemma get_token_left:
  "lex_left (ps_lexer (get_token p)) \<le> lex_left (ps_lexer p)"
  "token_taken (ps_last_token (get_token p)) \<Longrightarrow> lex_left (ps_lexer (get_token p)) < lex_left (ps_lexer p)"
  using scan_progress [of "ps_lexer p"] by (auto simp: get_token_def split: prod.split)

lemma get_token_dom [simp]: "ps_dom (get_token p) = ps_dom p"
  by (simp add: get_token_def split: prod.split)

lemma get_token_left_dom [simp]:
  "lex_left (ps_lexer (get_token (p\<lparr>ps_dom := d\<rparr>))) = lex_left (ps_lexer (get_token p))"
  "ps_last_token (get_token (p\<lparr>ps_dom := d\<rparr>)) = ps_last_token (get_token p)"
  by (simp_all add: get_token_def split: prod.split)

lemma parse_key_left:
  assumes "parse_key states p = (Next_value states', p')"
  shows "lex_left (ps_lexer p') < lex_left (ps_lexer p)"
proof -
  let ?p1 = "get_token (p\<lparr>ps_dom := dom_key (lx_token_buffer (ps_lexer p)) (ps_dom p)\<rparr>)"
  from assms have p': "p' = get_token ?p1" "ps_last_token ?p1 = TOK_name_separator"
    by (auto simp: parse_key_def Let_def split: if_splits)
  have "lex_left (ps_lexer p') \<le> lex_left (ps_lexer ?p1)"
    unfolding p'(1) by (rule get_token_left)
  also have "\<dots> < lex_left (ps_lexer p)"
    using get_token_left(2) [of p] p'(2) by (simp add: token_taken_def)
  finally show ?thesis .
qed

lemma parse_token_left:
  assumes "parse_token states p = (s, p')"
  shows "case s of
      Next_value states' \<Rightarrow> parse_left False p' < parse_left False p
    | Evaluate_state \<Rightarrow> lex_left (ps_lexer p') \<le> lex_left (ps_lexer p) \<and> token_taken (ps_last_token p)
    | Skip_to_state states' \<Rightarrow> False
    | Parsed \<Rightarrow> False
    | Failed e \<Rightarrow> True"
  using assms get_token_left [of p] parse_key_left [of "False # states" "get_token p"]
    parse_key_left [of "False # states" "get_token (p\<lparr>ps_dom := dom_start_object (ps_dom p)\<rparr>)"]
  by (auto simp: parse_token_def parse_value_def Let_def token_taken_def parse_left_def parse_key_def
      split: token_type.splits if_splits parse_step.split)

lemma parse_state_left:
  assumes "parse_state states p = (s, p')"
  shows "case s of
      Next_value states' \<Rightarrow> lex_left (ps_lexer p') < lex_left (ps_lexer p)
    | Evaluate_state \<Rightarrow> False
    | Skip_to_state states' \<Rightarrow> lex_left (ps_lexer p') < lex_left (ps_lexer p)
    | Parsed \<Rightarrow> True
    | Failed e \<Rightarrow> True"
proof (cases states)
  case Nil
  with assms show ?thesis by auto
next
  case (Cons b states')
  have 1: "lex_left (ps_lexer (get_token (get_token p))) \<le> lex_left (ps_lexer (get_token p))"
    by (rule get_token_left)
  show ?thesis
  proof (cases b)
    case True
    with assms Cons 1 get_token_left(2) [of p] show ?thesis
      by (auto simp: Let_def token_taken_def split: if_splits)
  next
    case False
    with assms Cons 1 get_token_left(2) [of p]
      parse_key_left [of "False # states'" "get_token (get_token p)"]
    show ?thesis
      by (auto simp: Let_def token_taken_def parse_key_def split: if_splits)
  qed
qed

termination sax_parse_loop
proof (relation "measure (\<lambda>(skip, states, p). parse_left skip p)", goal_cases)
  case (2 skip states p s p1 states')
  then show ?case using parse_token_left [of states p s p1] by (auto split: if_splits)
next
  case (3 skip states p s p1 t p2 states')
  then show ?case
    using parse_token_left [of states p s p1] parse_state_left [of states p1 t p2]
    by (auto simp: parse_left_def split: if_splits)
next
  case (4 skip states p s p1 t p2 states')
  then show ?case
    using parse_token_left [of states p s p1] parse_state_left [of states p1 t p2]
    by (auto simp: parse_left_def split: if_splits)
qed auto

declare sax_parse_loop.simps [simp del]

definition sax_parse_internal :: "json_parser \<Rightarrow> json_parser \<times> cxx_error option" where
  "sax_parse_internal p = sax_parse_loop False [] p"

text \<open>\<open>parser(adapter).parse(strict, r)\<close> with exceptions enabled: the value it leaves in \<open>r\<close>, and what it
  throws. \<open>operator>>\<close> is the same without \<open>strict\<close>.\<close>

definition json_parse :: "bool \<Rightarrow> string \<Rightarrow> json \<Rightarrow> json \<times> cxx_error option" where
  "json_parse strict s r =
     (case sax_parse_internal (parser_new s r) of
        (p, Some e) \<Rightarrow> (dom_result (ps_dom p), Some e)
      | (p, None) \<Rightarrow>
          if strict then
            (let p1 = get_token p
             in (dom_result (ps_dom p),
                 if ps_last_token p1 \<noteq> TOK_end_of_input
                 then Some (parse_error_101 TOK_end_of_input ''value'' p1) else None))
          else (dom_result (ps_dom p), None))"

definition json_read :: "string \<Rightarrow> json \<Rightarrow> json \<times> cxx_error option" where
  "json_read s r = json_parse False s r"

end
