(* ===== verification/Json_Grammar.thy ===== *)
theory Json_Grammar
  imports Parser
begin

section \<open>The grammar of JSON\<close>

text \<open>
  What a JSON text is and which value it stands for, written down independently of the parser
  (RFC 8259): \<open>json_text j t\<close> relates a value and a text without surrounding white space. The number and
  string values are those of \<open>json.hpp\<close>: an integer without a fraction or an exponent is a 64-bit number when
  it fits, the double nearest to it otherwise; of two members with the same key the later one counts.
\<close>

definition white :: "string \<Rightarrow> bool" where
  "white w \<longleftrightarrow> list_all is_whitespace w"

lemma white_simps [simp]: "white []" "white (c # w) \<longleftrightarrow> is_whitespace c \<and> white w"
  "white (v @ w) \<longleftrightarrow> white v \<and> white w"
  by (simp_all add: white_def)

subsection \<open>Strings\<close>

definition simple_escape :: "char \<Rightarrow> char option" where
  "simple_escape = map_of
     [(CHR 0x22, CHR 0x22), (CHR 0x5C, CHR 0x5C), (CHR ''/'', CHR ''/''), (CHR ''b'', CHR 0x08),
      (CHR ''f'', CHR 0x0C), (CHR ''n'', CHR 0x0A), (CHR ''r'', CHR 0x0D), (CHR ''t'', CHR 0x09)]"

text \<open>Four hexadecimal digits with the value \<open>n\<close>.\<close>

definition hex4 :: "string \<Rightarrow> nat \<Rightarrow> bool" where
  "hex4 h n \<longleftrightarrow> (\<exists>a b c d. map hex_value h = [Some a, Some b, Some c, Some d] \<and>
     n = a * 4096 + b * 256 + c * 16 + d)"

definition high_surrogate :: "nat \<Rightarrow> bool" where
  "high_surrogate n \<longleftrightarrow> 0xD800 \<le> n \<and> n \<le> 0xDBFF"

definition low_surrogate :: "nat \<Rightarrow> bool" where
  "low_surrogate n \<longleftrightarrow> 0xDC00 \<le> n \<and> n \<le> 0xDFFF"

text \<open>\<open>char_text cs t\<close>: the text \<open>t\<close> stands for the one character with the bytes \<open>cs\<close>.\<close>

inductive char_text :: "string \<Rightarrow> string \<Rightarrow> bool" where
  char_plain: "utf8_char (c # t) \<Longrightarrow> (0x20 :: nat) \<le> of_char c \<Longrightarrow> c \<noteq> CHR 0x22 \<Longrightarrow> c \<noteq> backslash \<Longrightarrow>
    char_text (c # t) (c # t)"
| char_short: "simple_escape x = Some c \<Longrightarrow> char_text [c] [backslash, x]"
| char_unicode: "hex4 h n \<Longrightarrow> \<not> high_surrogate n \<Longrightarrow> \<not> low_surrogate n \<Longrightarrow>
    char_text (codepoint_bytes n) (backslash # CHR ''u'' # h)"
| char_pair: "hex4 h n \<Longrightarrow> high_surrogate n \<Longrightarrow> hex4 h' n' \<Longrightarrow> low_surrogate n' \<Longrightarrow>
    char_text (codepoint_bytes (0x10000 + (n - 0xD800) * 1024 + (n' - 0xDC00)))
      (backslash # CHR ''u'' # h @ backslash # CHR ''u'' # h')"

inductive string_text :: "string \<Rightarrow> string \<Rightarrow> bool" where
  string_text_Nil: "string_text [] []"
| string_text_Cons: "char_text cs t \<Longrightarrow> string_text x u \<Longrightarrow> string_text (cs @ x) (t @ u)"

subsection \<open>Numbers\<close>

definition all_digits :: "string \<Rightarrow> bool" where
  "all_digits ds \<longleftrightarrow> list_all is_digit ds"

lemma all_digits_simps [simp]: "all_digits []" "all_digits (d # ds) \<longleftrightarrow> is_digit d \<and> all_digits ds"
  "all_digits (ds @ es) \<longleftrightarrow> all_digits ds \<and> all_digits es"
  by (simp_all add: all_digits_def)

definition exponent_text :: "string \<Rightarrow> bool" where
  "exponent_text ex \<longleftrightarrow> ex = [] \<or>
     (\<exists>e sg ds. ex = e # sg @ ds \<and> e \<in> set ''eE'' \<and> sg \<in> {[], ''+'', ''-''} \<and> ds \<noteq> [] \<and> all_digits ds)"

definition fraction_text :: "string \<Rightarrow> bool" where
  "fraction_text fr \<longleftrightarrow> fr = [] \<or> (\<exists>ds. fr = CHR ''.'' # ds \<and> ds \<noteq> [] \<and> all_digits ds)"

text \<open>The integral part: a zero, or digits that do not start with one.\<close>

definition whole_text :: "string \<Rightarrow> bool" where
  "whole_text ds \<longleftrightarrow> ds = ''0'' \<or> (ds \<noteq> [] \<and> all_digits ds \<and> hd ds \<noteq> CHR ''0'')"

text \<open>The value of a number: \<open>whole\<close> tells that it has no fraction and no exponent.\<close>

definition number_json :: "bool \<Rightarrow> string \<Rightarrow> json" where
  "number_json whole t =
     (let float = JFloat (strtod t)
      in if \<not> whole then float
         else if take 1 t = ''-'' then (case strtoll t of Some x \<Rightarrow> JInt x | None \<Rightarrow> float)
         else (case strtoull t of Some x \<Rightarrow> JUint x | None \<Rightarrow> float))"

definition number_parts :: "string \<Rightarrow> string \<Rightarrow> string \<Rightarrow> string \<Rightarrow> bool" where
  "number_parts sg ds fr ex \<longleftrightarrow>
     sg \<in> {[], ''-''} \<and> whole_text ds \<and> fraction_text fr \<and> exponent_text ex"

text \<open>A number that overflows the doubles has no value.\<close>

definition finite_number :: "json \<Rightarrow> bool" where
  "finite_number j = (case j of JFloat d \<Rightarrow> is_finite d | _ \<Rightarrow> True)"

inductive number_text :: "json \<Rightarrow> string \<Rightarrow> bool" where
  number_text: "number_parts sg ds fr ex \<Longrightarrow> t = sg @ ds @ fr @ ex \<Longrightarrow> j = number_json (fr @ ex = []) t \<Longrightarrow>
    finite_number j \<Longrightarrow> number_text j t"

subsection \<open>Values\<close>

text \<open>\<open>elements_text\<close> and \<open>members_text\<close>: what stands between the brackets of a container that is not
  empty. A member list is in the order of the text.\<close>

definition put_all :: "(string \<times> json) list \<Rightarrow> (string \<times> json) list \<Rightarrow> (string \<times> json) list" where
  "put_all kvs m = fold (\<lambda>(k, v). obj_put k v) kvs m"

inductive json_text :: "json \<Rightarrow> string \<Rightarrow> bool"
  and elements_text :: "json list \<Rightarrow> string \<Rightarrow> bool"
  and members_text :: "(string \<times> json) list \<Rightarrow> string \<Rightarrow> bool" where
  text_null: "json_text JNull ''null''"
| text_true: "json_text (JBool True) ''true''"
| text_false: "json_text (JBool False) ''false''"
| text_number: "number_text j t \<Longrightarrow> json_text j t"
| text_string: "string_text x t \<Longrightarrow> json_text (JString x) (quoted t)"
| text_empty_array: "white w \<Longrightarrow> json_text (JArray []) (''['' @ w @ '']'')"
| text_array: "elements_text js t \<Longrightarrow> json_text (JArray js) (''['' @ t @ '']'')"
| text_empty_object: "white w \<Longrightarrow> json_text (JObject []) (''{'' @ w @ ''}'')"
| text_object: "members_text kvs t \<Longrightarrow> json_text (JObject (put_all kvs [])) (''{'' @ t @ ''}'')"
| elements_one: "json_text j t \<Longrightarrow> white v \<Longrightarrow> white w \<Longrightarrow> elements_text [j] (v @ t @ w)"
| elements_more: "json_text j t \<Longrightarrow> white v \<Longrightarrow> white w \<Longrightarrow> elements_text js u \<Longrightarrow>
    elements_text (j # js) (v @ t @ w @ '','' @ u)"
| members_one: "string_text k x \<Longrightarrow> json_text j t \<Longrightarrow> white v \<Longrightarrow> white v' \<Longrightarrow> white w \<Longrightarrow> white w' \<Longrightarrow>
    members_text [(k, j)] (v @ quoted x @ v' @ '':'' @ w @ t @ w')"
| members_more: "string_text k x \<Longrightarrow> json_text j t \<Longrightarrow> white v \<Longrightarrow> white v' \<Longrightarrow> white w \<Longrightarrow> white w' \<Longrightarrow>
    members_text kvs u \<Longrightarrow>
    members_text ((k, j) # kvs) (v @ quoted x @ v' @ '':'' @ w @ t @ w' @ '','' @ u)"

lemma put_all_simps [simp]:
  "put_all [] m = m" "put_all ((k, v) # kvs) m = put_all kvs (obj_put k v m)"
  by (simp_all add: put_all_def)

subsection \<open>What the values of texts are like\<close>

lemma split_64: "(n :: nat) = n div (m * 64) * (m * 64) + n div m mod 64 * m + n mod m"
proof -
  have "n div m = n div (m * 64) * 64 + n div m mod 64" by (simp add: div_mult2_eq)
  then have "n div m * m = n div (m * 64) * (m * 64) + n div m mod 64 * m"
    by (metis add_mult_distrib mult.assoc mult.commute)
  then show ?thesis by (metis div_mult_mod_eq)
qed

lemma codepoint_bytes_valid:
  assumes "n < 0x110000" and "\<not> high_surrogate n" and "\<not> low_surrogate n"
  shows "utf8_char (codepoint_bytes n)"
proof -
  have byte: "of_char (char_of k) = k" if "k < 256" for k :: nat
    using that by simp
  have tail: "byte_in (0x80, 0xBF) (char_of (0x80 + k mod 64))" for k :: nat
    by (simp add: byte_in_def byte)
  have tail_in: "byte_in (a, b) (char_of (0x80 + k))" if "a \<le> 0x80 + k" "0x80 + k \<le> b" "b < 256" for a b k :: nat
    using that by (simp add: byte_in_def)
  consider "n < 0x80" | "0x80 \<le> n" "n \<le> 0x7FF" | "0x800 \<le> n" "n \<le> 0xFFFF" | "0x10000 \<le> n" by linarith
  then show ?thesis
  proof cases
    case 1
    then show ?thesis by (simp add: codepoint_bytes_def utf8_tails_def)
  next
    case 2
    then have "0xC2 \<le> 0xC0 + n div 64" "0xC0 + n div 64 \<le> 0xDF" by simp_all
    with 2 tail show ?thesis by (simp add: codepoint_bytes_def utf8_tails_def)
  next
    case 3
    define a b where "a = n div 4096" and "b = n div 64 mod 64"
    have "n = a * 4096 + b * 64 + n mod 64" "b < 64" "n mod 64 < 64"
      using split_64 [of n 64] by (simp_all add: a_def b_def)
    with 3 assms(2,3) have "a < 16" "a = 0 \<Longrightarrow> 32 \<le> b" "a = 13 \<Longrightarrow> b < 32" "b < 64"
      unfolding high_surrogate_def low_surrogate_def by linarith+
    moreover have "codepoint_bytes n = [char_of (0xE0 + a), char_of (0x80 + b), char_of (0x80 + n mod 64)]"
      using 3 by (simp add: codepoint_bytes_def a_def b_def)
    ultimately show ?thesis using tail [of n]
      by (cases "a = 0"; cases "a = 13") (simp_all add: utf8_tails_def byte byte_in_def)
  next
    case 4
    define a b where "a = n div 262144" and "b = n div 4096 mod 64"
    have "n = a * 262144 + b * 4096 + n mod 4096" "b < 64" "n mod 4096 < 4096"
      using split_64 [of n 4096] by (simp_all add: a_def b_def)
    with 4 assms(1) have "a \<le> 4" "a = 0 \<Longrightarrow> 16 \<le> b" "a = 4 \<Longrightarrow> b < 16" "b < 64" by linarith+
    moreover have "codepoint_bytes n =
        [char_of (0xF0 + a), char_of (0x80 + b), char_of (0x80 + n div 64 mod 64), char_of (0x80 + n mod 64)]"
      using 4 by (simp add: codepoint_bytes_def a_def b_def)
    ultimately show ?thesis using tail [of n] tail [of "n div 64"]
      by (cases "a = 0"; cases "a = 4") (simp_all add: utf8_tails_def byte byte_in_def)
  qed
qed

end
