(* ===== verification/Json_Print.thy ===== *)
theory Json_Print
  imports Json_Grammar Grisu_Digits
begin

section \<open>What the serialiser writes\<close>

text \<open>
  The text \<open>dump\<close> writes, compact or indented, is a text of the grammar (\<open>dump_value_text\<close>). It stands
  for the value that was written, except that a signed integer that is not negative is read back as an
  unsigned one and a number that is not finite was written as null (\<open>reread\<close>).
\<close>

fun reread :: "json \<Rightarrow> json" where
  "reread (JInt i) = (if sint i < 0 then JInt i else JUint i)"
| "reread (JFloat d) = (if is_finite d then JFloat d else JNull)"
| "reread (JArray js) = JArray (map reread js)"
| "reread (JObject kvs) = JObject (map (\<lambda>kv. (fst kv, reread (snd kv))) kvs)"
| "reread j = j"

text \<open>The values that have a JSON text: there is no binary string and no discarded value in them.\<close>

fun printable :: "json \<Rightarrow> bool" where
  "printable (JArray js) = (\<forall>j \<in> set js. printable j)"
| "printable (JObject kvs) = (\<forall>kv \<in> set kvs. printable (snd kv))"
| "printable (JBinary bs) = False"
| "printable JDiscarded = False"
| "printable j = True"

subsection \<open>Strings\<close>

lemma hex_value_lower: "d < 16 \<Longrightarrow> hex_value (hex_lower d) = Some d"
proof -
  have "list_all (\<lambda>d. hex_value (hex_lower d) = Some d) [0..<16]" by code_simp
  then show "d < 16 \<Longrightarrow> ?thesis" by (simp add: list_all_iff)
qed

lemma unicode_escape_text:
  assumes "unat w < 0x80"
  shows "char_text [char_of (unat w)] (unicode_escape w)"
proof -
  let ?n = "unat w"
  let ?h = "[hex_lower (?n div 4096), hex_lower (?n div 256 mod 16), hex_lower (?n div 16 mod 16), hex_lower (?n mod 16)]"
  have "hex4 ?h ?n"
    unfolding hex4_def
    by (rule exI [of _ "?n div 4096"], rule exI [of _ "?n div 256 mod 16"], rule exI [of _ "?n div 16 mod 16"],
        rule exI [of _ "?n mod 16"]) (use assms in \<open>simp add: hex_value_lower\<close>)
  from char_unicode [OF this] assms show ?thesis
    by (simp add: high_surrogate_def low_surrogate_def codepoint_bytes_def unicode_escape_def Let_def)
qed

lemma escape_ascii_text:
  assumes "of_char c < (0x80 :: nat)"
  shows "char_text [c] (escape_codepoint False (of_char c) c)"
proof -
  let ?n = "of_char c :: nat"
  have num: "of_char c = (of_nat k :: 32 word) \<longleftrightarrow> ?n = k" if "k < 256" for k
    using that by (simp add: word_unat_eq_iff unat_of_nat)
  have le: "(of_char c :: 32 word) \<le> 0x1F \<longleftrightarrow> ?n \<le> 0x1F" "(of_char c :: 32 word) \<le> 0xFFFF"
    using assms by (simp_all add: word_le_nat_alt)
  have "ucast (of_nat ?n :: 32 word) = (of_nat ?n :: 16 word)"
    using assms by (simp only: unsigned_of_nat) (simp add: take_bit_nat_eq_self)
  then have cast: "ucast (of_char c :: 32 word) = (of_nat ?n :: 16 word)"
    by (simp only: of_nat_of_char)
  have t: "escape_codepoint False (of_char c) c =
      (if ?n = 8 then [backslash, CHR ''b''] else if ?n = 9 then [backslash, CHR ''t'']
       else if ?n = 10 then [backslash, CHR ''n''] else if ?n = 12 then [backslash, CHR ''f'']
       else if ?n = 13 then [backslash, CHR ''r''] else if ?n = 34 then [backslash, CHR 0x22]
       else if ?n = 92 then [backslash, backslash]
       else if ?n \<le> 31 then unicode_escape (of_nat ?n) else [c])"
    using num [of 8] num [of 9] num [of 10] num [of 12] num [of 13] num [of 34] num [of 92]
    by (simp add: escape_codepoint_def le cast)
  have c: "c = char_of ?n" by simp
  consider "?n \<in> {8, 9, 10, 12, 13, 34, 92}" | "?n \<notin> {8, 9, 10, 12, 13, 34, 92}" "?n \<le> 31"
    | "?n \<notin> {8, 9, 10, 12, 13, 34, 92}" "31 < ?n" by linarith
  then show ?thesis
  proof cases
    case 1
    have escapes: "list_all (\<lambda>(k, x). simple_escape x = Some (char_of (k :: nat)))
        [(8, CHR ''b''), (9, CHR ''t''), (10, CHR ''n''), (12, CHR ''f''), (13, CHR ''r''), (34, CHR 0x22),
         (92, backslash)]"
      by code_simp
    have "\<exists>x. escape_codepoint False (of_char c) c = [backslash, x] \<and> simple_escape x = Some (char_of ?n)"
      using 1 escapes unfolding t insert_iff empty_iff list.pred_inject prod.case
      by (elim disjE conjE) simp_all
    then show ?thesis by (auto intro: char_short)
  next
    case 2
    then show ?thesis unfolding t using unicode_escape_text [of "of_nat ?n"] assms
      by (simp add: unat_of_nat)
  next
    case 3
    then have "c \<noteq> CHR 0x22" "c \<noteq> backslash" by (auto simp: backslash_def)
    moreover have "utf8_char [c]" using assms by (simp add: utf8_tails_def)
    ultimately show ?thesis using 3 unfolding t by (auto intro: char_plain)
  qed
qed

lemma escape_char_text:
  assumes "utf8_char cs"
  shows "char_text cs (escape_char cs)"
proof -
  from assms obtain c t rs where cs: "cs = c # t" "utf8_tails (of_char c) = Some rs"
    "list_all2 byte_in rs t" by (cases cs) (auto split: option.splits)
  show ?thesis
  proof (cases "t = []")
    case True
    with cs have "of_char c < (0x80 :: nat)" by (auto simp: utf8_tails_def split: if_splits)
    from escape_ascii_text [OF this] show ?thesis by (simp add: cs(1) True)
  next
    case False
    with cs have "\<not> of_char c < (0x80 :: nat)" by (auto simp: utf8_tails_def)
    moreover from this have "c \<noteq> CHR 0x22" "c \<noteq> backslash" by (auto simp: backslash_def)
    moreover have "escape_char cs = cs" using False cs(1) by (cases t) simp_all
    ultimately show ?thesis using assms cs(1) by (auto intro: char_plain)
  qed
qed

lemma escape_string_text: "list_all utf8_char css \<Longrightarrow> string_text (concat css) (escape_string css)"
  by (induction css) (simp_all add: escape_string_def string_text_Nil string_text_Cons escape_char_text)

lemma dump_escaped_text:
  assumes "dump_escaped STRICT False x = Inr t"
  shows "string_text x t"
proof -
  from assms dump_escaped_invalid [of x] have "utf8_valid x" by auto
  then obtain css where css: "utf8_chars x = Some css" by (auto simp: utf8_valid_def)
  from utf8_chars_concat [OF css] escape_string_text [of css] dump_escaped_valid [OF css] assms
  show ?thesis by simp
qed

subsection \<open>Integers\<close>

lemma decimal_digits: "all_digits (decimal n) \<and> decimal n \<noteq> [] \<and> digits_value (decimal n) = n"
proof (induction n rule: decimal.induct)
  case (1 n)
  show ?case
  proof (cases "n < 10")
    case True
    then show ?thesis
      by (simp add: decimal_small digit_char_facts digits_value_def)
  next
    case False
    with 1 show ?thesis
      by (simp add: decimal_step digit_char_facts digits_value_snoc)
  qed
qed

lemma decimal_head: "0 < n \<Longrightarrow> hd (decimal n) \<noteq> CHR ''0''"
proof (induction n rule: decimal.induct)
  case (1 n)
  have "digit_char n \<noteq> CHR ''0''" if "n < 10"
    using that digit_char_facts(2) [OF that] 1(2) by (auto simp: digit_value_def)
  with 1 show ?case using decimal_digits [of "n div 10"]
    by (cases "n < 10") (simp_all add: decimal_small decimal_step)
qed

lemma decimal_whole: "whole_text (decimal n)"
proof (cases "n = 0")
  case True
  have "decimal 0 = ''0''" by code_simp
  with True show ?thesis by (simp add: whole_text_def)
next
  case False
  with decimal_head [of n] decimal_digits [of n] show ?thesis by (simp add: whole_text_def)
qed

lemma unsigned_text: "number_text (JUint n) (decimal (unat n))"
proof -
  have "take 1 (decimal (unat n)) \<noteq> ''-''"
    using decimal_digits [of "unat n"] by (cases "decimal (unat n)") (auto simp: is_digit_def less_eq_char_def)
  moreover have "strtoull (decimal (unat n)) = Some n"
    using decimal_digits [of "unat n"] unsigned_less [of n, where ?'a = nat] by (simp add: strtoull_def)
  ultimately show ?thesis
    by (intro number_text [of "[]" "decimal (unat n)" "[]" "[]"])
      (simp_all add: number_parts_def decimal_whole fraction_text_def exponent_text_def number_json_def
        finite_number_def)
qed

lemma signed_text:
  assumes "sint i < 0"
  shows "number_text (JInt i) (CHR ''-'' # decimal (nat (- sint i)))"
proof -
  have "strtoll (CHR ''-'' # decimal (nat (- sint i))) = Some i"
    using decimal_digits [of "nat (- sint i)"] assms sint_ge [of i] by (simp add: strtoll_def)
  then show ?thesis
    by (intro number_text [of "''-''" "decimal (nat (- sint i))" "[]" "[]"])
      (simp_all add: number_parts_def decimal_whole fraction_text_def exponent_text_def number_json_def
        finite_number_def)
qed

lemma sint_unat: "0 \<le> sint i \<Longrightarrow> nat (sint i) = unat i" for i :: "64 word"
proof -
  assume i: "0 \<le> sint i"
  have "uint (word_of_int (sint i) :: 64 word) = sint i mod 2 ^ 64"
    by (simp only: uint_word_of_int) simp
  with i have "sint i = uint i" using sint_less [of i] by simp
  then show ?thesis by simp
qed

lemma integer_text:
  "json_text (reread (JInt i)) (dump_integer True number_buffer i)"
  "json_text (JUint n) (dump_integer False number_buffer n)"
  using signed_text [of i] unsigned_text [of i] unsigned_text [of n]
  by (auto simp: dump_integer_decimal number_buffer_def show_int_def sint_unat intro: text_number)

subsection \<open>Containers\<close>

lemma elements_join:
  assumes "list_all2 json_text js ts" and "js \<noteq> []" and "white nl" and "white v" and "white w"
  shows "elements_text js (nl @ join ('','' @ nl) (map (\<lambda>t. v @ t) ts) @ w)"
  using assms(1,2)
proof (induction rule: list_all2_induct)
  case (Cons j js t ts)
  show ?case
  proof (cases js)
    case Nil
    with Cons have "ts = []" by simp
    with Nil elements_one [OF Cons.hyps(1), of "nl @ v" w] assms(3-5) show ?thesis by simp
  next
    case (Cons j' js')
    with \<open>list_all2 json_text js ts\<close> obtain t' ts' where ts: "ts = t' # ts'" by (auto simp: list_all2_Cons1)
    from Cons.IH elements_more [OF Cons.hyps(1), of "nl @ v" "[]" js] assms(3-5) Cons
    show ?thesis by (simp add: ts)
  qed
qed simp

definition member_text :: "string \<Rightarrow> string \<Rightarrow> string \<times> json \<Rightarrow> string \<Rightarrow> bool" where
  "member_text v w kv m \<longleftrightarrow>
     (\<exists>x t. m = v @ quoted x @ '':'' @ w @ t \<and> string_text (fst kv) x \<and> json_text (snd kv) t)"

lemma members_join:
  assumes "list_all2 (member_text v u) kvs ms" and "kvs \<noteq> []" and "white nl" and "white v" and "white u"
    and "white w"
  shows "members_text kvs (nl @ join ('','' @ nl) ms @ w)"
  using assms(1,2)
proof (induction rule: list_all2_induct)
  case (Cons kv kvs m ms)
  then obtain x t where m: "m = v @ quoted x @ '':'' @ u @ t" "string_text (fst kv) x" "json_text (snd kv) t"
    by (auto simp: member_text_def)
  have kv: "kv = (fst kv, snd kv)" by simp
  show ?case
  proof (cases kvs)
    case Nil
    with Cons have "ms = []" by simp
    with Nil members_one [OF m(2,3), of "nl @ v" "[]" u w] assms(3-6) show ?thesis
      by (simp add: m(1))
  next
    case (Cons kv' kvs')
    with \<open>list_all2 (member_text v u) kvs ms\<close> obtain m' ms' where ms: "ms = m' # ms'"
      by (auto simp: list_all2_Cons1)
    from Cons.IH members_more [OF m(2,3), of "nl @ v" "[]" u "[]" kvs] assms(3-6) Cons
    show ?thesis by (simp add: ms m(1))
  qed
qed simp

lemma obj_put_last: "\<forall>kv \<in> set m. fst kv < k \<Longrightarrow> obj_put k v m = m @ [(k, v)]"
  by (induction m rule: obj_put.induct [of _ k v]) auto

lemma put_all_sorted: "obj_sorted (m @ kvs) \<Longrightarrow> put_all kvs m = m @ kvs"
proof (induction kvs arbitrary: m)
  case (Cons kv kvs)
  obtain k v where kv: "kv = (k, v)" by (cases kv)
  from Cons.prems kv have "\<forall>x \<in> set m. fst x < k"
    by (auto simp: obj_sorted_def sorted_wrt_append)
  with Cons kv show ?case by (simp add: obj_put_last)
qed simp

end
