(* ===== verification/Float_Round.thy ===== *)
theory Float_Round
  imports Float_Text Json_Print
begin

section \<open>The round trip of doubles\<close>

text \<open>
  The text \<open>to_chars\<close> lays out from the digits Grisu2 finds is a JSON number with a fraction or an
  exponent, and \<open>strtod\<close> gives the double back from it.
\<close>

definition decimal_bits :: "nat \<Rightarrow> int \<Rightarrow> nat" where
  "decimal_bits n x = ratio_to_double (n * 10 ^ nat x) (10 ^ nat (- x))"

lemma decimal_bits_nearest:
  assumes "0 < n" and "n < 2047 * 2 ^ 52"
    and "half_below n < real k * 10 powi x" and "real k * 10 powi x < half_above n"
  shows "decimal_bits k x = n"
proof -
  have "real (k * 10 ^ nat x) / real (10 ^ nat (- x)) = real k * 10 powi x"
    by (cases "0 \<le> x") (simp_all add: power_int_def field_simps)
  with assms show ?thesis unfolding decimal_bits_def by (intro ratio_to_double_nearest) simp_all
qed

subsection \<open>The value of a text\<close>

lemma digit_prefix:
  assumes "all_digits ds" and "rest = [] \<or> \<not> is_digit (hd rest)"
  shows "takeWhile is_digit (ds @ rest) = ds" "dropWhile is_digit (ds @ rest) = rest"
  using assms by (cases rest; auto simp: all_digits_def list_all_iff takeWhile_append2 dropWhile_append2)+

lemma sign_digits: "is_digit c \<Longrightarrow> c \<noteq> CHR ''-'' \<and> c \<noteq> CHR ''+'' \<and> c \<noteq> CHR ''.'' \<and> c \<noteq> CHR ''e''"
  by (auto simp: is_digit_def less_eq_char_def)

text \<open>\<open>exponent_value ex e\<close>: the text of an exponent, or none, and its value.\<close>

inductive exponent_value :: "string \<Rightarrow> int \<Rightarrow> bool" where
  exponent_none: "exponent_value [] 0"
| exponent_plus: "all_digits xs \<Longrightarrow> xs \<noteq> [] \<Longrightarrow> exponent_value (''e+'' @ xs) (int (digits_value xs))"
| exponent_minus: "all_digits xs \<Longrightarrow> xs \<noteq> [] \<Longrightarrow> exponent_value (''e-'' @ xs) (- int (digits_value xs))"

lemma exponent_value_text: "exponent_value ex e \<Longrightarrow> exponent_text ex"
proof (erule exponent_value.cases)
  fix xs assume "all_digits xs" "xs \<noteq> []" "ex = ''e+'' @ xs"
  then show ?thesis unfolding exponent_text_def
    by (intro disjI2 exI [of _ "CHR ''e''"] exI [of _ "''+''"] exI [of _ xs]) simp
next
  fix xs assume "all_digits xs" "xs \<noteq> []" "ex = ''e-'' @ xs"
  then show ?thesis unfolding exponent_text_def
    by (intro disjI2 exI [of _ "CHR ''e''"] exI [of _ "''-''"] exI [of _ xs]) simp
qed (simp add: exponent_text_def)

lemma strtod_parts:
  assumes "sg \<in> {[], ''-''}" and "all_digits ds" and "ds \<noteq> []" and "all_digits fs"
    and "fr = (if fs = [] then [] else CHR ''.'' # fs)" and "exponent_value ex e"
  shows "strtod (sg @ ds @ fr @ ex) =
    of_nat (decimal_bits (digits_value (ds @ fs)) (e - int (length fs)) + (if sg = ''-'' then 2 ^ 63 else 0))"
proof -
  define t where "t = ds @ fr @ ex"
  have ex: "ex = [] \<or> hd ex = CHR ''e''" using assms(6) by cases simp_all
  obtain c ds' where c: "ds = c # ds'" "is_digit c" using assms(2,3) by (cases ds) auto
  have rest: "fr @ ex = [] \<or> \<not> is_digit (hd (fr @ ex))"
    using assms(5) ex by (auto simp: is_digit_def less_eq_char_def)
  note whole = digit_prefix [OF assms(2) rest, folded t_def]
  have frac: "(if take 1 (fr @ ex) = ''.'' then takeWhile is_digit (drop 1 (fr @ ex)) else []) = fs"
    "(if take 1 (fr @ ex) = ''.'' then dropWhile is_digit (drop 1 (fr @ ex)) else fr @ ex) = ex"
    using digit_prefix [OF assms(4), of ex] ex assms(5) by (cases ex; auto simp: is_digit_def less_eq_char_def)+
  have expo: "(case ex of [] \<Rightarrow> 0 | _ # u \<Rightarrow>
      if take 1 u = ''-'' then - int (digits_value (takeWhile is_digit (drop 1 u)))
      else int (digits_value (takeWhile is_digit (if take 1 u = ''+'' then drop 1 u else u)))) = e"
    using assms(6) by cases (simp_all add: all_digits_def list_all_iff takeWhile_eq_all_conv [THEN iffD2])
  have neg: "take 1 (sg @ t) = ''-'' \<longleftrightarrow> sg = ''-''" "(if sg = ''-'' then drop 1 (sg @ t) else sg @ t) = t"
    using assms(1) c sign_digits [OF c(2)] by (auto simp: t_def)
  show ?thesis
    unfolding strtod_def t_def [symmetric] append_assoc Let_def neg whole frac expo decimal_bits_def ..
qed

subsection \<open>The layout\<close>

lemma all_digits_zeros [simp]: "all_digits (replicate n (CHR ''0''))"
  by (simp add: all_digits_def list_all_iff is_digit_def)

lemma digits_value_zeros [simp]: "digits_value (replicate n (CHR ''0'')) = 0"
  by (induction n) (simp_all add: replicate_append_same [symmetric] digits_value_snoc digit_value_def,
      simp add: digits_value_def)

lemma digit_value_le: "is_digit c \<Longrightarrow> digit_value c \<le> 9"
  by (auto simp: is_digit_def digit_value_def less_eq_char_def)

lemma digit_value_pos: "is_digit c \<Longrightarrow> c \<noteq> CHR ''0'' \<Longrightarrow> 1 \<le> digit_value c"
  using of_char_eq_iff [of c "CHR ''0''", where ?'a = nat]
  by (auto simp: is_digit_def digit_value_def less_eq_char_def)

lemma digits_value_upper: "all_digits ds \<Longrightarrow> digits_value ds < 10 ^ length ds"
proof (induction ds rule: rev_induct)
  case Nil
  then show ?case by (simp add: digits_value_def)
next
  case (snoc c ds)
  then have "digit_value c \<le> 9" by (simp add: digit_value_le)
  with snoc show ?case by (simp add: digits_value_snoc)
qed

lemma digits_value_lower:
  assumes "all_digits ds" and "ds \<noteq> []" and "hd ds \<noteq> CHR ''0''"
  shows "10 ^ (length ds - 1) \<le> digits_value ds"
proof -
  obtain c u where ds: "ds = c # u" using assms(2) by (cases ds) simp_all
  have "1 \<le> digit_value c" using assms ds by (intro digit_value_pos) simp_all
  moreover have "digits_value ds = digit_value c * 10 ^ length u + digits_value u"
    using digits_value_append [of "[c]" u] by (simp add: ds digits_value_def)
  ultimately show ?thesis using ds by (simp add: trans_le_add1)
qed

lemma append_exponent_value:
  assumes "\<bar>e\<bar> < 1000"
  obtains ex where "\<And>buf. append_exponent (buf @ ''e'') e = buf @ ex" "exponent_value ex e" "ex \<noteq> []"
proof -
  define k where "k = nat \<bar>e\<bar>"
  define xs where "xs = (if k < 10 then [CHR ''0'', digit_char k]
    else if k < 100 then [digit_char (k div 10), digit_char (k mod 10)]
    else [digit_char (k div 100), digit_char (k mod 100 div 10), digit_char (k mod 100 mod 10)])"
  have k: "k < 1000" using assms by (simp add: k_def)
  have zero: "is_digit (CHR ''0'')" "digit_value (CHR ''0'') = 0" by (simp_all add: is_digit_def digit_value_def)
  have split: "k = k div 100 * 100 + (k mod 100 div 10 * 10 + k mod 100 mod 10)"
    by (simp only: div_mult_mod_eq)
  have xs: "all_digits xs" "xs \<noteq> []" "digits_value xs = k"
    using k split by (auto simp: xs_def digits_value_def digit_char_facts zero)
  show ?thesis
  proof (cases "e < 0")
    case True
    then have "e = - int k" by (simp add: k_def)
    with exponent_minus [OF xs(1,2)] xs(3) have "exponent_value (''e-'' @ xs) e" by simp
    moreover from True have "\<And>buf. append_exponent (buf @ ''e'') e = buf @ ''e-'' @ xs"
      by (simp add: append_exponent_def Let_def k_def xs_def)
    ultimately show ?thesis using that by simp
  next
    case False
    then have "e = int k" by (simp add: k_def)
    with exponent_plus [OF xs(1,2)] xs(3) have "exponent_value (''e+'' @ xs) e" by simp
    moreover from False have "\<And>buf. append_exponent (buf @ ''e'') e = buf @ ''e+'' @ xs"
      by (simp add: append_exponent_def Let_def k_def xs_def)
    ultimately show ?thesis using that by simp
  qed
qed

text \<open>The parts of the text \<open>format_buffer\<close> makes, and their value.\<close>

lemma format_buffer_parts:
  assumes "all_digits buf" and "buf \<noteq> []" and "hd buf \<noteq> CHR ''0''"
    and "\<bar>int (length buf) + dexp - 1\<bar> < 1000"
  obtains ds fs fr ex e where "format_buffer buf dexp (- 4) 15 = ds @ fr @ ex" "whole_text ds" "all_digits ds"
    "all_digits fs" "fr = (if fs = [] then [] else CHR ''.'' # fs)" "exponent_value ex e" "fr @ ex \<noteq> []"
    "real (digits_value (ds @ fs)) * 10 powi (e - int (length fs)) = real (digits_value buf) * 10 powi dexp"
proof -
  define k n where "k = int (length buf)" and "n = k + dexp"
  have k1: "1 \<le> k" using assms(2) by (cases buf) (simp_all add: k_def)
  obtain ex where ex: "\<And>b. append_exponent (b @ ''e'') (n - 1) = b @ ex" "exponent_value ex (n - 1)" "ex \<noteq> []"
    using append_exponent_value [of "n - 1"] assms(4) unfolding n_def k_def by metis
  have layout: "format_buffer buf dexp (- 4) 15 =
      (if k \<le> n \<and> n \<le> 15 then buf @ replicate (nat (n - k)) (CHR ''0'') @ ''.0''
       else if 0 < n \<and> n \<le> 15 then take (nat n) buf @ ''.'' @ drop (nat n) buf
       else if - 4 < n \<and> n \<le> 0 then ''0.'' @ replicate (nat (- n)) (CHR ''0'') @ buf
       else append_exponent ((if k = 1 then buf else take 1 buf @ ''.'' @ drop 1 buf) @ ''e'') (n - 1))"
    by (simp only: format_buffer_def Let_def k_def n_def)
  consider (zeros) "k \<le> n" "n \<le> 15" | (point) "0 < n" "n < k" "n \<le> 15" | (small) "- 4 < n" "n \<le> 0"
    | (expo) "\<not> (k \<le> n \<and> n \<le> 15)" "\<not> (0 < n \<and> n \<le> 15)" "\<not> (- 4 < n \<and> n \<le> 0)" by linarith
  then show ?thesis
  proof cases
    case zeros
    let ?z = "replicate (nat (n - k)) (CHR ''0'')"
    have "format_buffer buf dexp (- 4) 15 = (buf @ ?z) @ (CHR ''.'' # ''0'') @ []"
      unfolding layout using zeros by simp
    moreover have "whole_text (buf @ ?z)" using assms(1-3) by (simp add: whole_text_def)
    moreover have "real (digits_value ((buf @ ?z) @ ''0'')) * 10 powi (0 - int (length ''0'')) =
        real (digits_value buf) * 10 powi dexp"
    proof -
      have "nat (n - k) = nat dexp" "0 \<le> dexp" using zeros by (simp_all add: n_def)
      then show ?thesis using digits_value_zeros [of 1]
        by (simp add: digits_value_append power_int_def power_int_minus) 
    qed
    ultimately show ?thesis using assms(1) exponent_none
      by (intro that [of "buf @ ?z" "CHR ''.'' # ''0''" "[]" "''0''" 0]) (simp_all add: is_digit_def)
  next
    case point
    have len: "0 < nat n" "nat n < length buf" "dexp = 0 - int (length buf - nat n)" using point by (auto simp: n_def k_def)
    have "format_buffer buf dexp (- 4) 15 = take (nat n) buf @ (CHR ''.'' # drop (nat n) buf) @ []"
      unfolding layout using point by simp
    moreover have "all_digits (take (nat n) buf)" "all_digits (drop (nat n) buf)"
      using assms(1) append_take_drop_id [of "nat n" buf] by (metis all_digits_simps(3))+
    moreover have "whole_text (take (nat n) buf)" using calculation(2) assms(2,3) len by (simp add: whole_text_def)
    ultimately show ?thesis using len exponent_none
      by (intro that [of "take (nat n) buf" "CHR ''.'' # drop (nat n) buf" "[]" "drop (nat n) buf" 0]) simp_all
  next
    case small
    let ?z = "replicate (nat (- n)) (CHR ''0'')"
    have "format_buffer buf dexp (- 4) 15 = ''0'' @ (CHR ''.'' # ?z @ buf) @ []"
      unfolding layout using small k1 by simp
    moreover have "digits_value (replicate (Suc (nat (- n))) (CHR ''0'') @ buf) = digits_value buf"
      by (simp only: digits_value_append digits_value_zeros mult_0 add_0)
    then have "digits_value (''0'' @ ?z @ buf) = digits_value buf" by simp
    moreover have "0 - int (length (?z @ buf)) = dexp" using small by (simp add: n_def k_def)
    ultimately show ?thesis using assms(1,2) exponent_none
      by (intro that [of "''0''" "CHR ''.'' # ?z @ buf" "[]" "?z @ buf" 0]) (simp_all add: whole_text_def is_digit_def)
  next
    case expo
    have whole: "whole_text (take 1 buf)" "all_digits (take 1 buf)" "all_digits (drop 1 buf)"
      using assms(1-3) by (cases buf; simp add: whole_text_def)+
    have "format_buffer buf dexp (- 4) 15 =
        append_exponent ((if k = 1 then buf else take 1 buf @ ''.'' @ drop 1 buf) @ ''e'') (n - 1)"
      unfolding layout using expo by (simp only: if_False)
    also have "\<dots> = (if k = 1 then buf else take 1 buf @ ''.'' @ drop 1 buf) @ ex" by (rule ex(1))
    also have "\<dots> = take 1 buf @ (if drop 1 buf = [] then [] else CHR ''.'' # drop 1 buf) @ ex"
      using k1 by (simp add: k_def)
    finally have "format_buffer buf dexp (- 4) 15 =
        take 1 buf @ (if drop 1 buf = [] then [] else CHR ''.'' # drop 1 buf) @ ex" .
    moreover have "n - 1 - int (length (drop 1 buf)) = dexp" using k1 by (simp add: n_def k_def)
    ultimately show ?thesis using whole ex(2,3)
      by (intro that [of "take 1 buf" _ ex "drop 1 buf" "n - 1"]) (simp_all del: drop_Suc One_nat_def)
  qed
qed

subsection \<open>Doubles\<close>

text \<open>Printed doubles have fewer than a thousand digits before and after the point.\<close>

lemma power_8_10: "(8 :: real) ^ n \<le> 10 ^ n"
  by (intro power_mono) simp_all

lemma printed_exponent:
  assumes "0 < n" and "n < 2047 * 2 ^ 52" and "all_digits buf" and "buf \<noteq> []" and "hd buf \<noteq> CHR ''0''"
    and "half_below n < real (digits_value buf) * 10 powi dexp" and "real (digits_value buf) * 10 powi dexp < half_above n"
  shows "\<bar>int (length buf) + dexp - 1\<bar> < 1000"
proof -
  define V where "V = real (digits_value buf) * 10 powi dexp"
  note m = double_m_bounds [OF assms(1)]
  have len: "int (length buf - 1) = int (length buf) - 1" using assms(4) by (cases buf) simp_all
  have "n div 2 ^ 52 \<le> 2046" using assms(2) by (simp add: div_less_iff_less_mult less_Suc_eq_le [symmetric])
  then have x: "- 1074 \<le> double_x n" "double_x n \<le> 971" by (auto simp: double_x_def)
  have "half_above n \<le> 2 ^ 54 * 2 powi 970"
    unfolding half_above_def using m(2) x(2) by (intro mult_mono powi_le) simp_all
  also have "\<dots> \<le> (2 :: real) ^ 1026" by (simp add: power_int_def power_add [symmetric])
  also have "\<dots> = 8 ^ 342" by (simp add: power_mult [of 2 3, symmetric, simplified])
  also have "\<dots> \<le> 10 ^ 342" by (rule power_8_10)
  finally have high: "V < 10 powi 342" using assms(7) by (simp add: V_def power_int_def)
  have "10 powi (int (length buf) - 1 + dexp) \<le> real (10 ^ (length buf - 1)) * 10 powi dexp"
    unfolding len [symmetric] by (simp add: power_int_add del: of_nat_diff)
  also have "\<dots> \<le> V" unfolding V_def using digits_value_lower [OF assms(3-5)] by (intro mult_right_mono of_nat_mono) simp_all
  finally have "10 powi (int (length buf) - 1 + dexp) < (10 :: real) powi 342" using high by linarith
  moreover have "(10 :: real) powi 342 \<le> 10 powi (int (length buf) - 1 + dexp)" if "342 \<le> int (length buf) - 1 + dexp"
    using that by (intro power_int_increasing) simp_all
  ultimately have upper: "int (length buf) - 1 + dexp < 342" by linarith
  have "1 * 2 powi (- 1075) \<le> real (2 * double_m n - 1) * 2 powi (double_x n - 1)"
    using m(1) x(1) by (intro mult_mono powi_le) simp_all
  with half_below_le [of n] assms(6) have low: "2 powi (- 1075) < V" unfolding V_def by linarith
  have "V < real (10 ^ length buf) * 10 powi dexp"
    unfolding V_def using digits_value_upper [OF assms(3)] by (intro mult_strict_right_mono) (simp_all only: of_nat_less_iff, simp)
  also have "\<dots> = 10 powi (int (length buf) + dexp)" by (simp add: power_int_add)
  finally have V: "V < 10 powi (int (length buf) + dexp)" .
  have "\<not> int (length buf) + dexp \<le> - 400"
  proof
    assume "int (length buf) + dexp \<le> - 400"
    then have "(10 :: real) powi (int (length buf) + dexp) \<le> 10 powi (- 400)" by (intro power_int_increasing) simp_all
    also have "\<dots> = inverse (10 ^ 400)" by (simp only: power_int_minus power_int_numeral)
    also have "\<dots> \<le> inverse (8 ^ 400)" using power_8_10 [of 400] by (intro le_imp_inverse_le) simp_all
    also have "\<dots> = inverse (2 ^ 1200)" by simp
    also have "\<dots> \<le> inverse (2 ^ 1075)" by (intro le_imp_inverse_le power_increasing) simp_all
    also have "\<dots> = 2 powi (- 1075)" by (simp only: power_int_minus power_int_numeral)
    finally show False using V low by linarith
  qed
  with upper show ?thesis by linarith
qed

lemma unat_split_sign:
  fixes d :: "64 word"
  shows "unat d = unat (d AND (push_bit 63 1 - 1)) + (if bit d 63 then 2 ^ 63 else 0)"
proof -
  have "unat d div 2 ^ 63 < 2" using unat_less_64 [of d] by (simp add: div_less_iff_less_mult)
  moreover have "bit d 63 \<longleftrightarrow> bit (unat d) 63" by (simp add: bit_unsigned_iff)
  then have "bit d 63 \<longleftrightarrow> odd (unat d div 2 ^ 63)" by (simp only: bit_iff_odd)
  ultimately have "unat d div 2 ^ 63 = (if bit d 63 then 1 else 0)" by (auto simp: less_2_cases_iff)
  moreover have "unat d = unat d div 2 ^ 63 * 2 ^ 63 + unat (d AND (push_bit 63 1 - 1))"
    unfolding unat_mask_64 by (simp only: div_mult_mod_eq)
  ultimately show ?thesis by (cases "bit d 63") (simp_all only: if_True if_False mult_0 mult_1 add_0 add_0_right add.commute)
qed

lemma finite_magnitude:
  assumes "is_finite d"
  shows "unat (d AND (push_bit 63 1 - 1)) < 2047 * 2 ^ 52"
proof -
  define n where "n = unat d"
  define N where "N = n mod 2 ^ 63"
  have "drop_bit 52 (take_bit 63 n) = take_bit 11 (drop_bit 52 n)" by (simp add: drop_bit_take_bit)
  then have "N div 2 ^ 52 = n div 2 ^ 52 mod 2 ^ 11" by (simp only: drop_bit_eq_div take_bit_eq_mod N_def)
  moreover have "n div 2 ^ 52 mod 2 ^ 11 \<noteq> 2 ^ 11 - 1"
    using assms by (auto simp: is_finite_def fp_decode_def Let_def n_def split: if_splits)
  moreover have "n div 2 ^ 52 mod 2 ^ 11 < 2 ^ 11" by (rule mod_less_divisor) simp
  ultimately have "N div 2 ^ 52 < 2047" by simp
  then have "N < 2047 * 2 ^ 52" by (simp add: div_less_iff_less_mult)
  then show ?thesis by (simp only: unat_mask_64 N_def n_def)
qed

text \<open>What \<open>dump_float\<close> writes for a finite double is a number that stands for it.\<close>

lemma dump_float_finite:
  assumes "is_finite d"
  obtains t where "dump_float d = Inr t" "number_text (JFloat d) t" "strtod t = d"
proof -
  define v where "v = d AND (push_bit 63 1 - 1)"
  define sg where "sg = (if bit d 63 then ''-'' else [])"
  have sg: "sg \<in> {[], ''-''}" by (simp add: sg_def)
  have d: "of_nat (unat v + (if sg = ''-'' then 2 ^ 63 else 0)) = d"
  proof -
    have "unat v + (if sg = ''-'' then 2 ^ 63 else 0) = unat d"
      using unat_split_sign [of d, folded v_def] by (simp add: sg_def)
    then show ?thesis by (simp only: of_nat_unat ucast_id)
  qed
  have layout: "dtoa_to_chars d = (if v = 0 then Some (sg @ ''0.0'')
      else Option.bind (grisu2 v) (\<lambda>(buf, dexp). Some (sg @ format_buffer buf dexp (- 4) 15)))"
    by (simp only: dtoa_to_chars_def Let_def v_def sg_def)
  obtain ds fs fr ex e where parts: "dtoa_to_chars d = Some (sg @ ds @ fr @ ex)" "whole_text ds" "all_digits ds"
    "all_digits fs" "fr = (if fs = [] then [] else CHR ''.'' # fs)" "exponent_value ex e" "fr @ ex \<noteq> []"
    "decimal_bits (digits_value (ds @ fs)) (e - int (length fs)) = unat v"
  proof (cases "v = 0")
    case True
    have "decimal_bits (digits_value (''0'' @ ''0'')) (0 - int (length ''0'')) = 0" by code_simp
    with True exponent_none show ?thesis
      by (intro that [of "''0''" "''.0''" "[]" "''0''" 0])
        (simp_all add: layout whole_text_def is_digit_def)
  next
    case False
    then have v: "0 < unat v" "unat v < 2047 * 2 ^ 52"
      using finite_magnitude [OF assms] by (auto simp: v_def unat_eq_zero intro!: gr0I)
    obtain buf dexp where grisu: "grisu2 v = Some (buf, dexp)" "list_all is_digit buf" "buf \<noteq> []" "hd buf \<noteq> CHR ''0''"
      "half_below (unat v) < real (digits_value buf) * 10 powi dexp"
      "real (digits_value buf) * 10 powi dexp < half_above (unat v)" by (rule grisu2_interval [OF v])
    have buf: "all_digits buf" using grisu(2) by (simp add: all_digits_def)
    obtain ds fs fr ex e where format: "format_buffer buf dexp (- 4) 15 = ds @ fr @ ex" "whole_text ds" "all_digits ds"
      "all_digits fs" "fr = (if fs = [] then [] else CHR ''.'' # fs)" "exponent_value ex e" "fr @ ex \<noteq> []"
      "real (digits_value (ds @ fs)) * 10 powi (e - int (length fs)) = real (digits_value buf) * 10 powi dexp"
      by (rule format_buffer_parts [OF buf grisu(3,4) printed_exponent [OF v buf grisu(3-6)]])
    have "decimal_bits (digits_value (ds @ fs)) (e - int (length fs)) = unat v"
      using grisu(5,6) unfolding format(8) [symmetric] by (rule decimal_bits_nearest [OF v])
    moreover have "dtoa_to_chars d = Some (sg @ ds @ fr @ ex)"
      using False grisu(1) format(1) by (simp add: layout)
    ultimately show ?thesis using that format(2-7) by blast
  qed
  let ?t = "sg @ ds @ fr @ ex"
  have strtod: "strtod ?t = d"
    using strtod_parts [OF sg parts(3) _ parts(4-6)] parts(2,8) d by (auto simp: whole_text_def)
  have "number_parts sg ds fr ex"
    using sg parts exponent_value_text by (auto simp: number_parts_def fraction_text_def)
  moreover have "number_json (fr @ ex = []) ?t = JFloat d"
    using parts(7) strtod by (simp add: number_json_def)
  ultimately have "number_text (JFloat d) ?t"
    using number_text.intros [of sg ds fr ex ?t "JFloat d"] assms by (simp add: finite_number_def)
  moreover have "dump_float d = Inr ?t"
    using assms parts(1) by (simp add: dump_float_def is_finite_def split: fp.splits)
  ultimately show ?thesis using that strtod by blast
qed

lemma dump_float_text: "dump_float d = Inr t \<Longrightarrow> json_text (reread (JFloat d)) t"
proof (cases "is_finite d")
  case True
  then obtain u where "dump_float d = Inr u" "number_text (JFloat d) u" by (rule dump_float_finite)
  then show "dump_float d = Inr t \<Longrightarrow> ?thesis" using True by (simp add: text_number)
next
  case False
  then have "dump_float d = Inr ''null''" by (simp add: dump_float_def is_finite_def split: fp.splits)
  then show "dump_float d = Inr t \<Longrightarrow> ?thesis" using False text_null by simp
qed

end
