(* ===== verification/Json_Text.thy ===== *)
theory Json_Text
  imports Json_Grammar
begin

section \<open>What is printed is read\<close>

text \<open>
  The lexer and the parser on the text the serialiser writes: a string, a number and a literal are read
  back as one token, a value as itself.
\<close>

subsection \<open>Reading characters\<close>

definition lex_at :: "lexer \<Rightarrow> string \<Rightarrow> bool" where
  "lex_at l s \<longleftrightarrow> lex_ok l \<and> lex_rest l = s"

text \<open>The lexer has read on to \<open>s\<close> and added \<open>b\<close> to its token buffer.\<close>

definition read_to :: "lexer \<Rightarrow> string \<Rightarrow> string \<Rightarrow> lexer \<Rightarrow> bool" where
  "read_to l b s l' \<longleftrightarrow> lex_at l' s \<and> lx_token_buffer l' = lx_token_buffer l @ b"

declare lex_get_fields(1,2) [simp del]

lemma lex_at_get:
  assumes "lex_at l (c # s)"
  shows "lx_current (lex_get l) = Some c" "lex_at (lex_get l) s"
  using assms lex_get_current [of l c s] lex_get_rest [of l] by (simp_all add: lex_at_def)

lemma lex_at_get_end: "lex_at l [] \<Longrightarrow> lx_current (lex_get l) = None \<and> lex_at (lex_get l) []"
  using lex_get_None [of l] lex_get_rest [of l] by (simp add: lex_at_def)

lemma lex_at_fields [simp]:
  "lex_at (lex_add c l) s = lex_at l s" "lx_token_buffer (lex_add c l) = lx_token_buffer l @ [c]"
  "lx_current (lex_add c l) = lx_current l"
  "lex_at (lex_reset l) s = lex_at l s" "lx_token_buffer (lex_reset l) = []"
  "lx_current (lex_reset l) = lx_current l"
  by (simp_all add: lex_at_def lex_add_def lex_reset_def lex_ok_def lex_rest_def split: option.split)

lemma add_current_Some: "lx_current l = Some c \<Longrightarrow> add_current l = lex_add c l"
  by (simp add: add_current_def)

lemma read_to_trans: "read_to l b s l1 \<Longrightarrow> read_to l1 b' s' l2 \<Longrightarrow> read_to l (b @ b') s' l2"
  by (simp add: read_to_def)

lemma read_to_get: "lex_at l (c # s) \<Longrightarrow> read_to l [] s (lex_get l)"
  by (simp add: read_to_def lex_at_get)

lemma read_to_add: "lex_at l (c # s) \<Longrightarrow> read_to l [x] s (lex_add x (lex_get l))"
  by (simp add: read_to_def lex_at_get)

lemma read_to_at: "read_to l b s l' \<Longrightarrow> lex_at l' s"
  by (simp add: read_to_def)

subsection \<open>Strings\<close>

lemma hex_value_bound: "hex_value c = Some d \<Longrightarrow> d < 16"
  by (auto simp: hex_value_def less_eq_char_def split: if_splits)

lemma hex4_bound: "hex4 h n \<Longrightarrow> n < 0x10000"
proof -
  assume "hex4 h n"
  then obtain a b c d where n: "n = a * 4096 + b * 256 + c * 16 + d"
    "map hex_value h = [Some a, Some b, Some c, Some d]" by (auto simp: hex4_def)
  then have "a < 16" "b < 16" "c < 16" "d < 16" by (auto dest: hex_value_bound)
  with n(1) show ?thesis by simp
qed

lemma codepoint_digits_read:
  assumes "lex_at l (hs @ s)" and "map hex_value hs = map Some ds" and "length fs = length ds"
  shows "\<exists>l'. codepoint_digits fs cp l =
      (cp + sum_list (map2 (\<lambda>d f. int d * 2 ^ f) ds fs), l') \<and> read_to l [] s l'"
  using assms
proof (induction ds arbitrary: hs fs cp l)
  case Nil
  then show ?case by (simp add: read_to_def)
next
  case (Cons d ds)
  then obtain h hs' f fs' where hs: "hs = h # hs'" "hex_value h = Some d" "map hex_value hs' = map Some ds"
    and fs: "fs = f # fs'" by (cases fs) auto
  from Cons.prems(1) hs have get: "lx_current (lex_get l) = Some h" "lex_at (lex_get l) (hs' @ s)"
    using lex_at_get [of l h] by simp_all
  from Cons.IH [OF get(2) hs(3), of fs' "cp + int d * 2 ^ f"] Cons.prems fs obtain l' where
    "codepoint_digits fs' (cp + int d * 2 ^ f) (lex_get l) =
      (cp + int d * 2 ^ f + sum_list (map2 (\<lambda>d f. int d * 2 ^ f) ds fs'), l')"
    "read_to (lex_get l) [] s l'" by auto
  then show ?case by (auto simp: fs hs get Let_def read_to_def)
qed

lemma get_codepoint_read:
  assumes "lex_at l (h @ s)" and "hex4 h n"
  shows "\<exists>l'. get_codepoint l = (int n, l') \<and> read_to l [] s l'"
proof -
  from assms(2) obtain a b c d where n: "n = a * 4096 + b * 256 + c * 16 + d"
    "map hex_value h = map Some [a, b, c, d]" by (auto simp: hex4_def)
  have "\<exists>l'. codepoint_digits [12, 8, 4, 0] 0 l =
      (0 + sum_list (map2 (\<lambda>d f. int d * 2 ^ f) [a, b, c, d] [12, 8, 4, 0]), l') \<and> read_to l [] s l'"
    by (rule codepoint_digits_read [OF assms(1) n(2)]) simp
  moreover have "0 + sum_list (map2 (\<lambda>d f. int d * 2 ^ f) [a, b, c, d] [12, 8, 4, 0]) = int n"
    by (simp add: n(1))
  ultimately show ?thesis unfolding get_codepoint_def by (simp only:)
qed

lemma add_all_read: "lex_at l s \<Longrightarrow> read_to l cs s (foldl (\<lambda>l c. lex_add c l) l cs)"
  by (induction cs arbitrary: l) (auto simp: read_to_def)

lemma add_codepoint_read: "lex_at l s \<Longrightarrow> read_to l (codepoint_bytes n) s (add_codepoint (int n) l)"
  by (simp add: add_codepoint_def add_all_read)

lemma scan_unicode_read:
  assumes "lex_at l (h @ s)" and "hex4 h n" and "\<not> high_surrogate n" and "\<not> low_surrogate n"
  shows "\<exists>l'. scan_unicode l = (True, l') \<and> read_to l (codepoint_bytes n) s l'"
proof -
  from get_codepoint_read [OF assms(1,2)] obtain l1 where
    l1: "get_codepoint l = (int n, l1)" "read_to l [] s l1" by blast
  then have "scan_unicode l = (True, add_codepoint (int n) l1)"
    using assms(3,4) by (auto simp: scan_unicode_def high_surrogate_def low_surrogate_def)
  with add_codepoint_read [OF read_to_at [OF l1(2)], of n] l1(2) show ?thesis
    by (auto simp: read_to_def)
qed

lemma scan_unicode_pair_read:
  assumes "lex_at l (h @ backslash # CHR ''u'' # h' @ s)" and "hex4 h n" and "high_surrogate n"
    and "hex4 h' n'" and "low_surrogate n'"
  shows "\<exists>l'. scan_unicode l = (True, l') \<and>
    read_to l (codepoint_bytes (0x10000 + (n - 0xD800) * 1024 + (n' - 0xDC00))) s l'"
proof -
  from get_codepoint_read [OF assms(1,2)] obtain l1 where
    l1: "get_codepoint l = (int n, l1)" "read_to l [] (backslash # CHR ''u'' # h' @ s) l1" by blast
  note slash = lex_at_get [OF read_to_at [OF l1(2)]]
  note u = lex_at_get [OF slash(2)]
  from get_codepoint_read [OF u(2) assms(4)] obtain l2 where
    l2: "get_codepoint (lex_get (lex_get l1)) = (int n', l2)" "read_to (lex_get (lex_get l1)) [] s l2"
    by blast
  let ?cp = "0x10000 + (n - 0xD800) * 1024 + (n' - 0xDC00)"
  have cp: "int n * 1024 + int n' - 0x35FDC00 = int ?cp"
    using assms(3,5) by (simp add: high_surrogate_def low_surrogate_def)
  have "scan_unicode l = (True, add_codepoint (int ?cp) l2)"
    unfolding cp [symmetric] using l1(1) l2(1) slash(1) u(1) assms(3,5)
    by (simp add: scan_unicode_def high_surrogate_def low_surrogate_def)
  with add_codepoint_read [OF read_to_at [OF l2(2)], of ?cp] l1(2) l2(2) show ?thesis
    by (auto simp: read_to_def)
qed

lemma string_ranges_tails:
  "(0x80 :: nat) \<le> b \<Longrightarrow> string_byte_ranges b = utf8_tails b"
  by (auto simp: string_byte_ranges_def utf8_tails_def)

lemma bytes_in_ranges_read:
  assumes "lex_at l (t @ s)" and "list_all2 byte_in rs t"
  shows "\<exists>l'. bytes_in_ranges rs l = (True, l') \<and> read_to l t s l'"
  using assms
proof (induction rs arbitrary: l t)
  case Nil
  then show ?case by (simp add: read_to_def)
next
  case (Cons r rs)
  then obtain c t' where t: "t = c # t'" "byte_in r c" "list_all2 byte_in rs t'"
    by (auto simp: list_all2_Cons1)
  from Cons.prems(1) t have get: "lx_current (lex_get l) = Some c" "lex_at (lex_get l) (t' @ s)"
    using lex_at_get [of l c "t' @ s"] by simp_all
  from Cons.IH [of "lex_add c (lex_get l)" t'] get(2) t(3) obtain l' where
    "bytes_in_ranges rs (lex_add c (lex_get l)) = (True, l')" "read_to (lex_add c (lex_get l)) t' s l'"
    by auto
  with t get(1) show ?case by (auto simp: Let_def read_to_def)
qed

lemma scan_escape_simple:
  assumes "lex_at l (x # s)" and "simple_escape x = Some c"
  shows "scan_escape l = (True, lex_add c (lex_get l))"
  using assms(2) lex_at_get(1) [OF assms(1)]
  by (auto simp: simple_escape_def scan_escape_def backslash_def Let_def split: if_splits)

lemma scan_escape_unicode:
  assumes "lex_at l (CHR ''u'' # s)"
  shows "scan_escape l = scan_unicode (lex_get l)"
  using lex_at_get(1) [OF assms] by (simp add: scan_escape_def backslash_def Let_def)

text \<open>After a backslash.\<close>

lemma scan_string_escape:
  assumes "lex_at l (backslash # t)" and "scan_escape (lex_get l) = (True, l')"
  shows "scan_string_loop l = scan_string_loop l'"
  using lex_at_get(1) [OF assms(1)] assms(2) by (simp add: scan_string_loop_char backslash_def)

text \<open>One character of the text.\<close>

lemma scan_string_plain:
  assumes "utf8_char (c # t)" and "(0x20 :: nat) \<le> of_char c" and "c \<noteq> CHR 0x22" and "c \<noteq> backslash"
    and "lex_at l (c # t @ s)"
  shows "\<exists>l'. scan_string_loop l = scan_string_loop l' \<and> read_to l (c # t) s l'"
proof -
  from assms(1) obtain rs where rs: "utf8_tails (of_char c) = Some rs" "list_all2 byte_in rs t"
    by (auto split: option.splits)
  note get = lex_at_get [OF assms(5)]
  show ?thesis
  proof (cases "of_char c < (0x80 :: nat)")
    case True
    with rs have "t = []" by (auto simp: utf8_tails_def)
    with get assms True have "scan_string_loop l = scan_string_loop (lex_add c (lex_get l))"
      by (simp add: scan_string_loop_char add_current_Some)
    with read_to_add [OF assms(5), of c] \<open>t = []\<close> show ?thesis by auto
  next
    case False
    from get(2) have "lex_at (lex_add c (lex_get l)) (t @ s)" by simp
    from bytes_in_ranges_read [OF this rs(2)] obtain l' where
      "bytes_in_ranges rs (lex_add c (lex_get l)) = (True, l')"
      "read_to (lex_add c (lex_get l)) t s l'" by blast
    with get(1) False assms rs show ?thesis
      by (auto simp: scan_string_loop_char string_ranges_tails next_byte_in_range_def
          add_current_Some read_to_def)
  qed
qed

lemma scan_string_char:
  assumes "char_text cs t" and "lex_at l (t @ s)"
  shows "\<exists>l'. scan_string_loop l = scan_string_loop l' \<and> read_to l cs s l'"
  using assms
proof cases
  case (char_plain c u)
  with assms(2) scan_string_plain [of c u l s] show ?thesis by simp
next
  case (char_short x c)
  with assms(2) have at: "lex_at l (backslash # x # s)" by simp
  note get = lex_at_get [OF at]
  from scan_string_escape [OF at scan_escape_simple [OF get(2) char_short(3)]]
    read_to_add [OF get(2), of c]
  show ?thesis using char_short(1) by (auto simp: read_to_def)
next
  case (char_unicode h n)
  with assms(2) have at: "lex_at l (backslash # CHR ''u'' # h @ s)" by simp
  note get = lex_at_get [OF at]
  from scan_unicode_read [OF lex_at_get(2) [OF get(2)] char_unicode(3-5)] obtain l' where
    "scan_escape (lex_get l) = (True, l')" "read_to (lex_get (lex_get l)) cs s l'"
    using scan_escape_unicode [OF get(2)] char_unicode(1) by auto
  with scan_string_escape [OF at] show ?thesis by (auto simp: read_to_def)
next
  case (char_pair h n h' n')
  with assms(2) have at: "lex_at l (backslash # CHR ''u'' # h @ backslash # CHR ''u'' # h' @ s)" by simp
  note get = lex_at_get [OF at]
  from scan_unicode_pair_read [OF lex_at_get(2) [OF get(2)] char_pair(3-6)] obtain l' where
    "scan_escape (lex_get l) = (True, l')" "read_to (lex_get (lex_get l)) cs s l'"
    using scan_escape_unicode [OF get(2)] char_pair(1) by auto
  with scan_string_escape [OF at] show ?thesis by (auto simp: read_to_def)
qed

lemma scan_string_read:
  assumes "string_text x t" and "lex_at l (t @ CHR 0x22 # s)"
  shows "\<exists>l'. scan_string_loop l = (TOK_value_string, l') \<and> read_to l x s l'"
  using assms
proof (induction arbitrary: l rule: string_text.induct)
  case string_text_Nil
  then have at: "lex_at l (CHR 0x22 # s)" by simp
  from lex_at_get(1) [OF at] read_to_get [OF at] show ?case by (simp add: scan_string_loop_char)
next
  case (string_text_Cons cs t x u)
  then have "lex_at l (t @ u @ CHR 0x22 # s)" by simp
  from scan_string_char [OF string_text_Cons(1) this] obtain l1 where
    l1: "scan_string_loop l = scan_string_loop l1" "read_to l cs (u @ CHR 0x22 # s) l1" by blast
  with string_text_Cons.IH [of l1] obtain l' where
    "scan_string_loop l1 = (TOK_value_string, l')" "read_to l1 x s l'" by (auto simp: read_to_def)
  with l1 read_to_trans [OF l1(2)] show ?case by auto
qed

subsection \<open>Tokens\<close>

lemma lex_at_unget_get:
  assumes "lex_at l s"
  shows "lex_at (lex_unget (lex_get l)) s"
  using assms by (cases s)
    (auto simp: lex_at_def lex_rest_def lex_ok_def lex_get_fields split: if_splits option.splits list.splits)

text \<open>The next token starts at the next character that is not white space.\<close>

lemma skip_whitespace_read:
  assumes "lex_at l (w @ c # s)" and "white w" and "\<not> is_whitespace c"
  shows "lx_current (skip_whitespace l) = Some c \<and> lex_at (skip_whitespace l) s"
  using assms(1,2)
proof (induction w arbitrary: l)
  case Nil
  then have at: "lex_at l (c # s)" by simp
  from lex_at_get [OF at] assms(3) show ?case by (subst (1 2) skip_whitespace.simps) (simp add: Let_def)
next
  case (Cons x w)
  then have at: "lex_at l (x # w @ c # s)" by simp
  from lex_at_get [OF at] Cons show ?case by (subst (1 2) skip_whitespace.simps) (simp add: Let_def)
qed

lemma scan_first:
  assumes "lex_at l (w @ c # s)" and "white w" and "\<not> is_whitespace c" and "c \<noteq> CHR 0xEF"
  obtains l1 where "scan l = scan_token l1" "lx_current l1 = Some c" "lex_at l1 s"
proof (cases "chars_read_total (lx_position l) = 0")
  case False
  with skip_whitespace_read [OF assms(1-3)] that [of "skip_whitespace l"] show ?thesis
    by (simp add: scan_def)
next
  case True
  let ?l = "lex_unget (lex_get l)"
  have at: "lex_at ?l (w @ c # s)" using assms(1) by (rule lex_at_unget_get)
  have "lx_current (lex_get l) \<noteq> Some (CHR 0xEF)"
  proof (cases w)
    case Nil
    with assms(1,4) lex_at_get(1) [of l c s] show ?thesis by simp
  next
    case (Cons x w')
    with assms(1,2) lex_at_get(1) [of l x "w' @ c # s"] show ?thesis by (auto simp: is_whitespace_def)
  qed
  then have "skip_bom l = (True, ?l)" by (simp add: skip_bom_def Let_def)
  with True skip_whitespace_read [OF at assms(2,3)] that [of "skip_whitespace ?l"] show ?thesis
    by (simp add: scan_def)
qed

text \<open>Structural characters.\<close>

definition structural :: "char \<Rightarrow> token_type option" where
  "structural = map_of [(CHR ''['', TOK_begin_array), (CHR '']'', TOK_end_array), (CHR ''{'', TOK_begin_object),
     (CHR ''}'', TOK_end_object), (CHR '':'', TOK_name_separator), (CHR '','', TOK_value_separator)]"

lemma scan_structural:
  assumes "lex_at l (w @ c # s)" and "white w" and "structural c = Some t"
  shows "\<exists>l'. scan l = (t, l') \<and> lex_at l' s"
proof -
  from assms(3) have c: "\<not> is_whitespace c" "c \<noteq> CHR 0xEF"
    by (auto simp: structural_def is_whitespace_def split: if_splits)
  obtain l1 where l1: "scan l = scan_token l1" "lx_current l1 = Some c" "lex_at l1 s"
    by (rule scan_first [OF assms(1,2) c])
  have "scan_token l1 = (t, l1)" using assms(3) l1(2)
    by (auto simp: structural_def scan_token_def split: if_splits)
  with l1 show ?thesis by auto
qed

lemma scan_quoted:
  assumes "string_text x t" and "lex_at l (w @ quoted t @ s)" and "white w"
  shows "\<exists>l'. scan l = (TOK_value_string, l') \<and> lex_at l' s \<and> lx_token_buffer l' = x"
proof -
  from assms(2) have "lex_at l (w @ CHR 0x22 # t @ CHR 0x22 # s)" by (simp add: quoted_def)
  then obtain l1 where l1: "scan l = scan_token l1" "lx_current l1 = Some (CHR 0x22)"
    "lex_at l1 (t @ CHR 0x22 # s)"
    by (rule scan_first) (simp_all add: is_whitespace_def assms(3))
  from scan_string_read [OF assms(1), of "lex_reset l1" s] l1(3) obtain l' where
    "scan_string l1 = (TOK_value_string, l')" "read_to (lex_reset l1) x s l'"
    by (auto simp: scan_string_def)
  with l1 show ?thesis by (auto simp: scan_token_def read_to_def)
qed

lemma scan_literal_rest_read:
  "lex_at l (cs @ s) \<Longrightarrow> \<exists>l'. scan_literal_rest cs t l = (t, l') \<and> lex_at l' s"
proof (induction cs arbitrary: l)
  case (Cons c cs)
  then have "lex_at l (c # cs @ s)" by simp
  from lex_at_get [OF this] Cons.IH show ?case by (simp add: Let_def)
qed auto

lemma scan_literal_read:
  assumes "lex_at l (w @ lit @ s)" and "white w" and "(lit, t) \<in> {(''true'', TOK_literal_true), (''false'', TOK_literal_false),
    (''null'', TOK_literal_null)}"
  shows "\<exists>l'. scan l = (t, l') \<and> lex_at l' s"
proof -
  from assms have at: "lex_at l (w @ hd lit # tl lit @ s)" by auto
  then obtain l1 where l1: "scan l = scan_token l1" "lx_current l1 = Some (hd lit)" "lex_at l1 (tl lit @ s)"
    by (rule scan_first) (use assms(2,3) in \<open>auto simp: is_whitespace_def\<close>)
  from scan_literal_rest_read [OF l1(3), of t] l1(1,2) assms(3) show ?thesis
    by (auto simp: scan_token_def scan_literal_def)
qed

subsection \<open>Numbers\<close>

text \<open>What may follow a number without becoming part of it.\<close>

definition number_ends :: "string \<Rightarrow> bool" where
  "number_ends s \<longleftrightarrow> (case s of [] \<Rightarrow> True | c # _ \<Rightarrow> \<not> is_digit c \<and> c \<notin> set ''.eE'')"

text \<open>The machine has read \<open>b\<close> and is done.\<close>

definition number_read :: "lexer \<Rightarrow> string \<Rightarrow> string \<Rightarrow> token_type \<Rightarrow> token_type \<times> lexer \<Rightarrow> bool" where
  "number_read l b s ty r \<longleftrightarrow>
     (\<exists>l'. r = scan_number_done ty l' \<and> lex_at (lex_unget l') s \<and>
       lx_token_buffer l' = lx_token_buffer l @ b)"

lemma number_read_step:
  "number_read (lex_add c (lex_get l)) b s ty r \<Longrightarrow> number_read l (c # b) s ty r"
  by (auto simp: number_read_def)

lemma number_read_end: "lex_at l s \<Longrightarrow> number_read l [] s ty (scan_number_done ty (lex_get l))"
  using lex_at_unget_get [of l s] by (auto simp: number_read_def)

text \<open>Reading the next character, in the form the machine tests it.\<close>

lemma current_tests:
  assumes "lex_at l (c # s)"
  shows "current_digit (lex_get l) = is_digit c" "current_in cs (lex_get l) = (c \<in> set cs)"
    "add_current (lex_get l) = lex_add c (lex_get l)" "lex_at (lex_add c (lex_get l)) s"
  using lex_at_get [OF assms] by (simp_all add: current_digit_def current_in_def add_current_def)

lemma current_tests_end:
  assumes "lex_at l s" and "number_ends s"
  shows "\<not> current_digit (lex_get l)" "set cs \<subseteq> set ''.eE'' \<Longrightarrow> \<not> current_in cs (lex_get l)"
proof -
  have "\<not> current_digit (lex_get l) \<and> (set cs \<subseteq> set ''.eE'' \<longrightarrow> \<not> current_in cs (lex_get l))"
  proof (cases s)
    case Nil
    with assms lex_at_get_end show ?thesis by (simp add: current_digit_def current_in_def)
  next
    case (Cons c s')
    with assms show ?thesis
      using current_tests(1,2) [of l c s'] by (auto simp: number_ends_def)
  qed
  then show "\<not> current_digit (lex_get l)" "set cs \<subseteq> set ''.eE'' \<Longrightarrow> \<not> current_in cs (lex_get l)"
    by simp_all
qed

lemma any2_read:
  assumes "lex_at l (ds @ s)" and "all_digits ds" and "number_ends s"
  shows "number_read l ds s ty (scan_number_any2 ty l)"
  using assms(1,2)
proof (induction ds arbitrary: l)
  case Nil
  then show ?case using number_read_end [of l s ty] current_tests_end(1) [of l s] assms(3)
    by (subst scan_number_any2.simps) (simp add: Let_def)
next
  case (Cons d ds)
  from Cons.prems have at: "lex_at l (d # ds @ s)" and d: "is_digit d" "all_digits ds"
    by (simp_all add: all_digits_def)
  from Cons.IH [OF current_tests(4) [OF at] d(2)] current_tests [OF at] d(1) show ?case
    by (subst scan_number_any2.simps) (simp add: Let_def number_read_step)
qed

lemma exponent_read:
  assumes "lex_at l (sg @ ds @ s)" and "sg \<in> {[], ''+'', ''-''}" and "ds \<noteq> []" and "all_digits ds"
    and "number_ends s"
  shows "number_read l (sg @ ds) s TOK_value_float (scan_number_exponent l)"
proof -
  obtain d ds' where ds: "ds = d # ds'" using assms(3) by (cases ds) auto
  with assms(4) have dig: "is_digit d" "all_digits ds'" by simp_all
  show ?thesis
  proof (cases "sg = []")
    case True
    with assms(1) ds have at: "lex_at l (d # ds' @ s)" by simp
    note d = current_tests [OF at]
    from dig(1) have "d \<notin> set ''+-''" by (auto simp: is_digit_def less_eq_char_def)
    with any2_read [OF d(4) dig(2) assms(5)] d dig(1) show ?thesis
      by (simp add: scan_number_exponent_def Let_def True ds number_read_step)
  next
    case False
    with assms(2) obtain c where c: "sg = [c]" "c \<in> set ''+-''" by auto
    with assms(1) ds have at1: "lex_at l (c # d # ds' @ s)" by simp
    note sg = current_tests [OF at1]
    note d = current_tests [OF sg(4)]
    have "number_read (lex_add c (lex_get l)) ds s TOK_value_float
        (scan_number_sign TOK_value_float (lex_add c (lex_get l)))"
      using any2_read [OF d(4) dig(2) assms(5)] d(1,3) dig(1) ds
      by (simp add: scan_number_sign_def Let_def number_read_step)
    with sg c show ?thesis
      by (simp add: scan_number_exponent_def Let_def number_read_step)
  qed
qed

lemma exponent_not_digit: "e \<in> set ''eE'' \<Longrightarrow> \<not> is_digit e"
  by (auto simp: is_digit_def less_eq_char_def)

lemma decimal2_read:
  assumes "lex_at l (ds @ ex @ s)" and "all_digits ds" and "exponent_text ex" and "number_ends s"
  shows "number_read l (ds @ ex) s TOK_value_float (scan_number_decimal2 l)"
  using assms(1,2)
proof (induction ds arbitrary: l)
  case Nil
  show ?case
  proof (cases "ex = []")
    case True
    with Nil number_read_end [of l s TOK_value_float] current_tests_end [of l s] assms(4)
    show ?thesis by (subst scan_number_decimal2.simps) (simp add: Let_def)
  next
    case False
    with assms(3) obtain e sg es where ex: "ex = e # sg @ es" "e \<in> set ''eE''" "sg \<in> {[], ''+'', ''-''}"
      "es \<noteq> []" "all_digits es" by (auto simp only: exponent_text_def)
    with Nil have at: "lex_at l (e # sg @ es @ s)" by simp
    note e = current_tests [OF at]
    from exponent_read [OF e(4) ex(3-5) assms(4)] e exponent_not_digit [OF ex(2)] ex(2) show ?thesis
      by (subst scan_number_decimal2.simps) (simp add: Let_def ex(1) number_read_step)
  qed
next
  case (Cons d ds)
  from Cons.prems have at: "lex_at l (d # ds @ ex @ s)" and d: "is_digit d" "all_digits ds"
    by simp_all
  from Cons.IH [OF current_tests(4) [OF at] d(2)] current_tests [OF at] d(1) show ?case
    by (subst scan_number_decimal2.simps) (simp add: Let_def number_read_step)
qed

lemma decimal1_read:
  assumes "lex_at l (ds @ ex @ s)" and "ds \<noteq> []" and "all_digits ds" and "exponent_text ex"
    and "number_ends s"
  shows "number_read l (ds @ ex) s TOK_value_float (scan_number_decimal1 l)"
proof -
  obtain d ds' where ds: "ds = d # ds'" using assms(2) by (cases ds) auto
  with assms(1) have at: "lex_at l (d # ds' @ ex @ s)" by simp
  note d = current_tests [OF at]
  from assms(3) ds have dig: "is_digit d" "all_digits ds'" by (simp_all add: all_digits_def)
  from decimal2_read [OF d(4) dig(2) assms(4,5)] d dig(1) show ?thesis
    by (simp add: scan_number_decimal1_def Let_def ds number_read_step)
qed

text \<open>The type of a number: with a fraction or an exponent it is a float.\<close>

definition number_type :: "string \<Rightarrow> string \<Rightarrow> token_type \<Rightarrow> token_type" where
  "number_type fr ex ty = (if fr = [] \<and> ex = [] then ty else TOK_value_float)"

text \<open>After the integral part.\<close>

lemma after_whole:
  assumes "lex_at l (fr @ ex @ s)" and "fraction_text fr" and "exponent_text ex" and "number_ends s"
  shows "number_read l (fr @ ex) s (number_type fr ex ty) (scan_number_zero ty l)"
proof (cases "fr = []")
  case False
  with assms(2) obtain ds where fr: "fr = CHR ''.'' # ds" "ds \<noteq> []" "all_digits ds"
    by (auto simp: fraction_text_def)
  with assms(1) have at: "lex_at l (CHR ''.'' # ds @ ex @ s)" by simp
  note dot = current_tests [OF at]
  from decimal1_read [OF dot(4) fr(2,3) assms(3,4)] dot show ?thesis
    by (simp add: scan_number_zero_def Let_def fr(1) number_read_step number_type_def)
next
  case fr: True
  show ?thesis
  proof (cases "ex = []")
    case True
    with fr assms(1,4) number_read_end [of l s ty] current_tests_end [of l s] show ?thesis
      by (simp add: scan_number_zero_def Let_def number_type_def)
  next
    case False
    with assms(3) obtain e sg es where ex: "ex = e # sg @ es" "e \<in> set ''eE''" "sg \<in> {[], ''+'', ''-''}"
      "es \<noteq> []" "all_digits es" by (auto simp only: exponent_text_def)
    with assms(1) fr have at: "lex_at l (e # sg @ es @ s)" by simp
    note e = current_tests [OF at]
    from exponent_read [OF e(4) ex(3-5) assms(4)] e fr ex(2) show ?thesis
      by (auto simp: scan_number_zero_def Let_def ex(1) number_read_step number_type_def)
  qed
qed

lemma any1_read:
  assumes "lex_at l (ds @ fr @ ex @ s)" and "all_digits ds" and "fraction_text fr"
    and "exponent_text ex" and "number_ends s"
  shows "number_read l (ds @ fr @ ex) s (number_type fr ex ty) (scan_number_any1 ty l)"
  using assms(1,2)
proof (induction ds arbitrary: l)
  case Nil
  have "\<not> current_digit (lex_get l)"
  proof (cases "fr @ ex")
    case Nil
    with current_tests_end(1) [of l s] assms(5) \<open>lex_at l ([] @ fr @ ex @ s)\<close> show ?thesis by simp
  next
    case (Cons c t)
    with assms(3,4) have "c = CHR ''.'' \<or> c \<in> set ''eE''"
      by (auto simp: fraction_text_def exponent_text_def Cons_eq_append_conv)
    moreover have "\<not> is_digit (CHR ''.'')" by code_simp
    ultimately have "\<not> is_digit c" using exponent_not_digit by blast
    with Cons current_tests(1) [of l c "t @ s"] \<open>lex_at l ([] @ fr @ ex @ s)\<close> show ?thesis
      by (metis append.assoc append_Cons append_Nil)
  qed
  then have "scan_number_any1 ty l = scan_number_zero ty l"
    by (subst scan_number_any1.simps) (simp add: Let_def scan_number_zero_def)
  with after_whole [OF _ assms(3-5), of l ty] Nil(1) show ?case by simp
next
  case (Cons d ds)
  from Cons.prems have at: "lex_at l (d # ds @ fr @ ex @ s)" and d: "is_digit d" "all_digits ds"
    by (simp_all add: all_digits_def)
  from Cons.IH [OF current_tests(4) [OF at] d(2)] current_tests [OF at] d(1) show ?case
    by (subst scan_number_any1.simps) (simp add: Let_def number_read_step)
qed

text \<open>\<open>go\<close> is the branch taken on the first digit, in \<open>scan_number\<close> and \<open>scan_number_minus\<close>.\<close>

lemma whole_read:
  assumes "lx_current l = Some c" and "lex_at l (ds @ fr @ ex @ s)" and "whole_text (c # ds)"
    and "fraction_text fr" and "exponent_text ex" and "number_ends s"
  shows "number_read l (c # ds @ fr @ ex) s (number_type fr ex ty)
    (if c = CHR ''0'' then scan_number_zero ty (lex_add c l) else scan_number_any1 ty (lex_add c l))"
proof (cases "c = CHR ''0''")
  case True
  with assms(3) have ds: "ds = []" by (auto simp: whole_text_def)
  with assms(2) have at: "lex_at (lex_add c l) (fr @ ex @ s)" by simp
  from after_whole [OF at assms(4-6)] True ds show ?thesis by (simp add: number_read_def)
next
  case False
  with assms(3) have "all_digits ds" by (auto simp: whole_text_def all_digits_def)
  from any1_read [OF _ this assms(4-6), of "lex_add c l" ty] assms(2) False show ?thesis
    by (simp add: number_read_def)
qed

lemma whole_text_digit: "whole_text (c # ds) \<Longrightarrow> is_digit c"
proof -
  have "is_digit (CHR ''0'')" by code_simp
  then show "whole_text (c # ds) \<Longrightarrow> is_digit c" by (auto simp: whole_text_def all_digits_def)
qed

lemma scan_number_text:
  assumes "lex_at l (w @ sg @ ds @ fr @ ex @ s)" and "white w" and "number_parts sg ds fr ex"
    and "number_ends s"
  shows "\<exists>l'. scan l =
      scan_number_done (number_type fr ex (if sg = [] then TOK_value_unsigned else TOK_value_integer)) l' \<and>
    lex_at (lex_unget l') s \<and> lx_token_buffer l' = sg @ ds @ fr @ ex"
proof -
  from assms(3) have parts: "sg \<in> {[], ''-''}" "whole_text ds" "fraction_text fr" "exponent_text ex"
    by (auto simp: number_parts_def)
  obtain d ds' where ds: "ds = d # ds'" using parts(2) by (cases ds) (auto simp: whole_text_def)
  have d: "is_digit d" using whole_text_digit parts(2) ds by simp
  have range: "48 \<le> (of_char d :: nat)" "(of_char d :: nat) \<le> 57"
    using d by (simp_all add: is_digit_def less_eq_char_def)
  have other: "d \<noteq> c" if "(of_char c :: nat) \<notin> {48..57}" for c using that range by auto
  show ?thesis
  proof (cases "sg = []")
    case True
    with assms(1) ds have at: "lex_at l (w @ d # ds' @ fr @ ex @ s)" by simp
    then obtain l1 where l1: "scan l = scan_token l1" "lx_current l1 = Some d" "lex_at l1 (ds' @ fr @ ex @ s)"
      by (rule scan_first) (simp_all add: is_whitespace_def other assms(2))
    have "scan_token l1 = scan_number l1"
      using l1(2) d by (simp add: scan_token_def other)
    moreover have "scan_number l1 =
        (if d = CHR ''0'' then scan_number_zero TOK_value_unsigned (lex_add d (lex_reset l1))
         else scan_number_any1 TOK_value_unsigned (lex_add d (lex_reset l1)))"
      using l1(2) other [of "CHR ''-''"] by (auto simp: scan_number_def current_in_def add_current_def)
    moreover have "number_read (lex_reset l1) (d # ds' @ fr @ ex) s (number_type fr ex TOK_value_unsigned)
        (if d = CHR ''0'' then scan_number_zero TOK_value_unsigned (lex_add d (lex_reset l1))
         else scan_number_any1 TOK_value_unsigned (lex_add d (lex_reset l1)))"
      by (rule whole_read) (use l1 assms(4) parts ds in simp_all)
    ultimately show ?thesis using True ds l1(1) by (auto simp: number_read_def)
  next
    case False
    with parts(1) have sg: "sg = ''-''" by simp
    with assms(1) ds have at: "lex_at l (w @ CHR ''-'' # d # ds' @ fr @ ex @ s)" by simp
    then obtain l1 where l1: "scan l = scan_token l1" "lx_current l1 = Some (CHR ''-'')"
      "lex_at l1 (d # ds' @ fr @ ex @ s)"
      by (rule scan_first) (simp_all add: is_whitespace_def assms(2))
    let ?l2 = "lex_add (CHR ''-'') (lex_reset l1)"
    have at2: "lex_at ?l2 (d # ds' @ fr @ ex @ s)" using l1(3) by simp
    have "scan_token l1 = scan_number_minus ?l2"
      using l1(2) by (simp add: scan_token_def scan_number_def current_in_def add_current_def)
    moreover have "scan_number_minus ?l2 =
        (if d = CHR ''0'' then scan_number_zero TOK_value_integer (lex_add d (lex_get ?l2))
         else scan_number_any1 TOK_value_integer (lex_add d (lex_get ?l2)))"
      using current_tests [OF at2] d by (simp add: scan_number_minus_def Let_def)
    moreover have "number_read (lex_get ?l2) (d # ds' @ fr @ ex) s (number_type fr ex TOK_value_integer)
        (if d = CHR ''0'' then scan_number_zero TOK_value_integer (lex_add d (lex_get ?l2))
         else scan_number_any1 TOK_value_integer (lex_add d (lex_get ?l2)))"
      by (rule whole_read) (use lex_at_get [OF at2] assms(4) parts ds in simp_all)
    ultimately show ?thesis using sg ds l1(1) by (auto simp: number_read_def)
  qed
qed

end
