(* ===== verification/Json_Complete.thy ===== *)
theory Json_Complete
  imports Json_Text
begin

section \<open>The parser reads every JSON text\<close>

text \<open>
  The loop of the parser on a text of the grammar: it builds the value of the text and stops behind it.
\<close>

subsection \<open>Tokens the parser asks for\<close>

lemma get_token_simps:
  "ps_lexer (get_token p) = snd (scan (ps_lexer p))" "ps_last_token (get_token p) = fst (scan (ps_lexer p))"
  by (simp_all add: get_token_def split: prod.split)

lemma get_token_structural:
  assumes "lex_at (ps_lexer p) (w @ c # s)" and "white w" and "structural c = Some t"
  shows "ps_last_token (get_token p) = t" "lex_at (ps_lexer (get_token p)) s"
  using scan_structural [OF assms] by (auto simp: get_token_simps)

lemma structural_simps [simp]:
  "structural (CHR ''['') = Some TOK_begin_array" "structural (CHR '']'') = Some TOK_end_array"
  "structural (CHR ''{'') = Some TOK_begin_object" "structural (CHR ''}'') = Some TOK_end_object"
  "structural (CHR '':'') = Some TOK_name_separator" "structural (CHR '','') = Some TOK_value_separator"
  by (simp_all add: structural_def)

lemma get_token_quoted:
  assumes "lex_at (ps_lexer p) (w @ quoted t @ s)" and "white w" and "string_text x t"
  shows "ps_last_token (get_token p) = TOK_value_string" "lex_at (ps_lexer (get_token p)) s"
    "lx_token_buffer (ps_lexer (get_token p)) = x"
  using scan_quoted [OF assms(3,1,2)] by (auto simp: get_token_simps)

lemma lex_at_values [simp]:
  "lex_at (l\<lparr>lx_value_unsigned := x\<rparr>) s = lex_at l s" "lex_at (l\<lparr>lx_value_integer := y\<rparr>) s = lex_at l s"
  "lex_at (l\<lparr>lx_value_float := z\<rparr>) s = lex_at l s"
  by (simp_all add: lex_at_def lex_ok_def lex_rest_def split: option.split)

lemma number_minus: "whole_text ds \<Longrightarrow> sg \<in> {[], ''-''} \<Longrightarrow> take 1 (sg @ ds @ t) = ''-'' \<longleftrightarrow> sg \<noteq> []"
  by (cases ds) (auto simp: whole_text_def is_digit_def less_eq_char_def)

text \<open>A number is one token, and its value is that of the text.\<close>

lemma get_token_number:
  assumes "lex_at (ps_lexer p) (w @ t @ s)" and "white w" and "number_text j t" and "number_ends s"
  shows "parse_token ss (get_token p) = parse_value j (get_token p)" "lex_at (ps_lexer (get_token p)) s"
    "ps_last_token (get_token p) \<in> {TOK_value_unsigned, TOK_value_integer, TOK_value_float}"
proof -
  from assms(3) obtain sg ds fr ex where t: "t = sg @ ds @ fr @ ex" and parts: "number_parts sg ds fr ex"
    and j: "j = number_json (fr @ ex = []) t" and fin: "finite_number j"
    by (auto elim: number_text.cases)
  let ?ty = "number_type fr ex (if sg = [] then TOK_value_unsigned else TOK_value_integer)"
  from assms(1) t have "lex_at (ps_lexer p) (w @ sg @ ds @ fr @ ex @ s)" by simp
  from scan_number_text [OF this assms(2) parts assms(4)] obtain l where
    l: "scan (ps_lexer p) = scan_number_done ?ty l" "lex_at (lex_unget l) s" "lx_token_buffer l = t"
    unfolding t by blast
  have minus: "take 1 t = ''-'' \<longleftrightarrow> sg \<noteq> []"
    unfolding t by (rule number_minus) (use parts in \<open>simp_all add: number_parts_def\<close>)
  have "parse_token ss (get_token p) = parse_value j (get_token p) \<and> lex_at (ps_lexer (get_token p)) s \<and>
      ps_last_token (get_token p) \<in> {TOK_value_unsigned, TOK_value_integer, TOK_value_float}"
    using l fin minus unfolding j
    by (auto simp: parse_token_def get_token_simps scan_number_done_def scan_number_float_def number_type_def
        number_json_def finite_number_def Let_def split: option.splits if_splits)
  then show "parse_token ss (get_token p) = parse_value j (get_token p)" "lex_at (ps_lexer (get_token p)) s"
    "ps_last_token (get_token p) \<in> {TOK_value_unsigned, TOK_value_integer, TOK_value_float}" by simp_all
qed

subsection \<open>Steps of the loop\<close>

lemma loop_value:
  "parse_token ss p = (Evaluate_state, p') \<Longrightarrow> sax_parse_loop False ss p = sax_parse_loop True ss p'"
  by (subst (1 2) sax_parse_loop.simps) simp

lemma loop_next:
  "parse_token ss p = (Next_value ss', p') \<Longrightarrow> sax_parse_loop False ss p = sax_parse_loop False ss' p'"
  by (subst sax_parse_loop.simps) simp

lemma loop_state_next:
  "parse_state ss p = (Next_value ss', p') \<Longrightarrow> sax_parse_loop True ss p = sax_parse_loop False ss' p'"
  by (subst sax_parse_loop.simps) simp

lemma loop_state_skip:
  "parse_state ss p = (Skip_to_state ss', p') \<Longrightarrow> sax_parse_loop True ss p = sax_parse_loop True ss' p'"
  by (subst sax_parse_loop.simps) simp

text \<open>What the loop has done when it has read a value: it stands behind it with the value handled.\<close>

definition loop_reads :: "bool list \<Rightarrow> json_parser \<Rightarrow> bool list \<Rightarrow> dom \<Rightarrow> string \<Rightarrow> bool" where
  "loop_reads ss p ss' d s \<longleftrightarrow>
     (\<exists>p'. sax_parse_loop False ss p = sax_parse_loop True ss' p' \<and> lex_at (ps_lexer p') s \<and> ps_dom p' = d)"

lemma loop_reads_value:
  assumes "parse_token ss p = parse_value j p" and "lex_at (ps_lexer p) s"
  shows "loop_reads ss p ss (handle_value j (ps_dom p)) s"
  unfolding loop_reads_def
  by (rule exI [of _ "p\<lparr>ps_dom := handle_value j (ps_dom p)\<rparr>"])
    (use assms in \<open>simp add: loop_value parse_value_def\<close>)

text \<open>The value that closes a container is handled in the frame below.\<close>

lemma dom_end_array:
  "dom_stack d = Array_frame js # fs \<Longrightarrow> dom_end d = handle_value (JArray js) (d\<lparr>dom_stack := fs\<rparr>)"
  by (simp add: dom_end_def)

lemma dom_end_object:
  "dom_stack d = Object_frame m k # fs \<Longrightarrow> dom_end d = handle_value (JObject m) (d\<lparr>dom_stack := fs\<rparr>)"
  by (simp add: dom_end_def)

text \<open>After an element of an array.\<close>

lemma array_comma:
  assumes "lex_at (ps_lexer p) (w @ '','' @ s)" and "white w"
  shows "\<exists>p1. sax_parse_loop True (True # ss) p = sax_parse_loop False (True # ss) (get_token p1) \<and>
    lex_at (ps_lexer p1) s \<and> ps_dom p1 = ps_dom p"
  using get_token_structural [of p w "CHR '',''" s TOK_value_separator] assms
  by (intro exI [of _ "get_token p"]) (simp add: loop_state_next Let_def)

lemma array_close:
  assumes "lex_at (ps_lexer p) (w @ '']'' @ s)" and "white w" and "dom_stack (ps_dom p) = Array_frame js # fs"
  shows "\<exists>p1. sax_parse_loop True (True # ss) p = sax_parse_loop True ss p1 \<and> lex_at (ps_lexer p1) s \<and>
    ps_dom p1 = handle_value (JArray js) ((ps_dom p)\<lparr>dom_stack := fs\<rparr>)"
  using get_token_structural [of p w "CHR '']''" s TOK_end_array] assms
  by (intro exI [of _ "(get_token p)\<lparr>ps_dom := dom_end (ps_dom p)\<rparr>"])
    (simp add: loop_state_skip Let_def dom_end_array)

text \<open>A key, its colon and the first token of its value.\<close>

lemma parse_key_reads:
  assumes "ps_last_token p = TOK_value_string" and "lx_token_buffer (ps_lexer p) = k"
    and "lex_at (ps_lexer p) (v @ '':'' @ s)" and "white v"
  shows "\<exists>p1. parse_key ss p = (Next_value ss, get_token p1) \<and> lex_at (ps_lexer p1) s \<and>
    ps_dom p1 = dom_key k (ps_dom p)"
proof -
  let ?p = "p\<lparr>ps_dom := dom_key k (ps_dom p)\<rparr>"
  from assms(3) have "lex_at (ps_lexer ?p) (v @ CHR '':'' # s)" by simp
  from get_token_structural [OF this assms(4), of TOK_name_separator] show ?thesis
    using assms(1,2) by (intro exI [of _ "get_token ?p"]) (simp add: parse_key_def Let_def)
qed

lemma object_comma:
  assumes "lex_at (ps_lexer p) (w @ '','' @ s)" and "white w"
  shows "\<exists>p1. parse_state (False # ss) p = parse_key (False # ss) (get_token p1) \<and>
    lex_at (ps_lexer p1) s \<and> ps_dom p1 = ps_dom p"
  using get_token_structural [of p w "CHR '',''" s TOK_value_separator] assms
  by (intro exI [of _ "get_token p"]) (simp add: Let_def)

lemma object_close:
  assumes "lex_at (ps_lexer p) (w @ ''}'' @ s)" and "white w" and "dom_stack (ps_dom p) = Object_frame m k # fs"
  shows "\<exists>p1. sax_parse_loop True (False # ss) p = sax_parse_loop True ss p1 \<and> lex_at (ps_lexer p1) s \<and>
    ps_dom p1 = handle_value (JObject m) ((ps_dom p)\<lparr>dom_stack := fs\<rparr>)"
  using get_token_structural [of p w "CHR ''}''" s TOK_end_object] assms
  by (intro exI [of _ "(get_token p)\<lparr>ps_dom := dom_end (ps_dom p)\<rparr>"])
    (simp add: loop_state_skip Let_def dom_end_object)

lemma handle_array: "dom_stack d = Array_frame js # fs \<Longrightarrow>
    handle_value j d = d\<lparr>dom_stack := Array_frame (js @ [j]) # fs\<rparr>"
  by (simp add: handle_value_def)

lemma handle_member: "dom_stack d = Object_frame m k' # fs \<Longrightarrow>
    handle_value j (dom_key k d) = d\<lparr>dom_stack := Object_frame (obj_put k j m) k # fs\<rparr>"
  by (simp add: handle_value_def dom_key_def)

lemma ends_white:
  assumes "white w" and "structural c = Some t"
  shows "number_ends (w @ c # s)"
  using assms by (cases w)
    (auto simp: number_ends_def structural_def is_whitespace_def is_digit_def less_eq_char_def split: if_splits)

subsection \<open>Completeness\<close>

text \<open>The three claims for the induction over the grammar.\<close>

definition reads_value :: "json \<Rightarrow> string \<Rightarrow> bool" where
  "reads_value j t \<longleftrightarrow>
     (\<forall>w ss p s. lex_at (ps_lexer p) (w @ t @ s) \<and> white w \<and> number_ends s \<longrightarrow>
        loop_reads ss (get_token p) ss (handle_value j (ps_dom p)) s \<and>
        ps_last_token (get_token p) \<notin> {TOK_end_array, TOK_end_object})"

definition reads_elements :: "json list \<Rightarrow> string \<Rightarrow> bool" where
  "reads_elements js t \<longleftrightarrow>
     (\<forall>ss p s js' fs. lex_at (ps_lexer p) (t @ '']'' @ s) \<and> dom_stack (ps_dom p) = Array_frame js' # fs \<longrightarrow>
        loop_reads (True # ss) (get_token p) ss (handle_value (JArray (js' @ js)) ((ps_dom p)\<lparr>dom_stack := fs\<rparr>)) s \<and>
        ps_last_token (get_token p) \<noteq> TOK_end_array)"

definition reads_members :: "(string \<times> json) list \<Rightarrow> string \<Rightarrow> bool" where
  "reads_members kvs t \<longleftrightarrow>
     (\<forall>ss p s m k' fs. lex_at (ps_lexer p) (t @ ''}'' @ s) \<and> dom_stack (ps_dom p) = Object_frame m k' # fs \<longrightarrow>
        (\<exists>p1. parse_key (False # ss) (get_token p) = (Next_value (False # ss), p1) \<and>
          loop_reads (False # ss) p1 ss (handle_value (JObject (put_all kvs m)) ((ps_dom p)\<lparr>dom_stack := fs\<rparr>)) s) \<and>
        ps_last_token (get_token p) \<noteq> TOK_end_object)"

lemma loop_reads_trans:
  assumes "sax_parse_loop False ss p = sax_parse_loop False ss1 p1" and "loop_reads ss1 p1 ss' d s"
  shows "loop_reads ss p ss' d s"
  using assms by (simp add: loop_reads_def)

lemma reads_literal:
  assumes "(t, k) \<in> {(''true'', TOK_literal_true), (''false'', TOK_literal_false), (''null'', TOK_literal_null)}"
    and "\<And>ss p. ps_last_token p = k \<Longrightarrow> parse_token ss p = parse_value j p"
    and "k \<notin> {TOK_end_array, TOK_end_object}"
  shows "reads_value j t"
  unfolding reads_value_def
proof (intro allI impI)
  fix w ss s and p :: json_parser
  assume "lex_at (ps_lexer p) (w @ t @ s) \<and> white w \<and> number_ends s"
  then obtain l where "scan (ps_lexer p) = (k, l)" "lex_at l s"
    using scan_literal_read [of "ps_lexer p" w t s k] assms(1) by blast
  then have "ps_last_token (get_token p) = k" "lex_at (ps_lexer (get_token p)) s"
    by (simp_all add: get_token_simps)
  with assms(2,3) loop_reads_value [of ss "get_token p" j s]
  show "loop_reads ss (get_token p) ss (handle_value j (ps_dom p)) s \<and>
      ps_last_token (get_token p) \<notin> {TOK_end_array, TOK_end_object}" by simp
qed

lemma reads_number:
  assumes "number_text j t"
  shows "reads_value j t"
  unfolding reads_value_def
proof (intro allI impI)
  fix w ss s and p :: json_parser
  assume "lex_at (ps_lexer p) (w @ t @ s) \<and> white w \<and> number_ends s"
  with get_token_number(1) [of p w t s j ss] get_token_number(2,3) [of p w t s j] assms loop_reads_value [of ss "get_token p" j s]
  show "loop_reads ss (get_token p) ss (handle_value j (ps_dom p)) s \<and>
      ps_last_token (get_token p) \<notin> {TOK_end_array, TOK_end_object}" by auto
qed

lemma reads_string:
  assumes "string_text x t"
  shows "reads_value (JString x) (quoted t)"
  unfolding reads_value_def
proof (intro allI impI)
  fix w ss s and p :: json_parser
  assume "lex_at (ps_lexer p) (w @ quoted t @ s) \<and> white w \<and> number_ends s"
  with get_token_quoted [of p w t s x] assms loop_reads_value [of ss "get_token p" "JString x" s]
  show "loop_reads ss (get_token p) ss (handle_value (JString x) (ps_dom p)) s \<and>
      ps_last_token (get_token p) \<notin> {TOK_end_array, TOK_end_object}" by (simp add: parse_token_def)
qed

text \<open>The first token of a container and the one behind it.\<close>

lemma open_array:
  assumes "lex_at (ps_lexer p) (w @ ''['' @ s)" and "white w"
  shows "\<exists>p1. lex_at (ps_lexer p1) s \<and> ps_dom p1 = dom_start_array (ps_dom p) \<and>
    ps_last_token (get_token p) = TOK_begin_array \<and>
    parse_token ss (get_token p) =
      (if ps_last_token (get_token p1) = TOK_end_array
       then (Evaluate_state, (get_token p1)\<lparr>ps_dom := dom_end (ps_dom p1)\<rparr>)
       else (Next_value (True # ss), get_token p1))"
  using get_token_structural [of p w "CHR ''[''" s TOK_begin_array] assms
  by (intro exI [of _ "(get_token p)\<lparr>ps_dom := dom_start_array (ps_dom p)\<rparr>"])
    (simp add: parse_token_def Let_def)

lemma open_object:
  assumes "lex_at (ps_lexer p) (w @ ''{'' @ s)" and "white w"
  shows "\<exists>p1. lex_at (ps_lexer p1) s \<and> ps_dom p1 = dom_start_object (ps_dom p) \<and>
    ps_last_token (get_token p) = TOK_begin_object \<and>
    parse_token ss (get_token p) =
      (if ps_last_token (get_token p1) = TOK_end_object
       then (Evaluate_state, (get_token p1)\<lparr>ps_dom := dom_end (ps_dom p1)\<rparr>)
       else parse_key (False # ss) (get_token p1))"
  using get_token_structural [of p w "CHR ''{''" s TOK_begin_object] assms
  by (intro exI [of _ "(get_token p)\<lparr>ps_dom := dom_start_object (ps_dom p)\<rparr>"])
    (simp add: parse_token_def Let_def)

lemma dom_start_stack [simp]:
  "dom_stack (dom_start_array d) = Array_frame [] # dom_stack d"
  "dom_stack (dom_start_object d) = Object_frame [] [] # dom_stack d"
  "(dom_start_array d)\<lparr>dom_stack := dom_stack d\<rparr> = d" "(dom_start_object d)\<lparr>dom_stack := dom_stack d\<rparr> = d"
  by (simp_all add: dom_start_array_def dom_start_object_def)

lemma reads_empty_array:
  assumes "white v"
  shows "reads_value (JArray []) (''['' @ v @ '']'')"
  unfolding reads_value_def
proof (intro allI impI)
  fix w ss s and p :: json_parser
  assume "lex_at (ps_lexer p) (w @ (''['' @ v @ '']'') @ s) \<and> white w \<and> number_ends s"
  then obtain p1 where p1: "lex_at (ps_lexer p1) (v @ CHR '']'' # s)" "ps_dom p1 = dom_start_array (ps_dom p)"
    "ps_last_token (get_token p) = TOK_begin_array"
    "parse_token ss (get_token p) =
      (if ps_last_token (get_token p1) = TOK_end_array
       then (Evaluate_state, (get_token p1)\<lparr>ps_dom := dom_end (ps_dom p1)\<rparr>)
       else (Next_value (True # ss), get_token p1))"
    using open_array [of p w "v @ '']'' @ s" ss] by auto
  note close = get_token_structural [OF p1(1) assms, of TOK_end_array]
  have "dom_end (dom_start_array (ps_dom p)) = handle_value (JArray []) (ps_dom p)"
    using dom_end_array [of "dom_start_array (ps_dom p)" "[]" "dom_stack (ps_dom p)"] by simp
  with p1 close show "loop_reads ss (get_token p) ss (handle_value (JArray []) (ps_dom p)) s \<and>
      ps_last_token (get_token p) \<notin> {TOK_end_array, TOK_end_object}"
    by (auto simp: loop_reads_def loop_value intro!: exI [of _ "(get_token p1)\<lparr>ps_dom := dom_end (ps_dom p1)\<rparr>"])
qed

lemma reads_empty_object:
  assumes "white v"
  shows "reads_value (JObject []) (''{'' @ v @ ''}'')"
  unfolding reads_value_def
proof (intro allI impI)
  fix w ss s and p :: json_parser
  assume "lex_at (ps_lexer p) (w @ (''{'' @ v @ ''}'') @ s) \<and> white w \<and> number_ends s"
  then obtain p1 where p1: "lex_at (ps_lexer p1) (v @ CHR ''}'' # s)" "ps_dom p1 = dom_start_object (ps_dom p)"
    "ps_last_token (get_token p) = TOK_begin_object"
    "parse_token ss (get_token p) =
      (if ps_last_token (get_token p1) = TOK_end_object
       then (Evaluate_state, (get_token p1)\<lparr>ps_dom := dom_end (ps_dom p1)\<rparr>)
       else parse_key (False # ss) (get_token p1))"
    using open_object [of p w "v @ ''}'' @ s" ss] by auto
  note close = get_token_structural [OF p1(1) assms, of TOK_end_object]
  have "dom_end (dom_start_object (ps_dom p)) = handle_value (JObject []) (ps_dom p)"
    using dom_end_object [of "dom_start_object (ps_dom p)" "[]" "[]" "dom_stack (ps_dom p)"] by simp
  with p1 close show "loop_reads ss (get_token p) ss (handle_value (JObject []) (ps_dom p)) s \<and>
      ps_last_token (get_token p) \<notin> {TOK_end_array, TOK_end_object}"
    by (auto simp: loop_reads_def loop_value intro!: exI [of _ "(get_token p1)\<lparr>ps_dom := dom_end (ps_dom p1)\<rparr>"])
qed

lemma reads_array:
  assumes "reads_elements js t"
  shows "reads_value (JArray js) (''['' @ t @ '']'')"
  unfolding reads_value_def
proof (intro allI impI)
  fix w ss s and p :: json_parser
  assume "lex_at (ps_lexer p) (w @ (''['' @ t @ '']'') @ s) \<and> white w \<and> number_ends s"
  then obtain p1 where p1: "lex_at (ps_lexer p1) (t @ '']'' @ s)" "ps_dom p1 = dom_start_array (ps_dom p)"
    "ps_last_token (get_token p) = TOK_begin_array"
    "parse_token ss (get_token p) =
      (if ps_last_token (get_token p1) = TOK_end_array
       then (Evaluate_state, (get_token p1)\<lparr>ps_dom := dom_end (ps_dom p1)\<rparr>)
       else (Next_value (True # ss), get_token p1))"
    using open_array [of p w "t @ '']'' @ s" ss] by auto
  from assms p1(1,2) have
    "loop_reads (True # ss) (get_token p1) ss
       (handle_value (JArray js) ((dom_start_array (ps_dom p))\<lparr>dom_stack := dom_stack (ps_dom p)\<rparr>)) s"
    "ps_last_token (get_token p1) \<noteq> TOK_end_array"
    unfolding reads_elements_def by (metis append_Nil dom_start_stack(1))+
  with p1 show "loop_reads ss (get_token p) ss (handle_value (JArray js) (ps_dom p)) s \<and>
      ps_last_token (get_token p) \<notin> {TOK_end_array, TOK_end_object}"
    by (simp add: loop_reads_trans [OF loop_next])
qed

lemma reads_object:
  assumes "reads_members kvs t"
  shows "reads_value (JObject (put_all kvs [])) (''{'' @ t @ ''}'')"
  unfolding reads_value_def
proof (intro allI impI)
  fix w ss s and p :: json_parser
  assume "lex_at (ps_lexer p) (w @ (''{'' @ t @ ''}'') @ s) \<and> white w \<and> number_ends s"
  then obtain p1 where p1: "lex_at (ps_lexer p1) (t @ ''}'' @ s)" "ps_dom p1 = dom_start_object (ps_dom p)"
    "ps_last_token (get_token p) = TOK_begin_object"
    "parse_token ss (get_token p) =
      (if ps_last_token (get_token p1) = TOK_end_object
       then (Evaluate_state, (get_token p1)\<lparr>ps_dom := dom_end (ps_dom p1)\<rparr>)
       else parse_key (False # ss) (get_token p1))"
    using open_object [of p w "t @ ''}'' @ s" ss] by auto
  from assms p1(1,2) obtain p2 where
    "parse_key (False # ss) (get_token p1) = (Next_value (False # ss), p2)"
    "loop_reads (False # ss) p2 ss
       (handle_value (JObject (put_all kvs [])) ((dom_start_object (ps_dom p))\<lparr>dom_stack := dom_stack (ps_dom p)\<rparr>)) s"
    "ps_last_token (get_token p1) \<noteq> TOK_end_object"
    unfolding reads_members_def by (metis dom_start_stack(2))
  with p1 show "loop_reads ss (get_token p) ss (handle_value (JObject (put_all kvs [])) (ps_dom p)) s \<and>
      ps_last_token (get_token p) \<notin> {TOK_end_array, TOK_end_object}"
    by (simp add: loop_reads_trans [OF loop_next])
qed

lemma elements_last:
  assumes "reads_value j t" and "white v" and "white w"
  shows "reads_elements [j] (v @ t @ w)"
  unfolding reads_elements_def
proof (intro allI impI)
  fix ss s js' fs and p :: json_parser
  assume p: "lex_at (ps_lexer p) ((v @ t @ w) @ '']'' @ s) \<and> dom_stack (ps_dom p) = Array_frame js' # fs"
  then have "lex_at (ps_lexer p) (v @ t @ w @ CHR '']'' # s)" "number_ends (w @ CHR '']'' # s)"
    using ends_white [OF assms(3), of "CHR '']''"] by auto
  with assms(1,2) have "loop_reads (True # ss) (get_token p) (True # ss) (handle_value j (ps_dom p)) (w @ CHR '']'' # s)"
    "ps_last_token (get_token p) \<noteq> TOK_end_array"
    unfolding reads_value_def by blast+
  moreover from this(1) obtain p1 where
    p1: "sax_parse_loop False (True # ss) (get_token p) = sax_parse_loop True (True # ss) p1"
      "lex_at (ps_lexer p1) (w @ '']'' @ s)" "ps_dom p1 = handle_value j (ps_dom p)"
    by (auto simp: loop_reads_def)
  moreover from p p1 have "dom_stack (ps_dom p1) = Array_frame (js' @ [j]) # fs" by (simp add: handle_array)
  from array_close [OF p1(2) assms(3) this, of ss] p1 p have
    "loop_reads (True # ss) (get_token p) ss (handle_value (JArray (js' @ [j])) ((ps_dom p)\<lparr>dom_stack := fs\<rparr>)) s"
    by (auto simp: loop_reads_def handle_array)
  ultimately show
    "loop_reads (True # ss) (get_token p) ss (handle_value (JArray (js' @ [j])) ((ps_dom p)\<lparr>dom_stack := fs\<rparr>)) s \<and>
      ps_last_token (get_token p) \<noteq> TOK_end_array" by simp
qed

lemma elements_next:
  assumes "reads_value j t" and "white v" and "white w" and "reads_elements js u"
  shows "reads_elements (j # js) (v @ t @ w @ '','' @ u)"
  unfolding reads_elements_def
proof (intro allI impI)
  fix ss s js' fs and p :: json_parser
  assume p: "lex_at (ps_lexer p) ((v @ t @ w @ '','' @ u) @ '']'' @ s) \<and>
    dom_stack (ps_dom p) = Array_frame js' # fs"
  then have "lex_at (ps_lexer p) (v @ t @ w @ CHR '','' # u @ '']'' @ s)" "number_ends (w @ CHR '','' # u @ '']'' @ s)"
    using ends_white [OF assms(3), of "CHR '',''"] by auto
  with assms(1,2) have "loop_reads (True # ss) (get_token p) (True # ss) (handle_value j (ps_dom p)) (w @ CHR '','' # u @ '']'' @ s)"
    "ps_last_token (get_token p) \<noteq> TOK_end_array"
    unfolding reads_value_def by blast+
  moreover from this(1) obtain p1 where
    p1: "sax_parse_loop False (True # ss) (get_token p) = sax_parse_loop True (True # ss) p1"
      "lex_at (ps_lexer p1) (w @ '','' @ u @ '']'' @ s)" "ps_dom p1 = handle_value j (ps_dom p)"
    by (auto simp: loop_reads_def)
  moreover from array_comma [OF p1(2) assms(3), of ss] obtain p2 where
    p2: "sax_parse_loop True (True # ss) p1 = sax_parse_loop False (True # ss) (get_token p2)"
      "lex_at (ps_lexer p2) (u @ '']'' @ s)" "ps_dom p2 = ps_dom p1" by blast
  moreover from p p1 p2 have "dom_stack (ps_dom p2) = Array_frame (js' @ [j]) # fs" by (simp add: handle_array)
  with assms(4) p2(2) have "loop_reads (True # ss) (get_token p2) ss
      (handle_value (JArray ((js' @ [j]) @ js)) ((ps_dom p2)\<lparr>dom_stack := fs\<rparr>)) s"
    unfolding reads_elements_def by blast
  ultimately show
    "loop_reads (True # ss) (get_token p) ss (handle_value (JArray (js' @ j # js)) ((ps_dom p)\<lparr>dom_stack := fs\<rparr>)) s \<and>
      ps_last_token (get_token p) \<noteq> TOK_end_array"
    using p by (simp add: loop_reads_def handle_array)
qed

text \<open>A member, up to what stands behind its value.\<close>

lemma member_read:
  assumes "string_text k x" and "reads_value j t" and "white v" and "white v'" and "white w"
    and "lex_at (ps_lexer p) (v @ quoted x @ v' @ '':'' @ w @ t @ s)" and "number_ends s"
    and "dom_stack (ps_dom p) = Object_frame m k' # fs"
  shows "\<exists>p1 p2. parse_key ss (get_token p) = (Next_value ss, p1) \<and>
    sax_parse_loop False ss p1 = sax_parse_loop True ss p2 \<and> lex_at (ps_lexer p2) s \<and>
    ps_dom p2 = (ps_dom p)\<lparr>dom_stack := Object_frame (obj_put k j m) k # fs\<rparr>"
proof -
  note key = get_token_quoted [OF assms(6,3,1)]
  from parse_key_reads [OF key(1,3,2) assms(4), of ss] obtain p1 where
    p1: "parse_key ss (get_token p) = (Next_value ss, get_token p1)" "lex_at (ps_lexer p1) (w @ t @ s)"
      "ps_dom p1 = dom_key k (ps_dom p)" by auto
  from assms(2,5,7) p1(2) have "loop_reads ss (get_token p1) ss (handle_value j (ps_dom p1)) s"
    unfolding reads_value_def by blast
  with p1 assms(8) show ?thesis by (auto simp: loop_reads_def handle_member)
qed

lemma members_last:
  assumes "string_text k x" and "reads_value j t" and "white v" and "white v'" and "white w" and "white w'"
  shows "reads_members [(k, j)] (v @ quoted x @ v' @ '':'' @ w @ t @ w')"
  unfolding reads_members_def
proof (intro allI impI)
  fix ss s m k' fs and p :: json_parser
  assume p: "lex_at (ps_lexer p) ((v @ quoted x @ v' @ '':'' @ w @ t @ w') @ ''}'' @ s) \<and>
    dom_stack (ps_dom p) = Object_frame m k' # fs"
  then have at: "lex_at (ps_lexer p) (v @ quoted x @ v' @ '':'' @ w @ t @ w' @ CHR ''}'' # s)" by simp
  have "number_ends (w' @ CHR ''}'' # s)" using assms(6) by (rule ends_white) simp
  from member_read [OF assms(1-5) at this, of m k' fs "False # ss"] p obtain p1 p2 where
    p2: "parse_key (False # ss) (get_token p) = (Next_value (False # ss), p1)"
      "sax_parse_loop False (False # ss) p1 = sax_parse_loop True (False # ss) p2"
      "lex_at (ps_lexer p2) (w' @ ''}'' @ s)"
      "ps_dom p2 = (ps_dom p)\<lparr>dom_stack := Object_frame (obj_put k j m) k # fs\<rparr>" by auto
  from object_close [OF p2(3) assms(6), of "obj_put k j m" k fs ss] p2 have
    "loop_reads (False # ss) p1 ss
      (handle_value (JObject (put_all [(k, j)] m)) ((ps_dom p)\<lparr>dom_stack := fs\<rparr>)) s"
    by (auto simp: loop_reads_def)
  with p2(1) get_token_quoted(1) [OF at assms(3,1)] show
    "(\<exists>p1. parse_key (False # ss) (get_token p) = (Next_value (False # ss), p1) \<and>
      loop_reads (False # ss) p1 ss
        (handle_value (JObject (put_all [(k, j)] m)) ((ps_dom p)\<lparr>dom_stack := fs\<rparr>)) s) \<and>
      ps_last_token (get_token p) \<noteq> TOK_end_object" by simp
qed

lemma members_next:
  assumes "string_text k x" and "reads_value j t" and "white v" and "white v'" and "white w" and "white w'"
    and "reads_members kvs u"
  shows "reads_members ((k, j) # kvs) (v @ quoted x @ v' @ '':'' @ w @ t @ w' @ '','' @ u)"
  unfolding reads_members_def
proof (intro allI impI)
  fix ss s m k' fs and p :: json_parser
  assume p: "lex_at (ps_lexer p) ((v @ quoted x @ v' @ '':'' @ w @ t @ w' @ '','' @ u) @ ''}'' @ s) \<and>
    dom_stack (ps_dom p) = Object_frame m k' # fs"
  then have at: "lex_at (ps_lexer p) (v @ quoted x @ v' @ '':'' @ w @ t @ w' @ CHR '','' # u @ ''}'' @ s)" by simp
  have "number_ends (w' @ CHR '','' # u @ ''}'' @ s)" using assms(6) by (rule ends_white) simp
  from member_read [OF assms(1-5) at this, of m k' fs "False # ss"] p obtain p1 p2 where
    p2: "parse_key (False # ss) (get_token p) = (Next_value (False # ss), p1)"
      "sax_parse_loop False (False # ss) p1 = sax_parse_loop True (False # ss) p2"
      "lex_at (ps_lexer p2) (w' @ '','' @ u @ ''}'' @ s)"
      "ps_dom p2 = (ps_dom p)\<lparr>dom_stack := Object_frame (obj_put k j m) k # fs\<rparr>" by auto
  from object_comma [OF p2(3) assms(6), of ss] obtain p3 where
    p3: "parse_state (False # ss) p2 = parse_key (False # ss) (get_token p3)"
      "lex_at (ps_lexer p3) (u @ ''}'' @ s)" "ps_dom p3 = ps_dom p2" by blast
  with p2(4) have "dom_stack (ps_dom p3) = Object_frame (obj_put k j m) k # fs" by simp
  with assms(7) p3(2) obtain p4 where
    "parse_key (False # ss) (get_token p3) = (Next_value (False # ss), p4)"
    "loop_reads (False # ss) p4 ss
      (handle_value (JObject (put_all kvs (obj_put k j m))) ((ps_dom p3)\<lparr>dom_stack := fs\<rparr>)) s"
    unfolding reads_members_def by blast
  with p2 p3 have "loop_reads (False # ss) p1 ss
      (handle_value (JObject (put_all ((k, j) # kvs) m)) ((ps_dom p)\<lparr>dom_stack := fs\<rparr>)) s"
    by (simp add: loop_reads_def loop_state_next)
  with p2(1) get_token_quoted(1) [OF at assms(3,1)] show
    "(\<exists>p1. parse_key (False # ss) (get_token p) = (Next_value (False # ss), p1) \<and>
      loop_reads (False # ss) p1 ss
        (handle_value (JObject (put_all ((k, j) # kvs) m)) ((ps_dom p)\<lparr>dom_stack := fs\<rparr>)) s) \<and>
      ps_last_token (get_token p) \<noteq> TOK_end_object" by simp
qed

lemma json_text_reads:
  "(json_text j t \<longrightarrow> reads_value j t) \<and> (elements_text js te \<longrightarrow> reads_elements js te) \<and>
   (members_text kvs tm \<longrightarrow> reads_members kvs tm)"
proof (induction rule: json_text_elements_text_members_text.induct)
  case text_null
  show ?case by (rule reads_literal) (auto simp: parse_token_def)
next
  case text_true
  show ?case by (rule reads_literal) (auto simp: parse_token_def)
next
  case text_false
  show ?case by (rule reads_literal) (auto simp: parse_token_def)
qed (simp_all only: reads_number reads_string reads_empty_array reads_array reads_empty_object reads_object
    elements_last elements_next members_last members_next)

lemma json_text_read:
  assumes "json_text j t" and "white w" and "number_ends s"
  shows "json_read (w @ t @ s) r = (j, None)"
proof -
  let ?p = "\<lparr>ps_lexer = lexer_new (w @ t @ s), ps_last_token = TOK_uninitialized,
       ps_dom = \<lparr>dom_root = r, dom_stack = []\<rparr>\<rparr>"
  have "lex_at (ps_lexer ?p) (w @ t @ s)"
    by (simp add: lex_at_def lex_ok_def lex_rest_def lexer_new_def)
  with json_text_reads assms have "loop_reads [] (get_token ?p) [] (handle_value j (ps_dom ?p)) s"
    unfolding reads_value_def by blast
  then obtain p' where "sax_parse_loop False [] (get_token ?p) = sax_parse_loop True [] p'"
    "ps_dom p' = \<lparr>dom_root = j, dom_stack = []\<rparr>" by (auto simp: loop_reads_def handle_value_def)
  moreover have "sax_parse_loop True [] p' = (p', None)"
    by (subst sax_parse_loop.simps) simp
  ultimately show ?thesis
    by (simp add: json_read_def json_parse_def sax_parse_internal_def parser_new_def dom_result_def)
qed

text \<open>C9: The parser reads every JSON text: for every value \<open>j\<close> and every text \<open>t\<close> that the grammar (RFC 8259)
  gives for it, with white space before it and anything behind it that is not part of a number,
  \<open>operator>>\<close> stores exactly \<open>j\<close> and throws nothing, whatever the variable held before.\<close>

theorem json_reads_text:
  assumes "json_text j t" and "white w" and "number_ends s"
  shows "json_read (w @ t @ s) r = (j, None)"
  using assms by (rule json_text_read)

theorem json_reads_text_witness:
  "json_read ([CHR '' ''] @ (''['' @ (''null'' @ '','' @ [CHR 0x0A] @ quoted ''x'') @ '']'') @ ''rest'') (JBool True) =
    (JArray [JNull, JString ''x''], None)"
proof -
  have "char_text [CHR ''x''] [CHR ''x'']"
    by (rule char_plain) (simp_all add: utf8_tails_def backslash_def)
  then have "string_text ''x'' ''x''" using string_text_Cons [OF _ string_text_Nil] by simp
  then have "elements_text [JString ''x''] ([CHR 0x0A] @ quoted ''x'' @ [])"
    by (intro elements_one text_string) (simp_all add: is_whitespace_def)
  from text_array [OF elements_more [OF text_null _ _ this, of "[]" "[]"]]
  have "json_text (JArray [JNull, JString ''x'']) (''['' @ (''null'' @ '','' @ [CHR 0x0A] @ quoted ''x'') @ '']'')" by simp
  from json_reads_text [OF this, of "[CHR '' '']" "''rest''" "JBool True"] show ?thesis
    by (simp add: is_whitespace_def number_ends_def is_digit_def less_eq_char_def)
qed

end
