(* ===== verification/Json_Round.thy ===== *)
theory Json_Round
  imports Float_Round Json_Complete
begin

section \<open>The round trip of values\<close>

text \<open>
  Every value is written as a text of the grammar, and the parser reads the text back.
\<close>

subsection \<open>Every value is written as a text of the grammar\<close>

lemma traverse_all2: "traverse f xs = Inr ys \<Longrightarrow> list_all2 (\<lambda>x y. f x = Inr y) xs ys"
  using traverse_length [of f xs ys] traverse_nth [of f xs ys] by (simp add: list_all2_conv_all_nth)

lemma white_blanks [simp]: "white (blanks n)"
  by (simp add: white_def blanks_def is_whitespace_def list_all_iff)

lemma is_whitespace_simps [simp]: "is_whitespace (CHR 0x0A)" "is_whitespace (CHR '' '')"
  by (simp_all add: is_whitespace_def)

text \<open>The elements and the members of a container, once the values in it are known to be texts.\<close>

lemma dumped_elements:
  assumes "traverse f js = Inr ts" and "js \<noteq> []" and "\<And>j t. j \<in> set js \<Longrightarrow> f j = Inr t \<Longrightarrow> json_text (g j) t"
    and "white nl" and "white v" and "white w"
  shows "json_text (JArray (map g js)) (''['' @ nl @ join ('','' @ nl) (map (\<lambda>t. v @ t) ts) @ w @ '']'')"
proof -
  from traverse_all2 [OF assms(1)] assms(3) have "list_all2 json_text (map g js) ts"
    unfolding list_all2_map1 by (rule list.rel_mono_strong) simp
  from text_array [OF elements_join [OF this _ assms(4-6)]] assms(2) show ?thesis by simp
qed

lemma dumped_members:
  assumes "traverse (\<lambda>kv. bindE (dump_escaped STRICT False (fst kv)) (\<lambda>k. bindE (f (snd kv)) (\<lambda>t.
      Inr (v @ quoted k @ '':'' @ u @ t)))) kvs = Inr ts"
    and "kvs \<noteq> []" and "\<And>kv x t. kv \<in> set kvs \<Longrightarrow> dump_escaped STRICT False (fst kv) = Inr x \<Longrightarrow> f (snd kv) = Inr t \<Longrightarrow> json_text (g (snd kv)) t"
    and "obj_sorted kvs" and "white nl" and "white v" and "white u" and "white w"
  shows "json_text (JObject (map (\<lambda>kv. (fst kv, g (snd kv))) kvs)) (''{'' @ nl @ join ('','' @ nl) ts @ w @ ''}'')"
proof -
  let ?kvs = "map (\<lambda>kv. (fst kv, g (snd kv))) kvs"
  have "list_all2 (\<lambda>kv. member_text v u (fst kv, g (snd kv))) kvs ts"
    by (rule list.rel_mono_strong [OF traverse_all2 [OF assms(1)]])
      (auto simp: member_text_def bindE_eq_Inr_iff dest: dump_escaped_text assms(3))
  then have "list_all2 (member_text v u) ?kvs ts" by (simp add: list_all2_map1)
  moreover have "obj_sorted ?kvs" using assms(4) by (simp add: obj_sorted_def comp_def)
  then have "put_all ?kvs [] = ?kvs" using put_all_sorted [of "[]" ?kvs] by simp
  ultimately show ?thesis
    using text_object [OF members_join [of v u ?kvs ts nl w]] assms(2,5-8) by simp
qed

lemma dump_value_text:
  assumes "dump_value j STRICT pretty False step cur = Inr t" and "wf_json j" and "printable j"
  shows "json_text (reread j) t"
  using assms
proof (induction j STRICT pretty False step cur arbitrary: t rule: dump_value.induct)
  case (9 js pretty step cur)
  show ?case
  proof (cases "js = []")
    case True
    with 9 text_empty_array [of "[]"] show ?thesis by simp
  next
    case False
    show ?thesis
    proof (cases pretty)
      case True
      with 9(3) False obtain ts where
        ts: "traverse (\<lambda>j. dump_value j STRICT True False step (cur + step)) js = Inr ts"
        "t = ''['' @ [CHR 0x0A] @ join ('','' @ [CHR 0x0A]) (map (\<lambda>t. blanks (cur + step) @ t) ts) @
          ([CHR 0x0A] @ blanks cur) @ '']''"
        by (auto simp: bindE_eq_Inr_iff)
      with dumped_elements [OF ts(1) False, of reread "[CHR 0x0A]" "blanks (cur + step)" "[CHR 0x0A] @ blanks cur"]
        9(1) [OF False True] 9(4,5)
      show ?thesis by simp
    next
      case p: False
      with 9(3) False obtain ts where
        ts: "traverse (\<lambda>j. dump_value j STRICT False False step cur) js = Inr ts" "t = ''['' @ join '','' ts @ '']''"
        by (auto simp: bindE_eq_Inr_iff)
      with dumped_elements [OF ts(1) False, of reread "[]" "[]" "[]"] 9(2) [OF False p] 9(4,5)
      show ?thesis by simp
    qed
  qed
next
  case (10 kvs pretty step cur)
  show ?case
  proof (cases "kvs = []")
    case True
    with 10 text_empty_object [of "[]"] show ?thesis by simp
  next
    case False
    show ?thesis
    proof (cases pretty)
      case True
      with 10(3) False obtain ts where
        ts: "traverse (\<lambda>kv. bindE (dump_escaped STRICT False (fst kv)) (\<lambda>k.
            bindE (dump_value (snd kv) STRICT True False step (cur + step)) (\<lambda>t.
            Inr (blanks (cur + step) @ quoted k @ '':'' @ '' '' @ t)))) kvs = Inr ts"
        "t = ''{'' @ [CHR 0x0A] @ join ('','' @ [CHR 0x0A]) ts @ ([CHR 0x0A] @ blanks cur) @ ''}''"
        by (auto simp: bindE_eq_Inr_iff)
      with dumped_members [OF ts(1) False, of reread "[CHR 0x0A]" "[CHR 0x0A] @ blanks cur"]
        10(1) [OF False True] 10(4,5)
      show ?thesis by simp
    next
      case p: False
      with 10(3) False obtain ts where
        ts: "traverse (\<lambda>kv. bindE (dump_escaped STRICT False (fst kv)) (\<lambda>k.
            bindE (dump_value (snd kv) STRICT False False step cur) (\<lambda>t.
            Inr ([] @ quoted k @ '':'' @ [] @ t)))) kvs = Inr ts"
        "t = ''{'' @ join '','' ts @ ''}''"
        by (auto simp: bindE_eq_Inr_iff)
      with dumped_members [OF ts(1) False, of reread "[]" "[]"] 10(2) [OF False p] 10(4,5)
      show ?thesis by simp
    qed
  qed
qed (auto simp: bindE_eq_Inr_iff dest: dump_escaped_text dump_float_text
    intro: json_text_elements_text_members_text.intros integer_text simp del: reread.simps(1))

end
