(* ===== verification/Json_Valid.thy ===== *)
theory Json_Valid
  imports Json_Round
begin

section \<open>The values the parser builds\<close>

text \<open>
  Whatever bytes it reads, and also when it throws, the parser leaves a value of the kind the serializer
  accepts: the members of its objects are in order, all its strings are well-formed UTF-8, and it has no
  binary part (\<open>valid_json\<close>). The strings are well-formed because the lexer checks them byte by byte. The
  serializer succeeds on such values, and throws the type error 316 on the others.
\<close>

fun utf8_json :: "json \<Rightarrow> bool" where
  "utf8_json (JString s) = utf8_valid s"
| "utf8_json (JArray js) = (\<forall>j \<in> set js. utf8_json j)"
| "utf8_json (JObject kvs) = (\<forall>kv \<in> set kvs. utf8_valid (fst kv) \<and> utf8_json (snd kv))"
| "utf8_json j = True"

definition valid_json :: "json \<Rightarrow> bool" where
  "valid_json j \<longleftrightarrow> wf_json j \<and> printable j \<and> utf8_json j"

lemma valid_json_simps [simp]:
  "valid_json JNull" "valid_json (JBool b)" "valid_json (JInt i)" "valid_json (JUint n)" "valid_json (JFloat d)"
  "valid_json (JString s) \<longleftrightarrow> utf8_valid s"
  "valid_json (JArray js) \<longleftrightarrow> (\<forall>j \<in> set js. valid_json j)"
  "valid_json (JObject kvs) \<longleftrightarrow>
     obj_sorted kvs \<and> (\<forall>kv \<in> set kvs. utf8_valid (fst kv) \<and> valid_json (snd kv))"
  by (auto simp: valid_json_def)

subsection \<open>What the serializer accepts\<close>

lemma traverse_total: "(\<And>x. x \<in> set xs \<Longrightarrow> \<exists>y. f x = Inr y) \<Longrightarrow> \<exists>ys. traverse f xs = Inr ys"
proof (induction xs)
  case (Cons x xs)
  then show ?case by (metis bindE_simps(1) list.set_intros traverse.simps(2))
qed simp

lemma traverse_fails:
  assumes "\<And>x. x \<in> set xs \<Longrightarrow> (\<exists>y. f x = Inr y) \<or> (\<exists>m. f x = Inl (E m))" and "\<exists>x \<in> set xs. \<nexists>y. f x = Inr y"
  shows "\<exists>m. traverse f xs = Inl (E m)"
  using assms
proof (induction xs)
  case (Cons x xs)
  show ?case
  proof (cases "\<exists>y. f x = Inr y")
    case True
    then obtain y where y: "f x = Inr y" by blast
    with Cons.prems(2) have "\<exists>x \<in> set xs. \<nexists>y. f x = Inr y" by auto
    with Cons.IH Cons.prems(1) obtain m where "traverse f xs = Inl (E m)" by auto
    with y show ?thesis by auto
  next
    case False
    with Cons.prems(1) [of x] show ?thesis by auto
  qed
qed simp

lemma dump_float_total: "\<exists>t. dump_float d = Inr t"
proof (cases "is_finite d")
  case True
  then show ?thesis by (rule dump_float_finite) blast
next
  case False
  then show ?thesis by (simp add: dump_float_def is_finite_def split: fp.splits)
qed

lemma dump_escaped_cases:
  "if utf8_valid s then \<exists>t. dump_escaped STRICT False s = Inr t else \<exists>m. dump_escaped STRICT False s = Inl (Type_error 316 m)"
  using dump_escaped_valid [of s] dump_escaped_invalid [of s] by (auto simp: utf8_valid_def)

definition dumps_iff :: "bool \<Rightarrow> string result \<Rightarrow> bool" where
  "dumps_iff ok r \<longleftrightarrow> (if ok then \<exists>t. r = Inr t else \<exists>m. r = Inl (Type_error 316 m))"

lemma dumps_iff_traverse:
  assumes "\<And>x. x \<in> set xs \<Longrightarrow> dumps_iff (P x) (f x)"
  shows "dumps_iff (\<forall>x \<in> set xs. P x) (bindE (traverse f xs) (\<lambda>ts. Inr (g ts)))"
proof (cases "\<forall>x \<in> set xs. P x")
  case True
  with assms have "\<exists>ys. traverse f xs = Inr ys" by (intro traverse_total) (simp add: dumps_iff_def)
  with True show ?thesis by (auto simp: dumps_iff_def)
next
  case False
  with assms have "\<exists>m. traverse f xs = Inl (Type_error 316 m)"
    by (intro traverse_fails) (force simp: dumps_iff_def split: if_splits)+
  with False show ?thesis by (auto simp: dumps_iff_def)
qed

lemma dumps_iff_member:
  assumes "\<And>x. dump_escaped STRICT False k = Inr x \<Longrightarrow> dumps_iff b r"
  shows "dumps_iff (utf8_valid k \<and> b) (bindE (dump_escaped STRICT False k) (\<lambda>x. bindE r (\<lambda>t. Inr (g x t))))"
  using assms dump_escaped_cases [of k] by (auto simp: dumps_iff_def split: if_splits)

lemma dump_value_succeeds: "dumps_iff (utf8_json j) (dump_value j STRICT pretty False step cur)"
proof (induction j STRICT pretty False step cur rule: dump_value.induct)
  case (5 d pretty step cur)
  then show ?case using dump_float_total [of d] by (simp add: dumps_iff_def)
next
  case (6 s pretty step cur)
  then show ?case using dump_escaped_cases [of s] by (auto simp: dumps_iff_def split: if_splits)
next
  case (9 js pretty step cur)
  then show ?case
    using dumps_iff_traverse [of js utf8_json] by (cases "js = []"; cases pretty) (simp_all add: dumps_iff_def [of True])
next
  case (10 kvs pretty step cur)
  then show ?case
    by (cases "kvs = []"; cases pretty)
      (simp_all add: dumps_iff_def [of True] dumps_iff_traverse dumps_iff_member)
qed (simp_all add: dumps_iff_def)

subsection \<open>The token buffer\<close>

text \<open>\<open>adds_valid l l'\<close>: on the way from \<open>l\<close> to \<open>l'\<close> well-formed UTF-8 was added to the buffer.\<close>

definition adds_valid :: "lexer \<Rightarrow> lexer \<Rightarrow> bool" where
  "adds_valid l l' \<longleftrightarrow> (\<exists>b. utf8_valid b \<and> lx_token_buffer l' = lx_token_buffer l @ b)"

lemma utf8_valid_Nil [simp]: "utf8_valid []"
  by (simp add: utf8_valid_def)

lemma adds_valid_refl [simp]: "adds_valid l (lex_get l)"
  by (auto simp: adds_valid_def intro: exI [of _ "[]"])

lemma adds_valid_trans: "adds_valid l l1 \<Longrightarrow> adds_valid l1 l2 \<Longrightarrow> adds_valid l l2"
  unfolding adds_valid_def by (metis append_assoc utf8_valid_append)

lemma adds_valid_ascii: "of_char c < (0x80 :: nat) \<Longrightarrow> adds_valid l (lex_add c (lex_get l))"
  unfolding adds_valid_def by (rule exI [of _ "[c]"]) (simp add: utf8_valid_ascii)

lemma bytes_in_ranges_added:
  "bytes_in_ranges rs l = (True, l') \<Longrightarrow>
     \<exists>t. list_all2 byte_in rs t \<and> lx_token_buffer l' = lx_token_buffer l @ t"
proof (induction rs arbitrary: l)
  case (Cons r rs)
  from Cons.prems obtain c where c: "byte_in r c" "bytes_in_ranges rs (lex_add c (lex_get l)) = (True, l')"
    by (auto simp: Let_def split: option.splits if_splits)
  from Cons.IH [OF c(2)] obtain t where
    "list_all2 byte_in rs t" "lx_token_buffer l' = lx_token_buffer (lex_add c (lex_get l)) @ t" by blast
  with c(1) show ?case by (intro exI [of _ "c # t"]) simp
qed simp

lemma codepoint_digits_buffer:
  "codepoint_digits fs cp l = (cp', l') \<Longrightarrow> 0 \<le> cp \<Longrightarrow> lx_token_buffer l' = lx_token_buffer l \<and>
     (cp' = - 1 \<or> (0 \<le> cp' \<and> cp' \<le> cp + 15 * sum_list (map (\<lambda>f. 2 ^ f) fs)))"
proof (induction fs arbitrary: cp l)
  case (Cons f fs)
  show ?case
  proof (cases "case lx_current (lex_get l) of None \<Rightarrow> None | Some c \<Rightarrow> hex_value c")
    case None
    with Cons.prems show ?thesis by (auto simp: Let_def)
  next
    case (Some d)
    then have d: "d < 16" by (auto split: option.splits dest: hex_value_bound)
    from Some Cons.prems have "codepoint_digits fs (cp + int d * 2 ^ f) (lex_get l) = (cp', l')" by (simp add: Let_def)
    from Cons.IH [OF this] Cons.prems(2) have IH: "lx_token_buffer l' = lx_token_buffer l \<and>
       (cp' = - 1 \<or> (0 \<le> cp' \<and> cp' \<le> cp + int d * 2 ^ f + 15 * sum_list (map (\<lambda>f. 2 ^ f) fs)))" by simp
    have "int d * 2 ^ f \<le> 15 * 2 ^ f" using d by (intro mult_right_mono) simp_all
    with IH show ?thesis unfolding list.map sum_list.Cons distrib_left by linarith
  qed
qed simp

lemma get_codepoint_buffer:
  assumes "get_codepoint l = (cp, l')" and "cp \<noteq> - 1"
  shows "lx_token_buffer l' = lx_token_buffer l" "0 \<le> cp" "cp < 0x10000"
  using codepoint_digits_buffer [OF assms(1) [unfolded get_codepoint_def]] assms(2) by simp_all

lemma add_codepoint_valid:
  assumes "0 \<le> cp" and "cp < 0x110000" and "\<not> (0xD800 \<le> cp \<and> cp \<le> 0xDFFF)"
    and "lx_token_buffer l' = lx_token_buffer l"
  shows "adds_valid l (add_codepoint cp l')"
proof -
  have "lx_token_buffer (foldl (\<lambda>l c. lex_add c l) l' cs) = lx_token_buffer l' @ cs" for cs
    by (induction cs arbitrary: l') simp_all
  moreover have "utf8_char (codepoint_bytes (nat cp))"
    using assms(1-3) by (intro codepoint_bytes_valid) (auto simp: high_surrogate_def low_surrogate_def)
  ultimately show ?thesis
    unfolding adds_valid_def add_codepoint_def using assms(4) utf8_valid_char by auto
qed

lemma scan_unicode_valid: "scan_unicode l = (True, l') \<Longrightarrow> adds_valid l l'"
proof -
  obtain cp1 l1 where 1: "get_codepoint l = (cp1, l1)" by fastforce
  obtain cp2 l4 where 2: "get_codepoint (lex_get (lex_get l1)) = (cp2, l4)" by fastforce
  assume "scan_unicode l = (True, l')"
  then have cp1: "cp1 \<noteq> - 1" and cases:
    "(0xD800 \<le> cp1 \<and> cp1 \<le> 0xDBFF \<and> cp2 \<noteq> - 1 \<and> 0xDC00 \<le> cp2 \<and> cp2 \<le> 0xDFFF \<and>
        l' = add_codepoint (cp1 * 1024 + cp2 - 0x35FDC00) l4) \<or>
     (\<not> (0xD800 \<le> cp1 \<and> cp1 \<le> 0xDBFF) \<and> \<not> (0xDC00 \<le> cp1 \<and> cp1 \<le> 0xDFFF) \<and> l' = add_codepoint cp1 l1)"
    using 1 2 by (auto simp: scan_unicode_def Let_def split: if_splits)
  note 1 = get_codepoint_buffer [OF 1 cp1]
  from cases show "adds_valid l l'"
  proof (elim disjE conjE)
    assume "cp2 \<noteq> - 1" and r: "0xD800 \<le> cp1" "cp1 \<le> 0xDBFF" "0xDC00 \<le> cp2" "cp2 \<le> 0xDFFF"
      and l': "l' = add_codepoint (cp1 * 1024 + cp2 - 0x35FDC00) l4"
    from get_codepoint_buffer [OF 2 this(1)] 1 have "lx_token_buffer l4 = lx_token_buffer l" by simp
    with r show ?thesis unfolding l' by (intro add_codepoint_valid) simp_all
  next
    assume "\<not> (0xD800 \<le> cp1 \<and> cp1 \<le> 0xDBFF)" "\<not> (0xDC00 \<le> cp1 \<and> cp1 \<le> 0xDFFF)" "l' = add_codepoint cp1 l1"
    with 1 show ?thesis by (auto intro!: add_codepoint_valid)
  qed
qed

lemma scan_escape_valid:
  assumes "scan_escape l = (True, l')"
  shows "adds_valid l l'"
proof -
  obtain c where c: "lx_current (lex_get l) = Some c"
    using assms by (cases "lx_current (lex_get l)") (simp_all add: scan_escape_def Let_def)
  consider (unicode) "c = CHR ''u''" "scan_unicode (lex_get l) = (True, l')"
    | (simple) x where "l' = lex_add x (lex_get l)" "of_char x < (0x80 :: nat)"
    using assms c by (auto simp: scan_escape_def Let_def backslash_def split: if_splits)
  then show ?thesis
  proof cases
    case unicode
    then show ?thesis using scan_unicode_valid adds_valid_trans adds_valid_refl by blast
  next
    case simple
    then show ?thesis by (simp add: adds_valid_ascii)
  qed
qed

lemma scan_string_loop_valid: "scan_string_loop l = (TOK_value_string, l') \<Longrightarrow> adds_valid l l'"
proof (induction l rule: measure_induct_rule [of lex_left])
  case (less l)
  then obtain c where c: "lx_current (lex_get l) = Some c"
    by (cases "lx_current (lex_get l)") (simp_all add: scan_string_loop_end)
  note step = less.prems [unfolded scan_string_loop_char [OF c]]
  have continue: "adds_valid l l'" if "adds_valid l x" "lex_left x < lex_left l" "scan_string_loop x = (TOK_value_string, l')" for x
    using that less.IH [of x] adds_valid_trans by blast
  consider (quote) "l' = lex_get l"
    | (escape) x where "scan_escape (lex_get l) = (True, x)" "scan_string_loop x = (TOK_value_string, l')"
    | (ascii) "of_char c < (0x80 :: nat)" "scan_string_loop (add_current (lex_get l)) = (TOK_value_string, l')"
    | (bytes) rs x where "\<not> of_char c < (0x80 :: nat)" "string_byte_ranges (of_char c) = Some rs"
        "next_byte_in_range rs (lex_get l) = (True, x)" "scan_string_loop x = (TOK_value_string, l')"
    using step by (auto split: if_splits option.splits simp: prod_eq_iff)
  then show ?case
  proof cases
    case quote
    then show ?thesis by simp
  next
    case escape
    then show ?thesis
      using lex_left_after [OF c escape(1) lex_left_scan_escape] scan_escape_valid [OF escape(1)]
      by (intro continue) (auto intro: adds_valid_trans [OF adds_valid_refl])
  next
    case ascii
    then show ?thesis
      using lex_left_get_less [OF c] add_current_Some [OF c] adds_valid_ascii [of c l]
      by (intro continue [of "add_current (lex_get l)"]) simp_all
  next
    case bytes
    then obtain t where "list_all2 byte_in rs t" "lx_token_buffer x = lx_token_buffer l @ c # t"
      using bytes_in_ranges_added [of rs "lex_add c (lex_get l)" x]
      by (auto simp: next_byte_in_range_def add_current_Some [OF c])
    moreover from this bytes have "utf8_char (c # t)" by (simp add: string_ranges_tails)
    ultimately have "adds_valid l x" unfolding adds_valid_def using utf8_valid_char by blast
    with bytes lex_left_after [OF c bytes(3) lex_left_next_byte] show ?thesis by (intro continue) simp_all
  qed
qed

text \<open>Only \<open>scan_string\<close> gives the token of a string.\<close>

definition number_tokens :: "token_type set" where
  "number_tokens = {TOK_value_unsigned, TOK_value_integer, TOK_value_float, TOK_parse_error}"

lemma number_tokens_done: "fst (scan_number_done ty l) \<in> number_tokens"
  by (simp add: scan_number_done_def scan_number_float_def number_tokens_def Let_def split: option.split)

lemma number_tokens_error [simp]: "TOK_parse_error \<in> number_tokens"
  by (simp add: number_tokens_def)

lemma number_tokens_any2: "fst (scan_number_any2 ty l) \<in> number_tokens"
  by (induction ty l rule: scan_number_any2.induct)
    (subst scan_number_any2.simps, simp add: Let_def number_tokens_done)

lemma number_tokens_exponent: "fst (scan_number_exponent l) \<in> number_tokens"
  by (simp add: scan_number_exponent_def scan_number_sign_def Let_def number_tokens_any2)

lemma number_tokens_decimal2: "fst (scan_number_decimal2 l) \<in> number_tokens"
  by (induction l rule: scan_number_decimal2.induct)
    (subst scan_number_decimal2.simps, simp add: Let_def number_tokens_done number_tokens_exponent)

lemma number_tokens_decimal1: "fst (scan_number_decimal1 l) \<in> number_tokens"
  by (simp add: scan_number_decimal1_def Let_def number_tokens_decimal2)

lemma number_tokens_any1: "fst (scan_number_any1 ty l) \<in> number_tokens"
  by (induction ty l rule: scan_number_any1.induct)
    (subst scan_number_any1.simps, simp add: Let_def number_tokens_done number_tokens_exponent number_tokens_decimal1)

lemma number_tokens_number: "fst (scan_number l) \<in> number_tokens"
  by (simp add: scan_number_def scan_number_minus_def scan_number_zero_def Let_def number_tokens_any1
      number_tokens_decimal1 number_tokens_exponent number_tokens_done)

lemma literal_token: "scan_literal lit ty l = (t, l') \<Longrightarrow> t = ty \<or> t = TOK_parse_error"
proof -
  have "scan_literal_rest cs ty l = (t, l') \<Longrightarrow> t = ty \<or> t = TOK_parse_error" for cs
    by (induction cs arbitrary: l) (auto simp: Let_def split: if_splits)
  then show "scan_literal lit ty l = (t, l') \<Longrightarrow> ?thesis" by (simp add: scan_literal_def)
qed

lemma scan_string_token_valid:
  assumes "scan l = (TOK_value_string, l')"
  shows "utf8_valid (lx_token_buffer l')"
proof -
  from assms obtain l1 where "scan_token l1 = (TOK_value_string, l')"
    by (auto simp: scan_def split: prod.splits if_splits)
  then have "scan_string l1 = (TOK_value_string, l')"
    using number_tokens_number [of l1] literal_token
    by (auto simp: scan_token_def number_tokens_def dest: literal_token split: option.splits if_splits)
  then have "adds_valid (lex_reset l1) l'" by (auto simp: scan_string_def intro: scan_string_loop_valid)
  then show ?thesis by (simp add: adds_valid_def)
qed

subsection \<open>The parser\<close>

fun valid_frame :: "frame \<Rightarrow> bool" where
  "valid_frame (Array_frame js) = (\<forall>j \<in> set js. valid_json j)"
| "valid_frame (Object_frame kvs k) = (valid_json (JObject kvs) \<and> utf8_valid k)"

definition valid_dom :: "dom \<Rightarrow> bool" where
  "valid_dom d \<longleftrightarrow> valid_json (dom_root d) \<and> list_all valid_frame (dom_stack d)"

lemma valid_obj_put:
  assumes "valid_json (JObject m)" and "utf8_valid k" and "valid_json v"
  shows "valid_json (JObject (obj_put k v m))"
proof -
  have "kv \<in> set (obj_put k v m) \<Longrightarrow> kv \<in> set m \<or> kv = (k, v)" for kv
    by (induction m rule: obj_put.induct [of _ k v]) (auto split: if_splits)
  with assms show ?thesis by (fastforce simp: obj_put_sorted)
qed

lemma valid_frame_value: "valid_frame f \<Longrightarrow> valid_json (frame_value f)"
  by (cases f) simp_all

lemma valid_frame_put: "valid_frame f \<Longrightarrow> valid_json v \<Longrightarrow> valid_frame (frame_put v f)"
  using valid_obj_put by (cases f) (auto simp del: valid_json_simps(8))

lemma valid_handle_value: "valid_dom d \<Longrightarrow> valid_json v \<Longrightarrow> valid_dom (handle_value v d)"
  by (auto simp: valid_dom_def handle_value_def valid_frame_put split: list.split)

lemma valid_dom_end:
  assumes "valid_dom d"
  shows "valid_dom (dom_end d)"
proof (cases "dom_stack d")
  case (Cons f fs)
  with assms have "valid_dom (d\<lparr>dom_stack := fs\<rparr>)" "valid_json (frame_value f)"
    by (simp_all add: valid_dom_def valid_frame_value)
  with Cons show ?thesis by (simp add: dom_end_def valid_handle_value)
qed (use assms in \<open>simp add: dom_end_def\<close>)

lemma valid_dom_start: "valid_dom d \<Longrightarrow> valid_dom (dom_start_object d)" "valid_dom d \<Longrightarrow> valid_dom (dom_start_array d)"
  by (simp_all add: valid_dom_def dom_start_object_def dom_start_array_def)

lemma valid_dom_key: "valid_dom d \<Longrightarrow> utf8_valid k \<Longrightarrow> valid_dom (dom_key k d)"
  using valid_obj_put [of _ k JNull]
  by (auto simp: valid_dom_def dom_key_def split: list.split frame.split simp del: valid_json_simps(8))

lemma valid_dom_result: "valid_dom d \<Longrightarrow> valid_json (dom_result d)"
proof -
  have "valid_json v \<Longrightarrow> list_all valid_frame fs \<Longrightarrow> valid_json (close_frames v fs)" for v fs
    by (induction v fs rule: close_frames.induct) (simp_all add: valid_frame_value valid_frame_put)
  then show "valid_dom d \<Longrightarrow> ?thesis" by (auto simp: dom_result_def valid_dom_def valid_frame_value split: list.split)
qed

definition valid_parser :: "json_parser \<Rightarrow> bool" where
  "valid_parser p \<longleftrightarrow> valid_dom (ps_dom p) \<and>
     (ps_last_token p = TOK_value_string \<longrightarrow> utf8_valid (lx_token_buffer (ps_lexer p)))"

definition syntax_exception :: "cxx_error \<Rightarrow> bool" where
  "syntax_exception e \<longleftrightarrow> (\<exists>m. e = Parse_error m \<or> e = Out_of_range 406 m)"

lemma syntax_exceptions [simp]: "syntax_exception (parse_error_101 t c p)" "syntax_exception (number_overflow p)"
  by (simp_all add: syntax_exception_def parse_error_101_def number_overflow_def)

text \<open>A token read leaves the dom alone; its string is well-formed.\<close>

lemma valid_get_token: "valid_dom (ps_dom p) \<Longrightarrow> valid_parser (get_token p)"
  using scan_string_token_valid [of "ps_lexer p"]
  by (cases "scan (ps_lexer p)") (auto simp: valid_parser_def get_token_def)

definition valid_step :: "parse_step \<times> json_parser \<Rightarrow> bool" where
  "valid_step r \<longleftrightarrow> (case r of
       (Next_value ss, p) \<Rightarrow> valid_parser p
     | (Failed e, p) \<Rightarrow> syntax_exception e \<and> valid_dom (ps_dom p)
     | (_, p) \<Rightarrow> valid_dom (ps_dom p))"

lemma valid_parse_key: "valid_parser p \<Longrightarrow> valid_step (parse_key ss p)"
  by (auto simp: parse_key_def valid_step_def Let_def valid_parser_def [of p] valid_dom_key intro!: valid_get_token)

lemma valid_parse_token: "valid_parser p \<Longrightarrow> valid_step (parse_token ss p)"
proof -
  assume p: "valid_parser p"
  then have d: "valid_dom (ps_dom p)" by (simp add: valid_parser_def)
  have 1: "valid_step (parse_value v p)" if "valid_json v" for v
    using d that by (simp add: parse_value_def valid_step_def valid_handle_value)
  show ?thesis
  proof (cases "ps_last_token p")
    case TOK_value_string
    with p show ?thesis by (simp add: parse_token_def 1 valid_parser_def)
  next
    case TOK_begin_object
    with d show ?thesis
      by (auto simp: parse_token_def Let_def valid_step_def [of "(Evaluate_state, _)"] valid_dom_start
          intro!: valid_dom_end valid_parse_key valid_get_token)
  next
    case TOK_begin_array
    with d show ?thesis
      by (auto simp: parse_token_def Let_def valid_step_def valid_dom_start intro!: valid_dom_end valid_get_token)
  next
    case TOK_value_float
    with d show ?thesis by (simp add: parse_token_def 1, simp add: valid_step_def)
  qed (use d in \<open>simp_all add: parse_token_def 1, simp_all add: valid_step_def\<close>)
qed

lemma valid_parse_state: "valid_dom (ps_dom p) \<Longrightarrow> valid_step (parse_state ss p)"
proof (induction ss p rule: parse_state.induct)
  case (3 states p)
  then show ?case
    by (auto simp: Let_def valid_step_def [of "(Skip_to_state _, _)"] valid_step_def [of "(Failed _, _)"]
        intro!: valid_dom_end valid_parse_key valid_get_token)
qed (auto simp: Let_def valid_step_def intro!: valid_dom_end valid_get_token)

lemma valid_loop:
  "(if skip then valid_dom (ps_dom p) else valid_parser p) \<Longrightarrow>
     valid_dom (ps_dom (fst (sax_parse_loop skip ss p))) \<and>
     (\<forall>e. snd (sax_parse_loop skip ss p) = Some e \<longrightarrow> syntax_exception e)"
proof (induction skip ss p rule: sax_parse_loop.induct)
  case (1 skip ss p)
  obtain s1 p1 where 1: "(if skip then (Evaluate_state, p) else parse_token ss p) = (s1, p1)" by fastforce
  with "1.prems" valid_parse_token [of p ss] have v1: "valid_step (s1, p1)"
    by (auto simp: valid_step_def split: if_splits)
  obtain s2 p2 where 2: "parse_state ss p1 = (s2, p2)" by fastforce
  have v2: "valid_step (s2, p2)" if "s1 = Evaluate_state"
    using v1 valid_parse_state [of p1 ss] that 2 by (simp add: valid_step_def)
  note IH = "1.IH" [OF 1 [symmetric]]
  show ?case
  proof (cases s1)
    case (Next_value ss')
    with IH(1) [OF this] v1 show ?thesis
      by (subst (1 2) sax_parse_loop.simps) (simp add: 1 valid_step_def)
  next
    case Evaluate_state
    note v2 = v2 [OF this]
    show ?thesis
    proof (cases s2)
      case (Next_value ss')
      with IH(2) [OF Evaluate_state 2 [symmetric] this] v2 Evaluate_state show ?thesis
        by (subst (1 2) sax_parse_loop.simps) (simp add: 1 2 valid_step_def)
    next
      case (Skip_to_state ss')
      with IH(3) [OF Evaluate_state 2 [symmetric] this] v2 Evaluate_state show ?thesis
        by (subst (1 2) sax_parse_loop.simps) (simp add: 1 2 valid_step_def)
    qed (use v2 Evaluate_state in \<open>subst (1 2) sax_parse_loop.simps, simp add: 1 2 valid_step_def\<close>)+
  qed (use v1 in \<open>subst (1 2) sax_parse_loop.simps, simp add: 1 valid_step_def\<close>)+
qed

lemma json_parse_valid:
  assumes "valid_json r" and "json_parse strict s r = (j, e)"
  shows "valid_json j" "e = Some x \<Longrightarrow> syntax_exception x"
proof -
  have "valid_parser (parser_new s r)"
    unfolding parser_new_def by (rule valid_get_token) (simp add: valid_dom_def assms(1))
  from valid_loop [of False "parser_new s r" "[]"] this assms(2) show "valid_json j" "e = Some x \<Longrightarrow> syntax_exception x"
    by (auto simp: json_parse_def sax_parse_internal_def Let_def valid_dom_result split: prod.splits option.splits if_splits)
qed

end
