(* ===== verification/Json_Wire.thy ===== *)
theory Json_Wire
  imports Json_Valid
begin

section \<open>JSON texts as they go over the wire\<close>

text \<open>
  The serializer and the parser together: what \<open>dump\<close> writes contains no NUL, so that it survives being passed
  as a C string, and is read back as the value (\<open>json_dump_reads_back\<close>).
\<close>

subsection \<open>Texts have no NUL\<close>

definition no_nul :: "string \<Rightarrow> bool" where
  "no_nul s \<longleftrightarrow> CHR 0x00 \<notin> set s"

lemma no_nul_simps [simp]: "no_nul []" "no_nul (c # s) \<longleftrightarrow> c \<noteq> CHR 0x00 \<and> no_nul s"
  "no_nul (s @ t) \<longleftrightarrow> no_nul s \<and> no_nul t"
  by (auto simp: no_nul_def)

lemma no_nul_all: "list_all P s \<Longrightarrow> \<not> P (CHR 0x00) \<Longrightarrow> no_nul s"
  by (auto simp: no_nul_def list_all_iff)

lemma no_nul_digits: "all_digits ds \<Longrightarrow> no_nul ds"
  unfolding all_digits_def by (erule no_nul_all) code_simp

lemma no_nul_white: "white w \<Longrightarrow> no_nul w"
  unfolding white_def by (erule no_nul_all) code_simp

lemma no_nul_tails: "utf8_tails b = Some rs \<Longrightarrow> list_all2 byte_in rs t \<Longrightarrow> no_nul t"
  by (auto simp: utf8_tails_def byte_in_def list_all2_Cons1 split: if_splits)

lemma no_nul_hex4: "hex4 h n \<Longrightarrow> no_nul h"
proof (rule no_nul_all)
  assume "hex4 h n"
  then have "set (map hex_value h) \<subseteq> range Some" by (auto simp: hex4_def)
  then show "list_all (\<lambda>c. hex_value c \<noteq> None) h" by (force simp: list_all_iff)
  show "\<not> hex_value (CHR 0x00) \<noteq> None" by code_simp
qed

lemma no_nul_char: "char_text cs t \<Longrightarrow> no_nul t"
proof (induction rule: char_text.induct)
  case (char_plain c t)
  then show ?case by (auto intro: no_nul_tails split: option.splits)
next
  case (char_short x c)
  then show ?case by (auto simp: simple_escape_def backslash_def split: if_splits)
qed (auto simp: no_nul_hex4 backslash_def)

lemma no_nul_string: "string_text x t \<Longrightarrow> no_nul t"
  by (induction rule: string_text.induct) (simp_all add: no_nul_char)

lemma no_nul_number: "number_text j t \<Longrightarrow> no_nul t"
  by (erule number_text.cases)
    (auto simp: number_parts_def whole_text_def fraction_text_def exponent_text_def no_nul_digits)

lemma no_nul_json: "json_text j t \<Longrightarrow> no_nul t"
  by (induction rule: json_text_elements_text_members_text.inducts(1) [where ?P2.0 = "\<lambda>js t. no_nul t" and ?P3.0 = "\<lambda>kvs t. no_nul t"])
    (simp_all add: no_nul_number no_nul_string no_nul_white quoted_def)

subsection \<open>Writing and reading back\<close>

lemma valid_reread: "valid_json j \<Longrightarrow> valid_json (reread j)"
  by (induction j rule: reread.induct) (auto simp: obj_sorted_def comp_def)

lemma json_dump_cases: "dumps_iff (utf8_json j) (json_dump indent j)"
  by (simp add: json_dump_def dump_value_succeeds)

lemma json_dump_valid:
  assumes "valid_json j"
  obtains t where "json_dump indent j = Inr t" "json_text (reread j) t"
  using assms json_dump_cases [of j indent]
  by (auto simp: dumps_iff_def valid_json_def json_dump_def intro: dump_value_text split: if_splits)

lemma json_read_braces [simp]: "json_read ''{}'' JNull = (JObject [], None)"
  by code_simp

lemma white_number_ends: "white w \<Longrightarrow> number_ends w"
  by (cases w) (auto simp: number_ends_def is_whitespace_def is_digit_def less_eq_char_def)

text \<open>C8: What the serializer writes the parser reads back: for every value whose strings are well-formed
  UTF-8 and that has no binary part, compact or with any indentation, \<open>dump\<close> succeeds, its text has no NUL,
  and \<open>operator>>\<close> reads from it, whatever follows that does not continue a number, the value that was
  written: every string, boolean, member, element and finite double exactly, a signed integer that is not
  negative as the unsigned one, an infinity or NaN as null.\<close>

theorem json_dump_reads_back:
  assumes "valid_json j" and "number_ends s"
  shows "\<exists>t. json_dump indent j = Inr t \<and> no_nul t \<and> json_read (t @ s) r = (reread j, None)"
proof -
  obtain t where t: "json_dump indent j = Inr t" "json_text (reread j) t" using assms(1) by (rule json_dump_valid)
  moreover have "json_read (t @ s) r = (reread j, None)"
    using json_text_read [OF t(2), of "[]" s r] assms(2) by simp
  ultimately show ?thesis using no_nul_json by blast
qed

theorem json_dump_reads_back_witness:
  "\<exists>t. json_dump 2 (JObject [(''ids'', JArray [JInt 5, JFloat 0x3FF8000000000000]), (''ok'', JBool True)]) = Inr t \<and>
     json_read (t @ ''!'') JNull =
       (JObject [(''ids'', JArray [JUint 5, JFloat 0x3FF8000000000000]), (''ok'', JBool True)], None)"
proof -
  let ?j = "JObject [(''ids'', JArray [JInt 5, JFloat 0x3FF8000000000000]), (''ok'', JBool True)]"
  have "valid_json ?j" by (simp add: utf8_valid_ascii obj_sorted_def)
  moreover have "number_ends ''!''" by code_simp
  moreover have "reread ?j = JObject [(''ids'', JArray [JUint 5, JFloat 0x3FF8000000000000]), (''ok'', JBool True)]"
    by (simp add: is_finite_def fp_decode_def)
  ultimately show ?thesis using json_dump_reads_back [of ?j "''!''" 2 JNull] by auto
qed

text \<open>\<open>dump\<close> fails in one way: it throws the type error 316 exactly when some string or key of the value
  is not well-formed UTF-8, and succeeds on every other value, binary parts and NaN included.\<close>

lemma json_dump_fails_on_bad_utf8:
  "if utf8_json j then \<exists>t. json_dump indent j = Inr t else \<exists>m. json_dump indent j = Inl (Type_error 316 m)"
  using json_dump_cases [of j indent] by (simp add: dumps_iff_def)

text \<open>C11: The type of what the parser leaves: for every input, well-formed or not, and also when it throws, the
  variable holds a value with its members in order, with well-formed UTF-8 in every string and key, and
  without binary parts (when it held such a value before); and it throws nothing but a parse error or the
  number overflow 406.\<close>

theorem json_read_is_valid:
  assumes "valid_json r" and "json_read s r = (j, e)"
  shows "valid_json j \<and> (\<forall>x. e = Some x \<longrightarrow> (\<exists>m. x = Parse_error m \<or> x = Out_of_range 406 m))"
  using json_parse_valid [OF assms(1), of False s j e] assms(2)
  by (auto simp: json_read_def syntax_exception_def)

theorem json_read_is_valid_witness:
  "valid_json (fst (json_read [CHR ''['', CHR 0x22, CHR 0xC3, CHR 0xA9, CHR 0x22, CHR '','', CHR 0x22, CHR 0xC3] JNull))"
proof -
  let ?s = "[CHR ''['', CHR 0x22, CHR 0xC3, CHR 0xA9, CHR 0x22, CHR '','', CHR 0x22, CHR 0xC3]"
  obtain j e where "json_read ?s JNull = (j, e)" by fastforce
  from json_read_is_valid [OF _ this] this show ?thesis by simp
qed

text \<open>C10: A double survives the text: for every finite double, zeros and subnormal numbers included, the
  digits Grisu2 finds and \<open>format_buffer\<close> lays out form a JSON number with a fraction or an exponent, and
  \<open>strtod\<close> gives the same double back, bit for bit.\<close>

theorem double_round_trip:
  assumes "is_finite d"
  shows "\<exists>t. dtoa_to_chars d = Some t \<and> number_text (JFloat d) t \<and> strtod t = d"
proof -
  obtain t where "dump_float d = Inr t" "number_text (JFloat d) t" "strtod t = d" using assms by (rule dump_float_finite)
  then show ?thesis using assms by (auto simp: dump_float_def is_finite_def split: fp.splits option.splits)
qed

theorem double_round_trip_witness:
  "\<exists>t. dtoa_to_chars 0x3FB999999999999A = Some t \<and> strtod t = 0x3FB999999999999A"
proof -
  have "is_finite 0x3FB999999999999A" by (simp add: is_finite_def fp_decode_def)
  from double_round_trip [OF this] show ?thesis by blast
qed

text \<open>C12: The loops of Grisu2 end: for the bits of every positive finite double the search for the power of ten
  stays inside the table, the normalisation and the two digit loops stop, and what comes out is a sequence
  of digits without a leading zero whose decimal value lies strictly between the points half way to the
  neighbours of the double.\<close>

theorem grisu2_terminates:
  assumes "0 < unat bits" and "unat bits < 2047 * 2 ^ 52"
  shows "\<exists>buf dexp. grisu2 bits = Some (buf, dexp) \<and> all_digits buf \<and> buf \<noteq> [] \<and> hd buf \<noteq> CHR ''0'' \<and>
    half_below (unat bits) < real (digits_value buf) * 10 powi dexp \<and>
    real (digits_value buf) * 10 powi dexp < half_above (unat bits)"
  using grisu2_interval [OF assms] by (metis all_digits_def)

theorem grisu2_terminates_witness: "\<exists>buf dexp. grisu2 (1 :: 64 word) = Some (buf, dexp) \<and> buf \<noteq> []"
proof -
  have "0 < unat (1 :: 64 word)" "unat (1 :: 64 word) < 2047 * 2 ^ 52" by simp_all
  from grisu2_terminates [OF this] show ?thesis by blast
qed

end
