(* ===== verification/Sender.thy ===== *)
theory Sender
  imports Trees Url Options Types_Facts Json_Wire
begin

section \<open>The sender: one request and its reply\<close>

text \<open>
  \<open>sender.h\<close> up to \<open>get_me\<close>: the sender's state, \<open>send_json\<close> and the three wrappers that read a reply.
  What is not part of the library's own code is the parameter \<open>network\<close>, the HTTPS exchange: the
  reply as a function of every request sent so far. A call is a
  function on the hist of requests sent; its result is a value or an exception. The model is the
  release build (\<open>NDEBUG\<close>), without the debug output.
\<close>

subsection \<open>Requests, replies and the world\<close>

record request =
  req_host :: string
  req_port :: "16 word"
  req_connection_timeout :: nat
  req_read_timeout :: "32 word"
  req_target :: string
  req_body :: string
  req_content_type :: string

datatype http_reply =
    No_reply string
  | Reply nat string

text \<open>The HTTPS exchange: what the request sent last is answered with, after all the requests so far.\<close>

type_synonym network = "request list \<Rightarrow> http_reply"

type_synonym 'a api = "request list \<Rightarrow> 'a result \<times> request list"

definition api_lift :: "'a result \<Rightarrow> 'a api" where
  "api_lift m = (\<lambda>hist. (m, hist))"

definition api_bind :: "'a api \<Rightarrow> ('a \<Rightarrow> 'b api) \<Rightarrow> 'b api" where
  "api_bind m f = (\<lambda>hist. case m hist of (Inl e, hist') \<Rightarrow> (Inl e, hist') | (Inr x, hist') \<Rightarrow> f x hist')"

definition api_post :: "network \<Rightarrow> request \<Rightarrow> http_reply api" where
  "api_post net r = (\<lambda>hist. (Inr (net (hist @ [r])), hist @ [r]))"

lemma api_bind_lift [simp]:
  "api_bind (api_lift (Inr x)) f = f x" "api_bind (api_lift (Inl e)) f = api_lift (Inl e)"
  by (simp_all add: api_bind_def api_lift_def)

lemma api_bind_assoc: "api_bind (api_bind m f) g = api_bind m (\<lambda>x. api_bind (f x) g)"
  by (rule ext) (simp add: api_bind_def split: prod.split sum.split)

lemma api_bind_lift_right: "api_bind m (\<lambda>x. api_lift (Inr x)) = m"
  by (rule ext) (simp add: api_bind_def api_lift_def split: prod.split sum.split)

subsection \<open>The sender\<close>

record sender =
  sender_token :: string
  sender_endpoint :: string
  sender_user_agent :: string
  sender_options :: option_set

definition outgoing_proto :: "bool \<Rightarrow> string" where
  "outgoing_proto disable_ssl = (if disable_ssl then ''http'' else ''https'')"

definition sender_new :: "bool \<Rightarrow> string \<Rightarrow> string \<Rightarrow> sender" where
  "sender_new disable_ssl this_token this_user_agent =
     \<lparr>sender_token = this_token,
      sender_endpoint = outgoing_proto disable_ssl @ ''://api.telegram.org/bot'' @ this_token @ ''/'',
      sender_user_agent = this_user_agent,
      sender_options = set_option (Request_method ''POST'') (set_option (User_agent this_user_agent)
        (set_option (Max_redirects 0) option_set_new))\<rparr>"

definition unable_to_open :: "url \<Rightarrow> string \<Rightarrow> cxx_error" where
  "unable_to_open u why = Runtime_error (''Sender unable to open URL '' @ url_to_string u @ '': '' @ why)"

text \<open>The description of an error reply: an unparsable body is stored as the description.\<close>

definition error_description :: "string \<Rightarrow> string result" where
  "error_description body =
     (let (tree, e) = json_read body JNull
      in bindE (if e \<noteq> None then json_put ''description'' (JString body) tree else Inr tree) (\<lambda>t.
         bindE (json_index t ''description'') get_string))"

definition handle_reply :: "url \<Rightarrow> http_reply \<Rightarrow> json result" where
  "handle_reply u reply =
     (case reply of
        No_reply why \<Rightarrow> Inl (unable_to_open u why)
      | Reply status body \<Rightarrow>
          if status \<noteq> 200 then
            bindE (error_description body) (\<lambda>d.
              Inl (unable_to_open u (decimal status @ '', error: '' @ d)))
          else if body = [] then Inr JNull
          else Inr (fst (json_read body JNull)))"

definition send_json :: "network \<Rightarrow> sender \<Rightarrow> string \<Rightarrow> json \<Rightarrow> 32 word \<Rightarrow> json api" where
  "send_json net s method tree poll_timeout =
     api_bind (api_lift (url_from_string (sender_endpoint s @ method))) (\<lambda>u.
     api_bind (api_lift (url_port u)) (\<lambda>p.
     api_bind (api_lift (json_dump (- 1) tree)) (\<lambda>body.
     api_bind (api_post net
       \<lparr>req_host = host u, req_port = p, req_connection_timeout = 15, req_read_timeout = poll_timeout,
        req_target = c_str (url_path u @ ''?'' @ query u), req_body = c_str body,
        req_content_type = ''application/json''\<rparr>) (\<lambda>reply.
     api_lift (handle_reply u reply)))))"

text \<open>\<open>reply_tree["ok"] != true\<close>: the access inserts a missing member, and throws on a reply that is
  neither null nor an object, outside every handler.\<close>

definition check_ok :: "json \<Rightarrow> (json \<times> bool) result" where
  "check_ok reply =
     bindE (json_upd ''ok'' Inr reply) (\<lambda>reply'.
     bindE (json_index reply' ''ok'') (\<lambda>v. Inr (reply', json_eq_bool v True)))"

text \<open>A reply read with \<open>read\<close>, which is one of the \<open>make_optional\<close> helpers.\<close>

definition read_reply ::
    "(json \<Rightarrow> string \<Rightarrow> 'a option result) \<Rightarrow> json \<Rightarrow> 'a option result" where
  "read_reply read reply =
     bindE (check_ok reply) (\<lambda>(tree, ok).
       if \<not> ok then bindE (json_dump 2 tree) (\<lambda>_. Inr None)
       else case read tree ''result'' of
         Inr x \<Rightarrow> Inr x
       | Inl e \<Rightarrow>
           if is_std_exception e then bindE (json_dump 2 tree) (\<lambda>_. Inr None) else Inl e)"

definition read_bool_reply :: "json \<Rightarrow> bool result" where
  "read_bool_reply reply =
     bindE (check_ok reply) (\<lambda>(tree, ok).
       if \<not> ok then bindE (json_dump 2 tree) (\<lambda>_. Inr False)
       else at_bool tree ''result'')"

definition default_poll_timeout :: "32 word" where
  "default_poll_timeout = 30"

definition send_json_and_parse ::
    "network \<Rightarrow> sender \<Rightarrow> (json \<Rightarrow> string \<Rightarrow> 'a option result) \<Rightarrow> string \<Rightarrow> json \<Rightarrow> 'a option api" where
  "send_json_and_parse net s read method tree =
     api_bind (send_json net s method tree default_poll_timeout) (\<lambda>reply.
       api_lift (read_reply read reply))"

definition send_json_and_parse_vector ::
    "network \<Rightarrow> sender \<Rightarrow> (json \<Rightarrow> 'a result) \<Rightarrow> string \<Rightarrow> json \<Rightarrow> 'a list option api" where
  "send_json_and_parse_vector net s from_json method tree =
     api_bind (send_json net s method tree default_poll_timeout) (\<lambda>reply.
       api_lift (read_reply (make_optional_vector_from_json from_json) reply))"

definition send_json_and_get_bool :: "network \<Rightarrow> sender \<Rightarrow> string \<Rightarrow> json \<Rightarrow> bool api" where
  "send_json_and_get_bool net s method tree =
     api_bind (send_json net s method tree default_poll_timeout) (\<lambda>reply.
       api_lift (read_bool_reply reply))"

definition get_me :: "network \<Rightarrow> sender \<Rightarrow> user option api" where
  "get_me net s =
     send_json_and_parse net s (make_optional_from_json user_from_json) ''getMe'' JNull"

subsection \<open>The reply check\<close>

lemma check_ok_object:
  "is_object j \<Longrightarrow> json_get j ''ok'' = Some v \<Longrightarrow> wf_json j \<Longrightarrow>
     check_ok j = Inr (j, json_eq_bool v True)"
proof -
  assume j: "is_object j" "json_get j ''ok'' = Some v" "wf_json j"
  then have "is_tree j" by simp
  with j(2) have upd: "json_upd ''ok'' Inr j = json_put ''ok'' v j" by (simp add: json_upd_put)
  obtain t where t: "json_put ''ok'' v j = Inr t" "is_object t" "json_get t = (json_get j)(''ok'' \<mapsto> v)"
    using json_put_tree [OF \<open>is_tree j\<close>, of "''ok''" v] by blast
  moreover have "wf_json t" using json_put_wf [OF t(1) j(3)] j by (simp add: wf_json_member)
  moreover have "(json_get j)(''ok'' \<mapsto> v) = json_get j" using j(2) by (simp add: fun_upd_idem)
  ultimately have "t = j" using j by (intro wf_json_eqI) simp_all
  with t upd have "json_upd ''ok'' Inr j = Inr j" by simp
  moreover have "json_index j ''ok'' = Inr v" using j by (cases j) (simp_all add: json_index_def)
  ultimately show ?thesis by (simp add: check_ok_def)
qed

lemma check_ok_missing:
  "is_tree j \<Longrightarrow> json_get j ''ok'' = None \<Longrightarrow> \<exists>t. check_ok j = Inr (t, False)"
  by (cases j) (auto simp: check_ok_def json_upd_def json_index_def json_eq_bool_def is_tree_def)

lemma check_ok_not_tree:
  "\<not> is_tree j \<Longrightarrow> \<exists>e. check_ok j = Inl e \<and> is_type_error e"
  by (cases j) (auto simp: check_ok_def json_upd_def is_tree_def)

subsection \<open>What a reader does with a reply\<close>

text \<open>The reply is printed when it is not used. That never fails: a reply was read by the parser.\<close>

lemma valid_json_printed:
  assumes "valid_json j"
  obtains out where "json_dump indent j = Inr out"
  using assms by (rule json_dump_valid)

lemma valid_json_put: "json_upd k Inr j = Inr t \<Longrightarrow> valid_json j \<Longrightarrow> utf8_valid k \<Longrightarrow> valid_json t"
proof -
  assume t: "json_upd k Inr j = Inr t" and j: "valid_json j" and k: "utf8_valid k"
  have put: "valid_json (JObject (obj_put k v m))" if "valid_json (JObject m)" "map_of m k = Some v \<or> v = JNull" for m v
  proof (intro valid_obj_put that(1) k)
    show "valid_json v" using that by (auto dest!: map_of_SomeD)
  qed
  show "valid_json t"
  proof (cases j)
    case JNull
    with t put [of "[]" JNull] show ?thesis by (auto simp: json_upd_def)
  next
    case (JObject m)
    with t j put [of m] show ?thesis
      by (cases "map_of m k") (auto simp: json_upd_def simp del: valid_json_simps(8))
  qed (use t in \<open>simp_all add: json_upd_def\<close>)
qed

lemma valid_check_ok:
  assumes "check_ok j = Inr (t, b)" and "valid_json j"
  shows "valid_json t"
proof -
  have "utf8_valid ''ok''" by (rule utf8_valid_ascii) simp
  with assms show ?thesis by (auto simp: check_ok_def bindE_eq_Inr_iff intro: valid_json_put)
qed

lemma read_reply_not_ok:
  assumes "valid_json j" and "check_ok j = Inr (t, False)"
  shows "read_reply read j = Inr None" "read_bool_reply j = Inr False"
proof -
  obtain out where "json_dump 2 t = Inr out"
    using valid_check_ok [OF assms(2,1)] by (rule valid_json_printed)
  with assms(2) show "read_reply read j = Inr None" "read_bool_reply j = Inr False"
    by (simp_all add: read_reply_def read_bool_reply_def)
qed

text \<open>A reply that was read from any text is such a value.\<close>

lemma json_text_valid: "json_text j t \<Longrightarrow> valid_json j"
  using json_text_read [of j t "[]" "[]" JNull] json_parse_valid(1) [of JNull False t j None]
  by (simp add: number_ends_def json_read_def)

lemma json_text_not_empty: "json_text j t \<Longrightarrow> t \<noteq> []"
proof -
  assume "json_text j t"
  moreover have "json_read [] JNull \<noteq> (j, None)"
  proof -
    have "snd (json_read [] JNull) \<noteq> None" by code_simp
    then show ?thesis by auto
  qed
  ultimately show "t \<noteq> []" using json_text_read [of j t "[]" "[]" JNull] by (auto simp: number_ends_def)
qed

lemma handle_reply_text: "json_text j body \<Longrightarrow> handle_reply u (Reply 200 body) = Inr j"
  using json_text_read [of j body "[]" "[]" JNull] json_text_not_empty [of j body]
  by (simp add: handle_reply_def number_ends_def)

lemma handle_reply_valid: "handle_reply u r = Inr j \<Longrightarrow> valid_json j"
proof (cases r)
  case (Reply status body)
  assume "handle_reply u r = Inr j"
  with Reply have "j = JNull \<or> j = fst (json_read body JNull)"
    by (auto simp: handle_reply_def bindE_eq_Inr_iff split: if_splits)
  moreover have "valid_json (fst (json_read body JNull))"
    using json_parse_valid(1) [of JNull False body] by (cases "json_read body JNull") (simp add: json_read_def)
  ultimately show "valid_json j" by auto
qed (simp add: handle_reply_def)

lemma read_reply_ok:
  assumes "is_object j" "wf_json j" "json_get j ''ok'' = Some (JBool True)"
  shows "read j ''result'' = Inr x \<Longrightarrow> read_reply read j = Inr x"
    and "read_bool_reply j = at_bool j ''result''"
  using assms by (simp_all add: read_reply_def read_bool_reply_def check_ok_object json_eq_bool_iff)

lemma is_tree_check_ok: "is_tree j \<Longrightarrow> \<exists>t b. check_ok j = Inr (t, b)"
  by (cases j) (auto simp: check_ok_def json_upd_def json_index_def is_tree_def)

lemma read_reply_not_tree:
  assumes "\<not> is_tree j"
  obtains e where "read_reply read j = Inl e" "read_bool_reply j = Inl e" "is_type_error e"
  using check_ok_not_tree [OF assms] by (auto simp: read_reply_def read_bool_reply_def)

subsection \<open>Properties\<close>

lemma isalnum_bot: "path_char (CHR ''b'')" "path_char (CHR ''o'')" "path_char (CHR ''t'')"
  "path_char (CHR ''/'')"
  by code_simp+

lemma sender_url:
  assumes "list_all path_char token" and "list_all path_char method"
  shows "url_from_string (sender_endpoint (sender_new no_ssl token ua) @ method) =
    Inr (plain_url (outgoing_proto no_ssl) ''api.telegram.org'' (''bot'' @ token @ ''/'' @ method))"
proof -
  have "url_from_string (outgoing_proto no_ssl @ ''://'' @ ''api.telegram.org'' @ ''/'' @
      (''bot'' @ token @ ''/'' @ method)) =
    Inr (plain_url (outgoing_proto no_ssl) ''api.telegram.org'' (''bot'' @ token @ ''/'' @ method))"
    using assms isalnum_bot
    by (intro url_from_plain) (simp_all add: outgoing_proto_def isalnum_def less_eq_char_def)
  then show ?thesis by (simp add: sender_new_def)
qed

text \<open>The request a call makes.\<close>

definition api_request :: "bool \<Rightarrow> string \<Rightarrow> string \<Rightarrow> 32 word \<Rightarrow> string \<Rightarrow> request" where
  "api_request no_ssl token method timeout body =
     \<lparr>req_host = ''api.telegram.org'', req_port = (if no_ssl then 80 else 443),
      req_connection_timeout = 15, req_read_timeout = timeout,
      req_target = ''/bot'' @ token @ ''/'' @ method @ ''?'', req_body = c_str body,
      req_content_type = ''application/json''\<rparr>"

definition api_url :: "bool \<Rightarrow> string \<Rightarrow> string \<Rightarrow> url" where
  "api_url no_ssl token method =
     plain_url (outgoing_proto no_ssl) ''api.telegram.org'' (''bot'' @ token @ ''/'' @ method)"

lemma send_json_one_request:
  assumes "list_all path_char token" and "list_all path_char method" and "json_dump (- 1) tree = Inr body"
  shows "send_json net (sender_new no_ssl token ua) method tree timeout hist =
    (handle_reply (api_url no_ssl token method)
       (net (hist @ [api_request no_ssl token method timeout body])),
     hist @ [api_request no_ssl token method timeout body])"
proof -
  let ?p = "''bot'' @ token @ ''/'' @ method"
  have p: "list_all path_char ?p" using assms isalnum_bot by simp
  have "url_port (plain_url (outgoing_proto no_ssl) ''api.telegram.org'' ?p) =
      Inr (if no_ssl then 80 else 443)"
    by (simp add: outgoing_proto_def plain_url_parts)
  moreover have "c_str (CHR ''/'' # ?p @ ''?'') = CHR ''/'' # ?p @ ''?''"
    using path_char_free [OF p] by (intro c_str_id) (auto simp: free_of_iff)
  ultimately show ?thesis
    using sender_url [OF assms(1,2)] assms(3)
    by (simp add: send_json_def api_url_def api_request_def plain_url_parts(1) [OF p, simplified]
        plain_url_parts(4,5) api_post_def api_bind_def api_lift_def)
qed

lemma send_json_no_request:
  assumes "list_all path_char token" and "list_all path_char method" and "json_dump (- 1) tree = Inl e"
  shows "send_json net (sender_new no_ssl token ua) method tree timeout hist = (Inl e, hist)"
proof -
  have "url_port (api_url no_ssl token method) = Inr (if no_ssl then 80 else 443)"
    by (simp add: outgoing_proto_def plain_url_parts api_url_def)
  then show ?thesis
    using sender_url [OF assms(1,2)] assms(3) by (simp add: send_json_def api_url_def) (simp add: api_lift_def)
qed

text \<open>The request sent for a tree: none when the tree cannot be serialised.\<close>

definition posted_request :: "bool \<Rightarrow> string \<Rightarrow> string \<Rightarrow> 32 word \<Rightarrow> json \<Rightarrow> request list" where
  "posted_request no_ssl token method timeout tree =
     (case json_dump (- 1) tree of
        Inr body \<Rightarrow> [api_request no_ssl token method timeout body]
      | Inl e \<Rightarrow> [])"

definition echo_network :: network where
  "echo_network = (\<lambda>hist. Reply 200 ''{}'')"

lemma json_dump_null [simp]: "json_dump (- 1) JNull = Inr ''null''"
  by code_simp

text \<open>The body survives the way through a C string and is read back as the tree.\<close>

lemma body_reads_back:
  assumes "valid_json tree" and "json_dump (- 1) tree = Inr body"
  shows "c_str body = body" "json_read body r = (reread tree, None)"
proof -
  from assms have t: "json_text (reread tree) body" using json_dump_valid [OF assms(1), of "- 1"] by (metis sum.inject(2))
  then have "no_nul body" by (rule no_nul_json)
  then show "c_str body = body" by (intro c_str_id) (simp add: no_nul_def)
  from json_text_read [OF t, of "[]" "[]" r] show "json_read body r = (reread tree, None)"
    by (simp add: number_ends_def)
qed

lemma posted_one:
  assumes "utf8_json tree"
  obtains body where "posted_request no_ssl token method timeout tree = [api_request no_ssl token method timeout body]"
  using assms json_dump_cases [of tree "- 1"] by (auto simp: dumps_iff_def posted_request_def)

lemma posted_none: "\<not> utf8_json tree \<Longrightarrow> posted_request no_ssl token method timeout tree = []"
  using json_dump_cases [of tree "- 1"] by (auto simp: dumps_iff_def posted_request_def)

lemma utf8_json_mk_object:
  assumes "\<forall>kv \<in> set kvs. utf8_valid (fst kv) \<and> pred_option utf8_json (snd kv)"
  shows "utf8_json (mk_object kvs)"
proof -
  have put: "kv \<in> set (obj_put k v m) \<Longrightarrow> kv \<in> set m \<or> kv = (k, v)" for kv k v m
    by (induction m rule: obj_put.induct [of _ k v]) (auto split: if_splits)
  have "utf8_json (JObject (put_members kvs))" using assms
    by (induction kvs rule: put_members.induct) (auto dest!: put)
  then show ?thesis by (simp add: mk_object_def)
qed

lemma valid_json_mk_object:
  assumes "\<forall>kv \<in> set kvs. utf8_valid (fst kv) \<and> pred_option valid_json (snd kv)"
  shows "valid_json (mk_object kvs)"
proof -
  have "valid_json (JObject (put_members kvs))" using assms
    by (induction kvs rule: put_members.induct) (auto simp del: valid_json_simps(8) intro: valid_obj_put simp: valid_json_simps(8) [of "[]"])
  then show ?thesis by (simp only: mk_object_def)
qed

lemmas utf8_json_simps = utf8_json_mk_object utf8_valid_ascii JReal_def

text \<open>The text of a reply that reports success.\<close>

definition ok_reply :: "json \<Rightarrow> string" where
  "ok_reply j = (case json_dump (- 1) (JObject [(''ok'', JBool True), (''result'', j)]) of Inr t \<Rightarrow> t | Inl e \<Rightarrow> [])"

lemma ok_reply_text:
  assumes "valid_json j"
  shows "json_text (JObject [(''ok'', JBool True), (''result'', reread j)]) (ok_reply j)"
proof -
  have "valid_json (JObject [(''ok'', JBool True), (''result'', j)])"
    using assms by (simp add: obj_sorted_def utf8_valid_ascii)
  then obtain t where "json_dump (- 1) (JObject [(''ok'', JBool True), (''result'', j)]) = Inr t"
    "json_text (reread (JObject [(''ok'', JBool True), (''result'', j)])) t" by (rule json_dump_valid)
  then show ?thesis by (simp add: ok_reply_def)
qed

text \<open>C16: With a token and a method name of plain characters, \<open>send_json\<close> sends exactly one request,
  a POST of the serialised tree to \<open>/bot<token>/<method>?\<close> on \<open>api.telegram.org\<close>, on port 443 (80 when
  SSL is disabled) with a 15 second connection timeout and the caller's read timeout, and its result
  is what the reply is turned into. The body is not cut by the C string it is passed as, and a JSON parser
  reads the tree back from it. A tree with a string that is not well-formed UTF-8 is not sent at all: the
  type error 316 of \<open>dump\<close> comes out.\<close>

theorem send_json_sends_one_request:
  assumes "list_all path_char token" and "list_all path_char method"
  shows "if utf8_json tree then
      (\<exists>body. send_json net (sender_new no_ssl token ua) method tree timeout hist =
          (handle_reply (api_url no_ssl token method)
             (net (hist @ [api_request no_ssl token method timeout body])),
           hist @ [api_request no_ssl token method timeout body]) \<and>
        (valid_json tree \<longrightarrow> req_body (api_request no_ssl token method timeout body) = body \<and>
           json_read body r = (reread tree, None)))
    else \<exists>m. send_json net (sender_new no_ssl token ua) method tree timeout hist = (Inl (Type_error 316 m), hist)"
proof (cases "utf8_json tree")
  case True
  then obtain body where "json_dump (- 1) tree = Inr body" using json_dump_cases [of tree "- 1"] by (auto simp: dumps_iff_def)
  with send_json_one_request [OF assms this] body_reads_back [OF _ this] True show ?thesis
    by (auto simp: api_request_def)
next
  case False
  then obtain m where "json_dump (- 1) tree = Inl (Type_error 316 m)"
    using json_dump_cases [of tree "- 1"] by (auto simp: dumps_iff_def)
  with send_json_no_request [OF assms this] False show ?thesis by auto
qed

theorem send_json_sends_one_request_witness:
  "(\<exists>body. snd (send_json echo_network (sender_new False ''42:ab'' ''LibTelegram'') ''getMe'' (JString ''hi'') 30 []) =
      [api_request False ''42:ab'' ''getMe'' 30 body] \<and> json_read body JNull = (JString ''hi'', None)) \<and>
   (\<exists>m. send_json echo_network (sender_new False ''42:ab'' ''LibTelegram'') ''getMe'' (JString [CHR 0xFF]) 30 [] =
      (Inl (Type_error 316 m), []))"
proof -
  have plain: "list_all path_char ''42:ab''" "list_all path_char ''getMe''" by code_simp+
  have "utf8_valid ''hi''" "\<not> utf8_valid [CHR 0xFF]" by code_simp+
  with send_json_sends_one_request [OF plain, where net = echo_network and tree = "JString ''hi''"
      and no_ssl = False and ua = "''LibTelegram''" and timeout = 30 and hist = "[]" and r = JNull]
    send_json_sends_one_request [OF plain, where net = echo_network and tree = "JString [CHR 0xFF]"
      and no_ssl = False and ua = "''LibTelegram''" and timeout = 30 and hist = "[]"]
  show ?thesis by auto
qed

text \<open>C18: A call that fails at the HTTP level always throws a standard exception. Without a reply it is
  the runtime error that names the URL, token included. With a status other than 200 it is the runtime
  error with the status and the description of the reply: the member \<open>description\<close> of a body that is the
  text of an object with a string there, the body itself when the parser throws on it with no more than
  a part of an object read. Nothing is returned in either case.\<close>

theorem http_failures_throw:
  assumes "status \<noteq> 200"
  shows "handle_reply u (No_reply why) = Inl (unable_to_open u why) \<and>
    (\<exists>e. handle_reply u (Reply status body) = Inl e \<and> is_std_exception e) \<and>
    (json_read body JNull = (t, Some e) \<and> is_tree t \<longrightarrow>
       handle_reply u (Reply status body) =
         Inl (unable_to_open u (decimal status @ '', error: '' @ body))) \<and>
    (json_text (JObject m) body \<and> map_of m ''description'' = Some (JString d) \<longrightarrow>
       handle_reply u (Reply status body) =
         Inl (unable_to_open u (decimal status @ '', error: '' @ d)))"
proof (intro conjI impI)
  have err: "error_description body = Inl e \<Longrightarrow> is_std_exception e" for e
    by (auto simp: error_description_def json_put_def json_upd_def json_index_def get_string_def
        bindE_eq_Inl_iff split: prod.splits if_splits json.splits)
  show "\<exists>e. handle_reply u (Reply status body) = Inl e \<and> is_std_exception e"
    using assms err by (cases "error_description body")
      (simp_all add: handle_reply_def unable_to_open_def)
next
  assume t: "json_read body JNull = (t, Some e) \<and> is_tree t"
  then obtain t' where put: "json_put ''description'' (JString body) t = Inr t'" "is_object t'"
    and get: "json_get t' = (json_get t)(''description'' \<mapsto> JString body)"
    using json_put_tree [of t "''description''" "JString body"] by blast
  from get have "json_get t' ''description'' = Some (JString body)" by simp
  with put show "handle_reply u (Reply status body) =
      Inl (unable_to_open u (decimal status @ '', error: '' @ body))"
    using t assms by (cases t') (simp_all add: handle_reply_def error_description_def json_index_def get_string_def)
next
  assume m: "json_text (JObject m) body \<and> map_of m ''description'' = Some (JString d)"
  then have "json_read body JNull = (JObject m, None)"
    using json_text_read [of "JObject m" body "[]" "[]" JNull] by (simp add: number_ends_def)
  with m assms show "handle_reply u (Reply status body) =
      Inl (unable_to_open u (decimal status @ '', error: '' @ d))"
    by (simp add: handle_reply_def error_description_def json_index_def get_string_def)
qed (simp add: handle_reply_def)

theorem http_failures_throw_witness:
  "handle_reply url_empty (Reply 502 ''Bad Gateway'') =
     Inl (unable_to_open url_empty (decimal 502 @ '', error: '' @ ''Bad Gateway''))"
proof -
  have "fst (json_read ''Bad Gateway'' JNull) = JNull" "snd (json_read ''Bad Gateway'' JNull) \<noteq> None"
    by code_simp+
  then obtain e where "json_read ''Bad Gateway'' JNull = (JNull, Some e)"
    by (cases "json_read ''Bad Gateway'' JNull") auto
  with http_failures_throw [where status = 502 and u = url_empty and body = "''Bad Gateway''" and t = JNull]
  show ?thesis by (simp add: is_tree_def)
qed

text \<open>A boolean call on a reply object answers the member \<open>result\<close> when \<open>ok\<close> is true, and false
  when \<open>ok\<close> is anything else or missing. Unlike the calls that read an object it lets exceptions out:
  a reply without \<open>result\<close>, or with one that is not a boolean, makes it throw.\<close>

lemma bool_calls:
  assumes "valid_json (JObject m)"
  shows "read_bool_reply (JObject m) =
    (if map_of m ''ok'' = Some (JBool True) then
       (case map_of m ''result'' of
          Some (JBool b) \<Rightarrow> Inr b
        | Some r \<Rightarrow> Inl (type_must_be ''boolean'' r)
        | None \<Rightarrow> Inl (key_not_found ''result''))
     else Inr False)"
proof (cases "map_of m ''ok''")
  case None
  then have "\<exists>t. check_ok (JObject m) = Inr (t, False)" by (intro check_ok_missing) simp_all
  with None show ?thesis using read_reply_not_ok(2) [OF assms] by auto
next
  case (Some v)
  then have ok: "check_ok (JObject m) = Inr (JObject m, json_eq_bool v True)"
    using assms by (intro check_ok_object) (simp_all add: valid_json_def del: valid_json_simps)
  show ?thesis
  proof (cases "v = JBool True")
    case True
    with ok Some show ?thesis
      by (auto simp: read_bool_reply_def json_eq_bool_iff at_bool_def json_at_def get_bool_def
          split: option.split json.split)
  next
    case False
    with ok have "check_ok (JObject m) = Inr (JObject m, False)" by (simp add: json_eq_bool_iff)
    with False Some show ?thesis using read_reply_not_ok(2) [OF assms] by auto
  qed
qed

lemma bool_calls_witness:
  "read_bool_reply (JObject [(''ok'', JBool True), (''result'', JBool True)]) = Inr True"
proof -
  let ?m = "[(''ok'', JBool True), (''result'', JBool True)]"
  have "valid_json (JObject ?m)" by code_simp
  then have "read_bool_reply (JObject ?m) =
      (if map_of ?m ''ok'' = Some (JBool True) then
         (case map_of ?m ''result'' of
            Some (JBool b) \<Rightarrow> Inr b
          | Some r \<Rightarrow> Inl (type_must_be ''boolean'' r)
          | None \<Rightarrow> Inl (key_not_found ''result''))
       else Inr False)"
    by (rule bool_calls)
  then show ?thesis by simp
qed

end
