(* ===== verification/Markup.thy ===== *)
theory Markup
  imports Trees
begin

section \<open>Reply markup\<close>

text \<open>
  \<open>types/reply_markup/*.h\<close>: the keyboards a message can carry. Each markup type has a member
  \<open>get(tree)\<close> that writes it below \<open>tree["reply_markup"]\<close>, called through the CRTP base or a
  \<open>std::visit\<close>. The locale \<open>markup_writer\<close> is that interface: \<open>get\<close> stores exactly one
  member, whose value is a function of the markup.
\<close>

subsection \<open>Buttons\<close>

datatype callback_game = Callback_game

definition callback_game_get :: "callback_game \<Rightarrow> json \<Rightarrow> json result" where
  "callback_game_get g tree = Inr tree"

datatype button_type =
    BUTTON_URL
  | BUTTON_CALLBACK
  | BUTTON_SWITCH
  | BUTTON_SWITCH_CURRENT
  | BUTTON_GAME
  | BUTTON_PAY

record inline_keyboard_button =
  inline_text :: string
  inline_url :: "string option"
  inline_callback_data :: "string option"
  inline_switch_inline_query :: "string option"
  inline_switch_inline_query_current_chat :: "string option"
  inline_callback_game :: "callback_game option"
  inline_pay :: bool

text \<open>The content of a button is a \<open>std::variant\<close>; asking it for another alternative throws.\<close>

datatype button_content =
    Content_string string
  | Content_game callback_game
  | Content_bool bool

fun content_string :: "button_content \<Rightarrow> string result" where
  "content_string (Content_string s) = Inr s"
| "content_string c = Inl Bad_variant_access"

fun content_game :: "button_content \<Rightarrow> callback_game result" where
  "content_game (Content_game g) = Inr g"
| "content_game c = Inl Bad_variant_access"

definition inline_button :: "string \<Rightarrow> button_type \<Rightarrow> button_content \<Rightarrow> inline_keyboard_button result" where
  "inline_button this_text this_type content =
     (let b = \<lparr>inline_text = this_text, inline_url = None, inline_callback_data = None,
                inline_switch_inline_query = None, inline_switch_inline_query_current_chat = None,
                inline_callback_game = None, inline_pay = False\<rparr>
      in case this_type of
           BUTTON_URL \<Rightarrow> bindE (content_string content) (\<lambda>s. Inr (b\<lparr>inline_url := Some s\<rparr>))
         | BUTTON_CALLBACK \<Rightarrow>
             bindE (content_string content) (\<lambda>s. Inr (b\<lparr>inline_callback_data := Some s\<rparr>))
         | BUTTON_SWITCH \<Rightarrow>
             bindE (content_string content) (\<lambda>s. Inr (b\<lparr>inline_switch_inline_query := Some s\<rparr>))
         | BUTTON_SWITCH_CURRENT \<Rightarrow>
             bindE (content_string content)
               (\<lambda>s. Inr (b\<lparr>inline_switch_inline_query_current_chat := Some s\<rparr>))
         | BUTTON_GAME \<Rightarrow>
             bindE (content_game content) (\<lambda>g. Inr (b\<lparr>inline_callback_game := Some g\<rparr>))
         | BUTTON_PAY \<Rightarrow> Inr (b\<lparr>inline_pay := True\<rparr>))"

definition inline_button_cstr :: "string \<Rightarrow> button_type \<Rightarrow> string \<Rightarrow> inline_keyboard_button result" where
  "inline_button_cstr this_text this_type content =
     inline_button this_text this_type (Content_string content)"

definition inline_button_callback :: "string \<Rightarrow> string \<Rightarrow> inline_keyboard_button result" where
  "inline_button_callback this_text content =
     inline_button this_text BUTTON_CALLBACK (Content_string content)"

definition inline_button_get :: "inline_keyboard_button \<Rightarrow> json \<Rightarrow> json result" where
  "inline_button_get b = run_stmts
     [put_string ''text'' (inline_text b),
      if_some (inline_url b) (put_string ''url''),
      if_some (inline_callback_data b) (put_string ''callback_data''),
      if_some (inline_switch_inline_query b) (put_string ''switch_inline_query''),
      if_some (inline_switch_inline_query_current_chat b)
        (put_string ''switch_inline_query_current_chat''),
      if_some (inline_callback_game b) (\<lambda>g. json_upd ''callback_game'' (callback_game_get g)),
      only_if (inline_pay b) (json_put ''pay'' (JBool True))]"

datatype button_option = OPTION_NONE | REQUEST_CONTACT | REQUEST_LOCATION

record keyboard_button =
  button_text :: string
  button_option :: button_option

definition keyboard_button :: "string \<Rightarrow> button_option \<Rightarrow> keyboard_button" where
  "keyboard_button this_text this_option = \<lparr>button_text = this_text, button_option = this_option\<rparr>"

definition keyboard_button_get :: "keyboard_button \<Rightarrow> json \<Rightarrow> json result" where
  "keyboard_button_get b = run_stmts
     [put_string ''text'' (button_text b),
      only_if (button_option b \<noteq> OPTION_NONE)
        (case button_option b of
           REQUEST_CONTACT \<Rightarrow> json_put ''request_contact'' (JBool True)
         | REQUEST_LOCATION \<Rightarrow> json_put ''request_location'' (JBool True)
         | OPTION_NONE \<Rightarrow> Inr)]"

subsection \<open>Markups\<close>

text \<open>The loop that appends null and then fills it: once for the rows of a keyboard, and inside it once
  for the buttons of a row.\<close>

fun push_each :: "('a \<Rightarrow> json \<Rightarrow> json result) \<Rightarrow> 'a list \<Rightarrow> json \<Rightarrow> json result" where
  "push_each get [] j = Inr j"
| "push_each get (x # xs) j =
     bindE (json_push_back JNull j) (\<lambda>j1. bindE (json_upd_back (get x) j1) (push_each get xs))"

record inline_keyboard_markup =
  inline_keyboard_buttons :: "inline_keyboard_button list list"

definition inline_keyboard_markup_get :: "inline_keyboard_markup \<Rightarrow> json \<Rightarrow> json result" where
  "inline_keyboard_markup_get m =
     json_upd ''reply_markup'' (json_upd ''inline_keyboard''
       (push_each (push_each inline_button_get) (inline_keyboard_buttons m)))"

datatype resize_keyboard_type = RESIZE | NO_RESIZE
datatype one_time_keyboard_type = HIDE_AFTER_ONE_USE | KEEP_OPEN
datatype selective_type = SELECTIVE | NOT_SELECTIVE

record reply_keyboard_markup =
  keyboard_buttons :: "keyboard_button list list"
  resize_keyboard :: resize_keyboard_type
  one_time_keyboard :: one_time_keyboard_type
  keyboard_selective :: selective_type

definition put_markup :: "string \<Rightarrow> bool \<Rightarrow> json \<Rightarrow> json result" where
  "put_markup k b = json_upd ''reply_markup'' (json_put k (JBool b))"

definition put_selective :: "selective_type \<Rightarrow> json \<Rightarrow> json result" where
  "put_selective s = only_if (s \<noteq> NOT_SELECTIVE)
     (case s of SELECTIVE \<Rightarrow> put_markup ''selective'' True
      | NOT_SELECTIVE \<Rightarrow> put_markup ''selective'' False)"

definition reply_keyboard_markup_get :: "reply_keyboard_markup \<Rightarrow> json \<Rightarrow> json result" where
  "reply_keyboard_markup_get m = run_stmts
     [json_upd ''reply_markup'' (json_upd ''keyboard''
        (push_each (push_each keyboard_button_get) (keyboard_buttons m))),
      only_if (resize_keyboard m \<noteq> NO_RESIZE)
        (case resize_keyboard m of RESIZE \<Rightarrow> put_markup ''resize_keyboard'' True
         | NO_RESIZE \<Rightarrow> put_markup ''resize_keyboard'' False),
      only_if (one_time_keyboard m \<noteq> KEEP_OPEN)
        (case one_time_keyboard m of HIDE_AFTER_ONE_USE \<Rightarrow> put_markup ''one_time_keyboard'' True
         | KEEP_OPEN \<Rightarrow> put_markup ''one_time_keyboard'' False),
      put_selective (keyboard_selective m)]"

record reply_keyboard_remove =
  remove_selective :: selective_type

definition reply_keyboard_remove_get :: "reply_keyboard_remove \<Rightarrow> json \<Rightarrow> json result" where
  "reply_keyboard_remove_get m = run_stmts
     [put_markup ''remove_keyboard'' True, put_selective (remove_selective m)]"

record force_reply =
  force_selective :: selective_type

definition force_reply_get :: "force_reply \<Rightarrow> json \<Rightarrow> json result" where
  "force_reply_get m = run_stmts
     [put_markup ''force_reply'' True, put_selective (force_selective m)]"

text \<open>The variant the sender's functions take, and the \<open>std::visit\<close> that writes it.\<close>

datatype reply_markup =
    Inline_keyboard inline_keyboard_markup
  | Reply_keyboard reply_keyboard_markup
  | Keyboard_remove reply_keyboard_remove
  | Force_reply force_reply

fun reply_markup_get :: "reply_markup \<Rightarrow> json \<Rightarrow> json result" where
  "reply_markup_get (Inline_keyboard m) = inline_keyboard_markup_get m"
| "reply_markup_get (Reply_keyboard m) = reply_keyboard_markup_get m"
| "reply_markup_get (Keyboard_remove m) = reply_keyboard_remove_get m"
| "reply_markup_get (Force_reply m) = force_reply_get m"

subsection \<open>The interface of a markup\<close>

locale markup_writer =
  fixes get :: "'m \<Rightarrow> json \<Rightarrow> json result"
    and markup_json :: "'m \<Rightarrow> json"
  assumes get_writes:
      "json_get t ''reply_markup'' = None \<Longrightarrow> get m t = json_put ''reply_markup'' (markup_json m) t"
    and markup_wf: "wf_json (markup_json m)"
begin

lemma get_frame:
  "json_get t ''reply_markup'' = None \<Longrightarrow> get m t = Inr t' \<Longrightarrow>
     json_get t' = (json_get t)(''reply_markup'' \<mapsto> markup_json m)"
  by (simp add: get_writes json_put_Inr(3))

lemma get_succeeds:
  assumes "json_get t ''reply_markup'' = None" and "is_tree t"
  shows "\<exists>t'. get m t = Inr t'"
  using assms by (metis get_writes json_put_tree)

lemma get_wf:
  "json_get t ''reply_markup'' = None \<Longrightarrow> get m t = Inr t' \<Longrightarrow> wf_json t \<Longrightarrow> wf_json t'"
  by (simp add: get_writes) (erule json_put_wf, simp_all add: markup_wf)

lemma get_sets: "sets (get m) ''reply_markup'' (Some (markup_json m))"
  using sets_put [OF markup_wf [of m], of "''reply_markup''"] by (auto simp: sets_def get_writes)

end

subsection \<open>What each markup writes\<close>

definition rows_json :: "('a \<Rightarrow> json) \<Rightarrow> 'a list \<Rightarrow> json" where
  "rows_json f xs = (if xs = [] then JNull else JArray (map f xs))"

lemma push_each_array:
  "(\<And>x. x \<in> set xs \<Longrightarrow> get x JNull = Inr (f x)) \<Longrightarrow>
     push_each get xs (JArray ys) = Inr (JArray (ys @ map f xs))"
  by (induction xs arbitrary: ys) (simp_all add: json_push_back_def json_upd_back_def)

lemma push_each_null:
  assumes "\<And>x. x \<in> set xs \<Longrightarrow> get x JNull = Inr (f x)"
  shows "push_each get xs JNull = Inr (rows_json f xs)"
proof (cases xs)
  case (Cons x ys)
  then have "push_each get xs JNull = push_each get ys (JArray [f x])"
    using assms by (simp add: json_push_back_def json_upd_back_def)
  also have "\<dots> = Inr (JArray ([f x] @ map f ys))"
    using assms Cons by (intro push_each_array) simp
  finally show ?thesis using Cons by (simp add: rows_json_def)
qed (simp add: rows_json_def)

lemma wf_rows_json: "(\<And>x. wf_json (f x)) \<Longrightarrow> wf_json (rows_json f xs)"
  by (simp add: rows_json_def)

definition inline_button_json :: "inline_keyboard_button \<Rightarrow> json" where
  "inline_button_json b = mk_object
     [(''text'', Some (JString (inline_text b))),
      (''url'', map_option JString (inline_url b)),
      (''callback_data'', map_option JString (inline_callback_data b)),
      (''switch_inline_query'', map_option JString (inline_switch_inline_query b)),
      (''switch_inline_query_current_chat'',
         map_option JString (inline_switch_inline_query_current_chat b)),
      (''callback_game'', map_option (\<lambda>_. JNull) (inline_callback_game b)),
      (''pay'', if inline_pay b then Some (JBool True) else None)]"

definition keyboard_button_json :: "keyboard_button \<Rightarrow> json" where
  "keyboard_button_json b = mk_object
     [(''text'', Some (JString (button_text b))),
      (''request_contact'', if button_option b = REQUEST_CONTACT then Some (JBool True) else None),
      (''request_location'', if button_option b = REQUEST_LOCATION then Some (JBool True) else None)]"

lemmas pred_option_simps = option.pred_map option.pred_True comp_def

lemma inline_button_get_null: "inline_button_get b JNull = Inr (inline_button_json b)"
  unfolding inline_button_get_def inline_button_json_def callback_game_get_def
  apply (rule writes_mk_object [where k = "''text''"])
     apply (rule writes_intros writes_touch writes_put | simp)+
    apply (simp add: fun_eq_iff fun_upd_def or_else_def split: option.split)
   apply (rule wf_json_mk_object)
   apply (simp add: pred_option_simps)
  apply simp
  done

lemma keyboard_button_get_null: "keyboard_button_get b JNull = Inr (keyboard_button_json b)"
  by (cases "button_option b")
    (simp_all add: keyboard_button_get_def keyboard_button_json_def put_string_def json_put_def
      json_upd_def mk_object_def)

lemma wf_button_json: "wf_json (inline_button_json b)" "wf_json (keyboard_button_json k)"
  unfolding inline_button_json_def keyboard_button_json_def
  by (rule wf_json_mk_object, simp add: pred_option_simps)+

definition if_member :: "bool \<Rightarrow> json option" where
  "if_member c = (if c then Some (JBool True) else None)"

lemma pred_if_member [simp]: "pred_option wf_json (if_member c)"
  by (simp add: if_member_def)

definition inline_keyboard_json :: "inline_keyboard_markup \<Rightarrow> json" where
  "inline_keyboard_json m = mk_object
     [(''inline_keyboard'', Some (rows_json (rows_json inline_button_json) (inline_keyboard_buttons m)))]"

definition reply_keyboard_json :: "reply_keyboard_markup \<Rightarrow> json" where
  "reply_keyboard_json m = mk_object
     [(''keyboard'', Some (rows_json (rows_json keyboard_button_json) (keyboard_buttons m))),
      (''resize_keyboard'', if_member (resize_keyboard m = RESIZE)),
      (''one_time_keyboard'', if_member (one_time_keyboard m = HIDE_AFTER_ONE_USE)),
      (''selective'', if_member (keyboard_selective m = SELECTIVE))]"

definition keyboard_remove_json :: "reply_keyboard_remove \<Rightarrow> json" where
  "keyboard_remove_json m = mk_object
     [(''remove_keyboard'', Some (JBool True)),
      (''selective'', if_member (remove_selective m = SELECTIVE))]"

definition force_reply_json :: "force_reply \<Rightarrow> json" where
  "force_reply_json m = mk_object
     [(''force_reply'', Some (JBool True)),
      (''selective'', if_member (force_selective m = SELECTIVE))]"

text \<open>A first statement below \<open>reply_markup\<close>, followed by optional ones: together one write of the
  object they build.\<close>

lemma markup_stmts:
  assumes "json_get t ''reply_markup'' = None"
    and "f JNull = Inr v" and "run_stmts (map (\<lambda>(c, g). only_if c g) cgs) v = Inr w"
  shows "bindE (json_upd ''reply_markup'' f t)
      (run_stmts (map (\<lambda>(c, g). only_if c (json_upd ''reply_markup'' g)) cgs)) =
    json_put ''reply_markup'' w t"
  unfolding json_upd_fuse_stmts by (rule json_upd_absent [OF assms(1)]) (simp add: assms(2,3))

lemma put_selective_if:
  "put_selective s = only_if (s = SELECTIVE) (json_upd ''reply_markup'' (json_put ''selective'' (JBool True)))"
  by (cases s) (simp_all add: put_selective_def put_markup_def)

lemma rows_json_fill:
  "push_each (push_each inline_button_get) rows JNull = Inr (rows_json (rows_json inline_button_json) rows)"
  "push_each (push_each keyboard_button_get) rows' JNull =
     Inr (rows_json (rows_json keyboard_button_json) rows')"
  by (intro push_each_null inline_button_get_null keyboard_button_get_null)+

interpretation inline_keyboard_writer: markup_writer inline_keyboard_markup_get inline_keyboard_json
proof unfold_locales
  fix t m
  show "json_get t ''reply_markup'' = None \<Longrightarrow> inline_keyboard_markup_get m t =
      json_put ''reply_markup'' (inline_keyboard_json m) t"
    unfolding inline_keyboard_markup_get_def inline_keyboard_json_def
    by (erule json_upd_absent) (simp add: json_upd_def rows_json_fill mk_object_def)
  show "wf_json (inline_keyboard_json m)"
    unfolding inline_keyboard_json_def
    by (rule wf_json_mk_object) (simp add: wf_rows_json wf_button_json)
qed

interpretation reply_keyboard_writer: markup_writer reply_keyboard_markup_get reply_keyboard_json
proof unfold_locales
  fix t and m :: reply_keyboard_markup
  let ?rows = "rows_json (rows_json keyboard_button_json) (keyboard_buttons m)"
  let ?cgs = "[(resize_keyboard m = RESIZE, json_put ''resize_keyboard'' (JBool True)),
      (one_time_keyboard m = HIDE_AFTER_ONE_USE, json_put ''one_time_keyboard'' (JBool True)),
      (keyboard_selective m = SELECTIVE, json_put ''selective'' (JBool True))]"
  have resize: "only_if (resize_keyboard m \<noteq> NO_RESIZE)
        (case resize_keyboard m of RESIZE \<Rightarrow> put_markup ''resize_keyboard'' True
         | NO_RESIZE \<Rightarrow> put_markup ''resize_keyboard'' False) =
      only_if (resize_keyboard m = RESIZE) (put_markup ''resize_keyboard'' True)"
    by (cases "resize_keyboard m") simp_all
  have one_time: "only_if (one_time_keyboard m \<noteq> KEEP_OPEN)
        (case one_time_keyboard m of HIDE_AFTER_ONE_USE \<Rightarrow> put_markup ''one_time_keyboard'' True
         | KEEP_OPEN \<Rightarrow> put_markup ''one_time_keyboard'' False) =
      only_if (one_time_keyboard m = HIDE_AFTER_ONE_USE) (put_markup ''one_time_keyboard'' True)"
    by (cases "one_time_keyboard m") simp_all
  have fields: "run_stmts (map (\<lambda>(c, g). only_if c g) ?cgs) (JObject [(''keyboard'', ?rows)]) =
      Inr (reply_keyboard_json m)"
    by (cases "resize_keyboard m"; cases "one_time_keyboard m"; cases "keyboard_selective m")
      (simp_all add: reply_keyboard_json_def mk_object_def if_member_def json_put_def json_upd_def)
  assume "json_get t ''reply_markup'' = None"
  from markup_stmts [OF this _ fields, of "json_upd ''keyboard''
      (push_each (push_each keyboard_button_get) (keyboard_buttons m))"]
  show "reply_keyboard_markup_get m t = json_put ''reply_markup'' (reply_keyboard_json m) t"
    by (simp add: reply_keyboard_markup_get_def resize one_time put_selective_if json_upd_def
        rows_json_fill put_markup_def)
next
  show "wf_json (reply_keyboard_json m)" for m
    unfolding reply_keyboard_json_def
    by (rule wf_json_mk_object) (simp add: wf_rows_json wf_button_json)
qed

lemma selective_stmts:
  assumes "json_get t ''reply_markup'' = None" and "k < ''selective''"
  shows "run_stmts [put_markup k True, put_selective s] t =
     json_put ''reply_markup'' (mk_object
       [(k, Some (JBool True)), (''selective'', if_member (s = SELECTIVE))]) t"
proof -
  let ?cgs = "[(s = SELECTIVE, json_put ''selective'' (JBool True))]"
  have less: "k \<noteq> ''selective''" "''selective'' \<noteq> k" "\<not> ''selective'' < k"
    using assms(2) less_asym [OF assms(2)] by blast+
  have "run_stmts (map (\<lambda>(c, g). only_if c g) ?cgs) (JObject [(k, JBool True)]) =
      Inr (mk_object [(k, Some (JBool True)), (''selective'', if_member (s = SELECTIVE))])"
    using assms(2) less by (cases s) (simp_all add: mk_object_def if_member_def json_put_def json_upd_def)
  from markup_stmts [OF assms(1) _ this, of "json_put k (JBool True)"] show ?thesis
    by (simp add: put_selective_if json_put_def json_upd_def put_markup_def)
qed

interpretation keyboard_remove_writer: markup_writer reply_keyboard_remove_get keyboard_remove_json
proof unfold_locales
  show "wf_json (keyboard_remove_json m)" for m
    unfolding keyboard_remove_json_def by (rule wf_json_mk_object) simp
qed (simp add: reply_keyboard_remove_get_def keyboard_remove_json_def selective_stmts del: run_stmts.simps)

interpretation force_reply_writer: markup_writer force_reply_get force_reply_json
proof unfold_locales
  show "wf_json (force_reply_json m)" for m
    unfolding force_reply_json_def by (rule wf_json_mk_object) simp
qed (simp add: force_reply_get_def force_reply_json_def selective_stmts del: run_stmts.simps)

text \<open>The variant satisfies the contract because each of its four alternatives does.\<close>

fun reply_markup_json :: "reply_markup \<Rightarrow> json" where
  "reply_markup_json (Inline_keyboard m) = inline_keyboard_json m"
| "reply_markup_json (Reply_keyboard m) = reply_keyboard_json m"
| "reply_markup_json (Keyboard_remove m) = keyboard_remove_json m"
| "reply_markup_json (Force_reply m) = force_reply_json m"

interpretation reply_markup_writer: markup_writer reply_markup_get reply_markup_json
proof unfold_locales
  show "json_get t ''reply_markup'' = None \<Longrightarrow>
      reply_markup_get m t = json_put ''reply_markup'' (reply_markup_json m) t" for t m
    by (cases m) (simp_all add: inline_keyboard_writer.get_writes reply_keyboard_writer.get_writes
      keyboard_remove_writer.get_writes force_reply_writer.get_writes)
  show "wf_json (reply_markup_json m)" for m
    by (cases m) (simp_all add: inline_keyboard_writer.markup_wf reply_keyboard_writer.markup_wf
      keyboard_remove_writer.markup_wf force_reply_writer.markup_wf)
qed

end
