(* ===== verification/Types_Message.thy ===== *)
theory Types_Message
  imports Types_Facts
begin

section \<open>Chats and messages\<close>

text \<open>
  \<open>chat\<close> and \<open>message\<close> contain each other through \<open>std::shared_ptr\<close>: a chat has a pinned message, a
  message has a chat, the message it replies to and the message it pins. They are a mutually recursive
  pair of datatypes, and their \<open>from_json\<close> a mutually recursive pair of functions, which terminate
  because each call is on a member of the tree. \<open>callback_query\<close> and \<open>chat_member\<close> follow.
\<close>

subsection \<open>The structs\<close>

datatype chat_type = PRIVATE | GROUP | SUPERGROUP | CHANNEL | CHAT_UNKNOWN

datatype chat = Chat
  (chat_id: "64 word")
  (chat_type: chat_type)
  (chat_title: "string option")
  (chat_username: "string option")
  (chat_first_name: "string option")
  (chat_last_name: "string option")
  (chat_all_members_are_administrators: "bool option")
  (chat_photo: "chat_photo option")
  (chat_description: "string option")
  (chat_invite_link: "string option")
  (chat_pinned_message: "message option")
and message = Message
  (message_message_id: "64 word")
  (message_from: "user option")
  (message_date: "64 word")
  (message_chat: chat)
  (message_forward_from: "user option")
  (message_forward_from_chat: "chat option")
  (message_forward_from_message_id: "64 word option")
  (message_forward_signature: "string option")
  (message_forward_date: "64 word option")
  (message_reply_to_message: "message option")
  (message_edit_date: "64 word option")
  (message_author_signature: "string option")
  (message_text: "string option")
  (message_audio: "audio option")
  (message_document: "document option")
  (message_photo: "photosize list option")
  (message_sticker: "sticker option")
  (message_video: "video option")
  (message_voice: "voice option")
  (message_video_note: "video_note option")
  (message_caption: "string option")
  (message_contact: "contact option")
  (message_location: "location option")
  (message_venue: "venue option")
  (message_new_chat_members: "user list option")
  (message_left_chat_member: "user option")
  (message_new_chat_title: "string option")
  (message_new_chat_photo: "photosize list option")
  (message_delete_chat_photo: "bool option")
  (message_group_chat_created: "bool option")
  (message_supergroup_chat_created: "bool option")
  (message_channel_chat_created: "bool option")
  (message_migrate_to_chat_id: "64 word option")
  (message_migrate_from_chat_id: "64 word option")
  (message_pinned_message: "message option")
  (message_invoice: "invoice option")
  (message_successful_payment: "successful_payment option")

definition chat_type_of_string :: "string \<Rightarrow> chat_type" where
  "chat_type_of_string s =
     (if s = ''private'' then PRIVATE
      else if s = ''group'' then GROUP
      else if s = ''supergroup'' then SUPERGROUP
      else if s = ''channel'' then CHANNEL
      else CHAT_UNKNOWN)"

subsection \<open>from\_json\<close>

text \<open>The type string of a chat is read first; the members then follow in the order of the braced
  initialiser.\<close>

function chat_from_json :: "json \<Rightarrow> chat result"
  and message_from_json :: "json \<Rightarrow> message result" where
  "chat_from_json tree =
     bindE (at_string tree ''type'') (\<lambda>type_string.
     bindE (at_int64 tree ''id'') (\<lambda>this_id.
     bindE (make_optional_string tree ''title'') (\<lambda>title.
     bindE (make_optional_string tree ''username'') (\<lambda>username.
     bindE (make_optional_string tree ''first_name'') (\<lambda>first_name.
     bindE (make_optional_string tree ''last_name'') (\<lambda>last_name.
     bindE (make_optional_bool tree ''all_members_are_administrators'') (\<lambda>all_members_are_administrators.
     bindE (make_optional_from_json chat_photo_from_json tree ''photo'') (\<lambda>photo.
     bindE (make_optional_string tree ''description'') (\<lambda>description.
     bindE (make_optional_string tree ''invite_link'') (\<lambda>invite_link.
     bindE (make_shared_from_json message_from_json tree ''pinned_message'') (\<lambda>pinned_message.
     Inr (Chat this_id (chat_type_of_string type_string) title username first_name last_name
        all_members_are_administrators photo description invite_link pinned_message))))))))))))"
| "message_from_json tree =
     bindE (at_int64 tree ''message_id'') (\<lambda>message_id.
     bindE (make_optional_from_json user_from_json tree ''from'') (\<lambda>sender.
     bindE (at_int64 tree ''date'') (\<lambda>date.
     bindE (bindE (json_at tree ''chat'') chat_from_json) (\<lambda>this_chat.
     bindE (make_optional_from_json user_from_json tree ''forward_from'') (\<lambda>forward_from.
     bindE (make_optional_from_json chat_from_json tree ''forward_from_chat'') (\<lambda>forward_from_chat.
     bindE (make_optional_int32 tree ''forward_from_message_id'') (\<lambda>forward_from_message_id.
     bindE (make_optional_string tree ''forward_signature'') (\<lambda>forward_signature.
     bindE (make_optional_int32 tree ''forward_date'') (\<lambda>forward_date.
     bindE (make_shared_from_json message_from_json tree ''reply_to_message'') (\<lambda>reply_to_message.
     bindE (make_optional_int32 tree ''edit_date'') (\<lambda>edit_date.
     bindE (make_optional_string tree ''author_signature'') (\<lambda>author_signature.
     bindE (make_optional_string tree ''text'') (\<lambda>txt.
     bindE (make_optional_from_json audio_from_json tree ''audio'') (\<lambda>audio.
     bindE (make_optional_from_json document_from_json tree ''document'') (\<lambda>document.
     bindE (make_optional_vector_from_json photosize_from_json tree ''photo'') (\<lambda>photo.
     bindE (make_optional_from_json sticker_from_json tree ''sticker'') (\<lambda>sticker.
     bindE (make_optional_from_json video_from_json tree ''video'') (\<lambda>video.
     bindE (make_optional_from_json voice_from_json tree ''voice'') (\<lambda>voice.
     bindE (make_optional_from_json video_note_from_json tree ''video_note'') (\<lambda>video_note.
     bindE (make_optional_string tree ''caption'') (\<lambda>caption.
     bindE (make_optional_from_json contact_from_json tree ''contact'') (\<lambda>contact.
     bindE (make_optional_from_json location_from_json tree ''location'') (\<lambda>location.
     bindE (make_optional_from_json venue_from_json tree ''venue'') (\<lambda>venue.
     bindE (make_optional_vector_from_json user_from_json tree ''new_chat_members'') (\<lambda>new_chat_members.
     bindE (make_optional_from_json user_from_json tree ''left_chat_member'') (\<lambda>left_chat_member.
     bindE (make_optional_string tree ''new_chat_title'') (\<lambda>new_chat_title.
     bindE (make_optional_vector_from_json photosize_from_json tree ''new_chat_photo'') (\<lambda>new_chat_photo.
     bindE (make_optional_bool tree ''delete_chat_photo'') (\<lambda>delete_chat_photo.
     bindE (make_optional_bool tree ''group_chat_created'') (\<lambda>group_chat_created.
     bindE (make_optional_bool tree ''supergroup_chat_created'') (\<lambda>supergroup_chat_created.
     bindE (make_optional_bool tree ''channel_chat_created'') (\<lambda>channel_chat_created.
     bindE (make_optional_int64 tree ''migrate_to_chat_id'') (\<lambda>migrate_to_chat_id.
     bindE (make_optional_int64 tree ''migrate_from_chat_id'') (\<lambda>migrate_from_chat_id.
     bindE (make_shared_from_json message_from_json tree ''pinned_message'') (\<lambda>pinned_message.
     bindE (make_optional_from_json invoice_from_json tree ''invoice'') (\<lambda>invoice.
     bindE (make_optional_from_json successful_payment_from_json tree ''successful_payment'') (\<lambda>successful_payment.
     Inr (Message message_id sender date this_chat forward_from forward_from_chat
        (widen forward_from_message_id) forward_signature (widen forward_date)
        reply_to_message (widen edit_date) author_signature txt audio document photo sticker
        video voice video_note caption contact location venue new_chat_members
        left_chat_member new_chat_title new_chat_photo delete_chat_photo group_chat_created
        supergroup_chat_created channel_chat_created migrate_to_chat_id migrate_from_chat_id
        pinned_message invoice successful_payment))))))))))))))))))))))))))))))))))))))"
  by pat_completeness auto
termination
  by (relation "measure (case_sum size size)") (auto dest: json_get_size)

declare chat_from_json.simps [simp del] message_from_json.simps [simp del]

definition chat_from_json_path :: "json \<Rightarrow> string \<Rightarrow> chat result" where
  [decode_defs]: "chat_from_json_path tree path = bindE (json_at tree path) chat_from_json"

definition message_from_json_path :: "json \<Rightarrow> string \<Rightarrow> message result" where
  [decode_defs]: "message_from_json_path tree path = bindE (json_at tree path) message_from_json"

subsection \<open>The wire format\<close>

fun string_of_chat_type :: "chat_type \<Rightarrow> string" where
  "string_of_chat_type PRIVATE = ''private''"
| "string_of_chat_type GROUP = ''group''"
| "string_of_chat_type SUPERGROUP = ''supergroup''"
| "string_of_chat_type CHANNEL = ''channel''"
| "string_of_chat_type CHAT_UNKNOWN = ''unknown''"

lemma chat_type_of_string_of [simp]: "chat_type_of_string (string_of_chat_type t) = t"
  by (cases t) (simp_all add: chat_type_of_string_def)

primrec chat_to_wire :: "chat \<Rightarrow> json" and message_to_wire :: "message \<Rightarrow> json" where
  "chat_to_wire (Chat this_id ty title username first_name last_name all_members_are_administrators
       photo description invite_link pinned_message) = mk_object
     [(''id'', Some (JNumber this_id)),
      (''type'', Some (JString (string_of_chat_type ty))),
      (''title'', map_option JString title),
      (''username'', map_option JString username),
      (''first_name'', map_option JString first_name),
      (''last_name'', map_option JString last_name),
      (''all_members_are_administrators'', map_option JBool all_members_are_administrators),
      (''photo'', map_option chat_photo_to_wire photo),
      (''description'', map_option JString description),
      (''invite_link'', map_option JString invite_link),
      (''pinned_message'', map_option message_to_wire pinned_message)]"
| "message_to_wire (Message message_id sender date this_chat forward_from forward_from_chat
       forward_from_message_id forward_signature forward_date reply_to_message
       edit_date author_signature txt audio document photo sticker video voice
       video_note caption contact location venue new_chat_members left_chat_member
       new_chat_title new_chat_photo delete_chat_photo group_chat_created
       supergroup_chat_created channel_chat_created migrate_to_chat_id
       migrate_from_chat_id pinned_message invoice successful_payment) = mk_object
     [(''message_id'', Some (JNumber message_id)),
      (''from'', map_option user_to_wire sender),
      (''date'', Some (JNumber date)),
      (''chat'', Some (chat_to_wire this_chat)),
      (''forward_from'', map_option user_to_wire forward_from),
      (''forward_from_chat'', map_option chat_to_wire forward_from_chat),
      (''forward_from_message_id'', map_option JNumber forward_from_message_id),
      (''forward_signature'', map_option JString forward_signature),
      (''forward_date'', map_option JNumber forward_date),
      (''reply_to_message'', map_option message_to_wire reply_to_message),
      (''edit_date'', map_option JNumber edit_date),
      (''author_signature'', map_option JString author_signature),
      (''text'', map_option JString txt),
      (''audio'', map_option audio_to_wire audio),
      (''document'', map_option document_to_wire document),
      (''photo'', map_option (\<lambda>xs. JArray (map photosize_to_wire xs)) photo),
      (''sticker'', map_option sticker_to_wire sticker),
      (''video'', map_option video_to_wire video),
      (''voice'', map_option voice_to_wire voice),
      (''video_note'', map_option video_note_to_wire video_note),
      (''caption'', map_option JString caption),
      (''contact'', map_option contact_to_wire contact),
      (''location'', map_option location_to_wire location),
      (''venue'', map_option venue_to_wire venue),
      (''new_chat_members'', map_option (\<lambda>xs. JArray (map user_to_wire xs)) new_chat_members),
      (''left_chat_member'', map_option user_to_wire left_chat_member),
      (''new_chat_title'', map_option JString new_chat_title),
      (''new_chat_photo'', map_option (\<lambda>xs. JArray (map photosize_to_wire xs)) new_chat_photo),
      (''delete_chat_photo'', map_option JBool delete_chat_photo),
      (''group_chat_created'', map_option JBool group_chat_created),
      (''supergroup_chat_created'', map_option JBool supergroup_chat_created),
      (''channel_chat_created'', map_option JBool channel_chat_created),
      (''migrate_to_chat_id'', map_option JNumber migrate_to_chat_id),
      (''migrate_from_chat_id'', map_option JNumber migrate_from_chat_id),
      (''pinned_message'', map_option message_to_wire pinned_message),
      (''invoice'', map_option invoice_to_wire invoice),
      (''successful_payment'', map_option successful_payment_to_wire successful_payment)]"

fun wf_chat :: "chat \<Rightarrow> bool" and wf_message :: "message \<Rightarrow> bool" where
  "wf_chat (Chat this_id ty title username first_name last_name all_members_are_administrators
       photo description invite_link pinned_message) \<longleftrightarrow>
     wf_opt wf_chat_photo photo
     \<and> (case pinned_message of None \<Rightarrow> True | Some m \<Rightarrow> wf_message m)"
| "wf_message (Message message_id sender date this_chat forward_from forward_from_chat
       forward_from_message_id forward_signature forward_date reply_to_message
       edit_date author_signature txt audio document photo sticker video voice
       video_note caption contact location venue new_chat_members left_chat_member
       new_chat_title new_chat_photo delete_chat_photo group_chat_created
       supergroup_chat_created channel_chat_created migrate_to_chat_id
       migrate_from_chat_id pinned_message invoice successful_payment) \<longleftrightarrow>
     wf_opt wf_user sender
     \<and> wf_chat this_chat
     \<and> wf_opt wf_user forward_from
     \<and> (case forward_from_chat of None \<Rightarrow> True | Some c \<Rightarrow> wf_chat c)
     \<and> wf_opt fits32 forward_from_message_id
     \<and> wf_opt fits32 forward_date
     \<and> (case reply_to_message of None \<Rightarrow> True | Some m \<Rightarrow> wf_message m)
     \<and> wf_opt fits32 edit_date
     \<and> wf_opt wf_audio audio
     \<and> wf_opt wf_document document
     \<and> wf_opt (\<lambda>xs. xs \<noteq> [] \<and> list_all wf_photosize xs) photo
     \<and> wf_opt wf_sticker sticker
     \<and> wf_opt wf_video video
     \<and> wf_opt wf_voice voice
     \<and> wf_opt wf_video_note video_note
     \<and> wf_opt wf_contact contact
     \<and> wf_opt wf_location location
     \<and> wf_opt wf_venue venue
     \<and> wf_opt (\<lambda>xs. xs \<noteq> [] \<and> list_all wf_user xs) new_chat_members
     \<and> wf_opt wf_user left_chat_member
     \<and> wf_opt (\<lambda>xs. xs \<noteq> [] \<and> list_all wf_photosize xs) new_chat_photo
     \<and> (case pinned_message of None \<Rightarrow> True | Some m \<Rightarrow> wf_message m)
     \<and> wf_opt wf_invoice invoice
     \<and> wf_opt wf_successful_payment successful_payment"

definition chat_keys :: "string list" where
  "chat_keys = [''id'', ''type'', ''title'', ''username'', ''first_name'', ''last_name'',
     ''all_members_are_administrators'', ''photo'', ''description'', ''invite_link'',
     ''pinned_message'']"

definition message_keys :: "string list" where
  "message_keys = [''message_id'', ''from'', ''date'', ''chat'', ''forward_from'',
     ''forward_from_chat'', ''forward_from_message_id'', ''forward_signature'',
     ''forward_date'', ''reply_to_message'', ''edit_date'', ''author_signature'', ''text'',
     ''audio'', ''document'', ''photo'', ''sticker'', ''video'', ''voice'', ''video_note'',
     ''caption'', ''contact'', ''location'', ''venue'', ''new_chat_members'',
     ''left_chat_member'', ''new_chat_title'', ''new_chat_photo'', ''delete_chat_photo'',
     ''group_chat_created'', ''supergroup_chat_created'', ''channel_chat_created'',
     ''migrate_to_chat_id'', ''migrate_from_chat_id'', ''pinned_message'', ''invoice'',
     ''successful_payment'']"

subsection \<open>The contract of the two decoders\<close>

lemma message_raises_aux:
  "only_raises decode_error (chat_from_json j) \<and> only_raises decode_error (message_from_json j)"
proof (induction j rule: measure_induct_rule [of size])
  case (less j)
  have member: "json_get j k = Some c \<Longrightarrow>
      only_raises decode_error (chat_from_json c) \<and> only_raises decode_error (message_from_json c)"
    for k c
    using less by (blast dest: json_get_size)
  note leaves = photosize_wire.dec_raises chat_photo_wire.dec_raises audio_wire.dec_raises
    document_wire.dec_raises video_wire.dec_raises video_note_wire.dec_raises voice_wire.dec_raises
    sticker_wire.dec_raises user_wire.dec_raises contact_wire.dec_raises location_wire.dec_raises
    venue_wire.dec_raises invoice_wire.dec_raises successful_payment_wire.dec_raises
  have chat: "json_get j k = Some c \<Longrightarrow> only_raises decode_error (chat_from_json c)"
    and message: "json_get j k = Some c \<Longrightarrow> only_raises decode_error (message_from_json c)" for k c
    by (simp_all add: member)
  have "only_raises decode_error (chat_from_json j)"
    unfolding chat_from_json.simps [of j]
    by ((rule raises_members | rule leaves | rule only_raises_readers | rule only_raises_Inr
        | erule message | rule only_raises_bindE)+)
  moreover have "only_raises decode_error (message_from_json j)"
    unfolding message_from_json.simps [of j]
    by ((rule raises_members | rule leaves | rule only_raises_readers | rule only_raises_Inr
        | erule message | erule chat | rule only_raises_nested(4) | rule only_raises_bindE)+)
  ultimately show ?case by simp
qed

lemma chat_message_roundtrip:
  "wf_chat c \<Longrightarrow> chat_from_json (chat_to_wire c) = Inr c"
  "wf_message m \<Longrightarrow> message_from_json (message_to_wire m) = Inr m"
proof (induction c and m)
  case (Chat x1 x2 x3 x4 x5 x6 x7 x8 x9 x10 x11)
  from Chat have "optionally message_from_json (map_option message_to_wire x11) = Inr x11"
    by (cases x11) simp_all
  with Chat.prems show ?case
    by (simp add: chat_from_json.simps [of "mk_object _"] readers_object
        chat_photo_wire.optional_roundtrip del: optionally_Some)
next
  case (Message x1 x2 x3 x4 x5 x6 x7 x8 x9 x10 x11 x12 x13 x14 x15 x16 x17 x18 x19 x20 x21 x22 x23 x24
      x25 x26 x27 x28 x29 x30 x31 x32 x33 x34 x35 x36 x37)
  from Message have reply: "optionally message_from_json (map_option message_to_wire x10) = Inr x10"
    by (cases x10) simp_all
  from Message have pinned: "optionally message_from_json (map_option message_to_wire x35) = Inr x35"
    by (cases x35) simp_all
  from Message have origin: "optionally chat_from_json (map_option chat_to_wire x6) = Inr x6"
    by (cases x6) simp_all
  from Message have chat: "chat_from_json (chat_to_wire x4) = Inr x4"
    by simp
  note leaves = photosize_wire.vector_roundtrip user_wire.vector_roundtrip
    user_wire.optional_roundtrip audio_wire.optional_roundtrip document_wire.optional_roundtrip
    sticker_wire.optional_roundtrip video_wire.optional_roundtrip voice_wire.optional_roundtrip
    video_note_wire.optional_roundtrip contact_wire.optional_roundtrip
    location_wire.optional_roundtrip venue_wire.optional_roundtrip invoice_wire.optional_roundtrip
    successful_payment_wire.optional_roundtrip
  from Message.prems show ?case
    by (simp add: message_from_json.simps [of "mk_object _"] readers_object json_at_required
        reply pinned origin chat leaves del: optionally_Some)
qed

interpretation chat_wire: wire_type chat_from_json chat_keys chat_to_wire wf_chat
proof unfold_locales
  fix j j' :: json and x :: chat
  show "\<not> is_object j \<Longrightarrow> chat_from_json j =
      Inl (Type_error 304 (''cannot use at() with '' @ json_type_name j))"
    by (simp add: chat_from_json.simps [of j] readers_not_object)
  show "only_raises decode_error (chat_from_json j)"
    by (simp add: message_raises_aux)
  show "is_object j \<Longrightarrow> is_object j' \<Longrightarrow>
      \<forall>k \<in> set chat_keys. json_get j k = json_get j' k \<Longrightarrow> chat_from_json j = chat_from_json j'"
    by (simp add: chat_from_json.simps [of j] chat_from_json.simps [of j'] chat_keys_def
        readers_object)
  show "is_object (chat_to_wire x)"
    by (cases x) simp
  show "wf_chat x \<Longrightarrow> chat_from_json (chat_to_wire x) = Inr x"
    by (rule chat_message_roundtrip)
qed

interpretation message_wire: wire_type message_from_json message_keys message_to_wire wf_message
proof unfold_locales
  fix j j' :: json and x :: message
  show "\<not> is_object j \<Longrightarrow> message_from_json j =
      Inl (Type_error 304 (''cannot use at() with '' @ json_type_name j))"
    by (simp add: message_from_json.simps [of j] readers_not_object)
  show "only_raises decode_error (message_from_json j)"
    by (simp add: message_raises_aux)
  show "is_object j \<Longrightarrow> is_object j' \<Longrightarrow>
      \<forall>k \<in> set message_keys. json_get j k = json_get j' k \<Longrightarrow>
      message_from_json j = message_from_json j'"
    by (simp add: message_from_json.simps [of j] message_from_json.simps [of j'] message_keys_def
        readers_object json_at_required)
  show "is_object (message_to_wire x)"
    by (cases x) simp
  show "wf_message x \<Longrightarrow> message_from_json (message_to_wire x) = Inr x"
    by (rule chat_message_roundtrip)
qed

end
