(* ===== verification/Types_Query.thy ===== *)
theory Types_Query
  imports Types_Message
begin

section \<open>Callback queries and chat members\<close>

text \<open>
  The two types built on messages and users: the callback query a pressed inline button sends, and the
  member of a chat. Both satisfy \<open>json_decoder\<close>; the callback query also reads back its wire format.
\<close>

subsection \<open>callback\_query\<close>

record callback_query =
  callback_query_id :: string
  callback_query_from :: user
  callback_query_origin_message :: "message option"
  callback_query_inline_message_id :: "string option"
  callback_query_chat_instance :: "string option"
  callback_query_data :: "string option"
  callback_query_game_short_name :: "string option"

definition callback_query_from_json :: "json \<Rightarrow> callback_query result" where
  "callback_query_from_json tree =
     bindE (at_string tree ''id'') (\<lambda>this_id.
     bindE (user_from_json_path tree ''from'') (\<lambda>sender.
     bindE (make_optional_from_json message_from_json tree ''message'') (\<lambda>origin_message.
     bindE (make_optional_string tree ''inline_message_id'') (\<lambda>inline_message_id.
     bindE (make_optional_string tree ''chat_instance'') (\<lambda>chat_instance.
     bindE (make_optional_string tree ''data'') (\<lambda>data.
     bindE (make_optional_string tree ''game_short_name'') (\<lambda>game_short_name.
     Inr \<lparr>callback_query_id = this_id, callback_query_from = sender,
       callback_query_origin_message = origin_message,
       callback_query_inline_message_id = inline_message_id,
       callback_query_chat_instance = chat_instance, callback_query_data = data,
       callback_query_game_short_name = game_short_name\<rparr>)))))))"

definition callback_query_from_json_path :: "json \<Rightarrow> string \<Rightarrow> callback_query result" where
  [decode_defs]: "callback_query_from_json_path tree path =
     bindE (json_at tree path) callback_query_from_json"

definition callback_query_keys :: "string list" where
  "callback_query_keys = [''id'', ''from'', ''message'', ''inline_message_id'', ''chat_instance'',
     ''data'', ''game_short_name'']"

definition callback_query_to_wire :: "callback_query \<Rightarrow> json" where
  "callback_query_to_wire x = mk_object
     [(''id'', Some (JString (callback_query_id x))),
      (''from'', Some (user_to_wire (callback_query_from x))),
      (''message'', map_option message_to_wire (callback_query_origin_message x)),
      (''inline_message_id'', map_option JString (callback_query_inline_message_id x)),
      (''chat_instance'', map_option JString (callback_query_chat_instance x)),
      (''data'', map_option JString (callback_query_data x)),
      (''game_short_name'', map_option JString (callback_query_game_short_name x))]"

definition wf_callback_query :: "callback_query \<Rightarrow> bool" where
  "wf_callback_query x \<longleftrightarrow> wf_user (callback_query_from x)
     \<and> wf_opt wf_message (callback_query_origin_message x)"

interpretation callback_query_wire:
  wire_type callback_query_from_json callback_query_keys callback_query_to_wire wf_callback_query
proof unfold_locales
  fix j j' :: json and x :: callback_query
  show "\<not> is_object j \<Longrightarrow> callback_query_from_json j =
      Inl (Type_error 304 (''cannot use at() with '' @ json_type_name j))"
    by (simp add: callback_query_from_json_def readers_not_object)
  show "only_raises decode_error (callback_query_from_json j)"
    by (auto simp: callback_query_from_json_def decode_defs
        intro!: raises_intros user_wire.dec_raises message_wire.dec_raises)
  show "is_object j \<Longrightarrow> is_object j' \<Longrightarrow>
      \<forall>k \<in> set callback_query_keys. json_get j k = json_get j' k \<Longrightarrow>
      callback_query_from_json j = callback_query_from_json j'"
    by (simp add: callback_query_from_json_def callback_query_keys_def decode_defs readers_object
        json_at_required)
  show "is_object (callback_query_to_wire x)"
    by (simp add: callback_query_to_wire_def)
  show "wf_callback_query x \<Longrightarrow> callback_query_from_json (callback_query_to_wire x) = Inr x"
    by (simp add: callback_query_from_json_def callback_query_to_wire_def wf_callback_query_def
        decode_defs readers_object json_at_required user_wire.dec_enc
        message_wire.optional_roundtrip)
qed

subsection \<open>chat\_member\<close>

datatype status_type = CREATOR | ADMINISTRATOR | MEMBER | RESTRICTED | LEFT | KICKED | STATUS_UNKNOWN

record chat_member =
  chat_member_user :: user
  chat_member_status :: status_type
  chat_member_until_date :: "64 word option"
  chat_member_can_be_edited :: "bool option"
  chat_member_can_change_info :: "bool option"
  chat_member_can_post_messages :: "bool option"
  chat_member_can_edit_messages :: "bool option"
  chat_member_can_delete_messages :: "bool option"
  chat_member_can_invite_users :: "bool option"
  chat_member_can_restrict_members :: "bool option"
  chat_member_can_pin_messages :: "bool option"
  chat_member_can_promote_members :: "bool option"
  chat_member_can_send_messages :: "bool option"
  chat_member_can_send_media_messages :: "bool option"
  chat_member_can_send_other_messages :: "bool option"
  chat_member_can_add_web_page_previews :: "bool option"

definition status_of_string :: "string \<Rightarrow> status_type" where
  "status_of_string s =
     (if s = ''creator'' then CREATOR
      else if s = ''administrator'' then ADMINISTRATOR
      else if s = ''member'' then MEMBER
      else if s = ''restricted'' then RESTRICTED
      else if s = ''left'' then LEFT
      else if s = ''kicked'' then KICKED
      else STATUS_UNKNOWN)"

text \<open>The status is read from a member named \<open>type\<close>.\<close>

definition chat_member_from_json :: "json \<Rightarrow> chat_member result" where
  "chat_member_from_json tree =
     bindE (at_string tree ''type'') (\<lambda>status_string.
     bindE (user_from_json_path tree ''user'') (\<lambda>chat_user.
     bindE (make_optional_int64 tree ''until_date'') (\<lambda>until_date.
     bindE (make_optional_bool tree ''can_be_edited'') (\<lambda>can_be_edited.
     bindE (make_optional_bool tree ''can_change_info'') (\<lambda>can_change_info.
     bindE (make_optional_bool tree ''can_post_messages'') (\<lambda>can_post_messages.
     bindE (make_optional_bool tree ''can_edit_messages'') (\<lambda>can_edit_messages.
     bindE (make_optional_bool tree ''can_delete_messages'') (\<lambda>can_delete_messages.
     bindE (make_optional_bool tree ''can_invite_users'') (\<lambda>can_invite_users.
     bindE (make_optional_bool tree ''can_restrict_members'') (\<lambda>can_restrict_members.
     bindE (make_optional_bool tree ''can_pin_messages'') (\<lambda>can_pin_messages.
     bindE (make_optional_bool tree ''can_promote_members'') (\<lambda>can_promote_members.
     bindE (make_optional_bool tree ''can_send_messages'') (\<lambda>can_send_messages.
     bindE (make_optional_bool tree ''can_send_media_messages'') (\<lambda>can_send_media_messages.
     bindE (make_optional_bool tree ''can_send_other_messages'') (\<lambda>can_send_other_messages.
     bindE (make_optional_bool tree ''can_add_web_page_previews'') (\<lambda>can_add_web_page_previews.
     Inr \<lparr>chat_member_user = chat_user,
       chat_member_status = status_of_string status_string,
       chat_member_until_date = until_date, chat_member_can_be_edited = can_be_edited,
       chat_member_can_change_info = can_change_info,
       chat_member_can_post_messages = can_post_messages,
       chat_member_can_edit_messages = can_edit_messages,
       chat_member_can_delete_messages = can_delete_messages,
       chat_member_can_invite_users = can_invite_users,
       chat_member_can_restrict_members = can_restrict_members,
       chat_member_can_pin_messages = can_pin_messages,
       chat_member_can_promote_members = can_promote_members,
       chat_member_can_send_messages = can_send_messages,
       chat_member_can_send_media_messages = can_send_media_messages,
       chat_member_can_send_other_messages = can_send_other_messages,
       chat_member_can_add_web_page_previews = can_add_web_page_previews\<rparr>))))))))))))))))"

definition chat_member_from_json_path :: "json \<Rightarrow> string \<Rightarrow> chat_member result" where
  [decode_defs]: "chat_member_from_json_path tree path =
     bindE (json_at tree path) chat_member_from_json"

definition chat_member_keys :: "string list" where
  "chat_member_keys = [''type'', ''user'', ''until_date'', ''can_be_edited'',
     ''can_change_info'', ''can_post_messages'', ''can_edit_messages'',
     ''can_delete_messages'', ''can_invite_users'', ''can_restrict_members'',
     ''can_pin_messages'', ''can_promote_members'', ''can_send_messages'',
     ''can_send_media_messages'', ''can_send_other_messages'', ''can_add_web_page_previews'']"

interpretation chat_member_decoder: json_decoder chat_member_from_json chat_member_keys
proof unfold_locales
  fix j j' :: json
  show "\<not> is_object j \<Longrightarrow> chat_member_from_json j =
      Inl (Type_error 304 (''cannot use at() with '' @ json_type_name j))"
    by (simp add: chat_member_from_json_def readers_not_object)
  show "only_raises decode_error (chat_member_from_json j)"
    by (auto simp: chat_member_from_json_def decode_defs intro!: raises_intros user_wire.dec_raises)
  show "is_object j \<Longrightarrow> is_object j' \<Longrightarrow>
      \<forall>k \<in> set chat_member_keys. json_get j k = json_get j' k \<Longrightarrow>
      chat_member_from_json j = chat_member_from_json j'"
    by (simp add: chat_member_from_json_def chat_member_keys_def decode_defs readers_object
        json_at_required)
qed

lemma chat_member_needs_type:
  "is_object j \<Longrightarrow> json_get j ''type'' = None \<Longrightarrow>
     chat_member_from_json j = Inl (key_not_found ''type'')"
  by (simp add: chat_member_from_json_def readers_object)

end
