(* ===== verification/Http_Parse.thy ===== *)
theory Http_Parse
  imports Url
begin

section \<open>Reading the head of an HTTP response\<close>

text \<open>
  \<open>urdl/detail/parsers.hpp\<close>: the two automata that read a status line and a block of header lines. Each
  \<open>enum\<close> is a datatype, each \<open>switch\<close> a function from a state and a character to the next state, and the
  loop runs it over the characters. The numbers are \<open>int\<close>: overflowing one is undefined behaviour. The
  status line is read through \<open>istreambuf_iterator\<close>s, which take the characters out of the buffer, so
  \<open>parse_http_status_line\<close> also returns what it left there.
\<close>

subsection \<open>Characters\<close>

definition is_char :: "char \<Rightarrow> bool" where
  "is_char c \<longleftrightarrow> (of_char c :: nat) \<le> 127"

text \<open>A \<open>char\<close> above 127 is a negative \<open>int\<close>.\<close>

definition is_ctl :: "char \<Rightarrow> bool" where
  "is_ctl c \<longleftrightarrow> (of_char c :: nat) \<le> 31 \<or> c = CHR 0x7F"

definition is_tspecial :: "char \<Rightarrow> bool" where
  "is_tspecial c \<longleftrightarrow> c \<in> set (''()<>@,;:'' @ [CHR 0x5C, CHR 0x22] @ ''/[]?={} '' @ [CHR 0x09])"

text \<open>A character a header name may have.\<close>

definition token_char :: "char \<Rightarrow> bool" where
  "token_char c \<longleftrightarrow> \<not> (\<not> is_char c \<or> is_ctl c \<or> is_tspecial c)"

definition headers_equal :: "string \<Rightarrow> string \<Rightarrow> bool" where
  "headers_equal a b \<longleftrightarrow> length a = length b \<and> list_all2 (\<lambda>x y. tolower x = tolower y) a b"

text \<open>\<open>std::atoi\<close>: white space, a sign, digits; undefined when the number is no \<open>int\<close>.\<close>

definition isspace :: "char \<Rightarrow> bool" where
  "isspace c \<longleftrightarrow> c = CHR '' '' \<or> (9 \<le> (of_char c :: nat) \<and> (of_char c :: nat) \<le> 13)"

definition std_atoi :: "string \<Rightarrow> int result" where
  "std_atoi s =
     (let t = dropWhile isspace (c_str s);
          neg = (peek t = CHR ''-'');
          d = (if neg \<or> peek t = CHR ''+'' then drop 1 t else t);
          v = (if neg then - int (atoi d) else int (atoi d))
      in if - (2 ^ 31) \<le> v \<and> v < 2 ^ 31 then Inr v
         else Inl (Undefined ''std::atoi: value out of range''))"

subsection \<open>The status line\<close>

datatype status_state =
    Http_version_h | Http_version_t_1 | Http_version_t_2 | Http_version_p | Http_version_slash
  | Http_version_major_start | Http_version_major | Http_version_minor_start | Http_version_minor
  | Status_code_start | Status_code | Reason_phrase | Status_linefeed | Status_fail

record status_line =
  version_major :: int
  version_minor :: int
  status_value :: int

definition append_digit :: "int \<Rightarrow> char \<Rightarrow> int result" where
  "append_digit n c =
     (if n * 10 + of_char c < 2 ^ 31 then Inr (n * 10 + of_char c - of_char (CHR ''0''))
      else Inl (Undefined ''signed integer overflow''))"

definition expect_char :: "char \<Rightarrow> char \<Rightarrow> status_state \<Rightarrow> status_state" where
  "expect_char c d st = (if c = d then st else Status_fail)"

definition status_step ::
    "status_state \<Rightarrow> status_line \<Rightarrow> char \<Rightarrow> (status_state \<times> status_line) result" where
  "status_step st v c =
     (case st of
        Http_version_h \<Rightarrow> Inr (expect_char c (CHR ''H'') Http_version_t_1, v)
      | Http_version_t_1 \<Rightarrow> Inr (expect_char c (CHR ''T'') Http_version_t_2, v)
      | Http_version_t_2 \<Rightarrow> Inr (expect_char c (CHR ''T'') Http_version_p, v)
      | Http_version_p \<Rightarrow> Inr (expect_char c (CHR ''P'') Http_version_slash, v)
      | Http_version_slash \<Rightarrow> Inr (expect_char c (CHR ''/'') Http_version_major_start, v)
      | Http_version_major_start \<Rightarrow>
          if isdigit c then
            bindE (append_digit (version_major v) c) (\<lambda>n. Inr (Http_version_major, v\<lparr>version_major := n\<rparr>))
          else Inr (Status_fail, v)
      | Http_version_major \<Rightarrow>
          if c = CHR ''.'' then Inr (Http_version_minor_start, v)
          else if isdigit c then
            bindE (append_digit (version_major v) c) (\<lambda>n. Inr (Http_version_major, v\<lparr>version_major := n\<rparr>))
          else Inr (Status_fail, v)
      | Http_version_minor_start \<Rightarrow>
          if isdigit c then
            bindE (append_digit (version_minor v) c) (\<lambda>n. Inr (Http_version_minor, v\<lparr>version_minor := n\<rparr>))
          else Inr (Status_fail, v)
      | Http_version_minor \<Rightarrow>
          if c = CHR '' '' then Inr (Status_code_start, v)
          else if isdigit c then
            bindE (append_digit (version_minor v) c) (\<lambda>n. Inr (Http_version_minor, v\<lparr>version_minor := n\<rparr>))
          else Inr (Status_fail, v)
      | Status_code_start \<Rightarrow>
          if isdigit c then
            bindE (append_digit (status_value v) c) (\<lambda>n. Inr (Status_code, v\<lparr>status_value := n\<rparr>))
          else Inr (Status_fail, v)
      | Status_code \<Rightarrow>
          if c = CHR '' '' then Inr (Reason_phrase, v)
          else if isdigit c then
            bindE (append_digit (status_value v) c) (\<lambda>n. Inr (Status_code, v\<lparr>status_value := n\<rparr>))
          else Inr (Status_fail, v)
      | Reason_phrase \<Rightarrow>
          Inr (if c = CHR 0x0D then Status_linefeed else if is_ctl c then Status_fail else Reason_phrase, v)
      | Status_linefeed \<Rightarrow> Inr (Status_linefeed, v)
      | Status_fail \<Rightarrow> Inr (Status_fail, v))"

text \<open>The loop, with the \<open>return\<close> of the case \<open>linefeed\<close>. The reason phrase is collected and dropped.\<close>

fun status_loop :: "status_state \<Rightarrow> status_line \<Rightarrow> string \<Rightarrow> (bool \<times> status_line \<times> string) result" where
  "status_loop st v [] = Inr (False, v, [])"
| "status_loop st v (c # s) =
     (if st = Status_fail then Inr (False, v, c # s)
      else if st = Status_linefeed then Inr (c = CHR 0x0A, v, s)
      else bindE (status_step st v c) (\<lambda>(st', v'). status_loop st' v' s))"

definition parse_http_status_line ::
    "status_line \<Rightarrow> string \<Rightarrow> (bool \<times> status_line \<times> string) result" where
  "parse_http_status_line v s = status_loop Http_version_h v s"

subsection \<open>The header lines\<close>

datatype header_state =
    First_header_line_start | Header_line_start | Header_lws | Header_name
  | Space_before_header_value | Header_value | Header_linefeed | Final_linefeed | Header_fail

text \<open>What the three output arguments hold.\<close>

record header_fields =
  content_type :: string
  content_length :: "64 word"
  location_field :: string

definition check_header :: "string \<Rightarrow> string \<Rightarrow> header_fields \<Rightarrow> header_fields result" where
  "check_header name value f =
     (if headers_equal name ''Content-Type'' then Inr (f\<lparr>content_type := value\<rparr>)
      else if headers_equal name ''Content-Length'' then
        bindE (std_atoi value) (\<lambda>n. Inr (f\<lparr>content_length := word_of_int n\<rparr>))
      else if headers_equal name ''Location'' then Inr (f\<lparr>location_field := value\<rparr>)
      else Inr f)"

text \<open>One turn: the state, the name and the value read so far, and the fields.\<close>

definition header_step ::
    "header_state \<Rightarrow> string \<times> string \<times> header_fields \<Rightarrow> char \<Rightarrow>
      (header_state \<times> string \<times> string \<times> header_fields) result" where
  "header_step st = (\<lambda>(name, value, f) c.
     case st of
       First_header_line_start \<Rightarrow>
         if c = CHR 0x0D then Inr (Final_linefeed, name, value, f)
         else if \<not> is_char c \<or> is_ctl c \<or> is_tspecial c then Inr (Header_fail, name, value, f)
         else Inr (Header_name, name @ [c], value, f)
     | Header_line_start \<Rightarrow>
         if c = CHR 0x0D then
           bindE (check_header name value f) (\<lambda>f'. Inr (Final_linefeed, [], [], f'))
         else if c = CHR '' '' \<or> c = CHR 0x09 then Inr (Header_lws, name, value, f)
         else if \<not> is_char c \<or> is_ctl c \<or> is_tspecial c then Inr (Header_fail, name, value, f)
         else bindE (check_header name value f) (\<lambda>f'. Inr (Header_name, [c], [], f'))
     | Header_lws \<Rightarrow>
         if c = CHR 0x0D then Inr (Header_linefeed, name, value, f)
         else if c = CHR '' '' \<or> c = CHR 0x09 then Inr (Header_lws, name, value, f)
         else if is_ctl c then Inr (Header_fail, name, value, f)
         else Inr (Header_value, name, value @ [c], f)
     | Header_name \<Rightarrow>
         if c = CHR '':'' then Inr (Space_before_header_value, name, value, f)
         else if \<not> is_char c \<or> is_ctl c \<or> is_tspecial c then Inr (Header_fail, name, value, f)
         else Inr (Header_name, name @ [c], value, f)
     | Space_before_header_value \<Rightarrow>
         Inr (if c = CHR '' '' then Header_value else Header_fail, name, value, f)
     | Header_value \<Rightarrow>
         if c = CHR 0x0D then Inr (Header_linefeed, name, value, f)
         else if is_ctl c then Inr (Header_fail, name, value, f)
         else Inr (Header_value, name, value @ [c], f)
     | Header_linefeed \<Rightarrow>
         Inr (if c = CHR 0x0A then Header_line_start else Header_fail, name, value, f)
     | Final_linefeed \<Rightarrow> Inr (Final_linefeed, name, value, f)
     | Header_fail \<Rightarrow> Inr (Header_fail, name, value, f))"

fun header_loop ::
    "header_state \<Rightarrow> string \<times> string \<times> header_fields \<Rightarrow> string \<Rightarrow> (bool \<times> header_fields) result" where
  "header_loop st (name, value, f) [] = Inr (False, f)"
| "header_loop st (name, value, f) (c # s) =
     (if st = Header_fail then Inr (False, f)
      else if st = Final_linefeed then Inr (c = CHR 0x0A, f)
      else bindE (header_step st (name, value, f) c) (\<lambda>(st', v). header_loop st' v s))"

definition parse_http_headers :: "string \<Rightarrow> header_fields \<Rightarrow> (bool \<times> header_fields) result" where
  "parse_http_headers s f = header_loop First_header_line_start ([], [], f) s"

subsection \<open>Which texts are status lines\<close>

definition crlf :: string where
  "crlf = [CHR 0x0D, CHR 0x0A]"

definition digits_from :: "int \<Rightarrow> string \<Rightarrow> int" where
  "digits_from n ds = foldl (\<lambda>n c. n * 10 + of_char c - 48) n ds"

definition no_ctl :: "string \<Rightarrow> bool" where
  "no_ctl s \<longleftrightarrow> list_all (\<lambda>c. \<not> is_ctl c) s"

definition status_text :: "string \<Rightarrow> string \<Rightarrow> string \<Rightarrow> string \<Rightarrow> string" where
  "status_text major minor status reason =
     ''HTTP/'' @ major @ ''.'' @ minor @ '' '' @ status @ '' '' @ reason @ crlf"

text \<open>Digits of a number that an \<open>int\<close> holds, with room for one more character.\<close>

definition number_ok :: "string \<Rightarrow> bool" where
  "number_ok ds \<longleftrightarrow> ds \<noteq> [] \<and> list_all isdigit ds \<and> digits_from 0 ds < 2 ^ 31 - 48"

lemma digits_from_simps [simp]:
  "digits_from n [] = n" "digits_from n (c # ds) = digits_from (n * 10 + of_char c - 48) ds"
  by (simp_all add: digits_from_def)

lemma digits_from_append: "digits_from n (ds @ es) = digits_from (digits_from n ds) es"
  by (simp add: digits_from_def)

lemma isdigit_range: "isdigit c \<Longrightarrow> 48 \<le> (of_char c :: int) \<and> (of_char c :: int) \<le> 57"
proof -
  assume "isdigit c"
  then have "48 \<le> (of_char c :: nat) \<and> (of_char c :: nat) \<le> 57"
    by (simp add: isdigit_def less_eq_char_def)
  moreover have "int (of_char c) = of_char c" by (rule of_nat_of_char)
  ultimately show ?thesis by linarith
qed

lemma digits_from_mono: "0 \<le> n \<Longrightarrow> list_all isdigit ds \<Longrightarrow> n \<le> digits_from n ds"
proof (induction ds arbitrary: n)
  case (Cons c ds)
  then have "48 \<le> (of_char c :: int)" using isdigit_range [of c] by simp
  with Cons.prems have "n \<le> n * 10 + of_char c - 48" by simp
  with Cons.IH [of "n * 10 + of_char c - 48"] Cons.prems show ?case by simp
qed simp

lemma append_digit_ok:
  assumes "0 \<le> n" and "list_all isdigit (c # ds)" and "digits_from n (c # ds) < 2 ^ 31 - 48"
  shows "append_digit n c = Inr (n * 10 + of_char c - 48)" and "0 \<le> n * 10 + of_char c - 48"
proof -
  have c: "48 \<le> (of_char c :: int)" using assms(2) isdigit_range [of c] by simp
  with assms show 0: "0 \<le> n * 10 + of_char c - 48" by simp
  then have "n * 10 + of_char c - 48 \<le> digits_from n (c # ds)"
    using assms(2) digits_from_mono [of "n * 10 + of_char c - 48" ds] by simp
  with assms(3) show "append_digit n c = Inr (n * 10 + of_char c - 48)"
    by (simp add: append_digit_def)
qed

lemma isdigit_not [simp]: "isdigit c \<Longrightarrow> c \<noteq> CHR ''.''" "isdigit c \<Longrightarrow> c \<noteq> CHR '' ''"
  by (auto simp: isdigit_def)

lemma status_loop_major:
  "0 \<le> version_major v \<Longrightarrow> list_all isdigit ds \<Longrightarrow> digits_from (version_major v) ds < 2 ^ 31 - 48 \<Longrightarrow>
   status_loop Http_version_major v (ds @ s) =
     status_loop Http_version_major (v\<lparr>version_major := digits_from (version_major v) ds\<rparr>) s"
proof (induction ds arbitrary: v)
  case (Cons c ds)
  from Cons.IH [of "v\<lparr>version_major := version_major v * 10 + of_char c - 48\<rparr>"]
  show ?case using Cons.prems append_digit_ok [OF Cons.prems]
    by (simp add: status_step_def)
qed simp

lemma status_loop_minor:
  "0 \<le> version_minor v \<Longrightarrow> list_all isdigit ds \<Longrightarrow> digits_from (version_minor v) ds < 2 ^ 31 - 48 \<Longrightarrow>
   status_loop Http_version_minor v (ds @ s) =
     status_loop Http_version_minor (v\<lparr>version_minor := digits_from (version_minor v) ds\<rparr>) s"
proof (induction ds arbitrary: v)
  case (Cons c ds)
  from Cons.IH [of "v\<lparr>version_minor := version_minor v * 10 + of_char c - 48\<rparr>"]
  show ?case using Cons.prems append_digit_ok [OF Cons.prems]
    by (simp add: status_step_def)
qed simp

lemma status_loop_code:
  "0 \<le> status_value v \<Longrightarrow> list_all isdigit ds \<Longrightarrow> digits_from (status_value v) ds < 2 ^ 31 - 48 \<Longrightarrow>
   status_loop Status_code v (ds @ s) =
     status_loop Status_code (v\<lparr>status_value := digits_from (status_value v) ds\<rparr>) s"
proof (induction ds arbitrary: v)
  case (Cons c ds)
  from Cons.IH [of "v\<lparr>status_value := status_value v * 10 + of_char c - 48\<rparr>"]
  show ?case using Cons.prems append_digit_ok [OF Cons.prems]
    by (simp add: status_step_def)
qed simp

lemma status_loop_reason:
  "no_ctl r \<Longrightarrow> status_loop Reason_phrase v (r @ crlf @ s) = Inr (True, v, s)"
proof (induction r)
  case Nil
  then show ?case by (simp add: crlf_def status_step_def)
next
  case (Cons c r)
  have "is_ctl (CHR 0x0D)" by (simp add: is_ctl_def)
  with Cons show ?case by (auto simp: status_step_def no_ctl_def)
qed

text \<open>A number may not be empty; after its first digit the automaton is in the same state.\<close>

lemma status_loop_start:
  assumes "ds \<noteq> []" and "list_all isdigit ds"
  shows "status_loop Http_version_major_start v (ds @ s) = status_loop Http_version_major v (ds @ s)"
    and "status_loop Http_version_minor_start v (ds @ s) = status_loop Http_version_minor v (ds @ s)"
    and "status_loop Status_code_start v (ds @ s) = status_loop Status_code v (ds @ s)"
  using assms by (cases ds; simp add: status_step_def)+

lemma status_line_read:
  assumes "number_ok major" and "number_ok minor" and "number_ok status" and "no_ctl reason"
  shows "parse_http_status_line \<lparr>version_major = 0, version_minor = 0, status_value = 0\<rparr>
      (status_text major minor status reason @ s) =
    Inr (True, \<lparr>version_major = digits_from 0 major, version_minor = digits_from 0 minor,
      status_value = digits_from 0 status\<rparr>, s)"
proof -
  have "status_loop Http_version_major v (CHR ''.'' # t) = status_loop Http_version_minor_start v t"
    and "status_loop Http_version_minor v (CHR '' '' # t) = status_loop Status_code_start v t"
    and "status_loop Status_code v (CHR '' '' # t) = status_loop Reason_phrase v t" for v t
    by (simp_all add: status_step_def)
  then show ?thesis
    using assms
    by (simp add: parse_http_status_line_def status_text_def number_ok_def status_step_def expect_char_def
        status_loop_start status_loop_major status_loop_minor status_loop_code status_loop_reason)
qed

text \<open>Conversely, what the automaton accepts is a status line, with the number appended to the one
  \<open>status\<close> held before.\<close>

lemma status_loop_fail: "status_loop Status_fail v s \<noteq> Inr (True, x)"
  by (cases s) auto

lemma append_digit_Inr: "append_digit n c = Inr m \<longleftrightarrow> n * 10 + of_char c < 2 ^ 31 \<and> m = n * 10 + of_char c - 48"
  by (auto simp: append_digit_def)

lemma reason_accepted:
  "status_loop Reason_phrase v s = Inr (True, v', r) \<Longrightarrow>
   v' = v \<and> (\<exists>reason. no_ctl reason \<and> s = reason @ crlf @ r)"
proof (induction s)
  case (Cons c s)
  show ?case
  proof (cases "c = CHR 0x0D")
    case True
    with Cons.prems show ?thesis
      by (cases s) (auto simp: status_step_def crlf_def no_ctl_def split: if_splits intro!: exI [of _ "[]"])
  next
    case False
    with Cons.prems have c: "\<not> is_ctl c" and "status_loop Reason_phrase v s = Inr (True, v', r)"
      by (auto simp: status_step_def status_loop_fail split: if_splits)
    with Cons.IH obtain reason where "v' = v" "no_ctl reason" "s = reason @ crlf @ r" by blast
    with c show ?thesis by (intro conjI exI [of _ "c # reason"]) (simp_all add: no_ctl_def)
  qed
qed simp

text \<open>A run of digits that was accepted up to the character that ends it.\<close>

definition digit_run :: "int \<Rightarrow> string \<Rightarrow> bool" where
  "digit_run n ds \<longleftrightarrow> list_all isdigit ds \<and> (ds \<noteq> [] \<longrightarrow> digits_from n ds < 2 ^ 31 - 48)"

lemma digit_run_Cons:
  "isdigit c \<Longrightarrow> n * 10 + of_char c < 2 ^ 31 \<Longrightarrow> digit_run (n * 10 + of_char c - 48) ds \<Longrightarrow>
   digit_run n (c # ds)"
  by (cases "ds = []") (simp_all add: digit_run_def)

lemma code_accepted:
  "status_loop Status_code v s = Inr (True, v', r) \<Longrightarrow>
   \<exists>ds reason. digit_run (status_value v) ds \<and> no_ctl reason \<and> s = ds @ '' '' @ reason @ crlf @ r \<and>
     v' = v\<lparr>status_value := digits_from (status_value v) ds\<rparr>"
proof (induction s arbitrary: v)
  case (Cons c s)
  show ?case
  proof (cases "c = CHR '' ''")
    case True
    with Cons.prems have "status_loop Reason_phrase v s = Inr (True, v', r)"
      by (simp add: status_step_def)
    from reason_accepted [OF this] obtain reason where "v' = v" "no_ctl reason" "s = reason @ crlf @ r"
      by blast
    with True show ?thesis
      by (intro exI [of _ "[]"] exI [of _ reason]) (simp add: digit_run_def)
  next
    case False
    with Cons.prems have c: "isdigit c" and n: "status_value v * 10 + of_char c < 2 ^ 31"
      and "status_loop Status_code (v\<lparr>status_value := status_value v * 10 + of_char c - 48\<rparr>) s
        = Inr (True, v', r)"
      by (auto simp: status_step_def status_loop_fail bindE_eq_Inr_iff append_digit_Inr split: if_splits)
    from Cons.IH [OF this(3)] obtain ds reason where
      "digit_run (status_value v * 10 + of_char c - 48) ds" "no_ctl reason"
      "s = ds @ '' '' @ reason @ crlf @ r"
      "v' = v\<lparr>status_value := digits_from (status_value v * 10 + of_char c - 48) ds\<rparr>"
      by auto
    with digit_run_Cons [OF c n] show ?thesis
      by (intro exI [of _ "c # ds"] exI [of _ reason]) simp
  qed
qed simp

lemma minor_accepted:
  "status_loop Http_version_minor v s = Inr (True, v', r) \<Longrightarrow>
   \<exists>ds t. digit_run (version_minor v) ds \<and> s = ds @ '' '' @ t \<and>
     status_loop Status_code_start (v\<lparr>version_minor := digits_from (version_minor v) ds\<rparr>) t =
       Inr (True, v', r)"
proof (induction s arbitrary: v)
  case (Cons c s)
  show ?case
  proof (cases "c = CHR '' ''")
    case True
    with Cons.prems show ?thesis
      by (intro exI [of _ "[]"] exI [of _ s]) (auto simp: digit_run_def status_step_def)
  next
    case False
    with Cons.prems have c: "isdigit c" and n: "version_minor v * 10 + of_char c < 2 ^ 31"
      and "status_loop Http_version_minor (v\<lparr>version_minor := version_minor v * 10 + of_char c - 48\<rparr>) s
        = Inr (True, v', r)"
      by (auto simp: status_step_def status_loop_fail bindE_eq_Inr_iff append_digit_Inr split: if_splits)
    from Cons.IH [OF this(3)] obtain ds t where
      "digit_run (version_minor v * 10 + of_char c - 48) ds" "s = ds @ '' '' @ t"
      "status_loop Status_code_start (v\<lparr>version_minor :=
         digits_from (version_minor v * 10 + of_char c - 48) ds\<rparr>) t = Inr (True, v', r)"
      by auto
    with digit_run_Cons [OF c n] show ?thesis
      by (intro exI [of _ "c # ds"] exI [of _ t]) simp
  qed
qed simp

lemma major_accepted:
  "status_loop Http_version_major v s = Inr (True, v', r) \<Longrightarrow>
   \<exists>ds t. digit_run (version_major v) ds \<and> s = ds @ ''.'' @ t \<and>
     status_loop Http_version_minor_start (v\<lparr>version_major := digits_from (version_major v) ds\<rparr>) t =
       Inr (True, v', r)"
proof (induction s arbitrary: v)
  case (Cons c s)
  show ?case
  proof (cases "c = CHR ''.''")
    case True
    with Cons.prems show ?thesis
      by (intro exI [of _ "[]"] exI [of _ s]) (auto simp: digit_run_def status_step_def)
  next
    case False
    with Cons.prems have c: "isdigit c" and n: "version_major v * 10 + of_char c < 2 ^ 31"
      and "status_loop Http_version_major (v\<lparr>version_major := version_major v * 10 + of_char c - 48\<rparr>) s
        = Inr (True, v', r)"
      by (auto simp: status_step_def status_loop_fail bindE_eq_Inr_iff append_digit_Inr split: if_splits)
    from Cons.IH [OF this(3)] obtain ds t where
      "digit_run (version_major v * 10 + of_char c - 48) ds" "s = ds @ ''.'' @ t"
      "status_loop Http_version_minor_start (v\<lparr>version_major :=
         digits_from (version_major v * 10 + of_char c - 48) ds\<rparr>) t = Inr (True, v', r)"
      by auto
    with digit_run_Cons [OF c n] show ?thesis
      by (intro exI [of _ "c # ds"] exI [of _ t]) simp
  qed
qed simp

lemma start_accepted:
  assumes "status_loop st v s = Inr (True, v', r)"
    and "st = Http_version_major_start \<and> st' = Http_version_major \<or>
      st = Http_version_minor_start \<and> st' = Http_version_minor \<or>
      st = Status_code_start \<and> st' = Status_code"
  shows "peek s \<noteq> CHR '' '' \<and> peek s \<noteq> CHR ''.'' \<and> status_loop st' v s = Inr (True, v', r)"
proof (cases s)
  case (Cons c t)
  have "isdigit c"
    using assms Cons by (auto simp: status_step_def status_loop_fail split: if_splits)
  with assms status_loop_start [of "[c]" v t] Cons show ?thesis by auto
qed (use assms in simp)

lemma digit_run_number: "digit_run 0 ds \<Longrightarrow> ds \<noteq> [] \<Longrightarrow> number_ok ds"
  by (simp add: digit_run_def number_ok_def)

lemma status_line_accepted:
  assumes "parse_http_status_line v s = Inr (True, v', r)"
  shows "\<exists>major minor status reason. digit_run (version_major v) major \<and> digit_run (version_minor v) minor
    \<and> digit_run (status_value v) status \<and> major \<noteq> [] \<and> minor \<noteq> [] \<and> status \<noteq> [] \<and> no_ctl reason
    \<and> s = status_text major minor status reason @ r
    \<and> v' = \<lparr>version_major = digits_from (version_major v) major,
        version_minor = digits_from (version_minor v) minor,
        status_value = digits_from (status_value v) status\<rparr>"
proof -
  have "\<exists>t. s = ''HTTP/'' @ t \<and> status_loop Http_version_major_start v t = Inr (True, v', r)"
    using assms
    by (cases s; cases "tl s"; cases "tl (tl s)"; cases "tl (tl (tl s))"; cases "tl (tl (tl (tl s)))")
      (auto simp: parse_http_status_line_def status_step_def expect_char_def status_loop_fail
        split: if_splits)
  then obtain t where t: "s = ''HTTP/'' @ t" "status_loop Http_version_major_start v t = Inr (True, v', r)"
    by blast
  have ma: "peek t \<noteq> CHR ''.''" "status_loop Http_version_major v t = Inr (True, v', r)"
    using start_accepted [OF t(2)] by auto
  from major_accepted [OF ma(2)] obtain major t1 where major: "digit_run (version_major v) major"
    "t = major @ ''.'' @ t1" and mi: "status_loop Http_version_minor_start
      (v\<lparr>version_major := digits_from (version_major v) major\<rparr>) t1 = Inr (True, v', r)" by blast
  have mi': "peek t1 \<noteq> CHR '' ''" "status_loop Http_version_minor
      (v\<lparr>version_major := digits_from (version_major v) major\<rparr>) t1 = Inr (True, v', r)"
    using start_accepted [OF mi] by auto
  from minor_accepted [OF mi'(2)] obtain minor t2 where minor: "digit_run (version_minor v) minor"
    "t1 = minor @ '' '' @ t2" and st: "status_loop Status_code_start
      (v\<lparr>version_major := digits_from (version_major v) major,
         version_minor := digits_from (version_minor v) minor\<rparr>) t2 = Inr (True, v', r)" by auto
  have st': "peek t2 \<noteq> CHR '' ''" "status_loop Status_code
      (v\<lparr>version_major := digits_from (version_major v) major,
         version_minor := digits_from (version_minor v) minor\<rparr>) t2 = Inr (True, v', r)"
    using start_accepted [OF st] by auto
  from code_accepted [OF st'(2)] obtain status reason where
    "digit_run (status_value v) status" "no_ctl reason" "t2 = status @ '' '' @ reason @ crlf @ r"
    "v' = v\<lparr>version_major := digits_from (version_major v) major,
       version_minor := digits_from (version_minor v) minor,
       status_value := digits_from (status_value v) status\<rparr>" by auto
  moreover from this ma mi' st' major minor have "major \<noteq> []" "minor \<noteq> []" "status \<noteq> []" by auto
  ultimately show ?thesis using t major minor
    by (intro exI [of _ major] exI [of _ minor] exI [of _ status] exI [of _ reason])
      (simp add: status_text_def)
qed

text \<open>C24: The automaton for the status line accepts exactly the texts
  \<open>HTTP/<major>.<minor> <status> <reason>\<close> ended by carriage return and line feed, whose numbers fit an
  \<open>int\<close> and whose reason has no control character. It reads the three numbers and takes the line, and
  nothing behind it, out of the buffer.\<close>

theorem status_line_grammar:
  "parse_http_status_line \<lparr>version_major = 0, version_minor = 0, status_value = 0\<rparr> s =
     Inr (True, v, rest) \<longleftrightarrow>
   (\<exists>major minor status reason. number_ok major \<and> number_ok minor \<and> number_ok status \<and> no_ctl reason
     \<and> s = status_text major minor status reason @ rest
     \<and> v = \<lparr>version_major = digits_from 0 major, version_minor = digits_from 0 minor,
         status_value = digits_from 0 status\<rparr>)"
proof
  assume "parse_http_status_line \<lparr>version_major = 0, version_minor = 0, status_value = 0\<rparr> s =
    Inr (True, v, rest)"
  from status_line_accepted [OF this] show "\<exists>major minor status reason. number_ok major \<and> number_ok minor
     \<and> number_ok status \<and> no_ctl reason \<and> s = status_text major minor status reason @ rest
     \<and> v = \<lparr>version_major = digits_from 0 major, version_minor = digits_from 0 minor,
         status_value = digits_from 0 status\<rparr>"
    using digit_run_number by fastforce
qed (auto simp: status_line_read)

subsection \<open>Header blocks\<close>

text \<open>A block of header lines as a server writes it: name, colon, space, value.\<close>

definition header_line :: "string \<times> string \<Rightarrow> string" where
  "header_line h = fst h @ '': '' @ snd h @ crlf"

definition header_text :: "(string \<times> string) list \<Rightarrow> string" where
  "header_text hs = concat (map header_line hs) @ crlf"

definition header_ok :: "string \<times> string \<Rightarrow> bool" where
  "header_ok h \<longleftrightarrow> fst h \<noteq> [] \<and> list_all token_char (fst h) \<and> no_ctl (snd h)"

fun check_headers :: "(string \<times> string) list \<Rightarrow> header_fields \<Rightarrow> header_fields result" where
  "check_headers [] f = Inr f"
| "check_headers (h # hs) f = bindE (check_header (fst h) (snd h) f) (check_headers hs)"

lemma cr_is_ctl: "is_ctl (CHR 0x0D)" "\<not> token_char (CHR 0x0D)"
  by (simp_all add: is_ctl_def token_char_def)

lemma token_char_not: "token_char c \<Longrightarrow>
    c \<noteq> CHR 0x0D \<and> c \<noteq> CHR '':'' \<and> c \<noteq> CHR '' '' \<and> c \<noteq> CHR 0x09 \<and> is_char c \<and> \<not> is_ctl c \<and> \<not> is_tspecial c"
  using cr_is_ctl by (auto simp: token_char_def is_tspecial_def)

lemma header_loop_name:
  "list_all token_char n \<Longrightarrow> header_loop Header_name (m, w, f) (n @ s) = header_loop Header_name (m @ n, w, f) s"
proof (induction n arbitrary: m)
  case (Cons c n)
  then show ?case using token_char_not [of c] by (simp add: header_step_def)
qed simp

lemma header_loop_value:
  "no_ctl v \<Longrightarrow> header_loop Header_value (m, w, f) (v @ crlf @ s) = header_loop Header_line_start (m, w @ v, f) s"
proof (induction v arbitrary: w)
  case Nil
  then show ?case by (simp add: crlf_def header_step_def)
next
  case (Cons c v)
  then show ?case using cr_is_ctl by (auto simp: header_step_def no_ctl_def)
qed

lemma header_loop_line:
  assumes "header_ok h"
  shows "header_loop First_header_line_start ([], [], f) (header_line h @ s) =
      header_loop Header_line_start (fst h, snd h, f) s"
    and "header_loop Header_line_start (m, w, f) (header_line h @ s) =
      bindE (check_header m w f) (\<lambda>f'. header_loop Header_line_start (fst h, snd h, f') s)"
proof -
  obtain c n where n: "fst h = c # n" "token_char c" "list_all token_char n"
    using assms by (cases "fst h") (auto simp: header_ok_def)
  have "header_loop Header_name ([c], [], g) (n @ '': '' @ snd h @ crlf @ s) =
      header_loop Header_line_start (fst h, snd h, g) s" for g
    using assms n by (simp add: header_loop_name header_step_def header_loop_value header_ok_def)
  then show "header_loop First_header_line_start ([], [], f) (header_line h @ s) =
      header_loop Header_line_start (fst h, snd h, f) s"
    and "header_loop Header_line_start (m, w, f) (header_line h @ s) =
      bindE (check_header m w f) (\<lambda>f'. header_loop Header_line_start (fst h, snd h, f') s)"
    using n token_char_not [OF n(2)]
    by (simp_all add: header_line_def header_step_def bindE_assoc)
qed

lemma header_loop_text:
  "list_all header_ok hs \<Longrightarrow> header_loop Header_line_start (n, v, f) (header_text hs) =
     bindE (check_headers ((n, v) # hs) f) (\<lambda>f'. Inr (True, f'))"
proof (induction hs arbitrary: n v f)
  case Nil
  show ?case by (simp add: header_text_def crlf_def header_step_def bindE_assoc)
next
  case (Cons h hs)
  have "header_text (h # hs) = header_line h @ header_text hs" by (simp add: header_text_def)
  with Cons show ?case by (simp add: header_loop_line bindE_assoc)
qed

lemma headers_read:
  assumes "list_all header_ok hs"
  shows "parse_http_headers (header_text hs) f = bindE (check_headers hs f) (\<lambda>f'. Inr (True, f'))"
proof (cases hs)
  case Nil
  then show ?thesis by (simp add: parse_http_headers_def header_text_def crlf_def header_step_def)
next
  case (Cons h hs')
  then have "header_text hs = header_line h @ header_text hs'" by (simp add: header_text_def)
  with assms Cons show ?thesis
    by (simp add: parse_http_headers_def header_loop_line header_loop_text)
qed

subsection \<open>Where the header block ends\<close>

text \<open>The position of the first occurrence of a string.\<close>

fun find_string :: "string \<Rightarrow> string \<Rightarrow> nat option" where
  "find_string d [] = (if d = [] then Some 0 else None)"
| "find_string d (c # s) =
     (if take (length d) (c # s) = d then Some 0 else map_option Suc (find_string d s))"

lemma find_string_skip:
  "c \<notin> set w \<Longrightarrow> find_string (c # d) (w @ s) = map_option ((+) (length w)) (find_string (c # d) s)"
proof (induction w)
  case Nil
  then show ?case by (cases "find_string (c # d) s") simp_all
next
  case (Cons a w)
  then show ?case by (cases "find_string (c # d) s") auto
qed

lemma find_string_bound: "find_string d s = Some n \<Longrightarrow> n + length d \<le> length s"
proof (induction s arbitrary: n)
  case (Cons c s)
  show ?case
  proof (cases "take (length d) (c # s) = d")
    case True
    then have "length d \<le> length (c # s)" by (metis length_take min.cobounded1 min_def)
    with True Cons.prems show ?thesis by simp
  next
    case False
    with Cons show ?thesis by auto
  qed
qed (simp split: if_splits)

lemma find_string_append: "find_string d s = Some n \<Longrightarrow> find_string d (s @ t) = Some n"
proof (induction s arbitrary: n)
  case Nil
  then show ?case by (cases t) (auto split: if_splits)
next
  case (Cons c s)
  have "length d \<le> length (c # s)"
    using find_string_bound [OF Cons.prems] by simp
  then have "take (length d) (c # s @ t) = take (length d) (c # s)"
    using take_append [of "length d" "c # s" t] by simp
  with Cons show ?case by (auto split: if_splits)
qed

lemma header_line_no_cr:
  "header_ok h \<Longrightarrow> CHR 0x0D \<notin> set (fst h @ '': '' @ snd h) \<and> peek (header_line h) \<noteq> CHR 0x0D"
proof -
  assume h: "header_ok h"
  then have "list_all (\<lambda>c. c \<noteq> CHR 0x0D) (fst h)" "list_all (\<lambda>c. c \<noteq> CHR 0x0D) (snd h)"
    using cr_is_ctl by (auto simp: header_ok_def no_ctl_def list_all_iff)
  with h show ?thesis
    by (cases "fst h") (auto simp: header_line_def header_ok_def list_all_iff)
qed

lemma find_blank_line:
  "hs \<noteq> [] \<Longrightarrow> list_all header_ok hs \<Longrightarrow>
   find_string (crlf @ crlf) (header_text hs @ s) = Some (length (header_text hs) - 4)"
proof (induction hs)
  case (Cons h hs)
  let ?w = "fst h @ '': '' @ snd h"
  have w: "CHR 0x0D \<notin> set ?w" using header_line_no_cr Cons.prems by simp
  have split: "header_text (h # hs) @ s = ?w @ CHR 0x0D # CHR 0x0A # header_text hs @ s"
    by (simp add: header_text_def header_line_def crlf_def)
  have skip: "find_string (crlf @ crlf) (header_text (h # hs) @ s) =
      map_option ((+) (length ?w)) (find_string (crlf @ crlf) (CHR 0x0D # CHR 0x0A # header_text hs @ s))"
    unfolding split crlf_def append_Cons [of _ _ "[CHR 0x0D, CHR 0x0A]"] append_Cons [of _ "[]"] append_Nil
    using find_string_skip [OF w] by blast
  show ?case
  proof (cases hs)
    case Nil
    then show ?thesis using skip by (simp add: header_text_def header_line_def crlf_def)
  next
    case (Cons h' hs')
    with Cons.prems have h': "header_ok h'" "hs \<noteq> []" "list_all header_ok hs" by auto
    then have "peek (header_text hs @ s) \<noteq> CHR 0x0D"
      using header_line_no_cr [of h'] Cons by (cases "fst h'")
        (auto simp: header_text_def header_line_def header_ok_def)
    moreover have "4 \<le> length (header_text hs)"
      using Cons by (simp add: header_text_def header_line_def crlf_def)
    moreover obtain a l where al: "header_text hs @ s = a # l"
      by (cases "header_text hs @ s") (auto simp: header_text_def crlf_def)
    ultimately have "find_string (crlf @ crlf) (CHR 0x0D # CHR 0x0A # a # l) =
        map_option (Suc \<circ> Suc) (find_string (crlf @ crlf) (a # l))"
      by (cases "find_string (crlf @ crlf) (a # l)") (auto simp: crlf_def)
    with Cons.IH [OF h'(2,3)] al have "find_string (crlf @ crlf) (CHR 0x0D # CHR 0x0A # header_text hs @ s) =
        Some (length (header_text hs) - 2)"
      using \<open>4 \<le> length (header_text hs)\<close> by simp
    then show ?thesis
      using skip \<open>4 \<le> length (header_text hs)\<close> by (simp add: header_text_def header_line_def crlf_def)
  qed
qed simp

end
