(* ===== verification/Connection.thy ===== *)
theory Connection
  imports Machine Http_Parse Options
begin

section \<open>Connections\<close>

text \<open>
  What a stream of urdl stands on: Boost.Asio's sockets and OpenSSL, which are not part of the
  repository, and \<open>urdl/detail/handshake.hpp\<close>, which decides whether the certificate of a server is one for
  the host. Boost.Asio and OpenSSL are the parameter \<open>asio\<close>: how a host name is read as an address and
  what becomes of each attempt to connect. The bytes of a reply arrive in pieces of any size.
\<close>

subsection \<open>Error codes\<close>

text \<open>The error codes the code tells apart; \<open>Ec_http\<close> is the category of \<open>urdl/http.hpp\<close>, \<open>Ec_other\<close>
  whatever else Asio or OpenSSL report.\<close>

datatype error_code =
    Ec_ok
  | Ec_http int
  | Ec_eof
  | Ec_shut_down
  | Ec_already_open
  | Ec_operation_not_supported
  | Ec_host_not_found
  | Ec_permission_denied
  | Ec_no_such_file
  | Ec_timed_out
  | Ec_other string

text \<open>The conversion to \<open>bool\<close>: a code with the value 0 is no error, in any category.\<close>

definition failed :: "error_code \<Rightarrow> bool" where
  "failed e \<longleftrightarrow> e \<noteq> Ec_ok \<and> e \<noteq> Ec_http 0"

subsection \<open>Certificates\<close>

datatype ip_address = Ip4 "8 word list" | Ip6 "8 word list"

text \<open>An alternate name: a DNS name with whether its string type is the one the code reads, an IP address,
  or another kind of name.\<close>

datatype general_name = Gen_dns bool string | Gen_ip "8 word list" | Gen_other

record x509 =
  alternate_names :: "general_name list"
  common_names :: "string list"

text \<open>\<open>match_pattern\<close>; the host is the part of a C string that is left. \<open>match_star\<close> is the inner loop behind
  an asterisk, and what the outer loop does when that ends.\<close>

function match_pattern :: "string \<Rightarrow> string \<Rightarrow> bool"
  and match_star :: "string \<Rightarrow> string \<Rightarrow> bool" where
  "match_pattern p h =
     (case (p, h) of
        (c # p', d # h') \<Rightarrow>
          if c = CHR ''*'' then match_star p' h
          else if tolower c = tolower d then match_pattern p' h'
          else False
      | _ \<Rightarrow> p = [] \<and> h = [])"
| "match_star p h =
     (case h of
        d # h' \<Rightarrow> if d \<noteq> CHR ''.'' then (if match_pattern p h then True else match_star p h')
                  else match_pattern p h
      | [] \<Rightarrow> match_pattern p h)"
  by pat_completeness auto
termination
  by (relation "measure (case_sum (\<lambda>(p, h). 2 * (length p + length h)) (\<lambda>(p, h). 2 * (length p + length h) + 1))")
    auto

declare match_pattern.simps [simp del] match_star.simps [simp del]

lemma match_simps [simp]:
  "match_pattern [] h \<longleftrightarrow> h = []"
  "match_pattern (c # p) [] \<longleftrightarrow> False"
  "match_pattern (c # p) (d # h) \<longleftrightarrow>
     (if c = CHR ''*'' then match_star p (d # h) else tolower c = tolower d \<and> match_pattern p h)"
  "match_star p [] \<longleftrightarrow> match_pattern p []"
  "match_star p (d # h) \<longleftrightarrow> (if d = CHR ''.'' then match_pattern p (d # h)
     else match_pattern p (d # h) \<or> match_star p h)"
  by (simp_all add: match_pattern.simps [of "[]"] match_pattern.simps [of "c # p"]
      match_star.simps [of p "[]"] match_star.simps [of p "d # h"])

definition name_matches :: "ip_address option \<Rightarrow> string \<Rightarrow> general_name \<Rightarrow> bool" where
  "name_matches address hostname gen =
     (case gen of
        Gen_dns ia5 domain \<Rightarrow> address = None \<and> ia5 \<and> domain \<noteq> [] \<and> match_pattern domain (c_str hostname)
      | Gen_ip bytes \<Rightarrow>
          (case address of
             Some (Ip4 b) \<Rightarrow> length bytes = 4 \<and> b = bytes
           | Some (Ip6 b) \<Rightarrow> length bytes = 16 \<and> b = bytes
           | None \<Rightarrow> False)
      | Gen_other \<Rightarrow> False)"

definition certificate_matches_host :: "ip_address option \<Rightarrow> x509 \<Rightarrow> string \<Rightarrow> bool" where
  "certificate_matches_host address cert hostname =
     (if list_ex (name_matches address hostname) (alternate_names cert) then True
      else common_names cert \<noteq> [] \<and> last (common_names cert) \<noteq> [] \<and>
        match_pattern (last (common_names cert)) (c_str hostname))"

subsection \<open>An attempt to connect\<close>

text \<open>What Asio and OpenSSL report for one attempt to open a connection: the errors of opening a socket,
  resolving (and whether that ends before the timeout of the caller), connecting, setting the
  socket option and the TLS handshake, the certificate with whether its chain was verified, the error
  of sending the request with the bytes that went out before it, the pieces of the reply to a request,
  and the error at the end of them. \<open>asio\<close> gives the attempts of a stream by their number, the host and the
  port; \<open>idle_error\<close> is what reading a socket that is closed or not connected reports, and \<open>posted_early\<close>
  how a race ends: whether a handler posted to Asio's own threads runs before the caller's next step.\<close>

record connection =
  at_socket :: error_code
  resolves_in_time :: bool
  at_resolve :: error_code
  at_connect :: error_code
  at_no_delay :: error_code
  at_handshake :: error_code
  at_certificate :: "x509 option"
  at_verified :: bool
  at_write :: error_code
  written :: nat
  replies :: "string \<Rightarrow> string list"
  at_end :: error_code

record asio =
  make_address :: "string \<Rightarrow> ip_address option"
  idle_error :: error_code
  posted_early :: bool
  attempt :: "nat \<Rightarrow> string \<Rightarrow> string \<Rightarrow> connection"

definition handshake :: "asio \<Rightarrow> bool \<Rightarrow> connection \<Rightarrow> string \<Rightarrow> error_code" where
  "handshake io tls c hostname =
     (if \<not> tls then Ec_ok
      else if failed (at_handshake c) then at_handshake c
      else case at_certificate c of
        Some cert \<Rightarrow>
          if at_verified c then
            (if certificate_matches_host (make_address io hostname) cert hostname then Ec_ok
             else Ec_permission_denied)
          else Ec_permission_denied
      | None \<Rightarrow> Ec_permission_denied)"

subsection \<open>Which names a certificate covers\<close>

text \<open>The specification: an asterisk stands for any characters of one label, but not for nothing at the
  end of the name; all else must agree up to the case of letters.\<close>

inductive covers :: "string \<Rightarrow> string \<Rightarrow> bool" where
  covers_end: "covers [] []"
| covers_char: "c \<noteq> CHR ''*'' \<Longrightarrow> tolower c = tolower d \<Longrightarrow> covers p h \<Longrightarrow> covers (c # p) (d # h)"
| covers_star: "CHR ''.'' \<notin> set w \<Longrightarrow> w @ h \<noteq> [] \<Longrightarrow> covers p h \<Longrightarrow> covers (CHR ''*'' # p) (w @ h)"

inductive_cases covers_starE: "covers (CHR ''*'' # p) h"
inductive_cases covers_NilE: "covers [] h"

lemma match_sound:
  "match_pattern p h \<Longrightarrow> covers p h"
  "match_star p h \<Longrightarrow> \<exists>w t. h = w @ t \<and> CHR ''.'' \<notin> set w \<and> covers p t"
proof (induction p h and p h rule: match_pattern_match_star.induct)
  case (1 p h)
  show ?case
  proof (cases "p = [] \<or> h = []")
    case True
    with "1.prems" show ?thesis by (cases p) (auto intro: covers_end)
  next
    case False
    then obtain c p' d h' where ph: "p = c # p'" "h = d # h'" by (cases p; cases h) auto
    show ?thesis
    proof (cases "c = CHR ''*''")
      case True
      with "1.prems" ph have "match_star p' h" by (simp del: match_simps(4,5))
      from "1.IH"(1) [OF refl ph True this]
      obtain w t where "h = w @ t" "CHR ''.'' \<notin> set w" "covers p' t" by blast
      with True ph show ?thesis by (metis covers_star list.distinct(1))
    next
      case False
      with 1 ph show ?thesis by (auto intro: covers_char)
    qed
  qed
next
  case (2 p h)
  show ?case
  proof (cases "match_pattern p h")
    case True
    then have "covers p h" using 2 by (cases h) auto
    then show ?thesis by (intro exI [of _ "[]"] exI [of _ h]) simp
  next
    case False
    with "2.prems" obtain d h' where h: "h = d # h'" "d \<noteq> CHR ''.''" "match_star p h'"
      by (cases h) (auto split: if_splits)
    with 2 False obtain w t where "h' = w @ t" "CHR ''.'' \<notin> set w" "covers p t" by auto
    with h show ?thesis by (intro exI [of _ "d # w"] exI [of _ t]) simp
  qed
qed

lemma match_star_intro: "match_pattern p h \<Longrightarrow> CHR ''.'' \<notin> set w \<Longrightarrow> match_star p (w @ h)"
proof (induction w)
  case Nil
  then show ?case by (cases h) auto
qed auto

lemma match_pattern_complete: "covers p h \<Longrightarrow> match_pattern p h"
proof (induction rule: covers.induct)
  case (covers_star w h p)
  then obtain d t where "w @ h = d # t" by (cases "w @ h") auto
  then show ?case using match_star_intro [OF covers_star.IH covers_star.hyps(1)] by simp
qed simp_all

lemma match_pattern_iff: "match_pattern p h \<longleftrightarrow> covers p h"
  using match_sound(1) match_pattern_complete by blast

lemma tolower_dot: "tolower c = tolower d \<Longrightarrow> c = CHR ''.'' \<longleftrightarrow> d = CHR ''.''"
proof -
  have "tolower e = CHR ''.'' \<longleftrightarrow> e = CHR ''.''" for e
  proof
    assume t: "tolower e = CHR ''.''"
    show "e = CHR ''.''"
    proof (rule ccontr)
      assume "e \<noteq> CHR ''.''"
      with t have "isupper e" "char_of (of_char e + (32::nat)) = CHR ''.''"
        by (auto simp: tolower_def split: if_splits)
      then have "65 \<le> (of_char e :: nat)" "(of_char e :: nat) \<le> 90" "(of_char e + 32 :: nat) mod 256 = 46"
        by (auto simp: isupper_def less_eq_char_def dest: arg_cong [where f = "of_char :: char \<Rightarrow> nat"])
      then show False by simp
    qed
  qed (simp add: tolower_def isupper_def less_eq_char_def)
  then show "tolower c = tolower d \<Longrightarrow> c = CHR ''.'' \<longleftrightarrow> d = CHR ''.''" by metis
qed

lemma covers_dots: "covers p h \<Longrightarrow> count_list p (CHR ''.'') = count_list h (CHR ''.'')"
proof (induction rule: covers.induct)
  case (covers_char c d p h)
  then show ?case using tolower_dot [of c d] by simp
next
  case (covers_star w h p)
  then show ?case by (simp add: count_list_0_iff)
qed simp

lemma covers_plain: "CHR ''*'' \<notin> set p \<Longrightarrow> covers p h \<longleftrightarrow> map tolower p = map tolower h"
proof (induction p arbitrary: h)
  case Nil
  show ?case by (auto intro: covers_end elim: covers_NilE)
next
  case (Cons c p)
  show ?case
  proof
    assume "covers (c # p) h"
    then show "map tolower (c # p) = map tolower h"
      using Cons by cases auto
  next
    assume eq: "map tolower (c # p) = map tolower h"
    then obtain d t where "h = d # t" "tolower c = tolower d" "map tolower p = map tolower t" by auto
    with Cons show "covers (c # p) h" by (auto intro: covers_char)
  qed
qed

definition names_host :: "asio \<Rightarrow> x509 \<Rightarrow> string \<Rightarrow> string \<Rightarrow> bool" where
  "names_host io cert p hostname \<longleftrightarrow>
     (Gen_dns True p \<in> set (alternate_names cert) \<and> make_address io hostname = None \<or>
      common_names cert \<noteq> [] \<and> p = last (common_names cert)) \<and> covers p (c_str hostname)"

lemma alternate_name_matches_iff:
  "list_ex (name_matches a h) gens \<longleftrightarrow>
     (\<exists>b. Gen_ip b \<in> set gens \<and> (a = Some (Ip4 b) \<and> length b = 4 \<or> a = Some (Ip6 b) \<and> length b = 16)) \<or>
     (\<exists>p. Gen_dns True p \<in> set gens \<and> a = None \<and> p \<noteq> [] \<and> covers p (c_str h))"
proof (induction gens)
  case (Cons g gens)
  have "name_matches a h g \<longleftrightarrow>
     (\<exists>b. Gen_ip b = g \<and> (a = Some (Ip4 b) \<and> length b = 4 \<or> a = Some (Ip6 b) \<and> length b = 16)) \<or>
     (\<exists>p. Gen_dns True p = g \<and> a = None \<and> p \<noteq> [] \<and> covers p (c_str h))"
    by (cases g) (auto simp: name_matches_def match_pattern_iff split: option.splits ip_address.splits)
  with Cons show ?case by simp blast
qed simp

lemma certificate_matches_iff:
  "certificate_matches_host (make_address io hostname) cert hostname \<longleftrightarrow>
     (\<exists>b. Gen_ip b \<in> set (alternate_names cert) \<and>
        (make_address io hostname = Some (Ip4 b) \<and> length b = 4 \<or>
         make_address io hostname = Some (Ip6 b) \<and> length b = 16)) \<or>
     (\<exists>p. p \<noteq> [] \<and> names_host io cert p hostname)"
  unfolding certificate_matches_host_def names_host_def alternate_name_matches_iff match_pattern_iff
  by auto

text \<open>What a certificate must show for a host: one of its alternate names is the host's address, or a name of it
  covers the host's name. A name without an asterisk covers no name but its own, up to the case of
  letters, and one with asterisks only names with as many labels as it has.\<close>

definition authenticates :: "asio \<Rightarrow> x509 \<Rightarrow> string \<Rightarrow> bool" where
  "authenticates io cert hostname \<longleftrightarrow>
     (\<exists>b. Gen_ip b \<in> set (alternate_names cert) \<and>
        (make_address io hostname = Some (Ip4 b) \<or> make_address io hostname = Some (Ip6 b))) \<or>
     (\<exists>p. names_host io cert p hostname \<and>
        count_list p (CHR ''.'') = count_list (c_str hostname) (CHR ''.'') \<and>
        (CHR ''*'' \<in> set p \<or> map tolower p = map tolower (c_str hostname)))"

lemma handshake_checks_host:
  assumes "\<not> failed (handshake io True c hostname)"
  shows "\<not> failed (at_handshake c) \<and> at_verified c \<and>
    (\<exists>cert. at_certificate c = Some cert \<and> authenticates io cert hostname)"
proof -
  have no: "\<not> failed (at_handshake c)" and ver: "at_verified c"
    using assms by (auto simp: handshake_def failed_def split: if_splits option.splits)
  from assms obtain cert where cert: "at_certificate c = Some cert"
    "certificate_matches_host (make_address io hostname) cert hostname"
    by (auto simp: handshake_def failed_def split: if_splits option.splits)
  have "names_host io cert p hostname \<Longrightarrow>
      count_list p (CHR ''.'') = count_list (c_str hostname) (CHR ''.'') \<and>
      (CHR ''*'' \<in> set p \<or> map tolower p = map tolower (c_str hostname))" for p
    using covers_dots covers_plain by (auto simp: names_host_def)
  with no ver cert show ?thesis unfolding certificate_matches_iff authenticates_def by blast
qed

definition sample_connection :: connection where
  "sample_connection = \<lparr>at_socket = Ec_ok, resolves_in_time = True, at_resolve = Ec_ok, at_connect = Ec_ok, at_no_delay = Ec_ok, at_handshake = Ec_ok,
     at_certificate = Some \<lparr>alternate_names = [Gen_dns True ''*.telegram.org''], common_names = []\<rparr>,
     at_verified = True, at_write = Ec_ok, written = 0,
     replies = (\<lambda>_. [''HTTP/1.1 200 O'', ''K'' @ crlf @ ''content-type: image/png'' @ crlf @ crlf @ ''PN'', ''G'']),
     at_end = Ec_eof\<rparr>"

definition sample_asio :: asio where
  "sample_asio = \<lparr>make_address = (\<lambda>_. None), idle_error = Ec_other ''Bad file descriptor'',
     posted_early = False, attempt = (\<lambda>_ _ _. sample_connection)\<rparr>"

end
