(* ===== verification/Http_Stream.thy ===== *)
theory Http_Stream
  imports Connection
begin

section \<open>The HTTP stream\<close>

text \<open>
  \<open>urdl/detail/http_read_stream.hpp\<close>: one HTTP exchange over a connection. \<open>http_open\<close> sends the request and
  reads the head of the reply, \<open>http_read_some\<close> delivers the content, \<open>http_close\<close> resets the stream. A
  stream keeps what it has received and not yet used in \<open>reply_buffer\<close>; the pieces still to come are
  \<open>incoming\<close>, and \<open>closing\<close> is the error behind the last of them. A TLS stream differs in the handshake only.
\<close>

record http_stream =
  socket_open :: bool
  request_buffer :: string
  reply_buffer :: string
  headers_string :: string
  head_fields :: header_fields
  incoming :: "string list"
  closing :: error_code

definition no_fields :: header_fields where
  "no_fields = \<lparr>content_type = [], content_length = 0, location_field = []\<rparr>"

definition http_stream_new :: "asio \<Rightarrow> http_stream" where
  "http_stream_new io = \<lparr>socket_open = False, request_buffer = [], reply_buffer = [], headers_string = [],
     head_fields = no_fields, incoming = [], closing = idle_error io\<rparr>"

subsection \<open>The request\<close>

definition request_text :: "option_set \<Rightarrow> url \<Rightarrow> string" where
  "request_text opts u =
     request_method opts @ '' '' @ url_to_string_mask 48 u @ '' HTTP/1.0'' @ crlf @
     ''Host: '' @ url_to_string_mask 12 u @ crlf @
     ''Accept: */*'' @ crlf @
     (if request_content opts \<noteq> [] then
        ''Content-Length: '' @ decimal (length (request_content opts)) @ crlf @
        (if request_content_type opts \<noteq> [] then ''Content-Type: '' @ request_content_type opts @ crlf
         else [])
      else []) @
     (if user_agent opts \<noteq> [] then ''User-Agent: '' @ user_agent opts @ crlf else []) @
     ''Connection: close'' @ crlf @ crlf @
     request_content opts"

subsection \<open>The reply\<close>

text \<open>Asio's \<open>read_until\<close>: read pieces into the buffer until it has the delimiter; the number of bytes up to
  its end, which is 0 after an error.\<close>

fun read_until :: "string \<Rightarrow> string \<Rightarrow> string list \<Rightarrow> error_code \<Rightarrow>
    (nat \<times> error_code) \<times> string \<times> string list" where
  "read_until d buf [] e =
     (case find_string d buf of
        Some n \<Rightarrow> ((n + length d, Ec_ok), buf, [])
      | None \<Rightarrow> ((0, e), buf, []))"
| "read_until d buf (c # cs) e =
     (case find_string d buf of
        Some n \<Rightarrow> ((n + length d, Ec_ok), buf, c # cs)
      | None \<Rightarrow> read_until d (buf @ c) cs e)"

definition stream_read_until :: "string \<Rightarrow> http_stream \<Rightarrow> (nat \<times> error_code) \<times> http_stream" where
  "stream_read_until d s =
     (case read_until d (reply_buffer s) (incoming s) (closing s) of
        (r, buf, cs) \<Rightarrow> (r, s\<lparr>reply_buffer := buf, incoming := cs\<rparr>))"

definition pending :: "http_stream \<Rightarrow> string" where
  "pending s = reply_buffer s @ concat (incoming s)"

lemma read_until_pending: "read_until d buf cs e = (r, buf', cs') \<Longrightarrow> buf' @ concat cs' = buf @ concat cs"
  by (induction d buf cs e arbitrary: r buf' cs' rule: read_until.induct) (auto split: option.splits)

lemma stream_read_until_pending: "stream_read_until d s = (r, s') \<Longrightarrow> pending s' = pending s"
  by (auto simp: stream_read_until_def pending_def read_until_pending split: prod.splits)

lemma status_loop_shorter:
  "status_loop st v s = Inr (True, v', r) \<Longrightarrow> length r < length s"
  by (induction st v s rule: status_loop.induct)
    (fastforce split: if_splits simp: bindE_eq_Inr_iff)+

text \<open>The loop over status lines. \<open>status\<close> is the variable of the caller: the parser appends digits to what
  it holds. Each turn takes a line out of the reply.\<close>

function reply_status :: "int \<Rightarrow> http_stream \<Rightarrow> ((error_code \<times> int) \<times> http_stream) result" where
  "reply_status status s =
     (case stream_read_until crlf s of ((n, e), s1) \<Rightarrow>
        if failed e then Inr ((e, status), s1)
        else bindE (parse_http_status_line \<lparr>version_major = 0, version_minor = 0, status_value = status\<rparr>
            (reply_buffer s1)) (\<lambda>(ok, v, rest).
          if \<not> ok then Inr ((Ec_http 1, status_value v), s1\<lparr>reply_buffer := rest\<rparr>)
          else if status_value v \<noteq> 100 then Inr ((e, status_value v), s1\<lparr>reply_buffer := rest\<rparr>)
          else reply_status (status_value v) (s1\<lparr>reply_buffer := rest\<rparr>)))"
  by pat_completeness auto
termination reply_status
proof (relation "measure (\<lambda>(_, s). length (pending s))", goal_cases)
  case (2 status s x s1 n e y ok z v rest)
  then have "stream_read_until crlf s = ((n, e), s1)" by simp
  then have "pending s1 = pending s" by (rule stream_read_until_pending)
  moreover have "length rest < length (reply_buffer s1)"
    using 2 by (auto simp: parse_http_status_line_def status_loop_shorter)
  ultimately have "length rest + length (concat (incoming s1)) < length (pending s)"
    by (metis add_less_cancel_right length_append pending_def)
  then show ?case by (simp add: pending_def)
qed simp

declare reply_status.simps [simp del]

text \<open>The headers: what is left in the buffer behind them is the start of the content.\<close>

definition reply_headers :: "int \<Rightarrow> http_stream \<Rightarrow> (error_code \<times> http_stream) result" where
  "reply_headers status s =
     (case stream_read_until (crlf @ crlf) s of ((n, e), s1) \<Rightarrow>
        let s2 = s1\<lparr>headers_string := take n (reply_buffer s1), reply_buffer := drop n (reply_buffer s1)\<rparr>
        in if failed e then Inr (e, s2)
           else bindE (parse_http_headers (headers_string s2) (head_fields s2)) (\<lambda>(ok, f).
             if \<not> ok then Inr (Ec_http 2, s2\<lparr>head_fields := f\<rparr>)
             else Inr (if status \<noteq> 200 then Ec_http status else e, s2\<lparr>head_fields := f\<rparr>)))"

definition http_exchange :: "http_stream \<Rightarrow> (error_code \<times> http_stream) result" where
  "http_exchange s =
     bindE (reply_status 0 s) (\<lambda>((e, status), s1).
       if failed e then Inr (e, s1) else reply_headers status s1)"

subsection \<open>Open, close, read\<close>

text \<open>What follows once the socket is connected, in \<open>open\<close> as in the coroutine of \<open>async_open\<close>: handshake,
  request, reply.\<close>

definition http_talk ::
    "asio \<Rightarrow> bool \<Rightarrow> option_set \<Rightarrow> connection \<Rightarrow> url \<Rightarrow> http_stream \<Rightarrow> (error_code \<times> http_stream) result" where
  "http_talk io tls opts c u s =
     (if failed (handshake io tls c (host u)) then Inr (handshake io tls c (host u), s)
      else
        let out = request_buffer s @ request_text opts u
        in if failed (at_write c) then Inr (at_write c, s\<lparr>request_buffer := drop (written c) out\<rparr>)
           else http_exchange (s\<lparr>request_buffer := [], incoming := replies c out, closing := at_end c\<rparr>))"

text \<open>\<open>k\<close> is the number of the attempt, \<open>tls\<close> tells the two kinds of stream apart. A socket whose connection
  failed stays open; one whose host was not resolved has not been opened.\<close>

definition http_open ::
    "asio \<Rightarrow> bool \<Rightarrow> option_set \<Rightarrow> nat \<Rightarrow> url \<Rightarrow> http_stream \<Rightarrow> (error_code \<times> http_stream) result" where
  "http_open io tls opts k u s =
     (if socket_open s then Inr (Ec_already_open, s)
      else bindE (url_port u) (\<lambda>port.
        let c = attempt io k (host u) (decimal (unat port)); s1 = s\<lparr>socket_open := True\<rparr>
        in if failed (at_resolve c) then Inr (at_resolve c, s)
           else if failed (at_connect c) then Inr (at_connect c, s1)
           else if failed (at_no_delay c) then Inr (at_no_delay c, s1)
           else http_talk io tls opts c u s1))"

definition http_close :: "asio \<Rightarrow> http_stream \<Rightarrow> error_code \<times> http_stream" where
  "http_close io s =
     (Ec_ok, s\<lparr>socket_open := False, request_buffer := [], reply_buffer := [], headers_string := [],
        head_fields := no_fields, incoming := [], closing := idle_error io\<rparr>)"

text \<open>A read of at most \<open>n\<close> bytes. The socket delivers the next piece, or as much of it as there is room
  for.\<close>

definition socket_read_some :: "nat \<Rightarrow> http_stream \<Rightarrow> (string \<times> error_code) \<times> http_stream" where
  "socket_read_some n s =
     (case incoming s of
        [] \<Rightarrow> (([], closing s), s)
      | c # cs \<Rightarrow> ((take n c, Ec_ok), s\<lparr>incoming := (if length c \<le> n then cs else drop n c # cs)\<rparr>))"

definition http_read_some :: "nat \<Rightarrow> http_stream \<Rightarrow> (string \<times> error_code) \<times> http_stream" where
  "http_read_some n s =
     (if reply_buffer s \<noteq> [] then
        ((take n (reply_buffer s), Ec_ok), s\<lparr>reply_buffer := drop n (reply_buffer s)\<rparr>)
      else
        (case socket_read_some n s of ((bytes, e), s') \<Rightarrow>
           ((bytes, if e = Ec_shut_down then Ec_eof else e), s')))"

subsection \<open>Reading in pieces\<close>

lemma find_string_prefix: "find_string d (s @ t) = None \<Longrightarrow> find_string d s = None"
  using find_string_append [of d s] by (cases "find_string d s") auto

lemma read_until_found:
  "find_string d (buf @ concat cs) = Some n \<Longrightarrow>
   \<exists>b cs'. read_until d buf cs e = ((n + length d, Ec_ok), b, cs') \<and> b @ concat cs' = buf @ concat cs \<and>
     n + length d \<le> length b"
proof (induction d buf cs e rule: read_until.induct)
  case (1 d buf e)
  then show ?case using find_string_bound [of d buf n] by auto
next
  case (2 d buf c cs e)
  show ?case
  proof (cases "find_string d buf")
    case None
    with 2 show ?thesis by simp
  next
    case (Some m)
    then have "m = n" using 2 find_string_append [OF Some, of "c @ concat cs"] by simp
    with Some show ?thesis using find_string_bound [OF Some] by auto
  qed
qed

lemma read_until_missing:
  "find_string d (buf @ concat cs) = None \<Longrightarrow> read_until d buf cs e = ((0, e), buf @ concat cs, [])"
proof (induction d buf cs e rule: read_until.induct)
  case (2 d buf c cs e)
  then show ?case using find_string_prefix [of d buf] by simp
qed simp

text \<open>However the reply is cut into pieces, the buffer ends up with the text up to the delimiter.\<close>

lemma stream_read_until_found:
  assumes "pending s = t @ rest" and "find_string d (t @ rest) = Some n" and "length t = n + length d"
  obtains b cs where "stream_read_until d s = ((length t, Ec_ok), s\<lparr>reply_buffer := t @ b, incoming := cs\<rparr>)"
    and "b @ concat cs = rest"
proof -
  from assms obtain b cs where r: "read_until d (reply_buffer s) (incoming s) (closing s) =
      ((length t, Ec_ok), b, cs)" and b: "b @ concat cs = t @ rest" "length t \<le> length b"
    using read_until_found [of d "reply_buffer s" "incoming s" n "closing s"] by (auto simp: pending_def)
  then have "b = t @ drop (length t) b"
    by (metis append_eq_append_conv_if append_take_drop_id)
  moreover from this b have "drop (length t) b @ concat cs = rest"
    by (metis append_assoc same_append_eq)
  ultimately show ?thesis using that [of cs "drop (length t) b"] r
    by (simp add: stream_read_until_def)
qed

lemma stream_read_until_missing:
  assumes "find_string d (pending s) = None"
  shows "stream_read_until d s = ((0, closing s), s\<lparr>reply_buffer := pending s, incoming := []\<rparr>)"
  using assms read_until_missing [of d "reply_buffer s" "incoming s" "closing s"]
  by (simp add: stream_read_until_def pending_def)

lemma status_text_line:
  assumes "number_ok major" and "number_ok minor" and "number_ok status" and "no_ctl reason"
  shows "find_string crlf (status_text major minor status reason @ s) =
      Some (length (status_text major minor status reason) - 2)"
    and "2 \<le> length (status_text major minor status reason)"
proof -
  let ?w = "''HTTP/'' @ major @ ''.'' @ minor @ '' '' @ status @ '' '' @ reason"
  have dig: "CHR 0x0D \<notin> set ds" if "number_ok ds" for ds
    using that by (auto simp: number_ok_def list_all_iff isdigit_def)
  moreover have "CHR 0x0D \<notin> set reason"
    using assms(4) cr_is_ctl by (auto simp: no_ctl_def list_all_iff)
  ultimately have "CHR 0x0D \<notin> set ?w" using assms(1-3) by auto
  from find_string_skip [OF this, of "[CHR 0x0A]" "crlf @ s"]
  show "find_string crlf (status_text major minor status reason @ s) =
      Some (length (status_text major minor status reason) - 2)"
    by (simp add: status_text_def crlf_def)
  show "2 \<le> length (status_text major minor status reason)"
    by (simp add: status_text_def)
qed

definition status_error :: "int \<Rightarrow> error_code" where
  "status_error n = (if n = 200 then Ec_ok else Ec_http n)"

lemma exchange_reads:
  assumes "number_ok major" and "number_ok minor" and "number_ok status" and "no_ctl reason"
    and "hs \<noteq> []" and "list_all header_ok hs" and "digits_from 0 status \<noteq> 100"
    and "pending s = status_text major minor status reason @ header_text hs @ content"
  obtains b cs where "b @ concat cs = content"
    and "http_exchange s = bindE (check_headers hs (head_fields s)) (\<lambda>f.
      Inr (status_error (digits_from 0 status), s\<lparr>incoming := cs, headers_string := header_text hs,
        reply_buffer := b, head_fields := f\<rparr>))"
proof -
  let ?line = "status_text major minor status reason"
  have "length ?line = length ?line - 2 + length crlf"
    using status_text_line(2) [OF assms(1-4)] by (simp add: crlf_def)
  from stream_read_until_found [OF assms(8) status_text_line(1) [OF assms(1-4)] this]
  obtain b1 cs1 where r1: "stream_read_until crlf s =
      ((length ?line, Ec_ok), s\<lparr>reply_buffer := ?line @ b1, incoming := cs1\<rparr>)"
    and b1: "b1 @ concat cs1 = header_text hs @ content" by blast
  let ?s1 = "s\<lparr>reply_buffer := b1, incoming := cs1\<rparr>"
  have st: "reply_status 0 s = Inr ((Ec_ok, digits_from 0 status), ?s1)"
    using r1 status_line_read [OF assms(1-4), of b1] assms(7)
    by (simp add: reply_status.simps [of 0 s] failed_def)
  have "pending ?s1 = header_text hs @ content" using b1 by (simp add: pending_def)
  moreover have "length (header_text hs) = length (header_text hs) - 4 + length (crlf @ crlf)"
    using assms(5) by (cases hs) (simp_all add: header_text_def header_line_def crlf_def)
  ultimately obtain b cs where r2: "stream_read_until (crlf @ crlf) ?s1 =
      ((length (header_text hs), Ec_ok), ?s1\<lparr>reply_buffer := header_text hs @ b, incoming := cs\<rparr>)"
    and b: "b @ concat cs = content"
    by (rule stream_read_until_found [OF _ find_blank_line [OF assms(5,6)]])
  have "http_exchange s = reply_headers (digits_from 0 status) ?s1"
    using st by (simp add: http_exchange_def failed_def)
  also have "\<dots> = bindE (check_headers hs (head_fields s)) (\<lambda>f.
      Inr (status_error (digits_from 0 status), s\<lparr>incoming := cs, headers_string := header_text hs,
        reply_buffer := b, head_fields := f\<rparr>))"
    using r2 headers_read [OF assms(6), of "head_fields s"]
    by (simp add: reply_headers_def failed_def status_error_def bindE_assoc)
  finally show ?thesis using that b by blast
qed

subsection \<open>Reading the content\<close>

text \<open>What a client gets that calls \<open>read_some\<close> with room for \<open>n\<close> bytes until it reports an error.\<close>

inductive delivers :: "nat \<Rightarrow> http_stream \<Rightarrow> string \<Rightarrow> error_code \<Rightarrow> bool" where
  delivers_end: "http_read_some n s = ((bytes, e), s') \<Longrightarrow> failed e \<Longrightarrow> delivers n s [] e"
| delivers_more: "http_read_some n s = ((bytes, e), s') \<Longrightarrow> \<not> failed e \<Longrightarrow> delivers n s' rest e' \<Longrightarrow>
    delivers n s (bytes @ rest) e'"

definition final_error :: "http_stream \<Rightarrow> error_code" where
  "final_error s = (if closing s = Ec_shut_down then Ec_eof else closing s)"

lemma delivers_deterministic:
  "delivers n s bytes e \<Longrightarrow> delivers n s bytes' e' \<Longrightarrow> bytes' = bytes \<and> e' = e"
proof (induction arbitrary: bytes' e' rule: delivers.induct)
  case (delivers_end n s bytes e s')
  from delivers_end.prems delivers_end.hyps show ?case by cases auto
next
  case (delivers_more n s bytes e s' rest e'')
  note first = delivers_more.hyps and IH = delivers_more.IH
  from delivers_more.prems show ?case
  proof cases
    case delivers_end
    with first show ?thesis by simp
  next
    case (delivers_more bytes2 e2 s2 rest2)
    with first have "bytes2 = bytes" "s2 = s'" by simp_all
    with delivers_more IH show ?thesis by blast
  qed
qed

lemma http_read_some_step:
  assumes "0 < n" and "pending s \<noteq> [] \<or> incoming s \<noteq> []"
  obtains bytes s' where "http_read_some n s = ((bytes, Ec_ok), s')" and "pending s = bytes @ pending s'"
    and "closing s' = closing s"
    and "length (pending s') + length (incoming s') < length (pending s) + length (incoming s)"
proof (cases "reply_buffer s = []")
  case True
  with assms obtain c cs where c: "incoming s = c # cs"
    by (cases "incoming s") (auto simp: pending_def)
  show ?thesis
  proof (cases "length c \<le> n")
    case True
    with c \<open>reply_buffer s = []\<close> show ?thesis
      using that [of c "s\<lparr>incoming := cs\<rparr>"]
      by (simp add: http_read_some_def socket_read_some_def pending_def)
  next
    case False
    with c \<open>reply_buffer s = []\<close> assms(1) show ?thesis
      using that [of "take n c" "s\<lparr>incoming := drop n c # cs\<rparr>"]
      by (simp add: http_read_some_def socket_read_some_def pending_def)
  qed
next
  case False
  with assms(1) show ?thesis
    using that [of "take n (reply_buffer s)" "s\<lparr>reply_buffer := drop n (reply_buffer s)\<rparr>"]
    by (simp add: http_read_some_def pending_def)
qed

lemma delivers_pending:
  assumes "0 < n" and "failed (closing s)"
  shows "delivers n s (pending s) (final_error s)"
  using assms(2)
proof (induction "length (pending s) + length (incoming s)" arbitrary: s rule: less_induct)
  case less
  show ?case
  proof (cases "pending s \<noteq> [] \<or> incoming s \<noteq> []")
    case True
    obtain bytes s' where s': "http_read_some n s = ((bytes, Ec_ok), s')" "pending s = bytes @ pending s'"
      "closing s' = closing s"
      "length (pending s') + length (incoming s') < length (pending s) + length (incoming s)"
      by (rule http_read_some_step [OF assms(1) True])
    then have "delivers n s' (pending s') (final_error s')" using less by simp
    then have "delivers n s (bytes @ pending s') (final_error s')"
      by (intro delivers_more [OF s'(1)]) (simp_all add: failed_def)
    moreover have "final_error s' = final_error s" using s'(3) by (simp add: final_error_def)
    ultimately show ?thesis using s'(2) by simp
  next
    case False
    then have "http_read_some n s = (([], final_error s), s)" "pending s = []"
      by (auto simp: http_read_some_def socket_read_some_def pending_def final_error_def)
    moreover have "failed (final_error s)" using less.prems by (auto simp: final_error_def failed_def)
    ultimately show ?thesis using delivers_end [of n s "[]" "final_error s" s] by simp
  qed
qed

lemma delivers_iff:
  "0 < n \<Longrightarrow> failed (closing s) \<Longrightarrow> delivers n s bytes e \<longleftrightarrow> bytes = pending s \<and> e = final_error s"
  using delivers_pending delivers_deterministic by metis

subsection \<open>One exchange\<close>

definition connects :: "asio \<Rightarrow> bool \<Rightarrow> connection \<Rightarrow> string \<Rightarrow> bool" where
  "connects io tls c hostname \<longleftrightarrow> \<not> failed (at_resolve c) \<and> \<not> failed (at_connect c) \<and>
     \<not> failed (at_no_delay c) \<and> \<not> failed (handshake io tls c hostname) \<and> \<not> failed (at_write c)"

text \<open>The stream when the request has been sent.\<close>

definition sent_stream :: "option_set \<Rightarrow> connection \<Rightarrow> url \<Rightarrow> http_stream \<Rightarrow> http_stream" where
  "sent_stream opts c u s = s\<lparr>socket_open := True, request_buffer := [],
     incoming := replies c (request_buffer s @ request_text opts u), closing := at_end c\<rparr>"

lemma http_open_connects:
  assumes "\<not> socket_open s" and "url_port u = Inr port"
    and "connects io tls (attempt io k (host u) (decimal (unat port))) (host u)"
  shows "http_open io tls opts k u s =
    http_exchange (sent_stream opts (attempt io k (host u) (decimal (unat port))) u s)"
  using assms by (simp add: http_open_def http_talk_def connects_def sent_stream_def Let_def)

text \<open>C25: When an encrypted open succeeds, and also when it fails but leaves anything of a request, of a reply or of
  its headers in the stream that was not there before, then the connection was made to the host and port of the
  URL, the handshake did not fail, OpenSSL verified the chain, and the certificate authenticates the host.\<close>

theorem tls_checks_host:
  assumes "http_open io True opts k u s = Inr (e, s')"
    and "\<not> failed e \<or> request_buffer s' \<noteq> request_buffer s \<or> pending s' \<noteq> pending s \<or>
      headers_string s' \<noteq> headers_string s"
  shows "\<exists>port c cert. url_port u = Inr port \<and> c = attempt io k (host u) (decimal (unat port)) \<and>
    \<not> failed (at_connect c) \<and> \<not> failed (at_handshake c) \<and> at_verified c \<and> at_certificate c = Some cert \<and>
    authenticates io cert (host u)"
proof -
  have "\<not> socket_open s"
    using assms by (auto simp: http_open_def failed_def)
  then obtain port where port: "url_port u = Inr port"
    using assms(1) by (auto simp: http_open_def bindE_eq_Inr_iff)
  let ?c = "attempt io k (host u) (decimal (unat port))"
  have used: "\<not> failed (at_connect ?c) \<and> \<not> failed (handshake io True ?c (host u))"
  proof (rule ccontr)
    assume "\<not> (\<not> failed (at_connect ?c) \<and> \<not> failed (handshake io True ?c (host u)))"
    then have "failed e \<and> (s' = s \<or> s' = s\<lparr>socket_open := True\<rparr>)"
      using assms(1) \<open>\<not> socket_open s\<close> port
      by (auto simp: http_open_def http_talk_def Let_def split: if_splits)
    then show False using assms(2) by (auto simp: pending_def)
  qed
  with port handshake_checks_host [of io ?c "host u"] show ?thesis by blast
qed

theorem tls_checks_host_witness:
  "\<exists>s'. http_open sample_asio True option_set_new 0 (url_empty\<lparr>protocol := ''https'', host := ''api.telegram.org''\<rparr>)
      (http_stream_new sample_asio) = Inr (Ec_ok, s') \<and>
   authenticates sample_asio \<lparr>alternate_names = [Gen_dns True ''*.telegram.org''], common_names = []\<rparr> ''api.telegram.org''"
proof -
  let ?u = "url_empty\<lparr>protocol := ''https'', host := ''api.telegram.org''\<rparr>"
  have "case http_open sample_asio True option_set_new 0 ?u (http_stream_new sample_asio) of
      Inr (e, s') \<Rightarrow> e = Ec_ok | Inl e \<Rightarrow> False"
    by code_simp
  then obtain s' where s': "http_open sample_asio True option_set_new 0 ?u (http_stream_new sample_asio) = Inr (Ec_ok, s')"
    by (auto split: sum.splits prod.splits)
  moreover from tls_checks_host [OF s'] have
    "authenticates sample_asio \<lparr>alternate_names = [Gen_dns True ''*.telegram.org''], common_names = []\<rparr> ''api.telegram.org''"
    by (auto simp: failed_def sample_asio_def sample_connection_def)
  ultimately show ?thesis by blast
qed

text \<open>C26: One exchange. Whatever pieces a reply arrives in, when it is a status line, header lines and the
  content, the stream opens exactly when the status is 200 and reports the status as the error
  otherwise. The content type, length and location are those of the last header lines of these names,
  and a client that reads with room for any number of bytes gets the content, all of it and nothing
  else, and then the error at the end of the connection.\<close>

theorem http_content_delivered:
  assumes "\<not> socket_open s" and "reply_buffer s = []" and "url_port u = Inr port"
    and c: "c = attempt io k (host u) (decimal (unat port))"
    and "connects io tls c (host u)" and "failed (at_end c)"
    and "concat (replies c (request_buffer s @ request_text opts u)) =
      status_text major minor status reason @ header_text hs @ content"
    and "number_ok major" and "number_ok minor" and "number_ok status" and "no_ctl reason"
    and "hs \<noteq> []" and "list_all header_ok hs" and "digits_from 0 status \<noteq> 100"
    and "check_headers hs (head_fields s) = Inr f" and "0 < n"
  shows "\<exists>s'. http_open io tls opts k u s = Inr (status_error (digits_from 0 status), s') \<and>
    socket_open s' \<and> head_fields s' = f \<and> headers_string s' = header_text hs \<and>
    (\<forall>bytes e. delivers n s' bytes e \<longleftrightarrow>
      bytes = content \<and> e = (if at_end c = Ec_shut_down then Ec_eof else at_end c))"
proof -
  let ?s = "sent_stream opts c u s"
  have "pending ?s = status_text major minor status reason @ header_text hs @ content"
    using assms(2,7) by (simp add: pending_def sent_stream_def)
  from exchange_reads [OF assms(8-14) this] obtain b cs where b: "b @ concat cs = content"
    and ex: "http_exchange ?s = bindE (check_headers hs (head_fields ?s)) (\<lambda>f.
      Inr (status_error (digits_from 0 status), ?s\<lparr>incoming := cs, headers_string := header_text hs,
        reply_buffer := b, head_fields := f\<rparr>))" by blast
  let ?t = "?s\<lparr>incoming := cs, headers_string := header_text hs, reply_buffer := b, head_fields := f\<rparr>"
  have "http_open io tls opts k u s = Inr (status_error (digits_from 0 status), ?t)"
    using http_open_connects [OF assms(1,3)] c assms(5,15) ex by (simp add: sent_stream_def)
  moreover have "pending ?t = content" "closing ?t = at_end c"
    using b by (simp_all add: pending_def sent_stream_def)
  moreover have "delivers n ?t bytes e \<longleftrightarrow>
      bytes = content \<and> e = (if at_end c = Ec_shut_down then Ec_eof else at_end c)" for bytes e
    using delivers_iff [OF assms(16), of ?t] calculation(2,3) assms(6) by (simp add: final_error_def)
  ultimately show ?thesis by (intro exI [of _ ?t]) (simp add: sent_stream_def)
qed

theorem http_content_delivered_witness:
  "\<exists>u s'. url_from_string ''https://api.telegram.org/file/x'' = Inr u \<and>
    http_open sample_asio True option_set_new 0 u (http_stream_new sample_asio) = Inr (Ec_ok, s') \<and>
    content_type (head_fields s') = ''image/png'' \<and> delivers 2 s' ''PNG'' Ec_eof"
proof -
  let ?u = "url_empty\<lparr>protocol := ''https'', host := ''api.telegram.org'', path_string := ''/file/x''\<rparr>"
  let ?s = "http_stream_new sample_asio"
  have "\<not> socket_open ?s" "reply_buffer ?s = []" by (simp_all add: http_stream_new_def)
  moreover have "url_port ?u = Inr 443" by (simp add: url_port_def url_empty_def)
  moreover have "sample_connection = attempt sample_asio 0 (host ?u) (decimal (unat (443 :: 16 word)))"
    by (simp add: sample_asio_def)
  moreover have "handshake sample_asio True sample_connection ''api.telegram.org'' = Ec_ok" by code_simp
  then have "connects sample_asio True sample_connection (host ?u)"
    by (simp add: connects_def sample_connection_def failed_def)
  moreover have "failed (at_end sample_connection)" by (simp add: sample_connection_def failed_def)
  moreover have "concat (replies sample_connection (request_buffer ?s @ request_text option_set_new ?u)) =
      status_text ''1'' ''1'' ''200'' ''OK'' @ header_text [(''content-type'', ''image/png'')] @ ''PNG''"
    by (simp add: sample_connection_def status_text_def header_text_def header_line_def)
  moreover have "number_ok ''1''" "number_ok ''200''" "no_ctl ''OK''" by code_simp+
  moreover have "list_all header_ok [(''content-type'', ''image/png'')]" by code_simp
  moreover have "digits_from 0 ''200'' = 200" by code_simp
  moreover have "check_headers [(''content-type'', ''image/png'')] (head_fields ?s) =
      Inr (no_fields\<lparr>content_type := ''image/png''\<rparr>)"
  proof -
    have "headers_equal ''content-type'' ''Content-Type''" by code_simp
    then show ?thesis by (simp add: check_header_def http_stream_new_def)
  qed
  ultimately have "\<exists>s'. http_open sample_asio True option_set_new 0 ?u ?s = Inr (status_error 200, s') \<and>
    socket_open s' \<and> head_fields s' = no_fields\<lparr>content_type := ''image/png''\<rparr> \<and>
    headers_string s' = header_text [(''content-type'', ''image/png'')] \<and>
    (\<forall>bytes e. delivers 2 s' bytes e \<longleftrightarrow> bytes = ''PNG'' \<and>
      e = (if at_end sample_connection = Ec_shut_down then Ec_eof else at_end sample_connection))"
    using http_content_delivered [of ?s ?u 443 sample_connection sample_asio 0 True option_set_new
        "''1''" "''1''" "''200''" "''OK''" "[(''content-type'', ''image/png'')]" "''PNG''"
        "no_fields\<lparr>content_type := ''image/png''\<rparr>" 2]
    by simp
  moreover have "url_from_string ''https://api.telegram.org/file/x'' = Inr ?u"
    by code_simp
  ultimately show ?thesis
    by (auto simp: status_error_def sample_connection_def)
qed

subsection \<open>Interim replies\<close>

lemma digits_from_ten: "0 \<le> m \<Longrightarrow> ds \<noteq> [] \<Longrightarrow> list_all isdigit ds \<Longrightarrow> 10 * m \<le> digits_from m ds"
proof (cases ds)
  case (Cons c es)
  assume "0 \<le> m" "list_all isdigit ds"
  with Cons have "10 * m \<le> m * 10 + of_char c - 48" using isdigit_range [of c] by simp
  moreover from this \<open>0 \<le> m\<close> have "0 \<le> m * 10 + of_char c - 48" by simp
  ultimately show ?thesis
    using digits_from_mono [of "m * 10 + of_char c - 48" es] Cons \<open>list_all isdigit ds\<close> by simp
qed simp

lemma status_accumulates:
  "reply_status m s = Inr ((e, n), s') \<Longrightarrow> 100 \<le> m \<Longrightarrow> failed e \<or> 1000 \<le> n"
proof (induction m s arbitrary: e n s' rule: reply_status.induct)
  case (1 m s)
  obtain k e1 s1 where r: "stream_read_until crlf s = ((k, e1), s1)" by (metis surj_pair)
  show ?case
  proof (cases "failed e1")
    case True
    with r "1.prems" show ?thesis by (simp add: reply_status.simps [of m s])
  next
    case False
    with r "1.prems"(1) obtain ok v rest where
      p: "parse_http_status_line \<lparr>version_major = 0, version_minor = 0, status_value = m\<rparr> (reply_buffer s1)
        = Inr (ok, v, rest)"
      by (auto simp: reply_status.simps [of m s] bindE_eq_Inr_iff)
    show ?thesis
    proof (cases ok)
      case True
      with p have "1000 \<le> status_value v"
        using status_line_accepted [of _ "reply_buffer s1" v rest] digits_from_ten [of m] "1.prems"(2)
        by (fastforce simp: digit_run_def)
      with p r False True "1.prems"(1) show ?thesis
        by (auto simp: reply_status.simps [of m s])
    next
      case ok: False
      with p r False "1.prems"(1) show ?thesis
        by (auto simp: reply_status.simps [of m s] failed_def)
    qed
  qed
qed

lemma reply_headers_failed:
  "reply_headers n s = Inr (e, s') \<Longrightarrow> n \<noteq> 200 \<Longrightarrow> n \<noteq> 0 \<Longrightarrow> failed e"
  by (auto simp: reply_headers_def failed_def bindE_eq_Inr_iff Let_def split: if_splits prod.splits)

text \<open>C30: A server that first answers \<open>100 Continue\<close> is never understood. The loop that is to wait for the
  final status appends its digits to the 100 it holds, so that no reply opens the stream; when the
  interim reply ends with its blank line, as it must, the open fails with a malformed status line.\<close>

theorem continue_never_opens:
  assumes "\<not> socket_open s" and "reply_buffer s = []" and "url_port u = Inr port"
    and c: "c = attempt io k (host u) (decimal (unat port))"
    and "connects io tls c (host u)"
    and "concat (replies c (request_buffer s @ request_text opts u)) =
      status_text major minor ''100'' reason @ rest"
    and "number_ok major" and "number_ok minor" and "no_ctl reason"
  shows "(http_open io tls opts k u s = Inr (e, s') \<longrightarrow> failed e) \<and>
    (take 2 rest = crlf \<longrightarrow> (\<exists>s'. http_open io tls opts k u s = Inr (Ec_http 1, s')))"
proof -
  let ?s = "sent_stream opts c u s" and ?line = "status_text major minor ''100'' reason"
  have open': "http_open io tls opts k u s = http_exchange ?s"
    using http_open_connects [OF assms(1,3)] c assms(5) by simp
  have n100: "number_ok ''100''" "digits_from 0 ''100'' = 100" by code_simp+
  have p: "pending ?s = ?line @ rest"
    using assms(2,6) by (simp add: pending_def sent_stream_def)
  have "length ?line = length ?line - 2 + length crlf"
    using status_text_line(2) [OF assms(7,8) n100(1) assms(9)] by (simp add: crlf_def)
  from stream_read_until_found [OF p status_text_line(1) [OF assms(7,8) n100(1) assms(9)] this]
  obtain b cs where r: "stream_read_until crlf ?s =
      ((length ?line, Ec_ok), ?s\<lparr>reply_buffer := ?line @ b, incoming := cs\<rparr>)" "b @ concat cs = rest"
    by blast
  let ?s1 = "?s\<lparr>incoming := cs, reply_buffer := b\<rparr>"
  have st: "reply_status 0 ?s = reply_status 100 ?s1"
    using r status_line_read [OF assms(7,8) n100(1) assms(9), of b] n100(2)
    by (simp add: reply_status.simps [of 0 ?s] failed_def)
  have "failed e" if "http_exchange ?s = Inr (e, s')"
  proof -
    from that st obtain e1 n s1 where "reply_status 100 ?s1 = Inr ((e1, n), s1)"
      and "(if failed e1 then Inr (e1, s1) else reply_headers n s1) = Inr (e, s')"
      by (auto simp: http_exchange_def bindE_eq_Inr_iff)
    with status_accumulates [of 100 ?s1 e1 n s1] reply_headers_failed [of n s1 e s'] show ?thesis
      by (auto split: if_splits)
  qed
  moreover have "\<exists>s'. http_exchange ?s = Inr (Ec_http 1, s')" if "take 2 rest = crlf"
  proof -
    from that have "rest = crlf @ drop 2 rest" by (metis append_take_drop_id)
    then have p1: "pending ?s1 = crlf @ drop 2 rest" using r(2) by (simp add: pending_def)
    have "find_string crlf (crlf @ drop 2 rest) = Some 0" by (simp add: crlf_def)
    from stream_read_until_found [OF p1 this] obtain b2 cs2 where r2: "stream_read_until crlf ?s1 =
        ((length crlf, Ec_ok), ?s1\<lparr>reply_buffer := crlf @ b2, incoming := cs2\<rparr>)"
      by (metis add_0)
    then show ?thesis
      using st by (simp add: http_exchange_def reply_status.simps [of 100 ?s1] failed_def
          parse_http_status_line_def status_step_def expect_char_def crlf_def)
  qed
  ultimately show ?thesis using open' by simp
qed

definition continue_connection :: connection where
  "continue_connection = sample_connection\<lparr>replies := (\<lambda>_. [''HTTP/1.1 100 Continue'' @ crlf @ crlf,
     ''HTTP/1.1 200 OK'' @ crlf @ ''Content-Length: 2'' @ crlf @ crlf @ ''ok''])\<rparr>"

theorem continue_never_opens_witness:
  "\<exists>s'. http_open (sample_asio\<lparr>attempt := (\<lambda>_ _ _. continue_connection)\<rparr>) False option_set_new 0
     (url_empty\<lparr>protocol := ''http'', host := ''h''\<rparr>) (http_stream_new sample_asio) = Inr (Ec_http 1, s')"
proof -
  let ?io = "sample_asio\<lparr>attempt := (\<lambda>_ _ _. continue_connection)\<rparr>"
  let ?u = "url_empty\<lparr>protocol := ''http'', host := ''h''\<rparr>" and ?s = "http_stream_new sample_asio"
  have "\<not> socket_open ?s" "reply_buffer ?s = []" by (simp_all add: http_stream_new_def)
  moreover have "url_port ?u = Inr 80" by (simp add: url_port_def url_empty_def)
  moreover have "continue_connection = attempt ?io 0 (host ?u) (decimal (unat (80 :: 16 word)))" by simp
  moreover have "connects ?io False continue_connection (host ?u)"
    by (simp add: connects_def continue_connection_def sample_connection_def failed_def handshake_def)
  moreover have "concat (replies continue_connection (request_buffer ?s @ request_text option_set_new ?u)) =
      status_text ''1'' ''1'' ''100'' ''Continue'' @
      crlf @ ''HTTP/1.1 200 OK'' @ crlf @ ''Content-Length: 2'' @ crlf @ crlf @ ''ok''"
    by (simp add: continue_connection_def status_text_def)
  moreover have "number_ok ''1''" "no_ctl ''Continue''" by code_simp+
  moreover have "take 2 (crlf @ x) = crlf" for x by (simp add: crlf_def)
  ultimately show ?thesis
    using continue_never_opens [of ?s ?u 80 continue_connection ?io 0 False option_set_new "''1''" "''1''"
        "''Continue''"] by blast
qed

subsection \<open>Replies without header lines\<close>

text \<open>A reply that has no header lines, which HTTP/1.0 allows, does not open the stream: behind the
  status line the code looks for two line ends, of which the status line has taken the first. When the
  content has no blank line of its own, the whole of it is swallowed and the end of the connection
  reported as the error.\<close>

lemma headerless_reply_fails:
  assumes "\<not> socket_open s" and "reply_buffer s = []" and "url_port u = Inr port"
    and c: "c = attempt io k (host u) (decimal (unat port))"
    and "connects io tls c (host u)" and "failed (at_end c)"
    and "concat (replies c (request_buffer s @ request_text opts u)) =
      status_text major minor status reason @ crlf @ content"
    and "number_ok major" and "number_ok minor" and "number_ok status" and "no_ctl reason"
    and "digits_from 0 status \<noteq> 100" and "find_string (crlf @ crlf) (crlf @ content) = None"
  shows "\<exists>s'. http_open io tls opts k u s = Inr (at_end c, s') \<and> headers_string s' = [] \<and>
    reply_buffer s' = crlf @ content"
proof -
  let ?s = "sent_stream opts c u s" and ?line = "status_text major minor status reason"
  have p: "pending ?s = ?line @ crlf @ content"
    using assms(2,7) by (simp add: pending_def sent_stream_def)
  have "length ?line = length ?line - 2 + length crlf"
    using status_text_line(2) [OF assms(8-11)] by (simp add: crlf_def)
  from stream_read_until_found [OF p status_text_line(1) [OF assms(8-11)] this]
  obtain b cs where r: "stream_read_until crlf ?s =
      ((length ?line, Ec_ok), ?s\<lparr>reply_buffer := ?line @ b, incoming := cs\<rparr>)"
    and b: "b @ concat cs = crlf @ content" by blast
  let ?s1 = "?s\<lparr>incoming := cs, reply_buffer := b\<rparr>"
  have "reply_status 0 ?s = Inr ((Ec_ok, digits_from 0 status), ?s1)"
    using r status_line_read [OF assms(8-11), of b] assms(12)
    by (simp add: reply_status.simps [of 0 ?s] failed_def)
  moreover have "pending ?s1 = crlf @ content" using b by (simp add: pending_def)
  then have "stream_read_until (crlf @ crlf) ?s1 = ((0, closing ?s1), ?s1\<lparr>reply_buffer := crlf @ content,
      incoming := []\<rparr>)"
    using stream_read_until_missing [of "crlf @ crlf" ?s1] assms(13) by simp
  moreover have "closing ?s1 = at_end c" by (simp add: sent_stream_def)
  ultimately show ?thesis
    using http_open_connects [OF assms(1,3)] c assms(5,6)
    by (simp add: http_exchange_def reply_headers_def failed_def)
qed

lemma headerless_reply_fails_witness:
  "\<exists>s'. http_open (sample_asio\<lparr>attempt := (\<lambda>_ _ _. sample_connection\<lparr>replies :=
       (\<lambda>_. [''HTTP/1.0 200 OK'' @ crlf @ crlf @ ''hello''])\<rparr>)\<rparr>) False option_set_new 0
     (url_empty\<lparr>protocol := ''http'', host := ''h''\<rparr>) (http_stream_new sample_asio) = Inr (Ec_eof, s')"
proof -
  let ?c = "sample_connection\<lparr>replies := (\<lambda>_. [''HTTP/1.0 200 OK'' @ crlf @ crlf @ ''hello''])\<rparr>"
  let ?io = "sample_asio\<lparr>attempt := (\<lambda>_ _ _. ?c)\<rparr>"
  let ?u = "url_empty\<lparr>protocol := ''http'', host := ''h''\<rparr>" and ?s = "http_stream_new sample_asio"
  have "\<not> socket_open ?s" "reply_buffer ?s = []" by (simp_all add: http_stream_new_def)
  moreover have "url_port ?u = Inr 80" by (simp add: url_port_def url_empty_def)
  moreover have "?c = attempt ?io 0 (host ?u) (decimal (unat (80 :: 16 word)))" by simp
  moreover have "connects ?io False ?c (host ?u)" "failed (at_end ?c)"
    by (simp_all add: connects_def sample_connection_def failed_def handshake_def)
  moreover have "concat (replies ?c (request_buffer ?s @ request_text option_set_new ?u)) =
      status_text ''1'' ''0'' ''200'' ''OK'' @ crlf @ ''hello''" by (simp add: status_text_def)
  moreover have "number_ok ''1''" "number_ok ''0''" "number_ok ''200''" "no_ctl ''OK''" by code_simp+
  moreover have "digits_from 0 ''200'' \<noteq> 100" "find_string (crlf @ crlf) (crlf @ ''hello'') = None"
    by code_simp+
  moreover have "at_end ?c = Ec_eof" by (simp add: sample_connection_def)
  ultimately show ?thesis
    using headerless_reply_fails [of ?s ?u 80 ?c ?io 0 False option_set_new "''1''" "''0''" "''200''"
        "''OK''" "''hello''"] by auto
qed

end
