(* ===== verification/Read_Stream.thy ===== *)
theory Read_Stream
  imports Http_Stream
begin

section \<open>The read stream\<close>

text \<open>
  \<open>urdl/read_stream.hpp\<close> and \<open>urdl/detail/file_read_stream.hpp\<close>, the blocking operations: a stream that opens
  the URL of a file, or of an HTTP or HTTPS server and follows its redirects. The files there are is the
  parameter \<open>disk\<close>. A location that is no URL makes the conversion to \<open>url\<close> throw.
\<close>

subsection \<open>Files\<close>

type_synonym disk = "string \<Rightarrow> string option"

record file_stream =
  file_is_open :: bool
  file_good :: bool
  file_left :: string

definition file_stream_new :: file_stream where
  "file_stream_new = \<lparr>file_is_open = False, file_good = True, file_left = []\<rparr>"

text \<open>Opening a file stream that is open fails.\<close>

definition file_open :: "disk \<Rightarrow> url \<Rightarrow> file_stream \<Rightarrow> error_code \<times> file_stream" where
  "file_open disk u s =
     (if file_is_open s then (Ec_no_such_file, s\<lparr>file_good := False\<rparr>)
      else case disk (c_str (url_path u)) of
        Some t \<Rightarrow> (Ec_ok, \<lparr>file_is_open = True, file_good = True, file_left = t\<rparr>)
      | None \<Rightarrow> (Ec_no_such_file, s\<lparr>file_good := False\<rparr>))"

definition file_close :: "file_stream \<Rightarrow> error_code \<times> file_stream" where
  "file_close s = (Ec_ok, s\<lparr>file_is_open := False, file_good := True, file_left := []\<rparr>)"

text \<open>\<open>ec\<close> is what the caller's variable held: a successful read of some bytes leaves it as it was.\<close>

definition file_read_some :: "nat \<Rightarrow> error_code \<Rightarrow> file_stream \<Rightarrow> (string \<times> error_code) \<times> file_stream" where
  "file_read_some n ec s =
     (if \<not> file_good s then (([], Ec_eof), s)
      else if 0 < n then
        let got = take n (file_left s); good = (length got = n)
        in ((got, if got = [] \<and> \<not> good then Ec_eof else ec),
            s\<lparr>file_good := good, file_left := drop n (file_left s)\<rparr>)
      else (([], Ec_ok), s))"

subsection \<open>The stream\<close>

datatype protocol_kind = UNKNOWN_PROTOCOL | FILE_PROTOCOL | HTTP_PROTOCOL | HTTPS_PROTOCOL

record read_stream =
  stream_options :: option_set
  file_part :: file_stream
  http_part :: http_stream
  https_part :: http_stream
  open_kind :: protocol_kind

definition read_stream_new :: "asio \<Rightarrow> read_stream" where
  "read_stream_new io = \<lparr>stream_options = option_set_new, file_part = file_stream_new,
     http_part = http_stream_new io, https_part = http_stream_new io, open_kind = UNKNOWN_PROTOCOL\<rparr>"

definition stream_is_open :: "read_stream \<Rightarrow> bool" where
  "stream_is_open s =
     (case open_kind s of
        FILE_PROTOCOL \<Rightarrow> file_is_open (file_part s)
      | HTTP_PROTOCOL \<Rightarrow> socket_open (http_part s)
      | HTTPS_PROTOCOL \<Rightarrow> socket_open (https_part s)
      | UNKNOWN_PROTOCOL \<Rightarrow> False)"

definition stream_close :: "asio \<Rightarrow> read_stream \<Rightarrow> error_code \<times> read_stream" where
  "stream_close io s =
     (case open_kind s of
        FILE_PROTOCOL \<Rightarrow> (case file_close (file_part s) of (e, f) \<Rightarrow> (e, s\<lparr>file_part := f\<rparr>))
      | HTTP_PROTOCOL \<Rightarrow> (case http_close io (http_part s) of (e, h) \<Rightarrow> (e, s\<lparr>http_part := h\<rparr>))
      | HTTPS_PROTOCOL \<Rightarrow> (case http_close io (https_part s) of (e, h) \<Rightarrow> (e, s\<lparr>https_part := h\<rparr>))
      | UNKNOWN_PROTOCOL \<Rightarrow> (Ec_ok, s))"

definition stream_content_type :: "read_stream \<Rightarrow> string" where
  "stream_content_type s =
     (case open_kind s of
        HTTP_PROTOCOL \<Rightarrow> content_type (head_fields (http_part s))
      | HTTPS_PROTOCOL \<Rightarrow> content_type (head_fields (https_part s))
      | _ \<Rightarrow> [])"

definition stream_content_length :: "read_stream \<Rightarrow> 64 word" where
  "stream_content_length s =
     (case open_kind s of
        HTTP_PROTOCOL \<Rightarrow> content_length (head_fields (http_part s))
      | HTTPS_PROTOCOL \<Rightarrow> content_length (head_fields (https_part s))
      | _ \<Rightarrow> - 1)"

definition stream_headers :: "read_stream \<Rightarrow> string" where
  "stream_headers s =
     (case open_kind s of
        HTTP_PROTOCOL \<Rightarrow> headers_string (http_part s)
      | HTTPS_PROTOCOL \<Rightarrow> headers_string (https_part s)
      | _ \<Rightarrow> [])"

definition stream_read_some :: "nat \<Rightarrow> error_code \<Rightarrow> read_stream \<Rightarrow> (string \<times> error_code) \<times> read_stream" where
  "stream_read_some n ec s =
     (case open_kind s of
        FILE_PROTOCOL \<Rightarrow> (case file_read_some n ec (file_part s) of (r, f) \<Rightarrow> (r, s\<lparr>file_part := f\<rparr>))
      | HTTP_PROTOCOL \<Rightarrow> (case http_read_some n (http_part s) of (r, h) \<Rightarrow> (r, s\<lparr>http_part := h\<rparr>))
      | HTTPS_PROTOCOL \<Rightarrow> (case http_read_some n (https_part s) of (r, h) \<Rightarrow> (r, s\<lparr>https_part := h\<rparr>))
      | UNKNOWN_PROTOCOL \<Rightarrow> (([], Ec_operation_not_supported), s))"

subsection \<open>Opening, with redirects\<close>

definition is_redirect :: "error_code \<Rightarrow> bool" where
  "is_redirect e \<longleftrightarrow> e = Ec_http 301 \<or> e = Ec_http 302"

text \<open>The loop of \<open>open\<close>: \<open>redirects\<close> counts the redirects followed, \<open>k\<close> the attempts to connect.\<close>

function stream_open_loop ::
    "asio \<Rightarrow> disk \<Rightarrow> nat \<Rightarrow> nat \<Rightarrow> url \<Rightarrow> read_stream \<Rightarrow> (error_code \<times> nat \<times> read_stream) result" where
  "stream_open_loop io disk redirects k u s =
     (if protocol u = ''file'' then
        (case file_open disk u (file_part s) of
           (e, f) \<Rightarrow> Inr (e, k, s\<lparr>open_kind := FILE_PROTOCOL, file_part := f\<rparr>))
      else if protocol u = ''http'' then
        bindE (http_open io False (stream_options s) k u (http_part s)) (\<lambda>(e, h).
          if is_redirect e \<and> redirects < unat (max_redirects (stream_options s)) then
            bindE (url_from_string (location_field (head_fields h))) (\<lambda>u'.
              stream_open_loop io disk (redirects + 1) (k + 1) u'
                (s\<lparr>open_kind := HTTP_PROTOCOL, http_part := snd (http_close io h)\<rparr>))
          else Inr (e, k + 1, s\<lparr>open_kind := HTTP_PROTOCOL, http_part := h\<rparr>))
      else if protocol u = ''https'' then
        bindE (http_open io True (stream_options s) k u (https_part s)) (\<lambda>(e, h).
          if is_redirect e \<and> redirects < unat (max_redirects (stream_options s)) then
            bindE (url_from_string (location_field (head_fields h))) (\<lambda>u'.
              stream_open_loop io disk (redirects + 1) (k + 1) u'
                (s\<lparr>open_kind := HTTPS_PROTOCOL, https_part := snd (http_close io h)\<rparr>))
          else Inr (e, k + 1, s\<lparr>open_kind := HTTPS_PROTOCOL, https_part := h\<rparr>))
      else Inr (Ec_operation_not_supported, k, s))"
  by pat_completeness auto
termination stream_open_loop
  by (relation "measure (\<lambda>(_, _, redirects, _, _, s). unat (max_redirects (stream_options s)) - redirects)")
    auto

declare stream_open_loop.simps [simp del]

definition stream_open ::
    "asio \<Rightarrow> disk \<Rightarrow> nat \<Rightarrow> url \<Rightarrow> read_stream \<Rightarrow> (error_code \<times> nat \<times> read_stream) result" where
  "stream_open io disk k u s = stream_open_loop io disk 0 k u s"

subsection \<open>Following a chain\<close>

definition web :: "url \<Rightarrow> bool" where
  "web u \<longleftrightarrow> protocol u = ''http'' \<or> protocol u = ''https''"

text \<open>What a fresh stream makes of one URL.\<close>

definition exchange_with :: "asio \<Rightarrow> option_set \<Rightarrow> nat \<Rightarrow> url \<Rightarrow> (error_code \<times> http_stream) result" where
  "exchange_with io opts k u = http_open io (protocol u = ''https'') opts k u (http_stream_new io)"

text \<open>\<open>redirected io opts k u n v\<close>: starting with attempt \<open>k\<close>, \<open>n\<close> redirects lead from \<open>u\<close> to \<open>v\<close>.\<close>

inductive redirected :: "asio \<Rightarrow> option_set \<Rightarrow> nat \<Rightarrow> url \<Rightarrow> nat \<Rightarrow> url \<Rightarrow> bool"
  for io :: asio and opts :: option_set where
  redirected_none: "redirected io opts k u 0 u"
| redirected_step: "web u \<Longrightarrow> exchange_with io opts k u = Inr (e, h) \<Longrightarrow> is_redirect e \<Longrightarrow>
    url_from_string (location_field (head_fields h)) = Inr u' \<Longrightarrow>
    redirected io opts (k + 1) u' n v \<Longrightarrow> redirected io opts k u (Suc n) v"

definition idle_stream :: "asio \<Rightarrow> read_stream \<Rightarrow> bool" where
  "idle_stream io s \<longleftrightarrow> http_part s = http_stream_new io \<and> https_part s = http_stream_new io"

lemma http_close_new: "snd (http_close io h) = http_stream_new io"
  by (simp add: http_close_def http_stream_new_def)

definition current_http :: "read_stream \<Rightarrow> http_stream" where
  "current_http s = (if open_kind s = HTTPS_PROTOCOL then https_part s else http_part s)"

lemma stream_open_loop_end:
  assumes "web u" and "idle_stream io s" and "exchange_with io (stream_options s) k u = Inr (e, h)"
    and "is_redirect e \<longrightarrow> unat (max_redirects (stream_options s)) \<le> redirects"
  shows "\<exists>s'. stream_open_loop io disk redirects k u s = Inr (e, k + 1, s') \<and> current_http s' = h \<and>
    open_kind s' = (if protocol u = ''https'' then HTTPS_PROTOCOL else HTTP_PROTOCOL)"
proof (cases "protocol u = ''http''")
  case True
  with assms show ?thesis
    by (intro exI [of _ "s\<lparr>open_kind := HTTP_PROTOCOL, http_part := h\<rparr>"])
      (auto simp: idle_stream_def exchange_with_def current_http_def
        stream_open_loop.simps [of io disk redirects k u s])
next
  case False
  with assms show ?thesis
    by (intro exI [of _ "s\<lparr>open_kind := HTTPS_PROTOCOL, https_part := h\<rparr>"])
      (auto simp: web_def idle_stream_def exchange_with_def current_http_def
        stream_open_loop.simps [of io disk redirects k u s])
qed

lemma stream_open_loop_step:
  assumes "web u" and "idle_stream io s" and "exchange_with io (stream_options s) k u = Inr (e, h)"
    and "is_redirect e" and "redirects < unat (max_redirects (stream_options s))"
    and "url_from_string (location_field (head_fields h)) = Inr u'"
  obtains s' where "stream_open_loop io disk redirects k u s =
      stream_open_loop io disk (redirects + 1) (k + 1) u' s'"
    and "idle_stream io s'" and "stream_options s' = stream_options s"
proof (cases "protocol u = ''http''")
  case True
  with assms show ?thesis
    using that [of "s\<lparr>open_kind := HTTP_PROTOCOL, http_part := http_stream_new io\<rparr>"]
    by (simp add: idle_stream_def exchange_with_def http_close_new
        stream_open_loop.simps [of io disk redirects k u s])
next
  case False
  with assms show ?thesis
    using that [of "s\<lparr>open_kind := HTTPS_PROTOCOL, https_part := http_stream_new io\<rparr>"]
    by (simp add: web_def idle_stream_def exchange_with_def http_close_new
        stream_open_loop.simps [of io disk redirects k u s])
qed

lemma stream_open_loop_chain:
  "redirected io opts k u n v \<Longrightarrow> idle_stream io s \<Longrightarrow> stream_options s = opts \<Longrightarrow>
   redirects + n \<le> unat (max_redirects opts) \<Longrightarrow> web v \<Longrightarrow>
   exchange_with io opts (k + n) v = Inr (e, h) \<Longrightarrow>
   is_redirect e \<longrightarrow> redirects + n = unat (max_redirects opts) \<Longrightarrow>
   \<exists>s'. stream_open_loop io disk redirects k u s = Inr (e, k + n + 1, s') \<and> current_http s' = h \<and>
     open_kind s' = (if protocol v = ''https'' then HTTPS_PROTOCOL else HTTP_PROTOCOL)"
proof (induction arbitrary: redirects s rule: redirected.induct)
  case (redirected_none k u)
  then show ?case using stream_open_loop_end [of u io s k e h redirects disk] by auto
next
  case (redirected_step u k e1 h1 u' n v)
  from redirected_step.prems have "redirects < unat (max_redirects (stream_options s))" by simp
  with redirected_step obtain s1 where s1: "stream_open_loop io disk redirects k u s =
      stream_open_loop io disk (redirects + 1) (k + 1) u' s1"
    "idle_stream io s1" "stream_options s1 = stream_options s"
    using stream_open_loop_step [of u io s k e1 h1 redirects u' disk] by metis
  with redirected_step.IH [of s1 "redirects + 1"] redirected_step.prems show ?case by simp
qed

text \<open>C27: The blocking open follows redirects, from server to server and between HTTP and HTTPS, as long as
  their number is at most the option \<open>max_redirects\<close>, and reports what the last URL answers; the stream it
  leaves is that of the last exchange. A redirect beyond the limit is reported as the error.\<close>

theorem redirects_are_followed:
  assumes "redirected io (stream_options s) k u n v" and "idle_stream io s" and "web v"
    and "n \<le> unat (max_redirects (stream_options s))"
    and "exchange_with io (stream_options s) (k + n) v = Inr (e, h)"
    and "is_redirect e \<longrightarrow> n = unat (max_redirects (stream_options s))"
  shows "\<exists>s'. stream_open io disk k u s = Inr (e, k + n + 1, s') \<and> current_http s' = h \<and>
    (stream_is_open s' \<longleftrightarrow> socket_open h) \<and> stream_content_type s' = content_type (head_fields h)"
proof -
  from stream_open_loop_chain [OF assms(1,2) refl _ assms(3,5), of 0 disk] assms(4,6)
  obtain s' where "stream_open io disk k u s = Inr (e, k + n + 1, s')" "current_http s' = h"
    "open_kind s' = (if protocol v = ''https'' then HTTPS_PROTOCOL else HTTP_PROTOCOL)"
    by (auto simp: stream_open_def)
  then show ?thesis
    by (intro exI [of _ s']) (auto simp: stream_is_open_def stream_content_type_def current_http_def)
qed

text \<open>A server that moves everything to one URL, over HTTPS, where the content is.\<close>

definition moving_asio :: asio where
  "moving_asio = sample_asio\<lparr>attempt := (\<lambda>k _ _. if k = 0 then
     sample_connection\<lparr>replies := (\<lambda>_. [''HTTP/1.1 301 Moved'' @ crlf @
       ''Location: https://api.telegram.org/file/x'' @ crlf @ crlf])\<rparr> else sample_connection)\<rparr>"

theorem redirects_are_followed_witness:
  "\<exists>s'. stream_open moving_asio (\<lambda>_. None) 0
      (url_empty\<lparr>protocol := ''http'', host := ''telegram.org'', path_string := ''/x''\<rparr>)
      (read_stream_new moving_asio) = Inr (Ec_ok, 2, s') \<and> stream_content_type s' = ''image/png''"
proof -
  let ?u = "url_empty\<lparr>protocol := ''http'', host := ''telegram.org'', path_string := ''/x''\<rparr>"
  let ?v = "url_empty\<lparr>protocol := ''https'', host := ''api.telegram.org'', path_string := ''/file/x''\<rparr>"
  have "case exchange_with moving_asio option_set_new 0 ?u of Inr (e, h) \<Rightarrow>
      e = Ec_http 301 \<and> url_from_string (location_field (head_fields h)) = Inr ?v | _ \<Rightarrow> False"
    by code_simp
  then obtain h where h: "exchange_with moving_asio option_set_new 0 ?u = Inr (Ec_http 301, h)"
    "url_from_string (location_field (head_fields h)) = Inr ?v"
    by (auto split: sum.splits)
  have "case exchange_with moving_asio option_set_new (0 + 1) ?v of Inr (e, h) \<Rightarrow>
      e = Ec_ok \<and> content_type (head_fields h) = ''image/png'' | _ \<Rightarrow> False"
    by code_simp
  then obtain h' where h': "exchange_with moving_asio option_set_new (0 + 1) ?v = Inr (Ec_ok, h')"
    "content_type (head_fields h') = ''image/png''"
    by (auto split: sum.splits)
  have "redirected moving_asio option_set_new 0 ?u (Suc 0) ?v"
    using redirected_step [OF _ h(1) _ h(2)] redirected_none by (simp add: web_def is_redirect_def)
  moreover have "(1::nat) \<le> unat (max_redirects option_set_new)"
    by (simp add: option_values_new unsigned_minus_1_eq_mask mask_eq_exp_minus_1)
  ultimately show ?thesis
    using redirects_are_followed [of moving_asio "read_stream_new moving_asio" 0 ?u 1 ?v Ec_ok h' "\<lambda>_. None"]
      h' by (auto simp: read_stream_new_def idle_stream_def web_def is_redirect_def)
qed

end
