(* ===== verification/Async_Open.thy ===== *)
theory Async_Open
  imports Read_Stream
begin

section \<open>The asynchronous open\<close>

text \<open>
  The coroutines behind \<open>async_open\<close>: \<open>urdl/detail/coroutine.hpp\<close>, the coroutines of \<open>connect.hpp\<close>,
  \<open>handshake.hpp\<close>, \<open>http_read_stream.hpp\<close> and \<open>read_stream.hpp\<close>. A coroutine is a \<open>switch\<close> over the point it
  stopped at. \<open>URDL_CORO_YIELD(s)\<close> stores the next point, executes \<open>s\<close> and returns: it goes on only when an
  operation that \<open>s\<close> started completes and calls it again. Here a coroutine is a step function: from a point,
  what it is called with and its state it either calls its handler or yields, with the completion of the
  operation it waits for, or with none when nothing is under way that would call it again.
\<close>

type_synonym completion = "error_code \<times> nat"

datatype 'p coro = Yield "completion option" 'p | Call error_code

text \<open>Running a coroutine: the handler is called with an error code (\<open>Some e\<close>), or never (\<open>None\<close>). The outer
  \<open>option\<close> is for a coroutine that is resumed for ever.\<close>

partial_function (option) run_coro ::
    "('p \<Rightarrow> completion \<Rightarrow> 's \<Rightarrow> ('p coro \<times> 's) result) \<Rightarrow> 'p \<Rightarrow> completion \<Rightarrow> 's \<Rightarrow>
      (error_code option \<times> 's) result option" where
  "run_coro step p r s =
     (case step p r s of
        Inl err \<Rightarrow> Some (Inl err)
      | Inr (Call e, s') \<Rightarrow> Some (Inr (Some e, s'))
      | Inr (Yield None q, s') \<Rightarrow> Some (Inr (None, s'))
      | Inr (Yield (Some r') q, s') \<Rightarrow> run_coro step q r' s')"

lemma run_coro_call: "step p r s = Inr (Call e, s') \<Longrightarrow> run_coro step p r s = Some (Inr (Some e, s'))"
  and run_coro_drop: "step p r s = Inr (Yield None q, s') \<Longrightarrow> run_coro step p r s = Some (Inr (None, s'))"
  and run_coro_resume: "step p r s = Inr (Yield (Some r') q, s') \<Longrightarrow>
    run_coro step p r s = run_coro step q r' s'"
  and run_coro_raise: "step p r s = Inl err \<Longrightarrow> run_coro step p r s = Some (Inl err)"
  by (simp_all add: run_coro.simps [of step p r s])

subsection \<open>Connecting\<close>

datatype connect_point = Connect_start | Connect_not_opened | Connect_resolved | Connect_connected

text \<open>The resolver completes in time, or is cancelled by the timeout of the caller, which ends the open
  otherwise. The connection itself is made by the blocking \<open>connect\<close>, inside a yield: when it returns, the
  coroutine has returned too and no operation is under way.\<close>

definition connect_step ::
    "connection \<Rightarrow> connect_point \<Rightarrow> completion \<Rightarrow> http_stream \<Rightarrow> (connect_point coro \<times> http_stream) result" where
  "connect_step c p = (\<lambda>(ec, n) s.
     case p of
       Connect_start \<Rightarrow>
         if failed (at_socket c) then Inr (Yield (Some (at_socket c, 0)) Connect_not_opened, s)
         else Inr (Yield (if resolves_in_time c then Some (at_resolve c, 0) else None) Connect_resolved,
           s\<lparr>socket_open := True\<rparr>)
     | Connect_not_opened \<Rightarrow> Inr (Call ec, s)
     | Connect_resolved \<Rightarrow>
         if failed ec then Inr (Call ec, s) else Inr (Yield None Connect_connected, s)
     | Connect_connected \<Rightarrow>
         if failed ec then Inr (Call ec, s)
         else if \<not> socket_open s then Inr (Call (Ec_other ''Operation canceled''), s)
         else Inr (Call (at_no_delay c), s))"

definition async_connect :: "connection \<Rightarrow> http_stream \<Rightarrow> error_code option \<times> http_stream" where
  "async_connect c s =
     (case run_coro (connect_step c) Connect_start (Ec_ok, 0) s of
        Some (Inr r) \<Rightarrow> r
      | _ \<Rightarrow> (None, s))"

text \<open>The coroutine ends, and never with success.\<close>

lemma connect_runs:
  "run_coro (connect_step c) Connect_start (Ec_ok, 0) s =
     Some (Inr (if failed (at_socket c) then (Some (at_socket c), s)
       else if resolves_in_time c \<and> failed (at_resolve c) then (Some (at_resolve c), s\<lparr>socket_open := True\<rparr>)
       else (None, s\<lparr>socket_open := True\<rparr>)))"
  by (simp add: run_coro.simps connect_step_def)

lemma async_connect_value:
  "async_connect c s =
     (if failed (at_socket c) then (Some (at_socket c), s)
      else if resolves_in_time c \<and> failed (at_resolve c) then (Some (at_resolve c), s\<lparr>socket_open := True\<rparr>)
      else (None, s\<lparr>socket_open := True\<rparr>))"
  by (simp add: async_connect_def connect_runs)

subsection \<open>The handshake\<close>

datatype handshake_point = Handshake_start | Handshake_done

definition handshake_step ::
    "asio \<Rightarrow> connection \<Rightarrow> string \<Rightarrow> handshake_point \<Rightarrow> completion \<Rightarrow> unit \<Rightarrow> (handshake_point coro \<times> unit) result" where
  "handshake_step io c hostname p = (\<lambda>(ec, n) s.
     case p of
       Handshake_start \<Rightarrow> Inr (Yield (Some (at_handshake c, 0)) Handshake_done, s)
     | Handshake_done \<Rightarrow>
         if failed ec then Inr (Call ec, s)
         else Inr (Call (case at_certificate c of
             Some cert \<Rightarrow>
               if at_verified c then
                 (if certificate_matches_host (make_address io hostname) cert hostname then Ec_ok
                  else Ec_permission_denied)
               else Ec_permission_denied
           | None \<Rightarrow> Ec_permission_denied), s))"

definition async_handshake :: "asio \<Rightarrow> bool \<Rightarrow> connection \<Rightarrow> string \<Rightarrow> error_code option" where
  "async_handshake io tls c hostname =
     (if \<not> tls then Some Ec_ok
      else case run_coro (handshake_step io c hostname) Handshake_start (Ec_ok, 0) () of
        Some (Inr (r, _)) \<Rightarrow> r
      | _ \<Rightarrow> None)"

lemma async_handshake_value: "async_handshake io tls c hostname = Some (handshake io tls c hostname)"
  by (simp add: async_handshake_def handshake_def run_coro.simps handshake_step_def)

subsection \<open>The HTTP exchange\<close>

datatype open_point =
    Open_start | Open_already | Open_connected | Open_handshaken | Open_written | Open_status | Open_headers

record open_state =
  coro_stream :: http_stream
  coro_status :: int

definition connection_at :: "asio \<Rightarrow> nat \<Rightarrow> url \<Rightarrow> connection result" where
  "connection_at io k u = bindE (url_port u) (\<lambda>port. Inr (attempt io k (host u) (decimal (unat port))))"

text \<open>A yield on \<open>async_read_until\<close>: it completes with the bytes up to the delimiter.\<close>

definition yield_read_until :: "string \<Rightarrow> open_point \<Rightarrow> open_state \<Rightarrow> (open_point coro \<times> open_state) result" where
  "yield_read_until d q s =
     (case stream_read_until d (coro_stream s) of
        ((n, e), h) \<Rightarrow> Inr (Yield (Some (e, n)) q, s\<lparr>coro_stream := h\<rparr>))"

definition yield_error :: "error_code option \<Rightarrow> open_point \<Rightarrow> open_point coro" where
  "yield_error r q = Yield (map_option (\<lambda>e. (e, 0)) r) q"

definition http_open_step ::
    "asio \<Rightarrow> bool \<Rightarrow> option_set \<Rightarrow> nat \<Rightarrow> url \<Rightarrow> open_point \<Rightarrow> completion \<Rightarrow> open_state \<Rightarrow>
      (open_point coro \<times> open_state) result" where
  "http_open_step io tls opts k u p = (\<lambda>(ec, n) s.
     case p of
       Open_start \<Rightarrow>
         if socket_open (coro_stream s) then Inr (yield_error (Some Ec_already_open) Open_already, s)
         else bindE (connection_at io k u) (\<lambda>c.
           case async_connect c (coro_stream s) of
             (r, h) \<Rightarrow> Inr (yield_error r Open_connected, s\<lparr>coro_stream := h\<rparr>))
     | Open_already \<Rightarrow> Inr (Call ec, s)
     | Open_connected \<Rightarrow>
         if failed ec then Inr (Call ec, s)
         else bindE (connection_at io k u) (\<lambda>c.
           Inr (yield_error (async_handshake io tls c (host u)) Open_handshaken, s))
     | Open_handshaken \<Rightarrow>
         if failed ec then Inr (Call ec, s)
         else bindE (connection_at io k u) (\<lambda>c.
           let h = coro_stream s; out = request_buffer h @ request_text opts u
           in Inr (yield_error (Some (at_write c)) Open_written,
               s\<lparr>coro_stream := (if failed (at_write c) then h\<lparr>request_buffer := drop (written c) out\<rparr>
                 else h\<lparr>request_buffer := [], incoming := replies c out, closing := at_end c\<rparr>)\<rparr>))
     | Open_written \<Rightarrow>
         if failed ec then Inr (Call ec, s) else yield_read_until crlf Open_status s
     | Open_status \<Rightarrow>
         if failed ec then Inr (Call ec, s)
         else bindE (parse_http_status_line
             \<lparr>version_major = 0, version_minor = 0, status_value = coro_status s\<rparr>
             (reply_buffer (coro_stream s))) (\<lambda>(ok, v, rest).
           let s1 = s\<lparr>coro_stream := (coro_stream s)\<lparr>reply_buffer := rest\<rparr>, coro_status := status_value v\<rparr>
           in if \<not> ok then Inr (Call (Ec_http 1), s1)
              else if status_value v \<noteq> 100 then yield_read_until (crlf @ crlf) Open_headers s1
              else yield_read_until crlf Open_status s1)
     | Open_headers \<Rightarrow>
         let h = (coro_stream s)\<lparr>headers_string := take n (reply_buffer (coro_stream s)),
               reply_buffer := drop n (reply_buffer (coro_stream s))\<rparr>
         in if failed ec then Inr (Call ec, s\<lparr>coro_stream := h\<rparr>)
            else bindE (parse_http_headers (headers_string h) (head_fields h)) (\<lambda>(ok, f).
              let s1 = s\<lparr>coro_stream := h\<lparr>head_fields := f\<rparr>\<rparr>
              in if \<not> ok then Inr (Call (Ec_http 2), s1)
                 else if coro_status s \<noteq> 200 then Inr (Call (Ec_http (coro_status s)), s1)
                 else Inr (Call ec, s1)))"

definition http_async_open ::
    "asio \<Rightarrow> bool \<Rightarrow> option_set \<Rightarrow> nat \<Rightarrow> url \<Rightarrow> http_stream \<Rightarrow>
      (error_code option \<times> http_stream) result option" where
  "http_async_open io tls opts k u h =
     (case run_coro (http_open_step io tls opts k u) Open_start (Ec_ok, 0) \<lparr>coro_stream = h, coro_status = 0\<rparr> of
        None \<Rightarrow> None
      | Some r \<Rightarrow> Some (bindE r (\<lambda>(r, s). Inr (r, coro_stream s))))"

subsection \<open>The coroutine and the blocking exchange\<close>

definition stream_result :: "(error_code option \<times> open_state) result option \<Rightarrow>
    (error_code option \<times> http_stream) result option" where
  "stream_result = map_option (\<lambda>r. bindE r (\<lambda>(r, s). Inr (r, coro_stream s)))"

definition handler_gets :: "(error_code \<times> http_stream) result \<Rightarrow>
    (error_code option \<times> http_stream) result option" where
  "handler_gets r = Some (bindE r (\<lambda>(e, h). Inr (Some e, h)))"

lemma stream_result_simps [simp]:
  "stream_result (Some (Inl err)) = Some (Inl err)"
  "stream_result (Some (Inr (r, s))) = Some (Inr (r, coro_stream s))"
  by (simp_all add: stream_result_def)

lemma handler_gets_simps [simp]:
  "handler_gets (Inl err) = Some (Inl err)" "handler_gets (Inr (e, h)) = Some (Inr (Some e, h))"
  by (simp_all add: handler_gets_def)

lemma coroutine_headers:
  assumes "stream_read_until (crlf @ crlf) h = ((n, e), h1)"
  shows "stream_result (run_coro (http_open_step io tls opts k u) Open_headers (e, n)
      \<lparr>coro_stream = h1, coro_status = m\<rparr>) = handler_gets (reply_headers m h)"
proof (cases "failed e")
  case True
  with assms show ?thesis
    by (simp add: run_coro.simps [of _ Open_headers] http_open_step_def reply_headers_def Let_def)
next
  case ok: False
  show ?thesis
  proof (cases "parse_http_headers (take n (reply_buffer h1)) (head_fields h1)")
    case (Inl err)
    with assms ok show ?thesis
      by (simp add: run_coro.simps [of _ Open_headers] http_open_step_def reply_headers_def Let_def)
  next
    case (Inr r)
    with assms ok show ?thesis
      by (cases r) (simp add: run_coro.simps [of _ Open_headers] http_open_step_def reply_headers_def Let_def)
  qed
qed

lemma coroutine_status:
  assumes "stream_read_until crlf h = ((n, e), h1)"
  shows "stream_result (run_coro (http_open_step io tls opts k u) Open_status (e, n)
      \<lparr>coro_stream = h1, coro_status = m\<rparr>) =
    handler_gets (bindE (reply_status m h) (\<lambda>((e, status), h). if failed e then Inr (e, h)
      else reply_headers status h))"
  using assms
proof (induction m h arbitrary: n e h1 rule: reply_status.induct)
  case (1 m h)
  let ?run = "run_coro (http_open_step io tls opts k u)"
  let ?parse = "parse_http_status_line \<lparr>version_major = 0, version_minor = 0, status_value = m\<rparr> (reply_buffer h1)"
  show ?case
  proof (cases "failed e")
    case True
    with "1.prems" show ?thesis
      by (simp add: run_coro.simps [of _ Open_status] http_open_step_def reply_status.simps [of m h])
  next
    case ok: False
    show ?thesis
    proof (cases ?parse)
      case (Inl err)
      with "1.prems" ok show ?thesis
        by (simp add: run_coro.simps [of _ Open_status] http_open_step_def reply_status.simps [of m h])
    next
      case (Inr r)
      obtain p v rest where r: "r = (p, v, rest)" by (cases r)
      let ?h = "h1\<lparr>reply_buffer := rest\<rparr>"
      consider "\<not> p" | "p" "status_value v \<noteq> 100" | "p" "status_value v = 100" by blast
      then show ?thesis
      proof cases
        case 1
        have "failed (Ec_http 1)" by (simp add: failed_def)
        with 1 "1.prems" ok Inr r show ?thesis
          by (simp add: run_coro.simps [of _ Open_status] http_open_step_def reply_status.simps [of m h]
              Let_def)
      next
        case 2
        obtain n2 e2 h2 where rd: "stream_read_until (crlf @ crlf) ?h = ((n2, e2), h2)" by (metis surj_pair)
        have "?run Open_status (e, n) \<lparr>coro_stream = h1, coro_status = m\<rparr> =
            ?run Open_headers (e2, n2) \<lparr>coro_stream = h2, coro_status = status_value v\<rparr>"
          using 2 ok Inr r rd
          by (intro run_coro_resume) (simp add: http_open_step_def yield_read_until_def Let_def)
        with coroutine_headers [OF rd] 2 "1.prems" ok Inr r show ?thesis
          by (simp add: reply_status.simps [of m h])
      next
        case 3
        obtain n2 e2 h2 where rd: "stream_read_until crlf ?h = ((n2, e2), h2)" by (metis surj_pair)
        have "?run Open_status (e, n) \<lparr>coro_stream = h1, coro_status = m\<rparr> =
            ?run Open_status (e2, n2) \<lparr>coro_stream = h2, coro_status = status_value v\<rparr>"
          using 3 ok Inr r rd
          by (intro run_coro_resume) (simp add: http_open_step_def yield_read_until_def Let_def)
        moreover have "stream_result (?run Open_status (e2, n2)
              \<lparr>coro_stream = h2, coro_status = status_value v\<rparr>) =
            handler_gets (bindE (reply_status (status_value v) ?h) (\<lambda>((e, status), h).
              if failed e then Inr (e, h) else reply_headers status h))"
          using "1.IH" "1.prems" ok Inr r 3 rd by auto
        moreover have "reply_status m h = reply_status (status_value v) ?h"
          using "1.prems" ok Inr r 3 by (simp add: reply_status.simps [of m h])
        ultimately show ?thesis by simp
      qed
    qed
  qed
qed

text \<open>C28: The coroutine of the asynchronous open, resumed at the point behind the connection, does what the
  blocking open does there: the same request, the same reading of the reply however it is cut, the same
  loop over status lines, the same error for the handler and the same stream, exceptions included.\<close>

theorem coroutine_is_blocking_open:
  assumes "connection_at io k u = Inr c" and "\<not> failed e"
  shows "stream_result (run_coro (http_open_step io tls opts k u) Open_connected (e, n)
      \<lparr>coro_stream = h, coro_status = 0\<rparr>) = handler_gets (http_talk io tls opts c u h)"
proof -
  let ?run = "run_coro (http_open_step io tls opts k u)" and ?hs = "handshake io tls c (host u)"
  let ?out = "request_buffer h @ request_text opts u"
  let ?h = "h\<lparr>request_buffer := [], incoming := replies c ?out, closing := at_end c\<rparr>"
  have 1: "?run Open_connected (e, n) \<lparr>coro_stream = h, coro_status = 0\<rparr> =
      ?run Open_handshaken (?hs, 0) \<lparr>coro_stream = h, coro_status = 0\<rparr>"
    using assms by (intro run_coro_resume)
      (simp add: http_open_step_def async_handshake_value yield_error_def)
  show ?thesis
  proof (cases "failed ?hs")
    case True
    with 1 show ?thesis
      by (simp add: run_coro.simps [of _ Open_handshaken] http_open_step_def http_talk_def)
  next
    case hs: False
    show ?thesis
    proof (cases "failed (at_write c)")
      case True
      with 1 hs assms show ?thesis
        by (simp add: run_coro.simps [of _ Open_handshaken] run_coro.simps [of _ Open_written]
            http_open_step_def yield_error_def http_talk_def Let_def)
    next
      case False
      obtain n2 e2 h2 where rd: "stream_read_until crlf ?h = ((n2, e2), h2)" by (metis surj_pair)
      have "?run Open_handshaken (?hs, 0) \<lparr>coro_stream = h, coro_status = 0\<rparr> =
          ?run Open_written (at_write c, 0) \<lparr>coro_stream = ?h, coro_status = 0\<rparr>"
        using hs False assms
        by (intro run_coro_resume) (simp add: http_open_step_def yield_error_def Let_def)
      also have "\<dots> = ?run Open_status (e2, n2) \<lparr>coro_stream = h2, coro_status = 0\<rparr>"
        using False rd by (intro run_coro_resume) (simp add: http_open_step_def yield_read_until_def)
      finally show ?thesis
        using 1 coroutine_status [OF rd] hs False by (simp add: http_talk_def http_exchange_def Let_def)
    qed
  qed
qed

theorem coroutine_is_blocking_open_witness:
  "\<exists>h. stream_result (run_coro (http_open_step sample_asio True option_set_new 0
       (url_empty\<lparr>protocol := ''https'', host := ''api.telegram.org'', path_string := ''/x''\<rparr>)) Open_connected
       (Ec_ok, 0) \<lparr>coro_stream = http_stream_new sample_asio, coro_status = 0\<rparr>) = Some (Inr (Some Ec_ok, h)) \<and>
     content_type (head_fields h) = ''image/png''"
proof -
  let ?u = "url_empty\<lparr>protocol := ''https'', host := ''api.telegram.org'', path_string := ''/x''\<rparr>"
  have c: "connection_at sample_asio 0 ?u = Inr sample_connection"
    by (simp add: connection_at_def url_port_def url_empty_def sample_asio_def)
  have "case http_talk sample_asio True option_set_new sample_connection ?u (http_stream_new sample_asio) of
      Inr (e, h) \<Rightarrow> e = Ec_ok \<and> content_type (head_fields h) = ''image/png'' | _ \<Rightarrow> False"
    by code_simp
  then obtain h where "http_talk sample_asio True option_set_new sample_connection ?u
      (http_stream_new sample_asio) = Inr (Ec_ok, h)" "content_type (head_fields h) = ''image/png''"
    by (auto split: sum.splits)
  with coroutine_is_blocking_open [OF c, of Ec_ok True option_set_new 0 "http_stream_new sample_asio"]
  show ?thesis by (auto simp: failed_def)
qed

subsection \<open>The read stream\<close>

text \<open>The loop of \<open>open_coro\<close>, with the inner operation's completion, if any. A handler without an executor of
  its own runs on a thread of Asio's system context.\<close>

partial_function (option) stream_async_open ::
    "asio \<Rightarrow> disk \<Rightarrow> nat \<Rightarrow> url \<Rightarrow> read_stream \<Rightarrow> (error_code option \<times> nat \<times> read_stream) result option" where
  "stream_async_open io disk k u s =
     (if protocol u = ''file'' then
        Some (case file_open disk u (file_part s) of
          (e, f) \<Rightarrow> Inr (Some e, k, s\<lparr>open_kind := FILE_PROTOCOL, file_part := f\<rparr>))
      else if protocol u = ''http'' then
        (case http_async_open io False (stream_options s) k u (http_part s) of
           None \<Rightarrow> None
         | Some (Inl err) \<Rightarrow> Some (Inl err)
         | Some (Inr (None, h)) \<Rightarrow> Some (Inr (None, k + 1, s\<lparr>open_kind := HTTP_PROTOCOL, http_part := h\<rparr>))
         | Some (Inr (Some e, h)) \<Rightarrow>
             if is_redirect e then
               (case url_from_string (location_field (head_fields h)) of
                  Inl err \<Rightarrow> Some (Inl err)
                | Inr u' \<Rightarrow> stream_async_open io disk (k + 1) u'
                    (s\<lparr>open_kind := HTTP_PROTOCOL, http_part := snd (http_close io h)\<rparr>))
             else Some (Inr (Some e, k + 1, s\<lparr>open_kind := HTTP_PROTOCOL, http_part := h\<rparr>)))
      else if protocol u = ''https'' then
        (case http_async_open io True (stream_options s) k u (https_part s) of
           None \<Rightarrow> None
         | Some (Inl err) \<Rightarrow> Some (Inl err)
         | Some (Inr (None, h)) \<Rightarrow> Some (Inr (None, k + 1, s\<lparr>open_kind := HTTPS_PROTOCOL, https_part := h\<rparr>))
         | Some (Inr (Some e, h)) \<Rightarrow>
             if is_redirect e then
               (case url_from_string (location_field (head_fields h)) of
                  Inl err \<Rightarrow> Some (Inl err)
                | Inr u' \<Rightarrow> stream_async_open io disk (k + 1) u'
                    (s\<lparr>open_kind := HTTPS_PROTOCOL, https_part := snd (http_close io h)\<rparr>))
             else Some (Inr (Some e, k + 1, s\<lparr>open_kind := HTTPS_PROTOCOL, https_part := h\<rparr>)))
      else Some (Inr (Some Ec_operation_not_supported, k, s)))"

end
