(* ===== verification/Istream.thy ===== *)
theory Istream
  imports Async_Open
begin

section \<open>The input stream\<close>

text \<open>
  \<open>urdl/istream.hpp\<close>, \<open>urdl/istreambuf.hpp\<close>, \<open>urdl/impl/istreambuf.ipp\<close> and \<open>urdl/impl/http.ipp\<close>: the stream a file
  is downloaded through. It runs every operation asynchronously against a timer: when \<open>io_context::run\<close>
  returns, the handler was called in time, or the timer has closed the stream. A handler that is posted
  rather than called from the context runs on another thread. When it gets there before the timer is
  armed (\<open>posted_early\<close>), its \<open>cancel\<close> is lost and the timer closes the stream after all.
\<close>

subsection \<open>Error messages\<close>

definition http_message :: "int \<Rightarrow> string" where
  "http_message n =
     (if n = 1 then ''Malformed status line''
      else if n = 2 then ''Malformed response headers''
      else if n = 100 then ''Continue''
      else if n = 101 then ''Switching protocols''
      else if n = 200 then ''OK''
      else if n = 201 then ''Created''
      else if n = 202 then ''Accepted''
      else if n = 203 then ''Non-authoritative information''
      else if n = 204 then ''No content''
      else if n = 205 then ''Reset content''
      else if n = 206 then ''Partial content''
      else if n = 300 then ''Multiple choices''
      else if n = 301 then ''Moved permanently''
      else if n = 302 then ''Found''
      else if n = 303 then ''See other''
      else if n = 304 then ''Not modified''
      else if n = 305 then ''Use proxy''
      else if n = 307 then ''Temporary redirect''
      else if n = 400 then ''Bad request''
      else if n = 401 then ''Unauthorized''
      else if n = 402 then ''Payment required''
      else if n = 403 then ''Forbidden''
      else if n = 404 then ''Not found''
      else if n = 405 then ''Method not allowed''
      else if n = 406 then ''Not acceptable''
      else if n = 407 then ''Proxy authentication required''
      else if n = 408 then ''Request time-out''
      else if n = 409 then ''Conflict''
      else if n = 410 then ''Gone''
      else if n = 411 then ''Length required''
      else if n = 412 then ''Precondition failed''
      else if n = 413 then ''Request entity too large''
      else if n = 414 then ''Request URI too large''
      else if n = 415 then ''Unsupported media type''
      else if n = 416 then ''Requested range not satisfiable''
      else if n = 417 then ''Expectation failed''
      else if n = 500 then ''Internal server error''
      else if n = 501 then ''Not implemented''
      else if n = 502 then ''Bad gateway''
      else if n = 503 then ''Service unavailable''
      else if n = 504 then ''Gateway time-out''
      else if n = 505 then ''HTTP version not supported''
      else ''Unknown HTTP error'')"

text \<open>The texts of Asio's and the system's codes as on Linux.\<close>

fun ec_message :: "error_code \<Rightarrow> string" where
  "ec_message Ec_ok = ''Success''"
| "ec_message (Ec_http n) = http_message n"
| "ec_message Ec_eof = ''End of file''"
| "ec_message Ec_shut_down = ''Cannot send after transport endpoint shutdown''"
| "ec_message Ec_already_open = ''Already open''"
| "ec_message Ec_operation_not_supported = ''Operation not supported''"
| "ec_message Ec_host_not_found = ''Host not found (authoritative)''"
| "ec_message Ec_permission_denied = ''Permission denied''"
| "ec_message Ec_no_such_file = ''No such file or directory''"
| "ec_message Ec_timed_out = ''Connection timed out''"
| "ec_message (Ec_other m) = m"

subsection \<open>The stream buffer\<close>

text \<open>\<open>get_area\<close> is what lies between \<open>gptr\<close> and \<open>egptr\<close>; \<open>attempts\<close> counts the connections made.\<close>

record istreambuf =
  buf_stream :: read_stream
  buf_error :: error_code
  get_area :: string
  buf_open_timeout :: "64 word"
  buf_read_timeout :: "64 word"
  attempts :: nat

definition istreambuf_new :: "asio \<Rightarrow> istreambuf" where
  "istreambuf_new io = \<lparr>buf_stream = read_stream_new io, buf_error = Ec_ok, get_area = [],
     buf_open_timeout = 300000, buf_read_timeout = 300000, attempts = 0\<rparr>"

definition istreambuf_is_open :: "istreambuf \<Rightarrow> bool" where
  "istreambuf_is_open b = stream_is_open (buf_stream b)"

text \<open>What the timer's handler does.\<close>

definition timer_closes :: "asio \<Rightarrow> istreambuf \<Rightarrow> istreambuf" where
  "timer_closes io b = b\<lparr>buf_stream := snd (stream_close io (buf_stream b))\<rparr>"

text \<open>Which operations complete by a posted handler: those of files and of unknown protocols, and a read
  from what was received with the head of the reply.\<close>

definition open_is_posted :: "read_stream \<Rightarrow> bool" where
  "open_is_posted s \<longleftrightarrow> open_kind s = FILE_PROTOCOL \<or> open_kind s = UNKNOWN_PROTOCOL"

definition read_is_posted :: "read_stream \<Rightarrow> bool" where
  "read_is_posted s \<longleftrightarrow>
     (case open_kind s of
        HTTP_PROTOCOL \<Rightarrow> reply_buffer (http_part s) \<noteq> []
      | HTTPS_PROTOCOL \<Rightarrow> reply_buffer (https_part s) \<noteq> []
      | _ \<Rightarrow> True)"

text \<open>\<open>open\<close>: whether it returned the buffer (and not a null pointer), and the buffer. The outer \<open>option\<close> is
  \<open>None\<close> when the redirects never end.\<close>

definition istreambuf_open :: "asio \<Rightarrow> disk \<Rightarrow> url \<Rightarrow> istreambuf \<Rightarrow> (bool \<times> istreambuf) result option" where
  "istreambuf_open io disk u b =
     (if istreambuf_is_open b then Some (Inr (False, b))
      else
        case stream_close io (buf_stream b) of (e0, s0) \<Rightarrow>
        let b0 = b\<lparr>get_area := [], buf_error := e0, buf_stream := s0\<rparr>
        in case stream_async_open io disk (attempts b0) u s0 of
             None \<Rightarrow> None
           | Some (Inl err) \<Rightarrow> Some (Inl err)
           | Some (Inr (r, k, s1)) \<Rightarrow>
               let b1 = b0\<lparr>buf_stream := s1, attempts := k\<rparr>;
                   b2 = (case r of Some e \<Rightarrow> b1\<lparr>buf_error := e\<rparr> | None \<Rightarrow> b1);
                   b3 = (if r = None \<or> (open_is_posted s1 \<and> posted_early io) then timer_closes io b2 else b2);
                   b4 = (if \<not> istreambuf_is_open b3 then b3\<lparr>buf_error := Ec_timed_out\<rparr> else b3)
               in Some (Inr (\<not> failed (buf_error b4), b4)))"

definition istreambuf_close :: "asio \<Rightarrow> istreambuf \<Rightarrow> bool \<times> istreambuf" where
  "istreambuf_close io b =
     (if \<not> istreambuf_is_open b then (False, b)
      else case stream_close io (buf_stream b) of (e, s) \<Rightarrow>
        let b1 = b\<lparr>buf_stream := s, buf_error := e\<rparr>
        in (\<not> failed e, if \<not> failed e then b1\<lparr>get_area := []\<rparr> else b1))"

text \<open>\<open>underflow\<close> with a get area of 512 bytes, 8 of them kept for putting back. Asio does not complete a read
  with no bytes and no error.\<close>

definition istreambuf_underflow :: "asio \<Rightarrow> istreambuf \<Rightarrow> (char option \<times> istreambuf) result" where
  "istreambuf_underflow io b =
     (if get_area b \<noteq> [] then Inr (None, b)
      else
        case stream_read_some 504 Ec_ok (buf_stream b) of ((bytes, e), s) \<Rightarrow>
        let b1 = b\<lparr>buf_stream := s, buf_error := e\<rparr>;
            b2 = (if read_is_posted (buf_stream b) \<and> posted_early io then timer_closes io b1 else b1);
            b3 = (if \<not> istreambuf_is_open b2 then b2\<lparr>buf_error := Ec_timed_out\<rparr> else b2)
        in if failed (buf_error b3) then
             (if buf_error b3 = Ec_eof then Inr (None, b3\<lparr>buf_error := Ec_ok\<rparr>)
              else Inl (System_error (ec_message (buf_error b3))))
           else if bytes = [] then Inl (Undefined ''read of an empty get area'')
           else Inr (Some (hd bytes), b3\<lparr>get_area := bytes\<rparr>))"

text \<open>Reading to the end through \<open>istreambuf_iterator\<close>s.\<close>

definition stream_size :: "read_stream \<Rightarrow> nat" where
  "stream_size s = length (pending (http_part s)) + length (pending (https_part s)) + length (file_left (file_part s))"

lemma stream_read_some_size:
  assumes "stream_read_some n ec s = ((bytes, e), s')"
  shows "stream_size s' + length bytes = stream_size s"
proof -
  have h: "length (pending h') + length bytes = length (pending h)"
    if "http_read_some n h = ((bytes, e), h')" for h h'
    using that by (auto simp: http_read_some_def socket_read_some_def pending_def split: if_splits list.splits)
  have f: "length (file_left f') + length bytes = length (file_left f)"
    if "file_read_some n ec f = ((bytes, e), f')" for f f'
    using that by (auto simp: file_read_some_def Let_def split: if_splits)
  show ?thesis
    using assms
    by (auto simp: stream_read_some_def stream_size_def split: protocol_kind.splits prod.splits dest!: h f)
qed

lemma stream_close_size: "stream_size (snd (stream_close io s)) \<le> stream_size s"
  by (auto simp: stream_close_def stream_size_def file_close_def http_close_def pending_def
      split: protocol_kind.split)

lemma underflow_size:
  assumes "istreambuf_underflow io b = Inr (Some c, b')" and "get_area b = []"
  shows "get_area b' \<noteq> [] \<and> stream_size (buf_stream b') < stream_size (buf_stream b)"
proof -
  obtain bytes e s where r: "stream_read_some 504 Ec_ok (buf_stream b) = ((bytes, e), s)" by (metis surj_pair)
  from stream_read_some_size [OF r] stream_close_size [of io s] assms r show ?thesis
    by (cases bytes) (auto simp: istreambuf_underflow_def Let_def timer_closes_def split: if_splits)
qed

function istreambuf_read_all :: "asio \<Rightarrow> istreambuf \<Rightarrow> (string \<times> istreambuf) result" where
  "istreambuf_read_all io b =
     (if get_area b \<noteq> [] then
        bindE (istreambuf_read_all io (b\<lparr>get_area := []\<rparr>)) (\<lambda>(rest, b'). Inr (get_area b @ rest, b'))
      else
        bindE (istreambuf_underflow io b) (\<lambda>(r, b').
          case r of None \<Rightarrow> Inr ([], b') | Some _ \<Rightarrow> istreambuf_read_all io b'))"
  by pat_completeness auto
termination istreambuf_read_all
proof (relation "measure (\<lambda>(io, b). 2 * stream_size (buf_stream b) + (if get_area b = [] then 0 else 1))", goal_cases)
  case (3 io b x r b' c)
  then have "istreambuf_underflow io b = Inr (Some c, b')" "get_area b = []" by simp_all
  from underflow_size [OF this] show ?case by simp
qed simp_all

declare istreambuf_read_all.simps [simp del]

subsection \<open>The stream\<close>

record istream =
  rdbuf :: istreambuf
  failbit :: bool

definition istream_new :: "asio \<Rightarrow> istream" where
  "istream_new io = \<lparr>rdbuf = istreambuf_new io, failbit = False\<rparr>"

definition istream_set_option :: "http_option \<Rightarrow> istream \<Rightarrow> istream" where
  "istream_set_option opt s =
     s\<lparr>rdbuf := (rdbuf s)\<lparr>buf_stream := (buf_stream (rdbuf s))\<lparr>stream_options :=
       set_option opt (stream_options (buf_stream (rdbuf s)))\<rparr>\<rparr>\<rparr>"

definition istream_set_options :: "option_set \<Rightarrow> istream \<Rightarrow> istream" where
  "istream_set_options opts s =
     s\<lparr>rdbuf := (rdbuf s)\<lparr>buf_stream := (buf_stream (rdbuf s))\<lparr>stream_options :=
       set_options opts (stream_options (buf_stream (rdbuf s)))\<rparr>\<rparr>\<rparr>"

definition istream_open_timeout :: "64 word \<Rightarrow> istream \<Rightarrow> istream" where
  "istream_open_timeout ms s = s\<lparr>rdbuf := (rdbuf s)\<lparr>buf_open_timeout := ms\<rparr>\<rparr>"

definition istream_read_timeout :: "64 word \<Rightarrow> istream \<Rightarrow> istream" where
  "istream_read_timeout ms s = s\<lparr>rdbuf := (rdbuf s)\<lparr>buf_read_timeout := ms\<rparr>\<rparr>"

definition istream_open :: "asio \<Rightarrow> disk \<Rightarrow> url \<Rightarrow> istream \<Rightarrow> istream result option" where
  "istream_open io disk u s =
     (case istreambuf_open io disk u (rdbuf s) of
        None \<Rightarrow> None
      | Some r \<Rightarrow> Some (bindE r (\<lambda>(opened, b). Inr (s\<lparr>rdbuf := b, failbit := \<not> opened\<rparr>))))"

definition istream_close :: "asio \<Rightarrow> istream \<Rightarrow> istream" where
  "istream_close io s =
     (case istreambuf_close io (rdbuf s) of
        (closed, b) \<Rightarrow> s\<lparr>rdbuf := b, failbit := (if closed then failbit s else True)\<rparr>)"

definition istream_error :: "istream \<Rightarrow> error_code" where
  "istream_error s = buf_error (rdbuf s)"

subsection \<open>The open of a web address\<close>

lemma url_from_empty: "url_from_string [] = Inl invalid_argument"
  by (simp add: url_from_string_def url_from_cstring_def parse_protocol_def c_str_def)

text \<open>However the server behaves, the asynchronous open of a web address does not get to the request.\<close>

lemma http_async_open_value:
  assumes "\<not> socket_open h"
  shows "http_async_open io tls opts k u h =
    Some (bindE (connection_at io k u) (\<lambda>c. Inr (async_connect c h)))"
proof (cases "connection_at io k u")
  case (Inl err)
  with assms show ?thesis
    by (simp add: http_async_open_def run_coro.simps [of _ Open_start] http_open_step_def)
next
  case (Inr c)
  obtain r h1 where r: "async_connect c h = (r, h1)" by (cases "async_connect c h")
  show ?thesis
  proof (cases r)
    case None
    with assms Inr r show ?thesis
      by (simp add: http_async_open_def run_coro.simps [of _ Open_start] http_open_step_def yield_error_def)
  next
    case (Some e)
    then have "failed e" using r by (auto simp: async_connect_value split: if_splits)
    with assms Inr r Some show ?thesis
      by (simp add: http_async_open_def run_coro.simps [of _ Open_start] run_coro.simps [of _ Open_connected]
          http_open_step_def yield_error_def)
  qed
qed

lemma async_connect_failed: "async_connect c h = (Some e, h') \<Longrightarrow> failed e"
  by (auto simp: async_connect_value split: if_splits)

lemma async_connect_fields: "async_connect c h = (r, h') \<Longrightarrow>
    head_fields h' = head_fields h \<and> pending h' = pending h"
  by (auto simp: async_connect_value pending_def split: if_splits)

lemma stream_async_open_web:
  assumes "web u" and "idle_stream io s"
  shows "stream_async_open io disk k u s =
    Some (bindE (connection_at io k u) (\<lambda>c.
      case async_connect c (http_stream_new io) of (r, h) \<Rightarrow>
        if \<exists>e. r = Some e \<and> is_redirect e then Inl invalid_argument
        else Inr (r, k + 1, if protocol u = ''http'' then s\<lparr>open_kind := HTTP_PROTOCOL, http_part := h\<rparr>
          else s\<lparr>open_kind := HTTPS_PROTOCOL, https_part := h\<rparr>)))"
proof (cases "connection_at io k u")
  case (Inl err)
  have "\<not> socket_open (http_stream_new io)" by (simp add: http_stream_new_def)
  with assms Inl show ?thesis
    by (auto simp: web_def idle_stream_def stream_async_open.simps [of io disk k u s] http_async_open_value)
next
  case (Inr c)
  obtain r h where r: "async_connect c (http_stream_new io) = (r, h)" by fastforce
  have "location_field (head_fields h) = []"
    using async_connect_fields [OF r] by (simp add: http_stream_new_def no_fields_def)
  moreover have "\<not> socket_open (http_stream_new io)" by (simp add: http_stream_new_def)
  ultimately show ?thesis
    using assms Inr r
    by (cases r) (auto simp: web_def idle_stream_def stream_async_open.simps [of io disk k u s]
        http_async_open_value url_from_empty)
qed

definition fresh_buffer :: "asio \<Rightarrow> istreambuf \<Rightarrow> bool" where
  "fresh_buffer io b \<longleftrightarrow> idle_stream io (buf_stream b) \<and> get_area b = [] \<and>
     \<not> file_is_open (file_part (buf_stream b)) \<and> file_left (file_part (buf_stream b)) = []"

lemma fresh_not_open: "fresh_buffer io b \<Longrightarrow> \<not> istreambuf_is_open b"
  by (auto simp: fresh_buffer_def istreambuf_is_open_def stream_is_open_def idle_stream_def http_stream_new_def
      split: protocol_kind.split)

lemma close_idle: "idle_stream io s \<Longrightarrow> stream_close io s = (e, s') \<Longrightarrow>
    e = Ec_ok \<and> idle_stream io s' \<and> stream_options s' = stream_options s \<and>
    (file_left (file_part s) = [] \<longrightarrow> file_left (file_part s') = []) \<and>
    open_kind s' = open_kind s \<and> (\<not> file_is_open (file_part s) \<longrightarrow> \<not> file_is_open (file_part s'))"
  by (auto simp: stream_close_def idle_stream_def http_close_def http_stream_new_def file_close_def
      split: protocol_kind.splits prod.splits)

text \<open>After the open of a web address nothing can be read; when the handler was not called, the stream is
  closed.\<close>

definition nothing_to_read :: "istreambuf \<Rightarrow> bool" where
  "nothing_to_read b \<longleftrightarrow> get_area b = [] \<and> stream_size (buf_stream b) = 0"

lemma istreambuf_open_web:
  assumes "fresh_buffer io b" and "web u" and "connection_at io (attempts b) u = Inr c"
    and r: "async_connect c (http_stream_new io) = (r, h)" and "\<not> (\<exists>e. r = Some e \<and> is_redirect e)"
  obtains b' where "istreambuf_open io disk u b = Some (Inr (False, b'))" and "failed (buf_error b')"
    and "nothing_to_read b'" and "r = None \<longrightarrow> \<not> istreambuf_is_open b' \<and> buf_error b' = Ec_timed_out"
proof -
  obtain e0 s0 where close: "stream_close io (buf_stream b) = (e0, s0)" by fastforce
  then have s0: "idle_stream io s0" "file_left (file_part s0) = []"
    using assms(1) close_idle [OF _ close] by (auto simp: fresh_buffer_def)
  let ?s1 = "if protocol u = ''http'' then s0\<lparr>open_kind := HTTP_PROTOCOL, http_part := h\<rparr>
    else s0\<lparr>open_kind := HTTPS_PROTOCOL, https_part := h\<rparr>"
  have run: "stream_async_open io disk (attempts b) u s0 = Some (Inr (r, attempts b + 1, ?s1))"
    using stream_async_open_web [OF assms(2) s0(1), of disk "attempts b"] assms(3,5) r by auto
  have kind: "\<not> open_is_posted ?s1" by (simp add: open_is_posted_def)
  have timed: "failed Ec_timed_out" by (simp add: failed_def)
  have "pending h = []" using async_connect_fields [OF r] by (simp add: http_stream_new_def pending_def)
  then have size: "stream_size ?s1 = 0"
    using s0 by (auto simp: stream_size_def idle_stream_def http_stream_new_def pending_def)
  show ?thesis
  proof (cases r)
    case None
    have "\<not> stream_is_open (snd (stream_close io ?s1))"
      by (simp add: stream_close_def stream_is_open_def http_close_def)
    moreover have "stream_size (snd (stream_close io ?s1)) = 0"
      using stream_close_size [of io ?s1] size by simp
    ultimately show ?thesis
      using None run kind timed fresh_not_open [OF assms(1)] close
      by (intro that) (auto simp: istreambuf_open_def Let_def timer_closes_def istreambuf_is_open_def
          nothing_to_read_def)
  next
    case (Some e)
    with async_connect_failed r have "failed e" by blast
    moreover define s1 where "s1 = ?s1"
    ultimately have "istreambuf_open io disk u b = Some (Inr (False, b\<lparr>get_area := [], buf_stream := s1,
        attempts := attempts b + 1, buf_error := (if stream_is_open s1 then e else Ec_timed_out)\<rparr>))"
      using Some run kind timed fresh_not_open [OF assms(1)] close
      by (simp add: istreambuf_open_def Let_def istreambuf_is_open_def)
    then show ?thesis
      by (rule that) (use Some \<open>failed e\<close> timed size s1_def in \<open>simp_all add: nothing_to_read_def\<close>)
  qed
qed

lemma istreambuf_open_web_cases:
  assumes "fresh_buffer io b" and "web u" and "istreambuf_open io disk u b = Some (Inr (opened, b'))"
  shows "\<not> opened \<and> failed (buf_error b') \<and> nothing_to_read b'"
proof -
  obtain e0 s0 where close: "stream_close io (buf_stream b) = (e0, s0)" by fastforce
  then have s0: "idle_stream io s0" using assms(1) close_idle by (auto simp: fresh_buffer_def)
  note opened = assms(3) fresh_not_open [OF assms(1)] close
    stream_async_open_web [OF assms(2) s0, of disk "attempts b"]
  from opened obtain c where c: "connection_at io (attempts b) u = Inr c"
    by (cases "connection_at io (attempts b) u") (auto simp: istreambuf_open_def)
  obtain r h where r: "async_connect c (http_stream_new io) = (r, h)" by fastforce
  have "\<not> (\<exists>e. r = Some e \<and> is_redirect e)"
    using opened c r by (auto simp: istreambuf_open_def split: if_splits)
  from istreambuf_open_web [OF assms(1,2) c r this, of disk] assms(3) show ?thesis by auto
qed

text \<open>C29: An input stream never opens a web address. The connection coroutine waits, once it has connected,
  for a completion that no operation will deliver; the open ends with the timer, whatever the server
  would have answered, and \<open>istream::open\<close> sets the failure bit. The blocking open of the same stream
  class, over the same connection, delivers the content.\<close>

theorem istream_never_opens_web:
  assumes "fresh_buffer io (rdbuf s)" and "web u"
    and "istream_open io disk u s = Some (Inr s')"
  shows "failbit s' \<and> failed (istream_error s')"
proof -
  from assms(3) obtain opened b where "istreambuf_open io disk u (rdbuf s) = Some (Inr (opened, b))"
    "s' = s\<lparr>rdbuf := b, failbit := \<not> opened\<rparr>"
    by (auto simp: istream_open_def bindE_eq_Inr_iff split: option.splits)
  with istreambuf_open_web_cases [OF assms(1,2)] show ?thesis by (auto simp: istream_error_def)
qed

lemma istream_new_fresh: "fresh_buffer io (rdbuf (istream_new io))"
  by (simp add: fresh_buffer_def istream_new_def istreambuf_new_def read_stream_new_def idle_stream_def
      file_stream_new_def)

lemma closed_underflow:
  assumes "\<not> istreambuf_is_open b" and "get_area b = []"
  shows "istreambuf_underflow io b = Inl (System_error ''Connection timed out'')"
proof -
  obtain bytes e s where r: "stream_read_some 504 Ec_ok (buf_stream b) = ((bytes, e), s)" by (metis surj_pair)
  then have "\<not> stream_is_open s \<and> \<not> stream_is_open (snd (stream_close io s))"
    using assms(1)
    by (auto simp: stream_read_some_def istreambuf_is_open_def stream_is_open_def stream_close_def
        file_read_some_def http_read_some_def socket_read_some_def file_close_def http_close_def Let_def
        split: protocol_kind.splits prod.splits if_splits list.splits)
  with r assms(2) show ?thesis
    by (simp add: istreambuf_underflow_def Let_def timer_closes_def istreambuf_is_open_def failed_def)
qed

theorem istream_never_opens_web_witness:
  "\<exists>u s'. url_from_string ''https://api.telegram.org/file/x'' = Inr u \<and>
    istream_open sample_asio (\<lambda>_. None) u (istream_new sample_asio) = Some (Inr s') \<and>
    failbit s' \<and> failed (istream_error s') \<and>
    (\<exists>t. stream_open sample_asio (\<lambda>_. None) 0 u (read_stream_new sample_asio) = Inr (Ec_ok, 1, t))"
proof -
  let ?u = "url_empty\<lparr>protocol := ''https'', host := ''api.telegram.org'', path_string := ''/file/x''\<rparr>"
  have u: "url_from_string ''https://api.telegram.org/file/x'' = Inr ?u" by code_simp
  have c: "connection_at sample_asio 0 ?u = Inr sample_connection"
    by (simp add: connection_at_def url_port_def url_empty_def sample_asio_def)
  have "idle_stream sample_asio (read_stream_new sample_asio)"
    by (simp add: idle_stream_def read_stream_new_def)
  moreover have "web ?u" by (simp add: web_def)
  ultimately have "\<exists>s'. stream_async_open sample_asio (\<lambda>_. None) 0 ?u (read_stream_new sample_asio) =
      Some (Inr (None, 1, s'))"
    using c by (simp add: stream_async_open_web async_connect_value)
      (simp add: sample_connection_def failed_def)
  then obtain s' where s': "istream_open sample_asio (\<lambda>_. None) ?u (istream_new sample_asio) = Some (Inr s')"
    by (auto simp: istream_open_def istreambuf_open_def istream_new_def istreambuf_new_def
        istreambuf_is_open_def stream_is_open_def read_stream_new_def stream_close_def Let_def)
  have "case stream_open sample_asio (\<lambda>_. None) 0 ?u (read_stream_new sample_asio) of
      Inr (e, k, t) \<Rightarrow> e = Ec_ok \<and> k = 1 | _ \<Rightarrow> False"
    by code_simp
  then obtain t where "stream_open sample_asio (\<lambda>_. None) 0 ?u (read_stream_new sample_asio) = Inr (Ec_ok, 1, t)"
    by (auto split: sum.splits)
  with u s' istream_never_opens_web [OF istream_new_fresh _ s'] show ?thesis
    by (auto simp: web_def)
qed

end
