(* ===== verification/File.thy ===== *)
theory File
  imports Decode Istream
begin

section \<open>Files on Telegram's servers\<close>

text \<open>
  \<open>types/file.h\<close>: the description of a file, the URL it is fetched from and the download, which goes
  through an \<open>urdl::istream\<close>.
\<close>

record telegram_file =
  file_file_id :: string
  file_file_size :: "64 word option"
  file_file_path :: "string option"

definition file_from_json :: "json \<Rightarrow> telegram_file result" where
  "file_from_json tree =
     bindE (at_string tree ''file_id'') (\<lambda>file_id.
     bindE (make_optional_int32 tree ''file_size'') (\<lambda>file_size.
     bindE (make_optional_string tree ''file_path'') (\<lambda>file_path.
     Inr \<lparr>file_file_id = file_id, file_file_size = widen file_size, file_file_path = file_path\<rparr>)))"

definition file_from_json_path :: "json \<Rightarrow> string \<Rightarrow> telegram_file result" where
  [decode_defs]: "file_from_json_path tree path = bindE (json_at tree path) file_from_json"

definition file_keys :: "string list" where
  "file_keys = [''file_id'', ''file_size'', ''file_path'']"

definition file_to_wire :: "telegram_file \<Rightarrow> json" where
  "file_to_wire x = mk_object
     [(''file_id'', Some (JString (file_file_id x))),
      (''file_size'', map_option JNumber (file_file_size x)),
      (''file_path'', map_option JString (file_file_path x))]"

definition wf_file :: "telegram_file \<Rightarrow> bool" where
  "wf_file x \<longleftrightarrow> wf_opt fits32 (file_file_size x)"

interpretation file_wire: wire_type file_from_json file_keys file_to_wire wf_file
proof unfold_locales
  fix j j' :: json and x :: telegram_file
  show "\<not> is_object j \<Longrightarrow> file_from_json j =
      Inl (Type_error 304 (''cannot use at() with '' @ json_type_name j))"
    by (simp add: file_from_json_def decode_defs readers_not_object)
  show "only_raises decode_error (file_from_json j)"
    by (auto simp: file_from_json_def decode_defs intro!: raises_intros)
  show "is_object j \<Longrightarrow> is_object j' \<Longrightarrow>
      \<forall>k \<in> set file_keys. json_get j k = json_get j' k \<Longrightarrow> file_from_json j = file_from_json j'"
    by (simp add: file_from_json_def file_keys_def decode_defs readers_object json_at_required
        json_at_required')
  show "is_object (file_to_wire x)"
    by (simp add: file_to_wire_def)
  show "wf_file x \<Longrightarrow> file_from_json (file_to_wire x) = Inr x"
    by (simp add: file_from_json_def file_to_wire_def wf_file_def decode_defs readers_object
        json_at_required json_at_required')
qed

subsection \<open>The download\<close>

definition file_get_url :: "telegram_file \<Rightarrow> string \<Rightarrow> url result" where
  "file_get_url f token =
     (case file_file_path f of
        Some path \<Rightarrow> url_from_string (''https://api.telegram.org/file/bot'' @ token @ ''/'' @ path)
      | None \<Rightarrow> Inr url_empty)"

text \<open>Whether the stream is open is only told on the error output.\<close>

definition file_download_to_stream ::
    "asio \<Rightarrow> disk \<Rightarrow> telegram_file \<Rightarrow> string \<Rightarrow> istream \<Rightarrow> istream result option" where
  "file_download_to_stream io disk f token s =
     (let s1 = istream_read_timeout 600000 (istream_open_timeout 60000
        (istream_set_option (User_agent ''LibTelegram File Downloader'') s))
      in case file_get_url f token of
           Inl e \<Rightarrow> Some (Inl e)
         | Inr u \<Rightarrow> istream_open io disk u s1)"

text \<open>\<open>reserve\<close> converts the size to an unsigned one; above \<open>max_size()\<close> it throws
  \<open>std::length_error\<close>. The iterators read from the buffer of the stream, whatever its state bits say.\<close>

definition file_download :: "asio \<Rightarrow> disk \<Rightarrow> telegram_file \<Rightarrow> string \<Rightarrow> string result option" where
  "file_download io disk f token =
     (case file_download_to_stream io disk f token (istream_new io) of
        None \<Rightarrow> None
      | Some (Inl e) \<Rightarrow> Some (Inl e)
      | Some (Inr s) \<Rightarrow>
          if \<exists>n. file_file_size f = Some n \<and> 2 ^ 63 \<le> unat n then Some (Inl (Std_exception ''vector::reserve''))
          else Some (bindE (istreambuf_read_all io (rdbuf s)) (\<lambda>(bytes, b). Inr bytes)))"

text \<open>A file with a path of plain characters is fetched from
  \<open>https://api.telegram.org/file/bot<token>/<file_path>\<close>, on port 443; a file without a path has the empty
  URL.\<close>

lemma file_url_on_server:
  assumes "list_all path_char token" and "list_all path_char path"
  shows "file_get_url (f\<lparr>file_file_path := Some path\<rparr>) token =
      Inr (plain_url ''https'' ''api.telegram.org'' (''file/bot'' @ token @ ''/'' @ path)) \<and>
    url_port (plain_url ''https'' ''api.telegram.org'' (''file/bot'' @ token @ ''/'' @ path)) = Inr 443 \<and>
    file_get_url (f\<lparr>file_file_path := None\<rparr>) token = Inr url_empty"
proof -
  have slash: "path_char (CHR ''/'')" "path_char (CHR ''f'')" "path_char (CHR ''i'')"
    "path_char (CHR ''l'')" "path_char (CHR ''e'')" "path_char (CHR ''b'')"
    "path_char (CHR ''o'')" "path_char (CHR ''t'')"
    by (simp_all add: path_char_def path_mark_def isalnum_def less_eq_char_def)
  have "url_from_string (''https'' @ ''://'' @ ''api.telegram.org'' @ ''/'' @
      (''file/bot'' @ token @ ''/'' @ path)) =
    Inr (plain_url ''https'' ''api.telegram.org'' (''file/bot'' @ token @ ''/'' @ path))"
    using assms slash
    by (intro url_from_plain) (simp_all add: isalnum_def less_eq_char_def)
  then show ?thesis
    by (simp add: file_get_url_def plain_url_parts)
qed

lemma file_url_on_server_witness:
  "file_get_url \<lparr>file_file_id = ''A'', file_file_size = None, file_file_path = Some ''photos/1.jpg''\<rparr>
     ''12:x'' = Inr (plain_url ''https'' ''api.telegram.org'' ''file/bot12:x/photos/1.jpg'')"
proof -
  have "list_all path_char ''12:x''" "list_all path_char ''photos/1.jpg''" by code_simp+
  from file_url_on_server [OF this, of
      "\<lparr>file_file_id = ''A'', file_file_size = None, file_file_path = Some []\<rparr>"]
  show ?thesis by simp
qed

subsection \<open>What a download comes to\<close>

lemma parse_stages_protocol:
  "parse_user_info (u, s) = Inr p \<Longrightarrow> protocol (fst p) = protocol u"
  "parse_host (u, s) = Inr p \<Longrightarrow> protocol (fst p) = protocol u"
  "parse_port (u, s) = Inr p \<Longrightarrow> protocol (fst p) = protocol u"
  "parse_path (u, s) = Inr p \<Longrightarrow> protocol (fst p) = protocol u"
  "parse_query (u, s) = Inr p \<Longrightarrow> protocol (fst p) = protocol u"
  "parse_fragment (u, s) = Inr v \<Longrightarrow> protocol v = protocol u"
  by (auto simp: parse_user_info_def parse_host_def parse_port_def parse_path_def parse_query_def
      parse_fragment_def Let_def split: if_splits)

lemma url_protocol_kept:
  assumes "url_from_string s = Inr u"
  obtains v r where "parse_protocol (c_str s) = Inr (v, r)" and "protocol u = protocol v"
proof -
  from assms obtain p1 p2 p3 p4 p5 p6 where p: "parse_protocol (c_str s) = Inr p1"
    "parse_user_info p1 = Inr p2" "parse_host p2 = Inr p3" "parse_port p3 = Inr p4" "parse_path p4 = Inr p5"
    "parse_query p5 = Inr p6" "parse_fragment p6 = Inr u"
    by (auto simp: url_from_string_def url_from_cstring_def bindE_eq_Inr_iff)
  have "protocol (fst p2) = protocol (fst p1)" "protocol (fst p3) = protocol (fst p2)"
    "protocol (fst p4) = protocol (fst p3)" "protocol (fst p5) = protocol (fst p4)"
    "protocol (fst p6) = protocol (fst p5)" "protocol u = protocol (fst p6)"
    using p parse_stages_protocol by (metis prod.collapse)+
  then have "protocol u = protocol (fst p1)" by simp
  with p(1) show ?thesis using that [of "fst p1" "snd p1"] by simp
qed

lemma file_url_protocol: "file_get_url f token = Inr u \<Longrightarrow> protocol u = ''https'' \<or> u = url_empty"
proof (cases "file_file_path f")
  case (Some path)
  assume "file_get_url f token = Inr u"
  with Some have "url_from_string (''https://api.telegram.org/file/bot'' @ token @ ''/'' @ path) = Inr u"
    by (simp add: file_get_url_def)
  then obtain v r where v: "parse_protocol (c_str (''https://api.telegram.org/file/bot'' @ token @ ''/'' @ path))
      = Inr (v, r)" "protocol u = protocol v" by (rule url_protocol_kept)
  have "map tolower ''https'' = ''https''" by code_simp
  with v show ?thesis by (auto simp: parse_protocol_def c_str_def)
qed (simp add: file_get_url_def)

lemma read_all_nothing:
  "istreambuf_read_all io b = Inr (bytes, b') \<Longrightarrow> get_area b = [] \<Longrightarrow> stream_size (buf_stream b) = 0 \<Longrightarrow>
   bytes = []"
  using underflow_size [of io b]
  by (fastforce simp: istreambuf_read_all.simps [of io b] bindE_eq_Inr_iff split: option.splits)

lemma options_fresh:
  "fresh_buffer io (rdbuf (istream_read_timeout r (istream_open_timeout t (istream_set_option n (istream_new io)))))"
  "attempts (rdbuf (istream_read_timeout r (istream_open_timeout t (istream_set_option n (istream_new io))))) = 0"
  using istream_new_fresh [of io]
  by (simp_all add: istream_read_timeout_def istream_open_timeout_def istream_set_option_def fresh_buffer_def
      idle_stream_def istream_new_def istreambuf_new_def)

text \<open>An empty URL has no protocol the stream knows.\<close>

lemma istreambuf_open_empty:
  assumes "fresh_buffer io b" and "open_kind (buf_stream b) = UNKNOWN_PROTOCOL"
  obtains b' where "istreambuf_open io disk url_empty b = Some (Inr (False, b'))"
    and "nothing_to_read b'" and "\<not> istreambuf_is_open b'"
proof -
  have "stream_close io (buf_stream b) = (Ec_ok, buf_stream b)" using assms(2) by (simp add: stream_close_def)
  moreover have "stream_async_open io disk (attempts b) url_empty (buf_stream b) =
      Some (Inr (Some Ec_operation_not_supported, attempts b, buf_stream b))"
    by (subst stream_async_open.simps) (simp add: url_empty_def)
  moreover have "stream_size (buf_stream b) = 0"
    using assms by (simp add: fresh_buffer_def idle_stream_def stream_size_def http_stream_new_def pending_def)
  ultimately show ?thesis
    using assms fresh_not_open [OF assms(1)]
    by (intro that [of "b\<lparr>get_area := [], buf_error := Ec_timed_out, attempts := attempts b\<rparr>"])
      (auto simp: istreambuf_open_def Let_def timer_closes_def istreambuf_is_open_def nothing_to_read_def
        stream_is_open_def failed_def)
qed

lemma read_all_closed:
  "\<not> istreambuf_is_open b \<Longrightarrow> nothing_to_read b \<Longrightarrow>
   istreambuf_read_all io b = Inl (System_error ''Connection timed out'')"
  by (simp add: istreambuf_read_all.simps [of io b] nothing_to_read_def closed_underflow)

text \<open>C38: A download never delivers a byte: whatever the network and the server do, it throws or, where
  reading the dead stream reports its end, returns an empty vector, as for an empty file. When the socket can
  be opened and the host name is resolved, however the server then answers, the download throws the
  system error of a connection that timed out; so it does for a file without a path.\<close>

theorem file_download_never_delivers:
  assumes u: "file_get_url f token = Inr u"
    and size: "\<forall>n. file_file_size f = Some n \<longrightarrow> unat n < 2 ^ 63"
  shows "(file_download io disk f token = Some (Inr bytes) \<longrightarrow> bytes = []) \<and>
    (u = url_empty \<or> (\<exists>c. connection_at io 0 u = Inr c \<and> fst (async_connect c (http_stream_new io)) = None) \<longrightarrow>
      file_download io disk f token = Some (Inl (System_error ''Connection timed out'')))"
proof -
  let ?s = "istream_read_timeout 600000 (istream_open_timeout 60000
    (istream_set_option (User_agent ''LibTelegram File Downloader'') (istream_new io)))"
  let ?b = "rdbuf ?s"
  have small: "\<not> (\<exists>n. file_file_size f = Some n \<and> 2 ^ 63 \<le> unat n)" using size by (auto simp: not_le)
  have download: "file_download io disk f token =
      (case istreambuf_open io disk u ?b of
         None \<Rightarrow> None
       | Some (Inl e) \<Rightarrow> Some (Inl e)
       | Some (Inr (opened, b)) \<Rightarrow> Some (bindE (istreambuf_read_all io b) (\<lambda>(bytes, b). Inr bytes)))"
    using u small by (auto simp: file_download_def file_download_to_stream_def istream_open_def Let_def
        split: option.split sum.split)
  have unknown: "open_kind (buf_stream ?b) = UNKNOWN_PROTOCOL"
    by (simp add: istream_read_timeout_def istream_open_timeout_def istream_set_option_def istream_new_def
        istreambuf_new_def read_stream_new_def)
  have empty: "file_download io disk f token = Some (Inl (System_error ''Connection timed out''))"
    if "u = url_empty"
  proof -
    obtain b' where "istreambuf_open io disk url_empty ?b = Some (Inr (False, b'))" "nothing_to_read b'"
      "\<not> istreambuf_is_open b'"
      by (rule istreambuf_open_empty [OF options_fresh(1) unknown])
    with download that read_all_closed show ?thesis by simp
  qed
  have web: "web u" if "u \<noteq> url_empty"
    using file_url_protocol [OF u] that by (auto simp: web_def)
  have no_bytes: "bytes = []" if "file_download io disk f token = Some (Inr bytes)"
  proof (cases "u = url_empty")
    case False
    from that download obtain opened b where "istreambuf_open io disk u ?b = Some (Inr (opened, b))"
      and "bindE (istreambuf_read_all io b) (\<lambda>(bytes, b). Inr bytes) = Inr bytes"
      by (auto split: option.splits sum.splits)
    with istreambuf_open_web_cases [OF options_fresh(1) web [OF False]] show ?thesis
      by (auto simp: bindE_eq_Inr_iff nothing_to_read_def dest!: read_all_nothing)
  qed (use empty that in simp)
  have dropped: "file_download io disk f token = Some (Inl (System_error ''Connection timed out''))"
    if c: "connection_at io 0 u = Inr c" "fst (async_connect c (http_stream_new io)) = None" and "u \<noteq> url_empty" for c
  proof -
    obtain h where h: "async_connect c (http_stream_new io) = (None, h)"
      using c(2) by (cases "async_connect c (http_stream_new io)") auto
    have "connection_at io (attempts ?b) u = Inr c" using c(1) by (simp only: options_fresh(2))
    from istreambuf_open_web [OF options_fresh(1) web [OF that(3)] this h, of disk]
    obtain b' where "istreambuf_open io disk u ?b = Some (Inr (False, b'))" "nothing_to_read b'"
      "\<not> istreambuf_is_open b'" by auto
    then show ?thesis using download read_all_closed by simp
  qed
  show ?thesis
  proof (intro conjI impI)
    assume "file_download io disk f token = Some (Inr bytes)"

    then show "bytes = []" by (rule no_bytes)
  next
    assume "u = url_empty \<or>
      (\<exists>c. connection_at io 0 u = Inr c \<and> fst (async_connect c (http_stream_new io)) = None)"
    then show "file_download io disk f token = Some (Inl (System_error ''Connection timed out''))"
      using empty dropped by (cases "u = url_empty") auto
  qed
qed

theorem file_download_never_delivers_witness:
  "file_download sample_asio (\<lambda>_. None)
     \<lparr>file_file_id = ''A'', file_file_size = Some 3, file_file_path = Some ''photos/1.jpg''\<rparr> ''12:x'' =
   Some (Inl (System_error ''Connection timed out''))"
proof -
  let ?f = "\<lparr>file_file_id = ''A'', file_file_size = Some 3, file_file_path = Some ''photos/1.jpg''\<rparr>"
  let ?u = "plain_url ''https'' ''api.telegram.org'' ''file/bot12:x/photos/1.jpg''"
  have "file_get_url ?f ''12:x'' = Inr ?u" by code_simp
  moreover have "url_port ?u = Inr 443" by code_simp
  then have "connection_at sample_asio 0 ?u = Inr sample_connection"
    by (simp add: connection_at_def sample_asio_def)
  moreover have "fst (async_connect sample_connection (http_stream_new sample_asio)) = None"
    by (simp add: async_connect_value) (simp add: sample_connection_def failed_def)
  ultimately show ?thesis
    using file_download_never_delivers [of ?f "''12:x''" ?u sample_asio "\<lambda>_. None"] by auto
qed

end
