(* ===== verification/Calls.thy ===== *)
theory Calls
  imports Sender Markup Types_Query File
begin

section \<open>What the sender's functions have in common\<close>

text \<open>
  The enumerations and constants of \<open>class sender\<close>, the statements its functions use to fill a request,
  and the contract of a function that makes one request (\<open>api_method\<close>): whatever it builds statement
  by statement is one fixed object, sent with one method name, and the result is the reply read with one
  reader. Every function of the following theories is an interpretation of it.
\<close>

subsection \<open>Enumerations, constants and chat identifiers\<close>

datatype parse_mode = PARSE_NONE | PARSE_MARKDOWN | PARSE_HTML | PARSE_UNCHANGED

datatype web_preview_mode = PREVIEW_DISABLE | PREVIEW_ENABLE | PREVIEW_UNCHANGED

datatype notification_mode = NOTIFY_DISABLE | NOTIFY_ENABLE | NOTIFY_UNCHANGED

datatype chat_action_type =
    TYPING | UPLOAD_PHOTO | RECORD_VIDEO | UPLOAD_VIDEO | RECORD_AUDIO | UPLOAD_AUDIO
  | UPLOAD_DOCUMENT | FIND_LOCATION

definition parse_default :: parse_mode where
  "parse_default = PARSE_NONE"

definition preview_default :: web_preview_mode where
  "preview_default = PREVIEW_ENABLE"

definition notify_default :: notification_mode where
  "notify_default = NOTIFY_ENABLE"

definition reply_to_message_id_none :: "64 word" where
  "reply_to_message_id_none = - 1"

definition live_location_period_none :: "64 word" where
  "live_location_period_none = - 1"

definition message_length_limit :: nat where
  "message_length_limit = 4096"

text \<open>\<open>Tchat_id\<close> is \<open>int_fast64_t\<close> or \<open>std::string const &\<close>; \<open>VERIFY_CHAT_ID\<close> excludes everything else.\<close>

datatype chat_ref = Chat_number "64 word" | Chat_name string

fun chat_json :: "chat_ref \<Rightarrow> json" where
  "chat_json (Chat_number i) = JInt i"
| "chat_json (Chat_name s) = JString s"

subsection \<open>Statements\<close>

definition put_chat :: "chat_ref \<Rightarrow> json \<Rightarrow> json result" where
  "put_chat cid = json_put ''chat_id'' (chat_json cid)"

definition put_real :: "string \<Rightarrow> 32 word \<Rightarrow> json \<Rightarrow> json result" where
  "put_real k r = json_put k (JReal r)"

text \<open>The switches. \<open>send_message\<close> leaves out the defaults, the functions that edit leave out
  \<open>UNCHANGED\<close> and write an empty mode for \<open>NONE\<close>.\<close>

definition put_parse_mode :: "parse_mode \<Rightarrow> json \<Rightarrow> json result" where
  "put_parse_mode parse =
     only_if (parse \<noteq> parse_default \<and> parse \<noteq> PARSE_UNCHANGED)
       (case parse of
          PARSE_NONE \<Rightarrow> Inr
        | PARSE_MARKDOWN \<Rightarrow> put_string ''parse_mode'' ''Markdown''
        | PARSE_HTML \<Rightarrow> put_string ''parse_mode'' ''HTML''
        | PARSE_UNCHANGED \<Rightarrow> Inr)"

definition put_preview :: "web_preview_mode \<Rightarrow> json \<Rightarrow> json result" where
  "put_preview preview =
     only_if (preview \<noteq> preview_default \<and> preview \<noteq> PREVIEW_UNCHANGED)
       (case preview of
          PREVIEW_DISABLE \<Rightarrow> put_bool ''disable_web_page_preview'' True
        | PREVIEW_ENABLE \<Rightarrow> put_bool ''disable_web_page_preview'' False
        | PREVIEW_UNCHANGED \<Rightarrow> Inr)"

definition put_notification :: "notification_mode \<Rightarrow> json \<Rightarrow> json result" where
  "put_notification notification =
     only_if (notification \<noteq> notify_default \<and> notification \<noteq> NOTIFY_UNCHANGED)
       (case notification of
          NOTIFY_DISABLE \<Rightarrow> put_bool ''disable_notification'' True
        | NOTIFY_ENABLE \<Rightarrow> put_bool ''disable_notification'' False
        | NOTIFY_UNCHANGED \<Rightarrow> Inr)"

definition put_forward_notification :: "notification_mode \<Rightarrow> json \<Rightarrow> json result" where
  "put_forward_notification notification =
     only_if (notification \<noteq> notify_default)
       (case notification of
          NOTIFY_DISABLE \<Rightarrow> put_bool ''disable_notification'' True
        | NOTIFY_ENABLE \<Rightarrow> put_bool ''disable_notification'' False
        | NOTIFY_UNCHANGED \<Rightarrow> Inr)"

definition put_edit_parse_mode :: "parse_mode \<Rightarrow> json \<Rightarrow> json result" where
  "put_edit_parse_mode parse =
     (case parse of
        PARSE_UNCHANGED \<Rightarrow> Inr
      | PARSE_NONE \<Rightarrow> put_string ''parse_mode'' []
      | PARSE_MARKDOWN \<Rightarrow> put_string ''parse_mode'' ''Markdown''
      | PARSE_HTML \<Rightarrow> put_string ''parse_mode'' ''HTML'')"

definition put_edit_preview :: "web_preview_mode \<Rightarrow> json \<Rightarrow> json result" where
  "put_edit_preview preview =
     (case preview of
        PREVIEW_UNCHANGED \<Rightarrow> Inr
      | PREVIEW_DISABLE \<Rightarrow> put_bool ''disable_web_page_preview'' True
      | PREVIEW_ENABLE \<Rightarrow> put_bool ''disable_web_page_preview'' False)"

fun chat_action_name :: "chat_action_type \<Rightarrow> string" where
  "chat_action_name TYPING = ''typing''"
| "chat_action_name UPLOAD_PHOTO = ''upload_photo''"
| "chat_action_name RECORD_VIDEO = ''record_video''"
| "chat_action_name UPLOAD_VIDEO = ''upload_video''"
| "chat_action_name RECORD_AUDIO = ''record_audio''"
| "chat_action_name UPLOAD_AUDIO = ''upload_audio''"
| "chat_action_name UPLOAD_DOCUMENT = ''upload_document''"
| "chat_action_name FIND_LOCATION = ''find_location''"

subsection \<open>What the statements write\<close>

fun parse_json :: "parse_mode \<Rightarrow> json option" where
  "parse_json PARSE_MARKDOWN = Some (JString ''Markdown'')"
| "parse_json PARSE_HTML = Some (JString ''HTML'')"
| "parse_json p = None"

fun edit_parse_json :: "parse_mode \<Rightarrow> json option" where
  "edit_parse_json PARSE_NONE = Some (JString [])"
| "edit_parse_json p = parse_json p"

fun edit_preview_json :: "web_preview_mode \<Rightarrow> json option" where
  "edit_preview_json PREVIEW_DISABLE = Some (JBool True)"
| "edit_preview_json PREVIEW_ENABLE = Some (JBool False)"
| "edit_preview_json PREVIEW_UNCHANGED = None"

lemma sets_modes:
  "sets (put_parse_mode p) ''parse_mode'' (parse_json p)"
  "sets (put_preview v) ''disable_web_page_preview'' (given (v = PREVIEW_DISABLE) (JBool True))"
  "sets (put_notification n) ''disable_notification'' (given (n = NOTIFY_DISABLE) (JBool True))"
  "sets (put_forward_notification n) ''disable_notification'' (given (n = NOTIFY_DISABLE) (JBool True))"
  "sets (put_edit_parse_mode p) ''parse_mode'' (edit_parse_json p)"
  "sets (put_edit_preview v) ''disable_web_page_preview'' (edit_preview_json v)"
proof -
  show "sets (put_parse_mode p) ''parse_mode'' (parse_json p)"
    by (cases p) (simp_all add: put_parse_mode_def parse_default_def sets_skip sets_scalars)
  show "sets (put_preview v) ''disable_web_page_preview'' (given (v = PREVIEW_DISABLE) (JBool True))"
    by (cases v) (simp_all add: put_preview_def preview_default_def sets_skip sets_scalars)
  show "sets (put_notification n) ''disable_notification'' (given (n = NOTIFY_DISABLE) (JBool True))"
    by (cases n) (simp_all add: put_notification_def notify_default_def sets_skip sets_scalars)
  show "sets (put_forward_notification n) ''disable_notification''
      (given (n = NOTIFY_DISABLE) (JBool True))"
    by (cases n) (simp_all add: put_forward_notification_def notify_default_def sets_skip sets_scalars)
  show "sets (put_edit_parse_mode p) ''parse_mode'' (edit_parse_json p)"
    by (cases p) (simp_all add: put_edit_parse_mode_def sets_skip sets_scalars)
  show "sets (put_edit_preview v) ''disable_web_page_preview'' (edit_preview_json v)"
    by (cases v) (simp_all add: put_edit_preview_def sets_skip sets_scalars)
qed

lemma sets_values:
  "sets (put_chat c) ''chat_id'' (Some (chat_json c))"
  "sets (put_real k r) k (Some (JReal r))"
  by (cases c) (simp_all add: put_chat_def put_real_def JReal_def sets_put)

lemmas sets_markup = reply_markup_writer.get_sets inline_keyboard_writer.get_sets

lemmas request_intros = fills_intros sets_modes sets_values sets_markup

subsection \<open>Replies read with a decoder\<close>

text \<open>On a reply that is an object (or empty), a call that reads a value of a decodable type never
  lets an exception out: it answers with a value or with nothing.\<close>

context json_decoder
begin

lemma read_reply_silent:
  assumes "valid_json j" and "is_tree j"
    and "read_reply (make_optional_from_json dec) j = Inl e"
  shows "is_undefined e"
proof -
  from is_tree_check_ok [OF assms(2)] obtain t b where t: "check_ok j = Inr (t, b)" by blast
  obtain out where dump: "json_dump 2 t = Inr out"
    using valid_check_ok [OF t assms(1)] by (rule valid_json_printed)
  from assms(3) t dump have "make_optional_from_json dec t ''result'' = Inl e \<and> \<not> is_std_exception e"
    by (auto simp: read_reply_def split: if_splits sum.splits)
  then show ?thesis using optional_never_out_of_range [of t "''result''" e]
    by (cases e) (auto simp: conversion_error_def is_type_error_def)
qed

lemma read_reply_value:
  assumes "is_object j" "wf_json j" "json_get j ''ok'' = Some (JBool True)"
    and "json_get j ''result'' = Some r" and "dec r = Inr x"
  shows "read_reply (make_optional_from_json dec) j = Inr (Some x)"
  using assms(4,5) by (intro read_reply_ok(1) [OF assms(1-3)]) (simp add: make_optional_from_json_def)

lemma read_reply_incomplete:
  assumes "valid_json j" "is_object j" "json_get j ''ok'' = Some (JBool True)"
    and "json_get j ''result'' = Some r" and "dec r = Inl e" and "is_std_exception e"
  shows "read_reply (make_optional_from_json dec) j = Inr None"
proof -
  have "wf_json j" using assms(1) by (simp add: valid_json_def)
  obtain out where "json_dump 2 j = Inr out" using assms(1) by (rule valid_json_printed)
  moreover from assms(4,5) have "make_optional_from_json dec j ''result'' =
      (if is_out_of_range e then Inr None else Inl e)"
    by (simp add: make_optional_from_json_def)
  ultimately show ?thesis
    using assms \<open>wf_json j\<close> by (simp add: read_reply_def check_ok_object json_eq_bool_iff)
qed

end

subsection \<open>The contract of a function that makes one request\<close>

text \<open>
  For the arguments \<open>a\<close> that pass the function's own checks, the call sends \<open>body a\<close> to the method \<open>name\<close>
  and reads the reply with \<open>answer\<close>.
\<close>

locale api_method =
  fixes call :: "network \<Rightarrow> sender \<Rightarrow> 'a \<Rightarrow> 'r api"
    and pre :: "'a \<Rightarrow> bool"
    and name :: string
    and body :: "'a \<Rightarrow> json"
    and answer :: "json \<Rightarrow> 'r result"
  assumes call_sends:
      "pre a \<Longrightarrow> call net s a =
         api_bind (send_json net s name (body a) default_poll_timeout) (\<lambda>reply.
           api_lift (answer reply))"
    and body_object: "is_object (body a)"
    and name_plain: "list_all path_char name"
begin

lemma sends_one:
  fixes no_ssl :: bool
  assumes "pre a" and "list_all path_char token" and "json_dump (- 1) (body a) = Inr b"
  defines "r \<equiv> api_request no_ssl token name default_poll_timeout b"
  shows "call net (sender_new no_ssl token ua) a hist =
    (bindE (handle_reply (api_url no_ssl token name) (net (hist @ [r]))) answer,
     hist @ [r])"
  using assms name_plain
  by (auto simp: call_sends send_json_one_request api_bind_def api_lift_def split: sum.split)

text \<open>A body that cannot be serialised throws the exception of \<open>dump\<close>, and nothing is sent.\<close>

lemma sends_none:
  assumes "pre a" and "list_all path_char token" and "json_dump (- 1) (body a) = Inl e"
  shows "call net (sender_new no_ssl token ua) a hist = (Inl e, hist)"
  using send_json_no_request [OF assms(2) name_plain assms(3)]
  by (simp add: call_sends [OF assms(1)] api_bind_def)

lemma request_log:
  assumes "pre a" and "list_all path_char token"
  shows "snd (call net (sender_new no_ssl token ua) a hist) =
    hist @ posted_request no_ssl token name 30 (body a)"
  using sends_one [OF assms] sends_none [OF assms]
  by (auto simp: posted_request_def default_poll_timeout_def split: sum.split)

lemma answers:
  assumes "pre a" and "list_all path_char token" and "utf8_json (body a)"
    and "\<And>rs. net rs = Reply 200 reply" and "json_text j reply"
  shows "fst (call net (sender_new no_ssl token ua) a hist) = answer j"
proof -
  obtain b where "json_dump (- 1) (body a) = Inr b"
    using json_dump_cases [of "body a" "- 1"] assms(3) by (auto simp: dumps_iff_def)
  from sends_one [OF assms(1,2) this, where net = net and no_ssl = no_ssl and ua = ua and hist = hist]
    handle_reply_text [OF assms(5)]
  show ?thesis using assms(4) by simp
qed

lemma sends_at_most_one:
  assumes "pre a"
  shows "snd (call net s a hist) = hist \<or> (\<exists>r. snd (call net s a hist) = hist @ [r])"
  using assms
  by (auto simp: call_sends send_json_def api_bind_def api_lift_def api_post_def
      split: sum.split prod.split)

lemma no_reply_throws:
  assumes "pre a" and "list_all path_char token" and "json_dump (- 1) (body a) = Inr b"
    and "\<And>rs. net rs = No_reply why"
  shows "fst (call net (sender_new no_ssl token ua) a hist) = Inl (unable_to_open (api_url no_ssl token name) why)"
  using sends_one [OF assms(1-3), where net = net and no_ssl = no_ssl and ua = ua and hist = hist] assms(4) by (simp add: handle_reply_def)

end

lemmas call_defs = send_json_and_parse_def send_json_and_parse_vector_def send_json_and_get_bool_def
  isalnum_def isdigit_def isupper_def path_char_def path_mark_def less_eq_char_def

end
