(* ===== verification/Requests_Message.thy ===== *)
theory Requests_Message
  imports Calls
begin

section \<open>Sending text\<close>

text \<open>
  \<open>send_message\<close>: an empty text is not sent, a text longer than the limit is cut into pieces of at most
  \<open>message_length_limit\<close> bytes that are sent one after the other, and only the last reply is returned.
  The specification is the list of pieces and the loop over it (\<open>send_all\<close>).
\<close>

definition send_message_tree ::
    "chat_ref \<Rightarrow> string \<Rightarrow> 64 word \<Rightarrow> parse_mode \<Rightarrow> web_preview_mode \<Rightarrow> notification_mode \<Rightarrow>
     reply_markup option \<Rightarrow> json result" where
  "send_message_tree cid content reply_to parse preview notification markup = run_stmts
     [put_chat cid,
      put_string ''text'' content,
      put_parse_mode parse,
      put_preview preview,
      put_notification notification,
      only_if (reply_to \<noteq> reply_to_message_id_none) (put_int ''reply_to_message_id'' reply_to),
      if_some markup reply_markup_get] JNull"

function send_message ::
    "network \<Rightarrow> sender \<Rightarrow> chat_ref \<Rightarrow> string \<Rightarrow> 64 word \<Rightarrow> parse_mode \<Rightarrow> web_preview_mode \<Rightarrow>
     notification_mode \<Rightarrow> reply_markup option \<Rightarrow> message option api" where
  "send_message net s cid content reply_to parse preview notification markup =
     (if content = [] then api_lift (Inr None)
      else if length content > message_length_limit then
        api_bind (send_message net s cid (take message_length_limit content) reply_to parse preview
                    notification markup) (\<lambda>_.
          send_message net s cid (drop message_length_limit content) reply_to parse preview
            notification markup)
      else api_bind
        (api_lift (send_message_tree cid content reply_to parse preview notification markup))
        (send_json_and_parse net s (make_optional_from_json message_from_json) ''sendMessage''))"
  by pat_completeness auto

termination
  by (relation "measure (\<lambda>(_, _, _, content, _). length content)")
    (auto simp: message_length_limit_def)

declare send_message.simps [simp del]

definition send_message_markup_first ::
    "network \<Rightarrow> sender \<Rightarrow> chat_ref \<Rightarrow> string \<Rightarrow> reply_markup \<Rightarrow> 64 word \<Rightarrow> parse_mode \<Rightarrow>
     web_preview_mode \<Rightarrow> notification_mode \<Rightarrow> message option api" where
  "send_message_markup_first net s cid content markup reply_to parse preview notification =
     send_message net s cid content reply_to parse preview notification (Some markup)"

subsection \<open>One piece\<close>

definition send_message_body ::
    "chat_ref \<times> string \<times> 64 word \<times> parse_mode \<times> web_preview_mode \<times> notification_mode \<times>
     reply_markup option \<Rightarrow> json" where
  "send_message_body = (\<lambda>(cid, content, reply_to, parse, preview, notification, markup). mk_object
     [(''chat_id'', Some (chat_json cid)),
      (''text'', Some (JString content)),
      (''parse_mode'', parse_json parse),
      (''disable_web_page_preview'', given (preview = PREVIEW_DISABLE) (JBool True)),
      (''disable_notification'', given (notification = NOTIFY_DISABLE) (JBool True)),
      (''reply_to_message_id'', given (reply_to \<noteq> reply_to_message_id_none) (JInt reply_to)),
      (''reply_markup'', map_option reply_markup_json markup)])"

lemma send_message_tree_body:
  "send_message_tree cid content reply_to parse preview notification markup =
     Inr (send_message_body (cid, content, reply_to, parse, preview, notification, markup))"
  unfolding send_message_tree_def send_message_body_def prod.case
  by (rule fills_object) (rule request_intros | simp)+

interpretation send_message_call: api_method
  "\<lambda>net s (cid, content, reply_to, parse, preview, notification, markup).
     send_message net s cid content reply_to parse preview notification markup"
  "\<lambda>(cid, content, _). content \<noteq> [] \<and> length content \<le> message_length_limit"
  "''sendMessage''" send_message_body
  "read_reply (make_optional_from_json message_from_json)"
  by unfold_locales
    (auto simp: send_message.simps send_message_tree_body send_message_body_def call_defs)

subsection \<open>The pieces and the loop over them\<close>

function pieces :: "string \<Rightarrow> string list" where
  "pieces content =
     (if content = [] then []
      else take message_length_limit content # pieces (drop message_length_limit content))"
  by pat_completeness auto

termination
  by (relation "measure length") (auto simp: message_length_limit_def)

declare pieces.simps [simp del]

fun send_all :: "('c \<Rightarrow> 'r option api) \<Rightarrow> 'c list \<Rightarrow> 'r option api" where
  "send_all f [] = api_lift (Inr None)"
| "send_all f [c] = f c"
| "send_all f (c # cs) = api_bind (f c) (\<lambda>_. send_all f cs)"

lemma pieces_short: "content \<noteq> [] \<Longrightarrow> length content \<le> message_length_limit \<Longrightarrow> pieces content = [content]"
  by (simp add: pieces.simps)

lemma pieces_Nil [simp]: "pieces [] = []" "pieces content = [] \<longleftrightarrow> content = []"
  by (simp_all add: pieces.simps)

lemma concat_pieces: "concat (pieces content) = content"
proof (induction content rule: pieces.induct)
  case (1 content)
  then show ?case by (cases "content = []") (simp_all add: pieces.simps [of content])
qed

lemma pieces_bounds: "list_all (\<lambda>p. 0 < length p \<and> length p \<le> message_length_limit) (pieces content)"
proof (induction content rule: pieces.induct)
  case (1 content)
  then show ?case
    by (cases "content = []") (simp_all add: pieces.simps [of content] message_length_limit_def)
qed

lemma length_pieces: "length (pieces content) = (length content + 4095) div 4096"
proof (induction content rule: pieces.induct)
  case (1 content)
  show ?case
  proof (cases "length content \<le> message_length_limit")
    case True
    then show ?thesis
      by (cases "content = []") (auto simp: pieces_short message_length_limit_def div_if)
  next
    case False
    moreover from this have "content \<noteq> []" by auto
    ultimately have "length (pieces content) = Suc ((length content - 4096 + 4095) div 4096)"
      using 1 by (simp add: pieces.simps [of content] message_length_limit_def)
    also have "\<dots> = (length content + 4095) div 4096"
      using False by (simp add: message_length_limit_def le_div_geq)
    finally show ?thesis .
  qed
qed

lemma send_message_pieces:
  "send_message net s cid content reply_to parse preview notification markup =
     send_all (\<lambda>p. send_message net s cid p reply_to parse preview notification markup) (pieces content)"
proof (induction content rule: pieces.induct)
  case (1 content)
  show ?case
  proof (cases "length content \<le> message_length_limit")
    case True
    then show ?thesis by (cases "content = []") (simp_all add: pieces_short send_message.simps)
  next
    case False
    then have ne: "content \<noteq> []" "drop message_length_limit content \<noteq> []" by auto
    then obtain p ps where ps: "pieces (drop message_length_limit content) = p # ps"
      by (cases "pieces (drop message_length_limit content)") simp_all
    have "pieces content = take message_length_limit content # p # ps"
      using ne ps by (simp add: pieces.simps [of content])
    with False ne 1 ps show ?thesis
      by (simp add: send_message.simps [of _ _ _ content])
  qed
qed

text \<open>The loop sends the requests of a prefix of the pieces: of all of them when it returns.\<close>

lemma send_all_prefix:
  assumes "\<And>c hist. c \<in> set cs \<Longrightarrow> snd (f c hist) = hist @ req c"
    and "\<And>c hist x. c \<in> set cs \<Longrightarrow> fst (f c hist) = Inr x \<Longrightarrow> ok c"
    and "send_all f cs hist = (res, hist')"
  shows "\<exists>n \<le> length cs. hist' = hist @ concat (map req (take n cs)) \<and>
    ((\<exists>x. res = Inr x) \<longrightarrow> n = length cs \<and> list_all ok cs)"
  using assms
proof (induction f cs arbitrary: hist rule: send_all.induct)
  case (1 f)
  then show ?case by (simp add: api_lift_def)
next
  case (2 f c)
  then have "hist' = hist @ req c" by (metis list.set_intros(1) send_all.simps(2) snd_conv)
  moreover have "ok c" if "res = Inr x" for x
    using 2(2) [where c = c and x = x and hist = hist] 2(3) that by simp
  ultimately show ?case by (intro exI [of _ 1]) auto
next
  case (3 f c c' cs)
  obtain r l where r: "f c hist = (r, l)" by (cases "f c hist")
  with "3.prems"(1) have l: "l = hist @ req c" by (metis list.set_intros(1) snd_conv)
  show ?case
  proof (cases r)
    case (Inl e)
    with "3.prems"(3) r l have "hist' = hist @ req c \<and> res = Inl e" by (simp add: api_bind_def)
    then show ?thesis by (intro exI [of _ 1]) simp
  next
    case (Inr x)
    with "3.prems"(3) r have rest: "send_all f (c' # cs) l = (res, hist')"
      by (simp add: api_bind_def)
    have ok: "ok c" using "3.prems"(2) [where c = c and hist = hist and x = x] r Inr by simp
    have "snd (f d hist) = hist @ req d" if "d \<in> set (c' # cs)" for d hist
      using "3.prems"(1) that by simp
    moreover have "fst (f d hist) = Inr y \<Longrightarrow> ok d" if "d \<in> set (c' # cs)" for d hist y
      using "3.prems"(2) [where c = d] that by simp
    ultimately obtain n where n: "n \<le> length (c' # cs)"
      "hist' = l @ concat (map req (take n (c' # cs)))"
      "(\<exists>x. res = Inr x) \<longrightarrow> n = length (c' # cs) \<and> list_all ok (c' # cs)"
      using "3.IH" [OF _ _ rest] by blast
    then show ?thesis using ok by (intro exI [of _ "Suc n"]) (simp add: l)
  qed
qed

text \<open>A piece whose bytes are not well-formed UTF-8 is not sent.\<close>

lemma utf8_json_member: "utf8_json j \<Longrightarrow> json_get j k = Some v \<Longrightarrow> utf8_json v"
  by (cases j) (auto simp: json_get_def dest!: map_of_SomeD)

lemma send_message_body_text: "utf8_json (send_message_body (cid, p, reply_to, parse, preview, notification, markup)) \<Longrightarrow> utf8_valid p"
proof -
  have "json_get (send_message_body (cid, p, reply_to, parse, preview, notification, markup)) ''text'' = Some (JString p)"
    by (simp add: send_message_body_def)
  then show "utf8_json (send_message_body (cid, p, reply_to, parse, preview, notification, markup)) \<Longrightarrow> ?thesis"
    using utf8_json_member by fastforce
qed

lemma send_message_body_valid:
  assumes "utf8_valid p" and "valid_json (chat_json cid)" and "pred_option valid_json (map_option reply_markup_json markup)"
  shows "valid_json (send_message_body (cid, p, reply_to, parse, preview, notification, markup))"
  using assms unfolding send_message_body_def prod.case
  by (cases parse) (auto simp: utf8_valid_ascii intro!: valid_json_mk_object)

lemma piece_not_sent:
  assumes "list_all path_char token" and "p \<noteq> []" and "length p \<le> message_length_limit"
    and "\<not> utf8_json (send_message_body (cid, p, reply_to, parse, preview, notification, markup))"
  shows "\<exists>m. send_message net (sender_new no_ssl token ua) cid p reply_to parse preview notification markup hist =
    (Inl (Type_error 316 m), hist)"
proof -
  let ?a = "(cid, p, reply_to, parse, preview, notification, markup)"
  obtain m where "json_dump (- 1) (send_message_body ?a) = Inl (Type_error 316 m)"
    using json_dump_cases [of "send_message_body ?a" "- 1"] assms(4) by (auto simp: dumps_iff_def)
  from send_message_call.sends_none [OF _ assms(1) this, where net = net and no_ssl = no_ssl and ua = ua and hist = hist]
  show ?thesis using assms(2,3) by simp
qed

subsection \<open>Properties\<close>

text \<open>C6: Sending a text is sending its pieces in order: the recursive halving of the code is the loop
  over them. The pieces, put together, are the text; each is non-empty and at most 4096 bytes long;
  and there are as many as the length divided by 4096, rounded up, so the recursion always ends.\<close>

theorem send_message_splits:
  "send_message net s cid content reply_to parse preview notification markup =
     send_all (\<lambda>p. send_message net s cid p reply_to parse preview notification markup)
       (pieces content) \<and>
   concat (pieces content) = content \<and>
   list_all (\<lambda>p. 0 < length p \<and> length p \<le> 4096) (pieces content) \<and>
   length (pieces content) = (length content + 4095) div 4096"
proof (intro conjI)
  show "send_message net s cid content reply_to parse preview notification markup =
     send_all (\<lambda>p. send_message net s cid p reply_to parse preview notification markup)
       (pieces content)"
    by (rule send_message_pieces)
  show "list_all (\<lambda>p. 0 < length p \<and> length p \<le> 4096) (pieces content)"
    using pieces_bounds [of content] by (simp add: message_length_limit_def)
qed (rule concat_pieces length_pieces)+

text \<open>C7: With a token of plain characters, a text is sent as one \<open>sendMessage\<close> request per piece, in order,
  each with the same options and markup. When a piece cannot be sent or its request throws, the pieces
  after it are not sent; when the call returns, every piece has been sent, and every piece was
  well-formed UTF-8.\<close>

theorem send_message_requests:
  assumes "list_all path_char token"
    and "send_message net (sender_new no_ssl token ua) cid content reply_to parse preview notification
      markup hist = (res, hist')"
  shows "\<exists>n \<le> length (pieces content).
    hist' = hist @ concat (map (\<lambda>p. posted_request no_ssl token ''sendMessage'' 30
      (send_message_body (cid, p, reply_to, parse, preview, notification, markup)))
      (take n (pieces content))) \<and>
    ((\<exists>x. res = Inr x) \<longrightarrow> n = length (pieces content) \<and> list_all utf8_valid (pieces content))"
proof (rule send_all_prefix)
  fix p hist
  assume "p \<in> set (pieces content)"
  then have p: "p \<noteq> [] \<and> length p \<le> message_length_limit"
    using pieces_bounds [of content] by (auto simp: list_all_iff)
  with send_message_call.request_log [of "(cid, p, reply_to, parse, preview, notification, markup)",
      OF _ assms(1), of net no_ssl ua hist]
  show "snd (send_message net (sender_new no_ssl token ua) cid p reply_to parse preview notification
      markup hist) = hist @ posted_request no_ssl token ''sendMessage'' 30
        (send_message_body (cid, p, reply_to, parse, preview, notification, markup))"
    by simp
  show "utf8_valid p" if "fst (send_message net (sender_new no_ssl token ua) cid p reply_to parse preview
      notification markup hist) = Inr x" for x
  proof (rule send_message_body_text, rule ccontr)
    assume "\<not> utf8_json (send_message_body (cid, p, reply_to, parse, preview, notification, markup))"
    from piece_not_sent [OF assms(1) _ _ this] p that show False by (metis fst_conv sum.distinct(1))
  qed
next
  show "send_all (\<lambda>p. send_message net (sender_new no_ssl token ua) cid p reply_to parse preview
      notification markup) (pieces content) hist = (res, hist')"
    using assms(2) by (simp only: send_message_pieces [symmetric])
qed

theorem send_message_requests_witness:
  "\<exists>res body. send_message echo_network (sender_new False ''42:ab'' ''Bot'') (Chat_number 7) ''hi'' (- 1)
      parse_default preview_default notify_default None [] =
    (res, [api_request False ''42:ab'' ''sendMessage'' 30 body])"
proof -
  let ?body = "send_message_body (Chat_number 7, ''hi'', - 1, parse_default, preview_default, notify_default, None)"
  have plain: "list_all path_char ''42:ab''" by code_simp
  obtain res hist' where run: "send_message echo_network (sender_new False ''42:ab'' ''Bot'')
      (Chat_number 7) ''hi'' (- 1) parse_default preview_default notify_default None [] = (res, hist')"
    by (rule prod.exhaust)
  have "utf8_json ?body" by code_simp
  then obtain body where body: "posted_request False ''42:ab'' ''sendMessage'' 30 ?body =
      [api_request False ''42:ab'' ''sendMessage'' 30 body]" by (rule posted_one)
  have one: "pieces ''hi'' = [''hi'']" by (simp add: pieces_short message_length_limit_def)
  from send_message_requests [OF plain run] have "\<exists>n \<le> 1.
      hist' = concat (map (\<lambda>p. posted_request False ''42:ab'' ''sendMessage'' 30
        (send_message_body (Chat_number 7, p, - 1, parse_default, preview_default, notify_default, None)))
        (take n [''hi''])) \<and> ((\<exists>x. res = Inr x) \<longrightarrow> n = 1)"
    by (auto simp: one)
  moreover have "\<exists>x. res = Inr x"
  proof -
    let ?a = "(Chat_number 7, ''hi'', - 1, parse_default, preview_default, notify_default, None)"
    have fits: "case ?a of (cid, content, _) \<Rightarrow> content \<noteq> [] \<and> length content \<le> message_length_limit"
      by (simp add: message_length_limit_def)
    obtain b where "json_dump (- 1) ?body = Inr b"
      using json_dump_cases [of ?body "- 1"] \<open>utf8_json ?body\<close> by (auto simp: dumps_iff_def)
    from send_message_call.sends_one [OF fits plain this,
        where net = echo_network and no_ssl = False and ua = "''Bot''" and hist = "[]"] run
    have "res = read_reply (make_optional_from_json message_from_json) (JObject [])"
      by (simp add: echo_network_def handle_reply_def)
    moreover have "valid_json (JObject [])" by simp
    ultimately show ?thesis
      using read_reply_not_ok(1) [of "JObject []"] check_ok_missing [of "JObject []"] by auto
  qed
  ultimately show ?thesis using run body by auto
qed

text \<open>C17: A text is cut by bytes, not by characters: when byte 4096 of a longer text lies inside a
  character, its first piece is no UTF-8, \<open>dump\<close> throws the type error 316 on it, and the call throws
  without having sent anything, although the text as a whole is well-formed.\<close>

theorem cut_character_sends_nothing:
  assumes "list_all path_char token" and "4096 < length content" and "\<not> utf8_valid (take 4096 content)"
  shows "\<exists>m. send_message net (sender_new no_ssl token ua) cid content reply_to parse preview notification
      markup hist = (Inl (Type_error 316 m), hist)"
proof -
  let ?p = "take message_length_limit content"
  have "\<not> utf8_json (send_message_body (cid, ?p, reply_to, parse, preview, notification, markup))"
    using assms(3) send_message_body_text by (auto simp: message_length_limit_def)
  with assms(1,2) have "\<exists>m. send_message net (sender_new no_ssl token ua) cid ?p reply_to parse preview
      notification markup hist = (Inl (Type_error 316 m), hist)"
    by (intro piece_not_sent) (auto simp: message_length_limit_def)
  moreover have "content \<noteq> [] \<and> message_length_limit < length content"
    using assms(2) by (auto simp: message_length_limit_def)
  ultimately show ?thesis
    by (subst send_message.simps) (auto simp: api_bind_def)
qed

theorem cut_character_sends_nothing_witness:
  "utf8_valid (replicate 4095 (CHR ''a'') @ [CHR 0xC3, CHR 0xA9]) \<and>
   (\<exists>m. send_message echo_network (sender_new False ''42:ab'' ''Bot'') (Chat_number 7)
      (replicate 4095 (CHR ''a'') @ [CHR 0xC3, CHR 0xA9]) (- 1) parse_default preview_default notify_default None [] =
    (Inl (Type_error 316 m), []))"
proof
  have a: "list_all (\<lambda>c. of_char c < (128 :: nat)) (replicate n (CHR ''a''))" for n by (simp add: list_all_iff)
  have "utf8_valid [CHR 0xC3, CHR 0xA9]" by code_simp
  with utf8_valid_ascii [OF a] show "utf8_valid (replicate 4095 (CHR ''a'') @ [CHR 0xC3, CHR 0xA9])"
    by (rule utf8_valid_append)
  have "utf8_chars [CHR 0xC3] = None" by code_simp
  moreover have "utf8_char [CHR ''a'']" by code_simp
  ultimately have "utf8_chars (replicate n (CHR ''a'') @ [CHR 0xC3]) = None" for n
    using utf8_chars_append [of "[CHR ''a'']"] by (induction n) simp_all
  then have "\<not> utf8_valid (take 4096 (replicate 4095 (CHR ''a'') @ [CHR 0xC3, CHR 0xA9]))"
    by (simp add: utf8_valid_def)
  moreover have "list_all path_char ''42:ab''" by code_simp
  ultimately show "\<exists>m. send_message echo_network (sender_new False ''42:ab'' ''Bot'') (Chat_number 7)
      (replicate 4095 (CHR ''a'') @ [CHR 0xC3, CHR 0xA9]) (- 1) parse_default preview_default notify_default None [] =
    (Inl (Type_error 316 m), [])"
    by (intro cut_character_sends_nothing) simp_all
qed

end
