(* ===== verification/Requests_Send.thy ===== *)
theory Requests_Send
  imports Calls
begin

section \<open>Sending and forwarding\<close>

text \<open>
  The functions of \<open>class sender\<close> that send media, places and contacts and forward messages. For each: the tree it builds
  (\<open>_tree\<close>, the statements in source order), the function, the object the tree must be (\<open>_body\<close>), and
  the interpretation of the contract \<open>api_method\<close>.
\<close>

definition forward_message_tree ::
    "chat_ref \<Rightarrow> 64 word \<Rightarrow> 64 word \<Rightarrow> notification_mode \<Rightarrow> json result" where
  "forward_message_tree cid from_chat mid notification = run_stmts
     [put_chat cid,
      put_int ''from_chat_id'' from_chat,
      put_int ''message_id'' mid,
      put_forward_notification notification] JNull"

definition forward_message ::
    "network \<Rightarrow> sender \<Rightarrow> chat_ref \<Rightarrow> 64 word \<Rightarrow>
     64 word \<Rightarrow> notification_mode \<Rightarrow> message option api" where
  "forward_message net s cid from_chat mid notification =
     api_bind (api_lift (forward_message_tree cid from_chat mid notification))
       (send_json_and_parse net s (make_optional_from_json message_from_json) ''forwardMessage'')"

definition forward_message_body :: "chat_ref \<times> 64 word \<times> 64 word \<times> notification_mode \<Rightarrow> json" where
  "forward_message_body = (\<lambda>(cid, from_chat, mid, notification). mk_object
     [(''chat_id'', Some (chat_json cid)),
      (''from_chat_id'', Some (JInt from_chat)),
      (''message_id'', Some (JInt mid)),
      (''disable_notification'', given (notification = NOTIFY_DISABLE) (JBool True))])"

lemma forward_message_tree_body: 
  "forward_message_tree cid from_chat mid notification =
     Inr (forward_message_body (cid, from_chat, mid, notification))"
  unfolding forward_message_tree_def forward_message_body_def prod.case
  by (rule fills_object) (rule request_intros | simp)+

interpretation forward_message_call: api_method
  "\<lambda>net s (cid, from_chat, mid, notification). forward_message net s cid from_chat mid notification"
  "\<lambda>_. True" "''forwardMessage''" forward_message_body
  "read_reply (make_optional_from_json message_from_json)"
  by unfold_locales
    (auto simp: forward_message_def forward_message_tree_body forward_message_body_def call_defs)

definition send_photo_tree ::
    "chat_ref \<Rightarrow> telegram_file \<Rightarrow> string \<Rightarrow> bool \<Rightarrow>
     64 word \<Rightarrow> reply_markup option \<Rightarrow> json result" where
  "send_photo_tree cid photo caption disable_notification reply_to markup = run_stmts
     [put_chat cid,
      put_string ''photo'' (file_file_id photo),
      only_if (caption \<noteq> []) (put_string ''caption'' caption),
      only_if disable_notification (put_bool ''disable_notification'' True),
      only_if (reply_to \<noteq> reply_to_message_id_none) (put_int ''reply_to_message_id'' reply_to),
      if_some markup reply_markup_get] JNull"

definition send_photo ::
    "network \<Rightarrow> sender \<Rightarrow> chat_ref \<Rightarrow> telegram_file \<Rightarrow> string \<Rightarrow>
     bool \<Rightarrow> 64 word \<Rightarrow> reply_markup option \<Rightarrow> message option api" where
  "send_photo net s cid photo caption disable_notification reply_to markup =
     api_bind (api_lift (send_photo_tree cid photo caption disable_notification reply_to markup))
       (send_json_and_parse net s (make_optional_from_json message_from_json) ''sendPhoto'')"

definition send_photo_body ::
    "chat_ref \<times> telegram_file \<times> string \<times> bool \<times>
     64 word \<times> reply_markup option \<Rightarrow> json" where
  "send_photo_body = (\<lambda>(cid, photo, caption, disable_notification, reply_to, markup). mk_object
     [(''chat_id'', Some (chat_json cid)),
      (''photo'', Some (JString (file_file_id photo))),
      (''caption'', given (caption \<noteq> []) (JString caption)),
      (''disable_notification'', given disable_notification (JBool True)),
      (''reply_to_message_id'', given (reply_to \<noteq> reply_to_message_id_none) (JInt reply_to)),
      (''reply_markup'', map_option reply_markup_json markup)])"

lemma send_photo_tree_body: 
  "send_photo_tree cid photo caption disable_notification reply_to markup =
     Inr (send_photo_body (cid, photo, caption, disable_notification, reply_to, markup))"
  unfolding send_photo_tree_def send_photo_body_def prod.case
  by (rule fills_object) (rule request_intros | simp)+

interpretation send_photo_call: api_method
  "\<lambda>net s (cid, photo, caption, disable_notification, reply_to, markup). send_photo net s cid photo caption disable_notification reply_to markup"
  "\<lambda>_. True" "''sendPhoto''" send_photo_body
  "read_reply (make_optional_from_json message_from_json)"
  by unfold_locales
    (auto simp: send_photo_def send_photo_tree_body send_photo_body_def call_defs)

definition send_audio_tree ::
    "chat_ref \<Rightarrow> audio \<Rightarrow> string \<Rightarrow> bool \<Rightarrow>
     64 word \<Rightarrow> reply_markup option \<Rightarrow> json result" where
  "send_audio_tree cid a caption disable_notification reply_to markup = run_stmts
     [put_chat cid,
      put_string ''audio'' (audio_file_id a),
      only_if (caption \<noteq> []) (put_string ''caption'' caption),
      only_if (audio_duration a \<noteq> 0) (put_int ''duration'' (audio_duration a)),
      if_some (audio_performer a) (put_string ''performer''),
      if_some (audio_title a) (put_string ''title''),
      only_if disable_notification (put_bool ''disable_notification'' True),
      only_if (reply_to \<noteq> reply_to_message_id_none) (put_int ''reply_to_message_id'' reply_to),
      if_some markup reply_markup_get] JNull"

definition send_audio ::
    "network \<Rightarrow> sender \<Rightarrow> chat_ref \<Rightarrow> audio \<Rightarrow> string \<Rightarrow>
     bool \<Rightarrow> 64 word \<Rightarrow> reply_markup option \<Rightarrow> message option api" where
  "send_audio net s cid a caption disable_notification reply_to markup =
     api_bind (api_lift (send_audio_tree cid a caption disable_notification reply_to markup))
       (send_json_and_parse net s (make_optional_from_json message_from_json) ''sendAudio'')"

definition send_audio_body ::
    "chat_ref \<times> audio \<times> string \<times> bool \<times>
     64 word \<times> reply_markup option \<Rightarrow> json" where
  "send_audio_body = (\<lambda>(cid, a, caption, disable_notification, reply_to, markup). mk_object
     [(''chat_id'', Some (chat_json cid)),
      (''audio'', Some (JString (audio_file_id a))),
      (''caption'', given (caption \<noteq> []) (JString caption)),
      (''duration'', given (audio_duration a \<noteq> 0) (JInt (audio_duration a))),
      (''performer'', map_option JString (audio_performer a)),
      (''title'', map_option JString (audio_title a)),
      (''disable_notification'', given disable_notification (JBool True)),
      (''reply_to_message_id'', given (reply_to \<noteq> reply_to_message_id_none) (JInt reply_to)),
      (''reply_markup'', map_option reply_markup_json markup)])"

lemma send_audio_tree_body: 
  "send_audio_tree cid a caption disable_notification reply_to markup =
     Inr (send_audio_body (cid, a, caption, disable_notification, reply_to, markup))"
  unfolding send_audio_tree_def send_audio_body_def prod.case
  by (rule fills_object) (rule request_intros | simp)+

interpretation send_audio_call: api_method
  "\<lambda>net s (cid, a, caption, disable_notification, reply_to, markup). send_audio net s cid a caption disable_notification reply_to markup"
  "\<lambda>_. True" "''sendAudio''" send_audio_body
  "read_reply (make_optional_from_json message_from_json)"
  by unfold_locales
    (auto simp: send_audio_def send_audio_tree_body send_audio_body_def call_defs)

definition send_document_tree ::
    "chat_ref \<Rightarrow> document \<Rightarrow> string \<Rightarrow> bool \<Rightarrow>
     64 word \<Rightarrow> reply_markup option \<Rightarrow> json result" where
  "send_document_tree cid d caption disable_notification reply_to markup = run_stmts
     [put_chat cid,
      put_string ''document'' (document_file_id d),
      only_if (caption \<noteq> []) (put_string ''caption'' caption),
      only_if disable_notification (put_bool ''disable_notification'' True),
      only_if (reply_to \<noteq> reply_to_message_id_none) (put_int ''reply_to_message_id'' reply_to),
      if_some markup reply_markup_get] JNull"

definition send_document ::
    "network \<Rightarrow> sender \<Rightarrow> chat_ref \<Rightarrow> document \<Rightarrow> string \<Rightarrow>
     bool \<Rightarrow> 64 word \<Rightarrow> reply_markup option \<Rightarrow> message option api" where
  "send_document net s cid d caption disable_notification reply_to markup =
     api_bind (api_lift (send_document_tree cid d caption disable_notification reply_to markup))
       (send_json_and_parse net s (make_optional_from_json message_from_json) ''sendDocument'')"

definition send_document_body ::
    "chat_ref \<times> document \<times> string \<times> bool \<times>
     64 word \<times> reply_markup option \<Rightarrow> json" where
  "send_document_body = (\<lambda>(cid, d, caption, disable_notification, reply_to, markup). mk_object
     [(''chat_id'', Some (chat_json cid)),
      (''document'', Some (JString (document_file_id d))),
      (''caption'', given (caption \<noteq> []) (JString caption)),
      (''disable_notification'', given disable_notification (JBool True)),
      (''reply_to_message_id'', given (reply_to \<noteq> reply_to_message_id_none) (JInt reply_to)),
      (''reply_markup'', map_option reply_markup_json markup)])"

lemma send_document_tree_body: 
  "send_document_tree cid d caption disable_notification reply_to markup =
     Inr (send_document_body (cid, d, caption, disable_notification, reply_to, markup))"
  unfolding send_document_tree_def send_document_body_def prod.case
  by (rule fills_object) (rule request_intros | simp)+

interpretation send_document_call: api_method
  "\<lambda>net s (cid, d, caption, disable_notification, reply_to, markup). send_document net s cid d caption disable_notification reply_to markup"
  "\<lambda>_. True" "''sendDocument''" send_document_body
  "read_reply (make_optional_from_json message_from_json)"
  by unfold_locales
    (auto simp: send_document_def send_document_tree_body send_document_body_def call_defs)

definition send_video_tree ::
    "chat_ref \<Rightarrow> video \<Rightarrow> string \<Rightarrow> bool \<Rightarrow>
     64 word \<Rightarrow> reply_markup option \<Rightarrow> json result" where
  "send_video_tree cid v caption disable_notification reply_to markup = run_stmts
     [put_chat cid,
      put_string ''video'' (video_file_id v),
      only_if (video_duration v \<noteq> 0) (put_int ''duration'' (video_duration v)),
      only_if (video_duration v \<noteq> 0) (put_int ''width'' (video_width v)),
      only_if (video_duration v \<noteq> 0) (put_int ''height'' (video_height v)),
      only_if (caption \<noteq> []) (put_string ''caption'' caption),
      only_if disable_notification (put_bool ''disable_notification'' True),
      only_if (reply_to \<noteq> reply_to_message_id_none) (put_int ''reply_to_message_id'' reply_to),
      if_some markup reply_markup_get] JNull"

definition send_video ::
    "network \<Rightarrow> sender \<Rightarrow> chat_ref \<Rightarrow> video \<Rightarrow> string \<Rightarrow>
     bool \<Rightarrow> 64 word \<Rightarrow> reply_markup option \<Rightarrow> message option api" where
  "send_video net s cid v caption disable_notification reply_to markup =
     api_bind (api_lift (send_video_tree cid v caption disable_notification reply_to markup))
       (send_json_and_parse net s (make_optional_from_json message_from_json) ''sendVideo'')"

definition send_video_body ::
    "chat_ref \<times> video \<times> string \<times> bool \<times>
     64 word \<times> reply_markup option \<Rightarrow> json" where
  "send_video_body = (\<lambda>(cid, v, caption, disable_notification, reply_to, markup). mk_object
     [(''chat_id'', Some (chat_json cid)),
      (''video'', Some (JString (video_file_id v))),
      (''duration'', given (video_duration v \<noteq> 0) (JInt (video_duration v))),
      (''width'', given (video_duration v \<noteq> 0) (JInt (video_width v))),
      (''height'', given (video_duration v \<noteq> 0) (JInt (video_height v))),
      (''caption'', given (caption \<noteq> []) (JString caption)),
      (''disable_notification'', given disable_notification (JBool True)),
      (''reply_to_message_id'', given (reply_to \<noteq> reply_to_message_id_none) (JInt reply_to)),
      (''reply_markup'', map_option reply_markup_json markup)])"

lemma send_video_tree_body: 
  "send_video_tree cid v caption disable_notification reply_to markup =
     Inr (send_video_body (cid, v, caption, disable_notification, reply_to, markup))"
  unfolding send_video_tree_def send_video_body_def prod.case
  by (rule fills_object) (rule request_intros | simp)+

interpretation send_video_call: api_method
  "\<lambda>net s (cid, v, caption, disable_notification, reply_to, markup). send_video net s cid v caption disable_notification reply_to markup"
  "\<lambda>_. True" "''sendVideo''" send_video_body
  "read_reply (make_optional_from_json message_from_json)"
  by unfold_locales
    (auto simp: send_video_def send_video_tree_body send_video_body_def call_defs)

definition send_voice_tree ::
    "chat_ref \<Rightarrow> voice \<Rightarrow> string \<Rightarrow> bool \<Rightarrow>
     64 word \<Rightarrow> reply_markup option \<Rightarrow> json result" where
  "send_voice_tree cid v caption disable_notification reply_to markup = run_stmts
     [put_chat cid,
      put_string ''voice'' (voice_file_id v),
      only_if (caption \<noteq> []) (put_string ''caption'' caption),
      only_if (voice_duration v \<noteq> 0) (put_int ''duration'' (voice_duration v)),
      only_if disable_notification (put_bool ''disable_notification'' True),
      only_if (reply_to \<noteq> reply_to_message_id_none) (put_int ''reply_to_message_id'' reply_to),
      if_some markup reply_markup_get] JNull"

definition send_voice ::
    "network \<Rightarrow> sender \<Rightarrow> chat_ref \<Rightarrow> voice \<Rightarrow> string \<Rightarrow>
     bool \<Rightarrow> 64 word \<Rightarrow> reply_markup option \<Rightarrow> message option api" where
  "send_voice net s cid v caption disable_notification reply_to markup =
     api_bind (api_lift (send_voice_tree cid v caption disable_notification reply_to markup))
       (send_json_and_parse net s (make_optional_from_json message_from_json) ''sendVoice'')"

definition send_voice_body ::
    "chat_ref \<times> voice \<times> string \<times> bool \<times>
     64 word \<times> reply_markup option \<Rightarrow> json" where
  "send_voice_body = (\<lambda>(cid, v, caption, disable_notification, reply_to, markup). mk_object
     [(''chat_id'', Some (chat_json cid)),
      (''voice'', Some (JString (voice_file_id v))),
      (''caption'', given (caption \<noteq> []) (JString caption)),
      (''duration'', given (voice_duration v \<noteq> 0) (JInt (voice_duration v))),
      (''disable_notification'', given disable_notification (JBool True)),
      (''reply_to_message_id'', given (reply_to \<noteq> reply_to_message_id_none) (JInt reply_to)),
      (''reply_markup'', map_option reply_markup_json markup)])"

lemma send_voice_tree_body: 
  "send_voice_tree cid v caption disable_notification reply_to markup =
     Inr (send_voice_body (cid, v, caption, disable_notification, reply_to, markup))"
  unfolding send_voice_tree_def send_voice_body_def prod.case
  by (rule fills_object) (rule request_intros | simp)+

interpretation send_voice_call: api_method
  "\<lambda>net s (cid, v, caption, disable_notification, reply_to, markup). send_voice net s cid v caption disable_notification reply_to markup"
  "\<lambda>_. True" "''sendVoice''" send_voice_body
  "read_reply (make_optional_from_json message_from_json)"
  by unfold_locales
    (auto simp: send_voice_def send_voice_tree_body send_voice_body_def call_defs)

definition send_video_note_tree ::
    "chat_ref \<Rightarrow> video_note \<Rightarrow> bool \<Rightarrow>
     64 word \<Rightarrow> reply_markup option \<Rightarrow> json result" where
  "send_video_note_tree cid v disable_notification reply_to markup = run_stmts
     [put_chat cid,
      put_string ''video_note'' (video_note_file_id v),
      only_if (video_note_duration v \<noteq> 0) (put_int ''duration'' (video_note_duration v)),
      only_if (video_note_length v \<noteq> 0) (put_int ''length'' (video_note_length v)),
      only_if disable_notification (put_bool ''disable_notification'' True),
      only_if (reply_to \<noteq> reply_to_message_id_none) (put_int ''reply_to_message_id'' reply_to),
      if_some markup reply_markup_get] JNull"

definition send_video_note ::
    "network \<Rightarrow> sender \<Rightarrow> chat_ref \<Rightarrow> video_note \<Rightarrow>
     bool \<Rightarrow> 64 word \<Rightarrow> reply_markup option \<Rightarrow> message option api" where
  "send_video_note net s cid v disable_notification reply_to markup =
     api_bind (api_lift (send_video_note_tree cid v disable_notification reply_to markup))
       (send_json_and_parse net s (make_optional_from_json message_from_json) ''sendVideoNote'')"

definition send_video_note_body ::
    "chat_ref \<times> video_note \<times> bool \<times>
     64 word \<times> reply_markup option \<Rightarrow> json" where
  "send_video_note_body = (\<lambda>(cid, v, disable_notification, reply_to, markup). mk_object
     [(''chat_id'', Some (chat_json cid)),
      (''video_note'', Some (JString (video_note_file_id v))),
      (''duration'', given (video_note_duration v \<noteq> 0) (JInt (video_note_duration v))),
      (''length'', given (video_note_length v \<noteq> 0) (JInt (video_note_length v))),
      (''disable_notification'', given disable_notification (JBool True)),
      (''reply_to_message_id'', given (reply_to \<noteq> reply_to_message_id_none) (JInt reply_to)),
      (''reply_markup'', map_option reply_markup_json markup)])"

lemma send_video_note_tree_body: 
  "send_video_note_tree cid v disable_notification reply_to markup =
     Inr (send_video_note_body (cid, v, disable_notification, reply_to, markup))"
  unfolding send_video_note_tree_def send_video_note_body_def prod.case
  by (rule fills_object) (rule request_intros | simp)+

interpretation send_video_note_call: api_method
  "\<lambda>net s (cid, v, disable_notification, reply_to, markup). send_video_note net s cid v disable_notification reply_to markup"
  "\<lambda>_. True" "''sendVideoNote''" send_video_note_body
  "read_reply (make_optional_from_json message_from_json)"
  by unfold_locales
    (auto simp: send_video_note_def send_video_note_tree_body send_video_note_body_def call_defs)

definition send_sticker_tree ::
    "chat_ref \<Rightarrow> sticker \<Rightarrow> bool \<Rightarrow>
     64 word \<Rightarrow> reply_markup option \<Rightarrow> json result" where
  "send_sticker_tree cid k disable_notification reply_to markup = run_stmts
     [put_chat cid,
      put_string ''sticker'' (sticker_file_id k),
      only_if disable_notification (put_bool ''disable_notification'' True),
      only_if (reply_to \<noteq> reply_to_message_id_none) (put_int ''reply_to_message_id'' reply_to),
      if_some markup reply_markup_get] JNull"

definition send_sticker ::
    "network \<Rightarrow> sender \<Rightarrow> chat_ref \<Rightarrow> sticker \<Rightarrow>
     bool \<Rightarrow> 64 word \<Rightarrow> reply_markup option \<Rightarrow> message option api" where
  "send_sticker net s cid k disable_notification reply_to markup =
     api_bind (api_lift (send_sticker_tree cid k disable_notification reply_to markup))
       (send_json_and_parse net s (make_optional_from_json message_from_json) ''sendSticker'')"

definition send_sticker_body ::
    "chat_ref \<times> sticker \<times> bool \<times>
     64 word \<times> reply_markup option \<Rightarrow> json" where
  "send_sticker_body = (\<lambda>(cid, k, disable_notification, reply_to, markup). mk_object
     [(''chat_id'', Some (chat_json cid)),
      (''sticker'', Some (JString (sticker_file_id k))),
      (''disable_notification'', given disable_notification (JBool True)),
      (''reply_to_message_id'', given (reply_to \<noteq> reply_to_message_id_none) (JInt reply_to)),
      (''reply_markup'', map_option reply_markup_json markup)])"

lemma send_sticker_tree_body: 
  "send_sticker_tree cid k disable_notification reply_to markup =
     Inr (send_sticker_body (cid, k, disable_notification, reply_to, markup))"
  unfolding send_sticker_tree_def send_sticker_body_def prod.case
  by (rule fills_object) (rule request_intros | simp)+

interpretation send_sticker_call: api_method
  "\<lambda>net s (cid, k, disable_notification, reply_to, markup). send_sticker net s cid k disable_notification reply_to markup"
  "\<lambda>_. True" "''sendSticker''" send_sticker_body
  "read_reply (make_optional_from_json message_from_json)"
  by unfold_locales
    (auto simp: send_sticker_def send_sticker_tree_body send_sticker_body_def call_defs)

definition send_location_tree ::
    "chat_ref \<Rightarrow> location \<Rightarrow> 64 word \<Rightarrow> bool \<Rightarrow>
     64 word \<Rightarrow> reply_markup option \<Rightarrow> json result" where
  "send_location_tree cid l live_period disable_notification reply_to markup = run_stmts
     [put_chat cid,
      put_real ''latitude'' (location_latitude l),
      put_real ''longitude'' (location_longitude l),
      only_if (live_period \<noteq> live_location_period_none) (put_int ''live_period'' live_period),
      only_if disable_notification (put_bool ''disable_notification'' True),
      only_if (reply_to \<noteq> reply_to_message_id_none) (put_int ''reply_to_message_id'' reply_to),
      if_some markup reply_markup_get] JNull"

definition send_location ::
    "network \<Rightarrow> sender \<Rightarrow> chat_ref \<Rightarrow> location \<Rightarrow> 64 word \<Rightarrow>
     bool \<Rightarrow> 64 word \<Rightarrow> reply_markup option \<Rightarrow> message option api" where
  "send_location net s cid l live_period disable_notification reply_to markup =
     api_bind (api_lift (send_location_tree cid l live_period disable_notification reply_to markup))
       (send_json_and_parse net s (make_optional_from_json message_from_json) ''sendLocation'')"

definition send_location_body ::
    "chat_ref \<times> location \<times> 64 word \<times> bool \<times>
     64 word \<times> reply_markup option \<Rightarrow> json" where
  "send_location_body = (\<lambda>(cid, l, live_period, disable_notification, reply_to, markup). mk_object
     [(''chat_id'', Some (chat_json cid)),
      (''latitude'', Some (JReal (location_latitude l))),
      (''longitude'', Some (JReal (location_longitude l))),
      (''live_period'', given (live_period \<noteq> live_location_period_none) (JInt live_period)),
      (''disable_notification'', given disable_notification (JBool True)),
      (''reply_to_message_id'', given (reply_to \<noteq> reply_to_message_id_none) (JInt reply_to)),
      (''reply_markup'', map_option reply_markup_json markup)])"

lemma send_location_tree_body: 
  "send_location_tree cid l live_period disable_notification reply_to markup =
     Inr (send_location_body (cid, l, live_period, disable_notification, reply_to, markup))"
  unfolding send_location_tree_def send_location_body_def prod.case
  by (rule fills_object) (rule request_intros | simp)+

interpretation send_location_call: api_method
  "\<lambda>net s (cid, l, live_period, disable_notification, reply_to, markup). send_location net s cid l live_period disable_notification reply_to markup"
  "\<lambda>_. True" "''sendLocation''" send_location_body
  "read_reply (make_optional_from_json message_from_json)"
  by unfold_locales
    (auto simp: send_location_def send_location_tree_body send_location_body_def call_defs)

definition send_venue_tree ::
    "chat_ref \<Rightarrow> location \<Rightarrow> string \<Rightarrow> string \<Rightarrow> string \<Rightarrow>
     bool \<Rightarrow> 64 word \<Rightarrow> reply_markup option \<Rightarrow> json result" where
  "send_venue_tree cid l title address foursquare_id disable_notification reply_to markup = run_stmts
     [put_chat cid,
      put_real ''latitude'' (location_latitude l),
      put_real ''longitude'' (location_longitude l),
      put_string ''title'' title,
      put_string ''address'' address,
      only_if (foursquare_id \<noteq> []) (put_string ''foursquare_id'' foursquare_id),
      only_if disable_notification (put_bool ''disable_notification'' True),
      only_if (reply_to \<noteq> reply_to_message_id_none) (put_int ''reply_to_message_id'' reply_to),
      if_some markup reply_markup_get] JNull"

definition send_venue ::
    "network \<Rightarrow> sender \<Rightarrow> chat_ref \<Rightarrow> location \<Rightarrow> string \<Rightarrow> string \<Rightarrow>
     string \<Rightarrow> bool \<Rightarrow> 64 word \<Rightarrow> reply_markup option \<Rightarrow> message option api" where
  "send_venue net s cid l title address foursquare_id disable_notification reply_to markup =
     api_bind (api_lift (send_venue_tree cid l title address foursquare_id disable_notification reply_to markup))
       (send_json_and_parse net s (make_optional_from_json message_from_json) ''sendVenue'')"

definition send_venue_body ::
    "chat_ref \<times> location \<times> string \<times> string \<times> string \<times>
     bool \<times> 64 word \<times> reply_markup option \<Rightarrow> json" where
  "send_venue_body = (\<lambda>(cid, l, title, address, foursquare_id, disable_notification, reply_to, markup). mk_object
     [(''chat_id'', Some (chat_json cid)),
      (''latitude'', Some (JReal (location_latitude l))),
      (''longitude'', Some (JReal (location_longitude l))),
      (''title'', Some (JString title)),
      (''address'', Some (JString address)),
      (''foursquare_id'', given (foursquare_id \<noteq> []) (JString foursquare_id)),
      (''disable_notification'', given disable_notification (JBool True)),
      (''reply_to_message_id'', given (reply_to \<noteq> reply_to_message_id_none) (JInt reply_to)),
      (''reply_markup'', map_option reply_markup_json markup)])"

lemma send_venue_tree_body: 
  "send_venue_tree cid l title address foursquare_id disable_notification reply_to markup =
     Inr (send_venue_body (cid, l, title, address, foursquare_id, disable_notification, reply_to, markup))"
  unfolding send_venue_tree_def send_venue_body_def prod.case
  by (rule fills_object) (rule request_intros | simp)+

interpretation send_venue_call: api_method
  "\<lambda>net s (cid, l, title, address, foursquare_id, disable_notification, reply_to, markup). send_venue net s cid l title address foursquare_id disable_notification reply_to markup"
  "\<lambda>_. True" "''sendVenue''" send_venue_body
  "read_reply (make_optional_from_json message_from_json)"
  by unfold_locales
    (auto simp: send_venue_def send_venue_tree_body send_venue_body_def call_defs)

definition send_contact_tree ::
    "chat_ref \<Rightarrow> contact \<Rightarrow> bool \<Rightarrow>
     64 word \<Rightarrow> reply_markup option \<Rightarrow> json result" where
  "send_contact_tree cid c disable_notification reply_to markup = run_stmts
     [put_chat cid,
      put_string ''phone_number'' (contact_phone_number c),
      put_string ''first_name'' (contact_first_name c),
      if_some (contact_last_name c) (put_string ''last_name''),
      only_if disable_notification (put_bool ''disable_notification'' True),
      only_if (reply_to \<noteq> reply_to_message_id_none) (put_int ''reply_to_message_id'' reply_to),
      if_some markup reply_markup_get] JNull"

definition send_contact ::
    "network \<Rightarrow> sender \<Rightarrow> chat_ref \<Rightarrow> contact \<Rightarrow>
     bool \<Rightarrow> 64 word \<Rightarrow> reply_markup option \<Rightarrow> message option api" where
  "send_contact net s cid c disable_notification reply_to markup =
     api_bind (api_lift (send_contact_tree cid c disable_notification reply_to markup))
       (send_json_and_parse net s (make_optional_from_json message_from_json) ''sendContact'')"

definition send_contact_body ::
    "chat_ref \<times> contact \<times> bool \<times>
     64 word \<times> reply_markup option \<Rightarrow> json" where
  "send_contact_body = (\<lambda>(cid, c, disable_notification, reply_to, markup). mk_object
     [(''chat_id'', Some (chat_json cid)),
      (''phone_number'', Some (JString (contact_phone_number c))),
      (''first_name'', Some (JString (contact_first_name c))),
      (''last_name'', map_option JString (contact_last_name c)),
      (''disable_notification'', given disable_notification (JBool True)),
      (''reply_to_message_id'', given (reply_to \<noteq> reply_to_message_id_none) (JInt reply_to)),
      (''reply_markup'', map_option reply_markup_json markup)])"

lemma send_contact_tree_body: 
  "send_contact_tree cid c disable_notification reply_to markup =
     Inr (send_contact_body (cid, c, disable_notification, reply_to, markup))"
  unfolding send_contact_tree_def send_contact_body_def prod.case
  by (rule fills_object) (rule request_intros | simp)+

interpretation send_contact_call: api_method
  "\<lambda>net s (cid, c, disable_notification, reply_to, markup). send_contact net s cid c disable_notification reply_to markup"
  "\<lambda>_. True" "''sendContact''" send_contact_body
  "read_reply (make_optional_from_json message_from_json)"
  by unfold_locales
    (auto simp: send_contact_def send_contact_tree_body send_contact_body_def call_defs)

subsection \<open>Properties\<close>

text \<open>C21: Each function that sends a file, a place or a contact, or forwards a message, makes exactly one
  request, to its own method, whose body is the object with the members listed in its \<open>_body\<close>: the
  required ones always, an optional one exactly when its condition holds, whatever the arguments.\<close>

theorem sending_requests:
  assumes "list_all path_char token"
  shows "snd (forward_message net (sender_new no_ssl token ua)
        cid from_chat mid notification hist) =
      hist @ posted_request no_ssl token ''forwardMessage'' 30
        (forward_message_body (cid, from_chat, mid, notification)) \<and>
    snd (send_photo net (sender_new no_ssl token ua)
        cid photo caption disable_notification reply_to markup hist) =
      hist @ posted_request no_ssl token ''sendPhoto'' 30
        (send_photo_body (cid, photo, caption, disable_notification, reply_to, markup)) \<and>
    snd (send_audio net (sender_new no_ssl token ua)
        cid a caption disable_notification reply_to markup hist) =
      hist @ posted_request no_ssl token ''sendAudio'' 30
        (send_audio_body (cid, a, caption, disable_notification, reply_to, markup)) \<and>
    snd (send_document net (sender_new no_ssl token ua)
        cid d caption disable_notification reply_to markup hist) =
      hist @ posted_request no_ssl token ''sendDocument'' 30
        (send_document_body (cid, d, caption, disable_notification, reply_to, markup)) \<and>
    snd (send_video net (sender_new no_ssl token ua)
        cid v caption disable_notification reply_to markup hist) =
      hist @ posted_request no_ssl token ''sendVideo'' 30
        (send_video_body (cid, v, caption, disable_notification, reply_to, markup)) \<and>
    snd (send_voice net (sender_new no_ssl token ua)
        cid v' caption disable_notification reply_to markup hist) =
      hist @ posted_request no_ssl token ''sendVoice'' 30
        (send_voice_body (cid, v', caption, disable_notification, reply_to, markup)) \<and>
    snd (send_video_note net (sender_new no_ssl token ua)
        cid v'' disable_notification reply_to markup hist) =
      hist @ posted_request no_ssl token ''sendVideoNote'' 30
        (send_video_note_body (cid, v'', disable_notification, reply_to, markup)) \<and>
    snd (send_sticker net (sender_new no_ssl token ua)
        cid k disable_notification reply_to markup hist) =
      hist @ posted_request no_ssl token ''sendSticker'' 30
        (send_sticker_body (cid, k, disable_notification, reply_to, markup)) \<and>
    snd (send_location net (sender_new no_ssl token ua)
        cid l live_period disable_notification reply_to markup hist) =
      hist @ posted_request no_ssl token ''sendLocation'' 30
        (send_location_body (cid, l, live_period, disable_notification, reply_to, markup)) \<and>
    snd (send_venue net (sender_new no_ssl token ua)
        cid l title address foursquare_id disable_notification reply_to markup hist) =
      hist @ posted_request no_ssl token ''sendVenue'' 30
        (send_venue_body (cid, l, title, address, foursquare_id, disable_notification, reply_to, markup)) \<and>
    snd (send_contact net (sender_new no_ssl token ua)
        cid c disable_notification reply_to markup hist) =
      hist @ posted_request no_ssl token ''sendContact'' 30
        (send_contact_body (cid, c, disable_notification, reply_to, markup))"
  using forward_message_call.request_log [OF TrueI assms, of net no_ssl ua
      "(cid, from_chat, mid, notification)" hist]
    send_photo_call.request_log [OF TrueI assms, of net no_ssl ua
      "(cid, photo, caption, disable_notification, reply_to, markup)" hist]
    send_audio_call.request_log [OF TrueI assms, of net no_ssl ua
      "(cid, a, caption, disable_notification, reply_to, markup)" hist]
    send_document_call.request_log [OF TrueI assms, of net no_ssl ua
      "(cid, d, caption, disable_notification, reply_to, markup)" hist]
    send_video_call.request_log [OF TrueI assms, of net no_ssl ua
      "(cid, v, caption, disable_notification, reply_to, markup)" hist]
    send_voice_call.request_log [OF TrueI assms, of net no_ssl ua
      "(cid, v', caption, disable_notification, reply_to, markup)" hist]
    send_video_note_call.request_log [OF TrueI assms, of net no_ssl ua
      "(cid, v'', disable_notification, reply_to, markup)" hist]
    send_sticker_call.request_log [OF TrueI assms, of net no_ssl ua
      "(cid, k, disable_notification, reply_to, markup)" hist]
    send_location_call.request_log [OF TrueI assms, of net no_ssl ua
      "(cid, l, live_period, disable_notification, reply_to, markup)" hist]
    send_venue_call.request_log [OF TrueI assms, of net no_ssl ua
      "(cid, l, title, address, foursquare_id, disable_notification, reply_to, markup)" hist]
    send_contact_call.request_log [OF TrueI assms, of net no_ssl ua
      "(cid, c, disable_notification, reply_to, markup)" hist]
  by simp

theorem sending_requests_witness:
  "\<exists>body. snd (send_location echo_network (sender_new False ''42:ab'' ''Bot'') (Chat_number 7)
      \<lparr>location_latitude = 0, location_longitude = 0\<rparr> 60 False (- 1) None []) =
     [api_request False ''42:ab'' ''sendLocation'' 30 body]"
proof -
  let ?l = "\<lparr>location_latitude = 0, location_longitude = 0\<rparr>"
  have plain: "list_all path_char ''42:ab''" by code_simp
  have "utf8_json (send_location_body (Chat_number 7, ?l, 60, False, - 1, None))"
    by (simp add: send_location_body_def utf8_json_simps)
  then obtain body where "posted_request False ''42:ab'' ''sendLocation'' 30
      (send_location_body (Chat_number 7, ?l, 60, False, - 1, None)) = [api_request False ''42:ab'' ''sendLocation'' 30 body]"
    by (rule posted_one)
  with sending_requests [OF plain, where net = echo_network and no_ssl = False and ua = "''Bot''" and hist = "[]" and
      cid = "Chat_number 7" and l = ?l and live_period = 60 and disable_notification = False and
      reply_to = "- 1" and markup = None]
  have "snd (send_location echo_network (sender_new False ''42:ab'' ''Bot'') (Chat_number 7)
      ?l 60 False (- 1) None []) =
      [api_request False ''42:ab'' ''sendLocation'' 30 body]" by simp
  then show ?thesis by blast
qed

text \<open>\<open>send_video\<close> tests the duration before it writes the width and the height: for a video whose
  duration is not known (zero) the dimensions the caller gave are never sent, whatever they are, while
  with a duration both are sent, zero included.\<close>

lemma send_video_dimensions_need_duration:
  "send_video net s cid (v\<lparr>video_duration := 0, video_width := w, video_height := h\<rparr>) caption
     disable_notification reply_to markup =
   send_video net s cid (v\<lparr>video_duration := 0\<rparr>) caption disable_notification reply_to markup \<and>
   json_get (send_video_body (cid, v\<lparr>video_duration := 0\<rparr>, caption, disable_notification, reply_to, markup))
     ''width'' = None \<and>
   json_get (send_video_body (cid, v\<lparr>video_duration := 1, video_width := w\<rparr>, caption,
     disable_notification, reply_to, markup)) ''width'' = Some (JInt w)"
  by (simp add: send_video_def send_video_tree_body send_video_body_def)

end
