(* ===== verification/Requests_Edit.thy ===== *)
theory Requests_Edit
  imports Calls
begin

section \<open>Editing and deleting\<close>

text \<open>
  The functions of \<open>class sender\<close> that edit or delete a message; the overloads for inline messages are
  named \<open>_inline_\<close>. The layout is that of \<open>Requests_Send\<close>.
\<close>

definition edit_message_text_tree ::
    "string \<Rightarrow> chat_ref \<Rightarrow> 64 word \<Rightarrow> parse_mode \<Rightarrow>
     web_preview_mode \<Rightarrow> reply_markup option \<Rightarrow> json result" where
  "edit_message_text_tree content cid mid parse preview markup = run_stmts
     [put_chat cid,
      put_int ''message_id'' mid,
      put_string ''text'' content,
      put_edit_parse_mode parse,
      put_edit_preview preview,
      if_some markup reply_markup_get] JNull"

definition edit_message_text ::
    "network \<Rightarrow> sender \<Rightarrow> string \<Rightarrow> chat_ref \<Rightarrow> 64 word \<Rightarrow>
     parse_mode \<Rightarrow> web_preview_mode \<Rightarrow> reply_markup option \<Rightarrow> message option api" where
  "edit_message_text net s content cid mid parse preview markup =
     (if content = [] then api_lift (Inr None)
      else api_bind (api_lift (edit_message_text_tree content cid mid parse preview markup))
       (send_json_and_parse net s (make_optional_from_json message_from_json) ''editMessageText''))"

definition edit_message_text_body ::
    "string \<times> chat_ref \<times> 64 word \<times> parse_mode \<times>
     web_preview_mode \<times> reply_markup option \<Rightarrow> json" where
  "edit_message_text_body = (\<lambda>(content, cid, mid, parse, preview, markup). mk_object
     [(''chat_id'', Some (chat_json cid)),
      (''message_id'', Some (JInt mid)),
      (''text'', Some (JString content)),
      (''parse_mode'', edit_parse_json parse),
      (''disable_web_page_preview'', edit_preview_json preview),
      (''reply_markup'', map_option reply_markup_json markup)])"

lemma edit_message_text_tree_body: 
  "edit_message_text_tree content cid mid parse preview markup =
     Inr (edit_message_text_body (content, cid, mid, parse, preview, markup))"
  unfolding edit_message_text_tree_def edit_message_text_body_def prod.case
  by (rule fills_object) (rule request_intros | simp)+

interpretation edit_message_text_call: api_method
  "\<lambda>net s (content, cid, mid, parse, preview, markup). edit_message_text net s content cid mid parse preview markup"
  "\<lambda>(content, cid, mid, parse, preview, markup). content \<noteq> []" "''editMessageText''" edit_message_text_body
  "read_reply (make_optional_from_json message_from_json)"
  by unfold_locales
    (auto simp: edit_message_text_def edit_message_text_tree_body edit_message_text_body_def call_defs)

definition edit_inline_message_text_tree ::
    "string \<Rightarrow> string \<Rightarrow> parse_mode \<Rightarrow>
     web_preview_mode \<Rightarrow> reply_markup option \<Rightarrow> json result" where
  "edit_inline_message_text_tree content inline_id parse preview markup = run_stmts
     [put_string ''inline_message_id'' inline_id,
      put_string ''text'' content,
      put_edit_parse_mode parse,
      put_edit_preview preview,
      if_some markup reply_markup_get] JNull"

definition edit_inline_message_text ::
    "network \<Rightarrow> sender \<Rightarrow> string \<Rightarrow> string \<Rightarrow>
     parse_mode \<Rightarrow> web_preview_mode \<Rightarrow> reply_markup option \<Rightarrow> bool api" where
  "edit_inline_message_text net s content inline_id parse preview markup =
     (if content = [] then api_lift (Inr False)
      else api_bind (api_lift (edit_inline_message_text_tree content inline_id parse preview markup))
       (send_json_and_get_bool net s ''editMessageText''))"

definition edit_inline_message_text_body ::
    "string \<times> string \<times> parse_mode \<times>
     web_preview_mode \<times> reply_markup option \<Rightarrow> json" where
  "edit_inline_message_text_body = (\<lambda>(content, inline_id, parse, preview, markup). mk_object
     [(''inline_message_id'', Some (JString inline_id)),
      (''text'', Some (JString content)),
      (''parse_mode'', edit_parse_json parse),
      (''disable_web_page_preview'', edit_preview_json preview),
      (''reply_markup'', map_option reply_markup_json markup)])"

lemma edit_inline_message_text_tree_body: 
  "edit_inline_message_text_tree content inline_id parse preview markup =
     Inr (edit_inline_message_text_body (content, inline_id, parse, preview, markup))"
  unfolding edit_inline_message_text_tree_def edit_inline_message_text_body_def prod.case
  by (rule fills_object) (rule request_intros | simp)+

interpretation edit_inline_message_text_call: api_method
  "\<lambda>net s (content, inline_id, parse, preview, markup). edit_inline_message_text net s content inline_id parse preview markup"
  "\<lambda>(content, inline_id, parse, preview, markup). content \<noteq> []" "''editMessageText''" edit_inline_message_text_body
  read_bool_reply
  by unfold_locales
    (auto simp: edit_inline_message_text_def edit_inline_message_text_tree_body edit_inline_message_text_body_def call_defs)

definition edit_message_caption_tree ::
    "chat_ref \<Rightarrow> 64 word \<Rightarrow> string \<Rightarrow> reply_markup option \<Rightarrow> json result" where
  "edit_message_caption_tree cid mid caption markup = run_stmts
     [put_chat cid,
      put_int ''message_id'' mid,
      put_string ''caption'' caption,
      if_some markup reply_markup_get] JNull"

definition edit_message_caption ::
    "network \<Rightarrow> sender \<Rightarrow> chat_ref \<Rightarrow> 64 word \<Rightarrow>
     string \<Rightarrow> reply_markup option \<Rightarrow> message option api" where
  "edit_message_caption net s cid mid caption markup =
     api_bind (api_lift (edit_message_caption_tree cid mid caption markup))
       (send_json_and_parse net s (make_optional_from_json message_from_json) ''editMessageCaption'')"

definition edit_message_caption_body :: "chat_ref \<times> 64 word \<times> string \<times> reply_markup option \<Rightarrow> json" where
  "edit_message_caption_body = (\<lambda>(cid, mid, caption, markup). mk_object
     [(''chat_id'', Some (chat_json cid)),
      (''message_id'', Some (JInt mid)),
      (''caption'', Some (JString caption)),
      (''reply_markup'', map_option reply_markup_json markup)])"

lemma edit_message_caption_tree_body: 
  "edit_message_caption_tree cid mid caption markup =
     Inr (edit_message_caption_body (cid, mid, caption, markup))"
  unfolding edit_message_caption_tree_def edit_message_caption_body_def prod.case
  by (rule fills_object) (rule request_intros | simp)+

interpretation edit_message_caption_call: api_method
  "\<lambda>net s (cid, mid, caption, markup). edit_message_caption net s cid mid caption markup"
  "\<lambda>_. True" "''editMessageCaption''" edit_message_caption_body
  "read_reply (make_optional_from_json message_from_json)"
  by unfold_locales
    (auto simp: edit_message_caption_def edit_message_caption_tree_body edit_message_caption_body_def call_defs)

definition edit_inline_message_caption_tree ::
    "string \<Rightarrow> string \<Rightarrow> reply_markup option \<Rightarrow> json result" where
  "edit_inline_message_caption_tree inline_id caption markup = run_stmts
     [put_string ''inline_message_id'' inline_id,
      put_string ''caption'' caption,
      if_some markup reply_markup_get] JNull"

definition edit_inline_message_caption ::
    "network \<Rightarrow> sender \<Rightarrow> string \<Rightarrow>
     string \<Rightarrow> reply_markup option \<Rightarrow> bool api" where
  "edit_inline_message_caption net s inline_id caption markup =
     api_bind (api_lift (edit_inline_message_caption_tree inline_id caption markup))
       (send_json_and_get_bool net s ''editMessageCaption'')"

definition edit_inline_message_caption_body :: "string \<times> string \<times> reply_markup option \<Rightarrow> json" where
  "edit_inline_message_caption_body = (\<lambda>(inline_id, caption, markup). mk_object
     [(''inline_message_id'', Some (JString inline_id)),
      (''caption'', Some (JString caption)),
      (''reply_markup'', map_option reply_markup_json markup)])"

lemma edit_inline_message_caption_tree_body: 
  "edit_inline_message_caption_tree inline_id caption markup =
     Inr (edit_inline_message_caption_body (inline_id, caption, markup))"
  unfolding edit_inline_message_caption_tree_def edit_inline_message_caption_body_def prod.case
  by (rule fills_object) (rule request_intros | simp)+

interpretation edit_inline_message_caption_call: api_method
  "\<lambda>net s (inline_id, caption, markup). edit_inline_message_caption net s inline_id caption markup"
  "\<lambda>_. True" "''editMessageCaption''" edit_inline_message_caption_body
  read_bool_reply
  by unfold_locales
    (auto simp: edit_inline_message_caption_def edit_inline_message_caption_tree_body edit_inline_message_caption_body_def call_defs)

definition edit_message_reply_markup_tree ::
    "chat_ref \<Rightarrow> 64 word \<Rightarrow> reply_markup \<Rightarrow> json result" where
  "edit_message_reply_markup_tree cid mid markup = run_stmts
     [put_chat cid,
      put_int ''message_id'' mid,
      reply_markup_get markup] JNull"

definition edit_message_reply_markup ::
    "network \<Rightarrow> sender \<Rightarrow> chat_ref \<Rightarrow>
     64 word \<Rightarrow> reply_markup \<Rightarrow> message option api" where
  "edit_message_reply_markup net s cid mid markup =
     api_bind (api_lift (edit_message_reply_markup_tree cid mid markup))
       (send_json_and_parse net s (make_optional_from_json message_from_json) ''editMessageReplyMarkup'')"

definition edit_message_reply_markup_body :: "chat_ref \<times> 64 word \<times> reply_markup \<Rightarrow> json" where
  "edit_message_reply_markup_body = (\<lambda>(cid, mid, markup). mk_object
     [(''chat_id'', Some (chat_json cid)),
      (''message_id'', Some (JInt mid)),
      (''reply_markup'', Some (reply_markup_json markup))])"

lemma edit_message_reply_markup_tree_body: 
  "edit_message_reply_markup_tree cid mid markup =
     Inr (edit_message_reply_markup_body (cid, mid, markup))"
  unfolding edit_message_reply_markup_tree_def edit_message_reply_markup_body_def prod.case
  by (rule fills_object) (rule request_intros | simp)+

interpretation edit_message_reply_markup_call: api_method
  "\<lambda>net s (cid, mid, markup). edit_message_reply_markup net s cid mid markup"
  "\<lambda>_. True" "''editMessageReplyMarkup''" edit_message_reply_markup_body
  "read_reply (make_optional_from_json message_from_json)"
  by unfold_locales
    (auto simp: edit_message_reply_markup_def edit_message_reply_markup_tree_body edit_message_reply_markup_body_def call_defs)

definition edit_inline_message_reply_markup_tree ::
    "string \<Rightarrow> reply_markup \<Rightarrow> json result" where
  "edit_inline_message_reply_markup_tree inline_id markup = run_stmts
     [put_string ''inline_message_id'' inline_id,
      reply_markup_get markup] JNull"

definition edit_inline_message_reply_markup ::
    "network \<Rightarrow> sender \<Rightarrow> string \<Rightarrow> reply_markup \<Rightarrow> bool api" where
  "edit_inline_message_reply_markup net s inline_id markup =
     api_bind (api_lift (edit_inline_message_reply_markup_tree inline_id markup))
       (send_json_and_get_bool net s ''editMessageReplyMarkup'')"

definition edit_inline_message_reply_markup_body :: "string \<times> reply_markup \<Rightarrow> json" where
  "edit_inline_message_reply_markup_body = (\<lambda>(inline_id, markup). mk_object
     [(''inline_message_id'', Some (JString inline_id)),
      (''reply_markup'', Some (reply_markup_json markup))])"

lemma edit_inline_message_reply_markup_tree_body: 
  "edit_inline_message_reply_markup_tree inline_id markup =
     Inr (edit_inline_message_reply_markup_body (inline_id, markup))"
  unfolding edit_inline_message_reply_markup_tree_def edit_inline_message_reply_markup_body_def prod.case
  by (rule fills_object) (rule request_intros | simp)+

interpretation edit_inline_message_reply_markup_call: api_method
  "\<lambda>net s (inline_id, markup). edit_inline_message_reply_markup net s inline_id markup"
  "\<lambda>_. True" "''editMessageReplyMarkup''" edit_inline_message_reply_markup_body
  read_bool_reply
  by unfold_locales
    (auto simp: edit_inline_message_reply_markup_def edit_inline_message_reply_markup_tree_body edit_inline_message_reply_markup_body_def call_defs)

definition delete_message_tree :: "chat_ref \<Rightarrow> 64 word \<Rightarrow> json result" where
  "delete_message_tree cid mid = run_stmts
     [put_chat cid,
      put_int ''message_id'' mid] JNull"

definition delete_message ::
    "network \<Rightarrow> sender \<Rightarrow> chat_ref \<Rightarrow> 64 word \<Rightarrow> bool api" where
  "delete_message net s cid mid =
     api_bind (api_lift (delete_message_tree cid mid))
       (send_json_and_get_bool net s ''deleteMessage'')"

definition delete_message_body :: "chat_ref \<times> 64 word \<Rightarrow> json" where
  "delete_message_body = (\<lambda>(cid, mid). mk_object
     [(''chat_id'', Some (chat_json cid)),
      (''message_id'', Some (JInt mid))])"

lemma delete_message_tree_body: 
  "delete_message_tree cid mid =
     Inr (delete_message_body (cid, mid))"
  unfolding delete_message_tree_def delete_message_body_def prod.case
  by (rule fills_object) (rule request_intros | simp)+

interpretation delete_message_call: api_method
  "\<lambda>net s (cid, mid). delete_message net s cid mid"
  "\<lambda>_. True" "''deleteMessage''" delete_message_body
  read_bool_reply
  by unfold_locales
    (auto simp: delete_message_def delete_message_tree_body delete_message_body_def call_defs)

definition edit_message_live_location_tree ::
    "chat_ref \<Rightarrow> 64 word \<Rightarrow> location \<Rightarrow>
     inline_keyboard_markup option \<Rightarrow> json result" where
  "edit_message_live_location_tree cid mid l markup = run_stmts
     [put_chat cid,
      put_int ''message_id'' mid,
      put_real ''latitude'' (location_latitude l),
      put_real ''longitude'' (location_longitude l),
      if_some markup inline_keyboard_markup_get] JNull"

definition edit_message_live_location ::
    "network \<Rightarrow> sender \<Rightarrow> chat_ref \<Rightarrow> 64 word \<Rightarrow>
     location \<Rightarrow> inline_keyboard_markup option \<Rightarrow> message option api" where
  "edit_message_live_location net s cid mid l markup =
     api_bind (api_lift (edit_message_live_location_tree cid mid l markup))
       (send_json_and_parse net s (make_optional_from_json message_from_json) ''editMessageLiveLocation'')"

definition edit_message_live_location_body ::
    "chat_ref \<times> 64 word \<times> location \<times>
     inline_keyboard_markup option \<Rightarrow> json" where
  "edit_message_live_location_body = (\<lambda>(cid, mid, l, markup). mk_object
     [(''chat_id'', Some (chat_json cid)),
      (''message_id'', Some (JInt mid)),
      (''latitude'', Some (JReal (location_latitude l))),
      (''longitude'', Some (JReal (location_longitude l))),
      (''reply_markup'', map_option inline_keyboard_json markup)])"

lemma edit_message_live_location_tree_body: 
  "edit_message_live_location_tree cid mid l markup =
     Inr (edit_message_live_location_body (cid, mid, l, markup))"
  unfolding edit_message_live_location_tree_def edit_message_live_location_body_def prod.case
  by (rule fills_object) (rule request_intros | simp)+

interpretation edit_message_live_location_call: api_method
  "\<lambda>net s (cid, mid, l, markup). edit_message_live_location net s cid mid l markup"
  "\<lambda>_. True" "''editMessageLiveLocation''" edit_message_live_location_body
  "read_reply (make_optional_from_json message_from_json)"
  by unfold_locales
    (auto simp: edit_message_live_location_def edit_message_live_location_tree_body edit_message_live_location_body_def call_defs)

definition edit_inline_message_live_location_tree ::
    "string \<Rightarrow> location \<Rightarrow> inline_keyboard_markup option \<Rightarrow> json result" where
  "edit_inline_message_live_location_tree inline_id l markup = run_stmts
     [put_string ''inline_message_id'' inline_id,
      put_real ''latitude'' (location_latitude l),
      put_real ''longitude'' (location_longitude l),
      if_some markup inline_keyboard_markup_get] JNull"

definition edit_inline_message_live_location ::
    "network \<Rightarrow> sender \<Rightarrow> string \<Rightarrow>
     location \<Rightarrow> inline_keyboard_markup option \<Rightarrow> message option api" where
  "edit_inline_message_live_location net s inline_id l markup =
     api_bind (api_lift (edit_inline_message_live_location_tree inline_id l markup))
       (send_json_and_parse net s (make_optional_from_json message_from_json) ''editMessageLiveLocation'')"

definition edit_inline_message_live_location_body :: "string \<times> location \<times> inline_keyboard_markup option \<Rightarrow> json" where
  "edit_inline_message_live_location_body = (\<lambda>(inline_id, l, markup). mk_object
     [(''inline_message_id'', Some (JString inline_id)),
      (''latitude'', Some (JReal (location_latitude l))),
      (''longitude'', Some (JReal (location_longitude l))),
      (''reply_markup'', map_option inline_keyboard_json markup)])"

lemma edit_inline_message_live_location_tree_body: 
  "edit_inline_message_live_location_tree inline_id l markup =
     Inr (edit_inline_message_live_location_body (inline_id, l, markup))"
  unfolding edit_inline_message_live_location_tree_def edit_inline_message_live_location_body_def prod.case
  by (rule fills_object) (rule request_intros | simp)+

interpretation edit_inline_message_live_location_call: api_method
  "\<lambda>net s (inline_id, l, markup). edit_inline_message_live_location net s inline_id l markup"
  "\<lambda>_. True" "''editMessageLiveLocation''" edit_inline_message_live_location_body
  "read_reply (make_optional_from_json message_from_json)"
  by unfold_locales
    (auto simp: edit_inline_message_live_location_def edit_inline_message_live_location_tree_body edit_inline_message_live_location_body_def call_defs)

definition stop_message_live_location_tree ::
    "chat_ref \<Rightarrow> 64 word \<Rightarrow> inline_keyboard_markup option \<Rightarrow> json result" where
  "stop_message_live_location_tree cid mid markup = run_stmts
     [put_chat cid,
      put_int ''message_id'' mid,
      if_some markup inline_keyboard_markup_get] JNull"

definition stop_message_live_location ::
    "network \<Rightarrow> sender \<Rightarrow> chat_ref \<Rightarrow>
     64 word \<Rightarrow> inline_keyboard_markup option \<Rightarrow> message option api" where
  "stop_message_live_location net s cid mid markup =
     api_bind (api_lift (stop_message_live_location_tree cid mid markup))
       (send_json_and_parse net s (make_optional_from_json message_from_json) ''stopMessageLiveLocation'')"

definition stop_message_live_location_body :: "chat_ref \<times> 64 word \<times> inline_keyboard_markup option \<Rightarrow> json" where
  "stop_message_live_location_body = (\<lambda>(cid, mid, markup). mk_object
     [(''chat_id'', Some (chat_json cid)),
      (''message_id'', Some (JInt mid)),
      (''reply_markup'', map_option inline_keyboard_json markup)])"

lemma stop_message_live_location_tree_body: 
  "stop_message_live_location_tree cid mid markup =
     Inr (stop_message_live_location_body (cid, mid, markup))"
  unfolding stop_message_live_location_tree_def stop_message_live_location_body_def prod.case
  by (rule fills_object) (rule request_intros | simp)+

interpretation stop_message_live_location_call: api_method
  "\<lambda>net s (cid, mid, markup). stop_message_live_location net s cid mid markup"
  "\<lambda>_. True" "''stopMessageLiveLocation''" stop_message_live_location_body
  "read_reply (make_optional_from_json message_from_json)"
  by unfold_locales
    (auto simp: stop_message_live_location_def stop_message_live_location_tree_body stop_message_live_location_body_def call_defs)

definition stop_inline_message_live_location_tree ::
    "string \<Rightarrow> inline_keyboard_markup option \<Rightarrow> json result" where
  "stop_inline_message_live_location_tree inline_id markup = run_stmts
     [put_string ''inline_message_id'' inline_id,
      if_some markup inline_keyboard_markup_get] JNull"

definition stop_inline_message_live_location ::
    "network \<Rightarrow> sender \<Rightarrow> string \<Rightarrow>
     inline_keyboard_markup option \<Rightarrow> message option api" where
  "stop_inline_message_live_location net s inline_id markup =
     api_bind (api_lift (stop_inline_message_live_location_tree inline_id markup))
       (send_json_and_parse net s (make_optional_from_json message_from_json) ''stopMessageLiveLocation'')"

definition stop_inline_message_live_location_body :: "string \<times> inline_keyboard_markup option \<Rightarrow> json" where
  "stop_inline_message_live_location_body = (\<lambda>(inline_id, markup). mk_object
     [(''inline_message_id'', Some (JString inline_id)),
      (''reply_markup'', map_option inline_keyboard_json markup)])"

lemma stop_inline_message_live_location_tree_body: 
  "stop_inline_message_live_location_tree inline_id markup =
     Inr (stop_inline_message_live_location_body (inline_id, markup))"
  unfolding stop_inline_message_live_location_tree_def stop_inline_message_live_location_body_def prod.case
  by (rule fills_object) (rule request_intros | simp)+

interpretation stop_inline_message_live_location_call: api_method
  "\<lambda>net s (inline_id, markup). stop_inline_message_live_location net s inline_id markup"
  "\<lambda>_. True" "''stopMessageLiveLocation''" stop_inline_message_live_location_body
  "read_reply (make_optional_from_json message_from_json)"
  by unfold_locales
    (auto simp: stop_inline_message_live_location_def stop_inline_message_live_location_tree_body stop_inline_message_live_location_body_def call_defs)

subsection \<open>Properties\<close>

text \<open>C22: Each function that edits or deletes a message makes exactly one request, to its own method, whose
  body is the object with the members listed in its \<open>_body\<close>: a message in a chat is named by
  \<open>chat_id\<close> and \<open>message_id\<close>, an inline message by \<open>inline_message_id\<close>.\<close>

theorem editing_requests:
  assumes "list_all path_char token"
  shows "snd (edit_message_caption net (sender_new no_ssl token ua)
        cid mid caption markup hist) =
      hist @ posted_request no_ssl token ''editMessageCaption'' 30
        (edit_message_caption_body (cid, mid, caption, markup)) \<and>
    snd (edit_inline_message_caption net (sender_new no_ssl token ua)
        inline_id caption markup hist) =
      hist @ posted_request no_ssl token ''editMessageCaption'' 30
        (edit_inline_message_caption_body (inline_id, caption, markup)) \<and>
    snd (edit_message_reply_markup net (sender_new no_ssl token ua)
        cid mid markup' hist) =
      hist @ posted_request no_ssl token ''editMessageReplyMarkup'' 30
        (edit_message_reply_markup_body (cid, mid, markup')) \<and>
    snd (edit_inline_message_reply_markup net (sender_new no_ssl token ua)
        inline_id markup' hist) =
      hist @ posted_request no_ssl token ''editMessageReplyMarkup'' 30
        (edit_inline_message_reply_markup_body (inline_id, markup')) \<and>
    snd (delete_message net (sender_new no_ssl token ua)
        cid mid hist) =
      hist @ posted_request no_ssl token ''deleteMessage'' 30
        (delete_message_body (cid, mid)) \<and>
    snd (edit_message_live_location net (sender_new no_ssl token ua)
        cid mid l markup'' hist) =
      hist @ posted_request no_ssl token ''editMessageLiveLocation'' 30
        (edit_message_live_location_body (cid, mid, l, markup'')) \<and>
    snd (edit_inline_message_live_location net (sender_new no_ssl token ua)
        inline_id l markup'' hist) =
      hist @ posted_request no_ssl token ''editMessageLiveLocation'' 30
        (edit_inline_message_live_location_body (inline_id, l, markup'')) \<and>
    snd (stop_message_live_location net (sender_new no_ssl token ua)
        cid mid markup'' hist) =
      hist @ posted_request no_ssl token ''stopMessageLiveLocation'' 30
        (stop_message_live_location_body (cid, mid, markup'')) \<and>
    snd (stop_inline_message_live_location net (sender_new no_ssl token ua)
        inline_id markup'' hist) =
      hist @ posted_request no_ssl token ''stopMessageLiveLocation'' 30
        (stop_inline_message_live_location_body (inline_id, markup''))"
  using edit_message_caption_call.request_log [OF TrueI assms, of net no_ssl ua
      "(cid, mid, caption, markup)" hist]
    edit_inline_message_caption_call.request_log [OF TrueI assms, of net no_ssl ua
      "(inline_id, caption, markup)" hist]
    edit_message_reply_markup_call.request_log [OF TrueI assms, of net no_ssl ua
      "(cid, mid, markup')" hist]
    edit_inline_message_reply_markup_call.request_log [OF TrueI assms, of net no_ssl ua
      "(inline_id, markup')" hist]
    delete_message_call.request_log [OF TrueI assms, of net no_ssl ua
      "(cid, mid)" hist]
    edit_message_live_location_call.request_log [OF TrueI assms, of net no_ssl ua
      "(cid, mid, l, markup'')" hist]
    edit_inline_message_live_location_call.request_log [OF TrueI assms, of net no_ssl ua
      "(inline_id, l, markup'')" hist]
    stop_message_live_location_call.request_log [OF TrueI assms, of net no_ssl ua
      "(cid, mid, markup'')" hist]
    stop_inline_message_live_location_call.request_log [OF TrueI assms, of net no_ssl ua
      "(inline_id, markup'')" hist]
  by simp

theorem editing_requests_witness:
  "\<exists>body. snd (delete_message echo_network (sender_new False ''42:ab'' ''Bot'') (Chat_number 7) 12 []) =
     [api_request False ''42:ab'' ''deleteMessage'' 30 body]"
proof -
  have plain: "list_all path_char ''42:ab''" by code_simp
  have "utf8_json (delete_message_body (Chat_number 7, 12))" by code_simp
  then obtain body where "posted_request False ''42:ab'' ''deleteMessage'' 30 (delete_message_body (Chat_number 7, 12)) =
      [api_request False ''42:ab'' ''deleteMessage'' 30 body]"
    by (rule posted_one)
  with editing_requests [OF plain, where net = echo_network and
      no_ssl = False and ua = "''Bot''" and hist = "[]" and cid = "Chat_number 7" and mid = 12]
  have "snd (delete_message echo_network (sender_new False ''42:ab'' ''Bot'') (Chat_number 7) 12 []) =
      [api_request False ''42:ab'' ''deleteMessage'' 30 body]" by simp
  then show ?thesis by blast
qed

text \<open>Editing a message to an empty text sends nothing: the call returns no message (or false)
  without a request. With any other text it makes one request, which, unlike that of \<open>send_message\<close>,
  is not split however long the text is.\<close>

lemma edit_text_requests:
  assumes "list_all path_char token"
  shows "edit_message_text net s [] cid mid parse preview markup hist = (Inr None, hist) \<and>
    edit_inline_message_text net s [] inline_id parse preview markup hist = (Inr False, hist) \<and>
    snd (edit_message_text net (sender_new no_ssl token ua) (c # cs) cid mid parse preview markup hist) =
      hist @ posted_request no_ssl token ''editMessageText'' 30
        (edit_message_text_body (c # cs, cid, mid, parse, preview, markup)) \<and>
    snd (edit_inline_message_text net (sender_new no_ssl token ua) (c # cs) inline_id parse preview
        markup hist) =
      hist @ posted_request no_ssl token ''editMessageText'' 30
        (edit_inline_message_text_body (c # cs, inline_id, parse, preview, markup))"
proof -
  have "case (c # cs, cid, mid, parse, preview, markup) of
      (content, cid, mid, parse, preview, markup) \<Rightarrow> content \<noteq> []"
    and "case (c # cs, inline_id, parse, preview, markup) of
      (content, inline_id, parse, preview, markup) \<Rightarrow> content \<noteq> []"
    by simp_all
  from edit_message_text_call.request_log [OF this(1) assms, of net no_ssl ua hist]
    edit_inline_message_text_call.request_log [OF this(2) assms, of net no_ssl ua hist]
  show ?thesis by (simp add: edit_message_text_def edit_inline_message_text_def api_lift_def)
qed

lemma edit_text_requests_witness:
  "snd (edit_message_text echo_network (sender_new False ''42:ab'' ''Bot'') ''x'' (Chat_number 7) 12
      PARSE_HTML PREVIEW_UNCHANGED None []) =
     posted_request False ''42:ab'' ''editMessageText'' 30
       (edit_message_text_body (''x'', Chat_number 7, 12, PARSE_HTML, PREVIEW_UNCHANGED, None))"
proof -
  have "list_all path_char ''42:ab''" by code_simp
  from edit_text_requests [OF this, where net = echo_network and no_ssl = False and ua = "''Bot''" and
      hist = "[]" and c = "CHR ''x''" and cs = "[]" and cid = "Chat_number 7" and mid = 12 and
      parse = PARSE_HTML and preview = PREVIEW_UNCHANGED and markup = None]
  show ?thesis by simp
qed

text \<open>C40: Editing or stopping the live location of an inline message can not report success. Telegram
  answers such a call with \<open>true\<close> in place of a message; the functions read the answer as a message and
  return no value, although the request was carried out.\<close>

theorem inline_live_location_returns_nothing:
  assumes "list_all path_char token"
    and "utf8_json (edit_inline_message_live_location_body (inline_id, l, markup))"
    and "utf8_json (stop_inline_message_live_location_body (inline_id, markup))"
    and "\<And>rs. net rs = Reply 200 reply"
    and "json_text (JObject [(''ok'', JBool True), (''result'', JBool True)]) reply"
  shows "fst (edit_inline_message_live_location net (sender_new no_ssl token ua) inline_id l markup hist) =
      Inr None \<and>
    fst (stop_inline_message_live_location net (sender_new no_ssl token ua) inline_id markup hist) =
      Inr None"
proof -
  let ?j = "JObject [(''ok'', JBool True), (''result'', JBool True)]"
  have valid: "valid_json ?j" by code_simp
  have dec: "message_from_json (JBool True) =
      Inl (Type_error 304 (''cannot use at() with '' @ json_type_name (JBool True)))"
    by (rule message_wire.dec_not_object) simp
  have none: "read_reply (make_optional_from_json message_from_json) ?j = Inr None"
    by (rule message_wire.read_reply_incomplete [OF valid _ _ _ dec]) simp_all
  from edit_inline_message_live_location_call.answers [OF TrueI assms(1,2,4,5), where no_ssl = no_ssl and ua = ua and hist = hist]
    stop_inline_message_live_location_call.answers [OF TrueI assms(1,3,4,5), where no_ssl = no_ssl and ua = ua and hist = hist] none
  show ?thesis by simp
qed

theorem inline_live_location_returns_nothing_witness:
  "fst (stop_inline_message_live_location (\<lambda>_. Reply 200 (ok_reply (JBool True)))
      (sender_new False ''42:ab'' ''Bot'') ''i1'' None []) = Inr None"
proof -
  have plain: "list_all path_char ''42:ab''" by code_simp
  let ?l = "\<lparr>location_latitude = 0, location_longitude = 0\<rparr>"
  have "utf8_json (edit_inline_message_live_location_body (''i1'', ?l, None))"
    "utf8_json (stop_inline_message_live_location_body (''i1'', None))"
    by (simp_all add: edit_inline_message_live_location_body_def stop_inline_message_live_location_body_def
        utf8_json_simps)
  moreover have "json_text (JObject [(''ok'', JBool True), (''result'', JBool True)]) (ok_reply (JBool True))"
    using ok_reply_text [of "JBool True"] by simp
  ultimately show ?thesis
    using inline_live_location_returns_nothing [OF plain, where l = ?l and no_ssl = False and ua = "''Bot''" and hist = "[]" and
      net = "\<lambda>_. Reply 200 (ok_reply (JBool True))"]
    by simp
qed

end
