(* ===== verification/Requests_Admin.thy ===== *)
theory Requests_Admin
  imports Calls
begin

section \<open>Chats, members and callback answers\<close>

text \<open>
  The functions of \<open>class sender\<close> that manage a chat and its members, ask for a chat, its members or a
  file, and answer a callback query. The layout is that of \<open>Requests_Send\<close>.
\<close>

definition send_chat_action_tree ::
    "chat_ref \<Rightarrow> chat_action_type \<Rightarrow> json result" where
  "send_chat_action_tree cid action = run_stmts
     [put_chat cid,
      put_string ''action'' (chat_action_name action)] JNull"

definition send_chat_action ::
    "network \<Rightarrow> sender \<Rightarrow> chat_ref \<Rightarrow>
     chat_action_type \<Rightarrow> bool api" where
  "send_chat_action net s cid action =
     api_bind (api_lift (send_chat_action_tree cid action))
       (send_json_and_get_bool net s ''sendChatAction'')"

definition send_chat_action_body :: "chat_ref \<times> chat_action_type \<Rightarrow> json" where
  "send_chat_action_body = (\<lambda>(cid, action). mk_object
     [(''chat_id'', Some (chat_json cid)),
      (''action'', Some (JString (chat_action_name action)))])"

lemma send_chat_action_tree_body: 
  "send_chat_action_tree cid action =
     Inr (send_chat_action_body (cid, action))"
  unfolding send_chat_action_tree_def send_chat_action_body_def prod.case
  by (rule fills_object) (rule request_intros | simp)+

interpretation send_chat_action_call: api_method
  "\<lambda>net s (cid, action). send_chat_action net s cid action"
  "\<lambda>_. True" "''sendChatAction''" send_chat_action_body
  read_bool_reply
  by unfold_locales
    (auto simp: send_chat_action_def send_chat_action_tree_body send_chat_action_body_def call_defs)

definition get_file_tree :: "string \<Rightarrow> json result" where
  "get_file_tree fid = run_stmts
     [put_string ''file_id'' fid] JNull"

definition get_file ::
    "network \<Rightarrow> sender \<Rightarrow> string \<Rightarrow> telegram_file option api" where
  "get_file net s fid =
     api_bind (api_lift (get_file_tree fid))
       (send_json_and_parse net s (make_optional_from_json file_from_json) ''getFile'')"

definition get_file_body :: "string \<Rightarrow> json" where
  "get_file_body = (\<lambda>fid. mk_object
     [(''file_id'', Some (JString fid))])"

lemma get_file_tree_body: 
  "get_file_tree fid =
     Inr (get_file_body fid)"
  unfolding get_file_tree_def get_file_body_def prod.case
  by (rule fills_object) (rule request_intros | simp)+

interpretation get_file_call: api_method
  "\<lambda>net s fid. get_file net s fid"
  "\<lambda>_. True" "''getFile''" get_file_body
  "read_reply (make_optional_from_json file_from_json)"
  by unfold_locales
    (auto simp: get_file_def get_file_tree_body get_file_body_def call_defs)

definition kick_chat_member_tree ::
    "chat_ref \<Rightarrow> 64 word \<Rightarrow> 64 word \<Rightarrow> json result" where
  "kick_chat_member_tree cid uid until_date = run_stmts
     [put_chat cid,
      put_int ''user_id'' uid,
      only_if (until_date \<noteq> 0) (put_int ''until_date'' until_date)] JNull"

definition kick_chat_member ::
    "network \<Rightarrow> sender \<Rightarrow> chat_ref \<Rightarrow>
     64 word \<Rightarrow> 64 word \<Rightarrow> bool api" where
  "kick_chat_member net s cid uid until_date =
     api_bind (api_lift (kick_chat_member_tree cid uid until_date))
       (send_json_and_get_bool net s ''kickChatMember'')"

definition kick_chat_member_body :: "chat_ref \<times> 64 word \<times> 64 word \<Rightarrow> json" where
  "kick_chat_member_body = (\<lambda>(cid, uid, until_date). mk_object
     [(''chat_id'', Some (chat_json cid)),
      (''user_id'', Some (JInt uid)),
      (''until_date'', given (until_date \<noteq> 0) (JInt until_date))])"

lemma kick_chat_member_tree_body: 
  "kick_chat_member_tree cid uid until_date =
     Inr (kick_chat_member_body (cid, uid, until_date))"
  unfolding kick_chat_member_tree_def kick_chat_member_body_def prod.case
  by (rule fills_object) (rule request_intros | simp)+

interpretation kick_chat_member_call: api_method
  "\<lambda>net s (cid, uid, until_date). kick_chat_member net s cid uid until_date"
  "\<lambda>_. True" "''kickChatMember''" kick_chat_member_body
  read_bool_reply
  by unfold_locales
    (auto simp: kick_chat_member_def kick_chat_member_tree_body kick_chat_member_body_def call_defs)

definition unban_chat_member_tree :: "chat_ref \<Rightarrow> 64 word \<Rightarrow> json result" where
  "unban_chat_member_tree cid uid = run_stmts
     [put_chat cid,
      put_int ''user_id'' uid] JNull"

definition unban_chat_member ::
    "network \<Rightarrow> sender \<Rightarrow> chat_ref \<Rightarrow> 64 word \<Rightarrow> bool api" where
  "unban_chat_member net s cid uid =
     api_bind (api_lift (unban_chat_member_tree cid uid))
       (send_json_and_get_bool net s ''unbanChatMember'')"

definition unban_chat_member_body :: "chat_ref \<times> 64 word \<Rightarrow> json" where
  "unban_chat_member_body = (\<lambda>(cid, uid). mk_object
     [(''chat_id'', Some (chat_json cid)),
      (''user_id'', Some (JInt uid))])"

lemma unban_chat_member_tree_body: 
  "unban_chat_member_tree cid uid =
     Inr (unban_chat_member_body (cid, uid))"
  unfolding unban_chat_member_tree_def unban_chat_member_body_def prod.case
  by (rule fills_object) (rule request_intros | simp)+

interpretation unban_chat_member_call: api_method
  "\<lambda>net s (cid, uid). unban_chat_member net s cid uid"
  "\<lambda>_. True" "''unbanChatMember''" unban_chat_member_body
  read_bool_reply
  by unfold_locales
    (auto simp: unban_chat_member_def unban_chat_member_tree_body unban_chat_member_body_def call_defs)

definition restrict_chat_member_tree ::
    "chat_ref \<Rightarrow> 64 word \<Rightarrow> 64 word \<Rightarrow> bool \<Rightarrow>
     bool \<Rightarrow> bool \<Rightarrow> bool \<Rightarrow> json result" where
  "restrict_chat_member_tree cid uid until_date messages media other previews = run_stmts
     [put_chat cid,
      put_int ''user_id'' uid,
      only_if (until_date \<noteq> 0) (put_int ''until_date'' until_date),
      only_if messages (put_bool ''can_send_messages'' messages),
      only_if media (put_bool ''can_send_media_messages'' media),
      only_if other (put_bool ''can_send_other_messages'' other),
      only_if previews (put_bool ''can_add_web_page_previews'' previews)] JNull"

definition restrict_chat_member ::
    "network \<Rightarrow> sender \<Rightarrow> chat_ref \<Rightarrow> 64 word \<Rightarrow> 64 word \<Rightarrow>
     bool \<Rightarrow> bool \<Rightarrow> bool \<Rightarrow> bool \<Rightarrow> bool api" where
  "restrict_chat_member net s cid uid until_date messages media other previews =
     api_bind (api_lift (restrict_chat_member_tree cid uid until_date messages media other previews))
       (send_json_and_get_bool net s ''restrictChatMember'')"

definition restrict_chat_member_body ::
    "chat_ref \<times> 64 word \<times> 64 word \<times> bool \<times>
     bool \<times> bool \<times> bool \<Rightarrow> json" where
  "restrict_chat_member_body = (\<lambda>(cid, uid, until_date, messages, media, other, previews). mk_object
     [(''chat_id'', Some (chat_json cid)),
      (''user_id'', Some (JInt uid)),
      (''until_date'', given (until_date \<noteq> 0) (JInt until_date)),
      (''can_send_messages'', given messages (JBool messages)),
      (''can_send_media_messages'', given media (JBool media)),
      (''can_send_other_messages'', given other (JBool other)),
      (''can_add_web_page_previews'', given previews (JBool previews))])"

lemma restrict_chat_member_tree_body: 
  "restrict_chat_member_tree cid uid until_date messages media other previews =
     Inr (restrict_chat_member_body (cid, uid, until_date, messages, media, other, previews))"
  unfolding restrict_chat_member_tree_def restrict_chat_member_body_def prod.case
  by (rule fills_object) (rule request_intros | simp)+

interpretation restrict_chat_member_call: api_method
  "\<lambda>net s (cid, uid, until_date, messages, media, other, previews). restrict_chat_member net s cid uid until_date messages media other previews"
  "\<lambda>_. True" "''restrictChatMember''" restrict_chat_member_body
  read_bool_reply
  by unfold_locales
    (auto simp: restrict_chat_member_def restrict_chat_member_tree_body restrict_chat_member_body_def call_defs)

definition promote_chat_member_tree ::
    "chat_ref \<Rightarrow> 64 word \<Rightarrow> bool \<Rightarrow> bool \<Rightarrow> bool \<Rightarrow> bool \<Rightarrow>
     bool \<Rightarrow> bool \<Rightarrow> bool \<Rightarrow> bool \<Rightarrow> json result" where
  "promote_chat_member_tree cid uid info post edit remove invite restrict pin promote = run_stmts
     [put_chat cid,
      put_int ''user_id'' uid,
      only_if info (put_bool ''can_change_info'' info),
      only_if post (put_bool ''can_post_messages'' post),
      only_if edit (put_bool ''can_edit_messages'' edit),
      only_if remove (put_bool ''can_delete_messages'' remove),
      only_if invite (put_bool ''can_invite_users'' invite),
      only_if restrict (put_bool ''can_restrict_members'' restrict),
      only_if pin (put_bool ''can_pin_messages'' pin),
      only_if promote (put_bool ''can_promote_members'' promote)] JNull"

definition promote_chat_member ::
    "network \<Rightarrow> sender \<Rightarrow> chat_ref \<Rightarrow> 64 word \<Rightarrow> bool \<Rightarrow> bool \<Rightarrow> bool \<Rightarrow>
     bool \<Rightarrow> bool \<Rightarrow> bool \<Rightarrow> bool \<Rightarrow> bool \<Rightarrow> bool api" where
  "promote_chat_member net s cid uid info post edit remove invite restrict pin promote =
     api_bind (api_lift (promote_chat_member_tree cid uid info post edit remove invite restrict pin promote))
       (send_json_and_get_bool net s ''promoteChatMember'')"

definition promote_chat_member_body ::
    "chat_ref \<times> 64 word \<times> bool \<times> bool \<times> bool \<times> bool \<times>
     bool \<times> bool \<times> bool \<times> bool \<Rightarrow> json" where
  "promote_chat_member_body = (\<lambda>(cid, uid, info, post, edit, remove, invite, restrict, pin, promote). mk_object
     [(''chat_id'', Some (chat_json cid)),
      (''user_id'', Some (JInt uid)),
      (''can_change_info'', given info (JBool info)),
      (''can_post_messages'', given post (JBool post)),
      (''can_edit_messages'', given edit (JBool edit)),
      (''can_delete_messages'', given remove (JBool remove)),
      (''can_invite_users'', given invite (JBool invite)),
      (''can_restrict_members'', given restrict (JBool restrict)),
      (''can_pin_messages'', given pin (JBool pin)),
      (''can_promote_members'', given promote (JBool promote))])"

lemma promote_chat_member_tree_body: 
  "promote_chat_member_tree cid uid info post edit remove invite restrict pin promote =
     Inr (promote_chat_member_body (cid, uid, info, post, edit, remove, invite, restrict, pin, promote))"
  unfolding promote_chat_member_tree_def promote_chat_member_body_def prod.case
  by (rule fills_object) (rule request_intros | simp)+

interpretation promote_chat_member_call: api_method
  "\<lambda>net s (cid, uid, info, post, edit, remove, invite, restrict, pin, promote). promote_chat_member net s cid uid info post edit remove invite restrict pin promote"
  "\<lambda>_. True" "''promoteChatMember''" promote_chat_member_body
  read_bool_reply
  by unfold_locales
    (auto simp: promote_chat_member_def promote_chat_member_tree_body promote_chat_member_body_def call_defs)

definition delete_chat_photo_tree :: "chat_ref \<Rightarrow> json result" where
  "delete_chat_photo_tree cid = run_stmts
     [put_chat cid] JNull"

definition delete_chat_photo ::
    "network \<Rightarrow> sender \<Rightarrow> chat_ref \<Rightarrow> bool api" where
  "delete_chat_photo net s cid =
     api_bind (api_lift (delete_chat_photo_tree cid))
       (send_json_and_get_bool net s ''deleteChatPhoto'')"

definition delete_chat_photo_body :: "chat_ref \<Rightarrow> json" where
  "delete_chat_photo_body = (\<lambda>cid. mk_object
     [(''chat_id'', Some (chat_json cid))])"

lemma delete_chat_photo_tree_body: 
  "delete_chat_photo_tree cid =
     Inr (delete_chat_photo_body cid)"
  unfolding delete_chat_photo_tree_def delete_chat_photo_body_def prod.case
  by (rule fills_object) (rule request_intros | simp)+

interpretation delete_chat_photo_call: api_method
  "\<lambda>net s cid. delete_chat_photo net s cid"
  "\<lambda>_. True" "''deleteChatPhoto''" delete_chat_photo_body
  read_bool_reply
  by unfold_locales
    (auto simp: delete_chat_photo_def delete_chat_photo_tree_body delete_chat_photo_body_def call_defs)

definition set_chat_title_tree :: "chat_ref \<Rightarrow> string \<Rightarrow> json result" where
  "set_chat_title_tree cid title = run_stmts
     [put_chat cid,
      only_if (title \<noteq> []) (put_string ''title'' title)] JNull"

definition set_chat_title ::
    "network \<Rightarrow> sender \<Rightarrow> chat_ref \<Rightarrow> string \<Rightarrow> bool api" where
  "set_chat_title net s cid title =
     api_bind (api_lift (set_chat_title_tree cid title))
       (send_json_and_get_bool net s ''setChatTitle'')"

definition set_chat_title_body :: "chat_ref \<times> string \<Rightarrow> json" where
  "set_chat_title_body = (\<lambda>(cid, title). mk_object
     [(''chat_id'', Some (chat_json cid)),
      (''title'', given (title \<noteq> []) (JString title))])"

lemma set_chat_title_tree_body: 
  "set_chat_title_tree cid title =
     Inr (set_chat_title_body (cid, title))"
  unfolding set_chat_title_tree_def set_chat_title_body_def prod.case
  by (rule fills_object) (rule request_intros | simp)+

interpretation set_chat_title_call: api_method
  "\<lambda>net s (cid, title). set_chat_title net s cid title"
  "\<lambda>_. True" "''setChatTitle''" set_chat_title_body
  read_bool_reply
  by unfold_locales
    (auto simp: set_chat_title_def set_chat_title_tree_body set_chat_title_body_def call_defs)

definition set_chat_description_tree :: "chat_ref \<Rightarrow> string \<Rightarrow> json result" where
  "set_chat_description_tree cid description = run_stmts
     [put_chat cid,
      only_if (description \<noteq> []) (put_string ''description'' description)] JNull"

definition set_chat_description ::
    "network \<Rightarrow> sender \<Rightarrow> chat_ref \<Rightarrow> string \<Rightarrow> bool api" where
  "set_chat_description net s cid description =
     api_bind (api_lift (set_chat_description_tree cid description))
       (send_json_and_get_bool net s ''setChatDescription'')"

definition set_chat_description_body :: "chat_ref \<times> string \<Rightarrow> json" where
  "set_chat_description_body = (\<lambda>(cid, description). mk_object
     [(''chat_id'', Some (chat_json cid)),
      (''description'', given (description \<noteq> []) (JString description))])"

lemma set_chat_description_tree_body: 
  "set_chat_description_tree cid description =
     Inr (set_chat_description_body (cid, description))"
  unfolding set_chat_description_tree_def set_chat_description_body_def prod.case
  by (rule fills_object) (rule request_intros | simp)+

interpretation set_chat_description_call: api_method
  "\<lambda>net s (cid, description). set_chat_description net s cid description"
  "\<lambda>_. True" "''setChatDescription''" set_chat_description_body
  read_bool_reply
  by unfold_locales
    (auto simp: set_chat_description_def set_chat_description_tree_body set_chat_description_body_def call_defs)

definition pin_chat_message_tree ::
    "chat_ref \<Rightarrow> 64 word \<Rightarrow> bool \<Rightarrow> json result" where
  "pin_chat_message_tree cid mid disable_notification = run_stmts
     [put_chat cid,
      put_int ''message_id'' mid,
      only_if disable_notification (put_bool ''disable_notification'' True)] JNull"

definition pin_chat_message ::
    "network \<Rightarrow> sender \<Rightarrow> chat_ref \<Rightarrow>
     64 word \<Rightarrow> bool \<Rightarrow> bool api" where
  "pin_chat_message net s cid mid disable_notification =
     api_bind (api_lift (pin_chat_message_tree cid mid disable_notification))
       (send_json_and_get_bool net s ''pinChatMessage'')"

definition pin_chat_message_body :: "chat_ref \<times> 64 word \<times> bool \<Rightarrow> json" where
  "pin_chat_message_body = (\<lambda>(cid, mid, disable_notification). mk_object
     [(''chat_id'', Some (chat_json cid)),
      (''message_id'', Some (JInt mid)),
      (''disable_notification'', given disable_notification (JBool True))])"

lemma pin_chat_message_tree_body: 
  "pin_chat_message_tree cid mid disable_notification =
     Inr (pin_chat_message_body (cid, mid, disable_notification))"
  unfolding pin_chat_message_tree_def pin_chat_message_body_def prod.case
  by (rule fills_object) (rule request_intros | simp)+

interpretation pin_chat_message_call: api_method
  "\<lambda>net s (cid, mid, disable_notification). pin_chat_message net s cid mid disable_notification"
  "\<lambda>_. True" "''pinChatMessage''" pin_chat_message_body
  read_bool_reply
  by unfold_locales
    (auto simp: pin_chat_message_def pin_chat_message_tree_body pin_chat_message_body_def call_defs)

definition unpin_chat_message_tree :: "chat_ref \<Rightarrow> json result" where
  "unpin_chat_message_tree cid = run_stmts
     [put_chat cid] JNull"

definition unpin_chat_message ::
    "network \<Rightarrow> sender \<Rightarrow> chat_ref \<Rightarrow> bool api" where
  "unpin_chat_message net s cid =
     api_bind (api_lift (unpin_chat_message_tree cid))
       (send_json_and_get_bool net s ''unpinChatMessage'')"

definition unpin_chat_message_body :: "chat_ref \<Rightarrow> json" where
  "unpin_chat_message_body = (\<lambda>cid. mk_object
     [(''chat_id'', Some (chat_json cid))])"

lemma unpin_chat_message_tree_body: 
  "unpin_chat_message_tree cid =
     Inr (unpin_chat_message_body cid)"
  unfolding unpin_chat_message_tree_def unpin_chat_message_body_def prod.case
  by (rule fills_object) (rule request_intros | simp)+

interpretation unpin_chat_message_call: api_method
  "\<lambda>net s cid. unpin_chat_message net s cid"
  "\<lambda>_. True" "''unpinChatMessage''" unpin_chat_message_body
  read_bool_reply
  by unfold_locales
    (auto simp: unpin_chat_message_def unpin_chat_message_tree_body unpin_chat_message_body_def call_defs)

definition leave_chat_tree :: "chat_ref \<Rightarrow> json result" where
  "leave_chat_tree cid = run_stmts
     [put_chat cid] JNull"

definition leave_chat ::
    "network \<Rightarrow> sender \<Rightarrow> chat_ref \<Rightarrow> bool api" where
  "leave_chat net s cid =
     api_bind (api_lift (leave_chat_tree cid))
       (send_json_and_get_bool net s ''leaveChat'')"

definition leave_chat_body :: "chat_ref \<Rightarrow> json" where
  "leave_chat_body = (\<lambda>cid. mk_object
     [(''chat_id'', Some (chat_json cid))])"

lemma leave_chat_tree_body: 
  "leave_chat_tree cid =
     Inr (leave_chat_body cid)"
  unfolding leave_chat_tree_def leave_chat_body_def prod.case
  by (rule fills_object) (rule request_intros | simp)+

interpretation leave_chat_call: api_method
  "\<lambda>net s cid. leave_chat net s cid"
  "\<lambda>_. True" "''leaveChat''" leave_chat_body
  read_bool_reply
  by unfold_locales
    (auto simp: leave_chat_def leave_chat_tree_body leave_chat_body_def call_defs)

definition get_chat_tree :: "chat_ref \<Rightarrow> json result" where
  "get_chat_tree cid = run_stmts
     [put_chat cid] JNull"

definition get_chat ::
    "network \<Rightarrow> sender \<Rightarrow> chat_ref \<Rightarrow> chat option api" where
  "get_chat net s cid =
     api_bind (api_lift (get_chat_tree cid))
       (send_json_and_parse net s (make_optional_from_json chat_from_json) ''getChat'')"

definition get_chat_body :: "chat_ref \<Rightarrow> json" where
  "get_chat_body = (\<lambda>cid. mk_object
     [(''chat_id'', Some (chat_json cid))])"

lemma get_chat_tree_body: 
  "get_chat_tree cid =
     Inr (get_chat_body cid)"
  unfolding get_chat_tree_def get_chat_body_def prod.case
  by (rule fills_object) (rule request_intros | simp)+

interpretation get_chat_call: api_method
  "\<lambda>net s cid. get_chat net s cid"
  "\<lambda>_. True" "''getChat''" get_chat_body
  "read_reply (make_optional_from_json chat_from_json)"
  by unfold_locales
    (auto simp: get_chat_def get_chat_tree_body get_chat_body_def call_defs)

definition get_chat_administrators_tree :: "chat_ref \<Rightarrow> json result" where
  "get_chat_administrators_tree cid = run_stmts
     [put_chat cid] JNull"

definition get_chat_administrators ::
    "network \<Rightarrow> sender \<Rightarrow> chat_ref \<Rightarrow> chat_member list option api" where
  "get_chat_administrators net s cid =
     api_bind (api_lift (get_chat_administrators_tree cid))
       (send_json_and_parse_vector net s chat_member_from_json ''getChatAdministrators'')"

definition get_chat_administrators_body :: "chat_ref \<Rightarrow> json" where
  "get_chat_administrators_body = (\<lambda>cid. mk_object
     [(''chat_id'', Some (chat_json cid))])"

lemma get_chat_administrators_tree_body: 
  "get_chat_administrators_tree cid =
     Inr (get_chat_administrators_body cid)"
  unfolding get_chat_administrators_tree_def get_chat_administrators_body_def prod.case
  by (rule fills_object) (rule request_intros | simp)+

interpretation get_chat_administrators_call: api_method
  "\<lambda>net s cid. get_chat_administrators net s cid"
  "\<lambda>_. True" "''getChatAdministrators''" get_chat_administrators_body
  "read_reply (make_optional_vector_from_json chat_member_from_json)"
  by unfold_locales
    (auto simp: get_chat_administrators_def get_chat_administrators_tree_body get_chat_administrators_body_def call_defs)

definition get_chat_members_count_tree :: "chat_ref \<Rightarrow> json result" where
  "get_chat_members_count_tree cid = run_stmts
     [put_chat cid] JNull"

definition get_chat_members_count ::
    "network \<Rightarrow> sender \<Rightarrow> chat_ref \<Rightarrow> 64 word option api" where
  "get_chat_members_count net s cid =
     api_bind (api_lift (get_chat_members_count_tree cid))
       (send_json_and_parse net s make_optional_int64 ''getChatMembersCount'')"

definition get_chat_members_count_body :: "chat_ref \<Rightarrow> json" where
  "get_chat_members_count_body = (\<lambda>cid. mk_object
     [(''chat_id'', Some (chat_json cid))])"

lemma get_chat_members_count_tree_body: 
  "get_chat_members_count_tree cid =
     Inr (get_chat_members_count_body cid)"
  unfolding get_chat_members_count_tree_def get_chat_members_count_body_def prod.case
  by (rule fills_object) (rule request_intros | simp)+

interpretation get_chat_members_count_call: api_method
  "\<lambda>net s cid. get_chat_members_count net s cid"
  "\<lambda>_. True" "''getChatMembersCount''" get_chat_members_count_body
  "read_reply make_optional_int64"
  by unfold_locales
    (auto simp: get_chat_members_count_def get_chat_members_count_tree_body get_chat_members_count_body_def call_defs)

definition get_chat_member_tree :: "chat_ref \<Rightarrow> 64 word \<Rightarrow> json result" where
  "get_chat_member_tree cid uid = run_stmts
     [put_chat cid,
      put_int ''user_id'' uid] JNull"

definition get_chat_member ::
    "network \<Rightarrow> sender \<Rightarrow> chat_ref \<Rightarrow> 64 word \<Rightarrow> chat_member option api" where
  "get_chat_member net s cid uid =
     api_bind (api_lift (get_chat_member_tree cid uid))
       (send_json_and_parse net s (make_optional_from_json chat_member_from_json) ''getChatMember'')"

definition get_chat_member_body :: "chat_ref \<times> 64 word \<Rightarrow> json" where
  "get_chat_member_body = (\<lambda>(cid, uid). mk_object
     [(''chat_id'', Some (chat_json cid)),
      (''user_id'', Some (JInt uid))])"

lemma get_chat_member_tree_body: 
  "get_chat_member_tree cid uid =
     Inr (get_chat_member_body (cid, uid))"
  unfolding get_chat_member_tree_def get_chat_member_body_def prod.case
  by (rule fills_object) (rule request_intros | simp)+

interpretation get_chat_member_call: api_method
  "\<lambda>net s (cid, uid). get_chat_member net s cid uid"
  "\<lambda>_. True" "''getChatMember''" get_chat_member_body
  "read_reply (make_optional_from_json chat_member_from_json)"
  by unfold_locales
    (auto simp: get_chat_member_def get_chat_member_tree_body get_chat_member_body_def call_defs)

definition answer_callback_query_tree ::
    "string \<Rightarrow> string \<Rightarrow> bool \<Rightarrow>
     string \<Rightarrow> 64 word \<Rightarrow> json result" where
  "answer_callback_query_tree query_id content show_alert link cache_time = run_stmts
     [put_string ''callback_query_id'' query_id,
      only_if (content \<noteq> []) (put_string ''text'' content),
      only_if show_alert (put_bool ''show_alert'' True),
      only_if (link \<noteq> []) (put_string ''url'' link),
      only_if (cache_time \<noteq> 0) (put_int ''cache_time'' cache_time)] JNull"

definition answer_callback_query ::
    "network \<Rightarrow> sender \<Rightarrow> string \<Rightarrow> string \<Rightarrow>
     bool \<Rightarrow> string \<Rightarrow> 64 word \<Rightarrow> bool api" where
  "answer_callback_query net s query_id content show_alert link cache_time =
     api_bind (api_lift (answer_callback_query_tree query_id content show_alert link cache_time))
       (send_json_and_get_bool net s ''answerCallbackQuery'')"

definition answer_callback_query_body :: "string \<times> string \<times> bool \<times> string \<times> 64 word \<Rightarrow> json" where
  "answer_callback_query_body = (\<lambda>(query_id, content, show_alert, link, cache_time). mk_object
     [(''callback_query_id'', Some (JString query_id)),
      (''text'', given (content \<noteq> []) (JString content)),
      (''show_alert'', given show_alert (JBool True)),
      (''url'', given (link \<noteq> []) (JString link)),
      (''cache_time'', given (cache_time \<noteq> 0) (JInt cache_time))])"

lemma answer_callback_query_tree_body: 
  "answer_callback_query_tree query_id content show_alert link cache_time =
     Inr (answer_callback_query_body (query_id, content, show_alert, link, cache_time))"
  unfolding answer_callback_query_tree_def answer_callback_query_body_def prod.case
  by (rule fills_object) (rule request_intros | simp)+

interpretation answer_callback_query_call: api_method
  "\<lambda>net s (query_id, content, show_alert, link, cache_time). answer_callback_query net s query_id content show_alert link cache_time"
  "\<lambda>_. True" "''answerCallbackQuery''" answer_callback_query_body
  read_bool_reply
  by unfold_locales
    (auto simp: answer_callback_query_def answer_callback_query_tree_body answer_callback_query_body_def call_defs)

subsection \<open>Properties\<close>

text \<open>C23: Each function that manages a chat or its members, asks for a chat, a member or a file, or
  answers a callback query makes exactly one request, to its own method, whose body is the object with
  the members listed in its \<open>_body\<close>. A permission that is not granted is left out.\<close>

theorem administration_requests:
  assumes "list_all path_char token"
  shows "snd (send_chat_action net (sender_new no_ssl token ua)
        cid action hist) =
      hist @ posted_request no_ssl token ''sendChatAction'' 30
        (send_chat_action_body (cid, action)) \<and>
    snd (get_file net (sender_new no_ssl token ua)
        fid hist) =
      hist @ posted_request no_ssl token ''getFile'' 30
        (get_file_body fid) \<and>
    snd (kick_chat_member net (sender_new no_ssl token ua)
        cid uid until_date hist) =
      hist @ posted_request no_ssl token ''kickChatMember'' 30
        (kick_chat_member_body (cid, uid, until_date)) \<and>
    snd (unban_chat_member net (sender_new no_ssl token ua)
        cid uid hist) =
      hist @ posted_request no_ssl token ''unbanChatMember'' 30
        (unban_chat_member_body (cid, uid)) \<and>
    snd (restrict_chat_member net (sender_new no_ssl token ua)
        cid uid until_date messages media other previews hist) =
      hist @ posted_request no_ssl token ''restrictChatMember'' 30
        (restrict_chat_member_body (cid, uid, until_date, messages, media, other, previews)) \<and>
    snd (promote_chat_member net (sender_new no_ssl token ua)
        cid uid info post edit remove invite restrict pin promote hist) =
      hist @ posted_request no_ssl token ''promoteChatMember'' 30
        (promote_chat_member_body (cid, uid, info, post, edit, remove, invite, restrict, pin, promote)) \<and>
    snd (delete_chat_photo net (sender_new no_ssl token ua)
        cid hist) =
      hist @ posted_request no_ssl token ''deleteChatPhoto'' 30
        (delete_chat_photo_body cid) \<and>
    snd (set_chat_title net (sender_new no_ssl token ua)
        cid title hist) =
      hist @ posted_request no_ssl token ''setChatTitle'' 30
        (set_chat_title_body (cid, title)) \<and>
    snd (set_chat_description net (sender_new no_ssl token ua)
        cid description hist) =
      hist @ posted_request no_ssl token ''setChatDescription'' 30
        (set_chat_description_body (cid, description)) \<and>
    snd (pin_chat_message net (sender_new no_ssl token ua)
        cid mid disable_notification hist) =
      hist @ posted_request no_ssl token ''pinChatMessage'' 30
        (pin_chat_message_body (cid, mid, disable_notification)) \<and>
    snd (unpin_chat_message net (sender_new no_ssl token ua)
        cid hist) =
      hist @ posted_request no_ssl token ''unpinChatMessage'' 30
        (unpin_chat_message_body cid) \<and>
    snd (leave_chat net (sender_new no_ssl token ua)
        cid hist) =
      hist @ posted_request no_ssl token ''leaveChat'' 30
        (leave_chat_body cid) \<and>
    snd (get_chat net (sender_new no_ssl token ua)
        cid hist) =
      hist @ posted_request no_ssl token ''getChat'' 30
        (get_chat_body cid) \<and>
    snd (get_chat_administrators net (sender_new no_ssl token ua)
        cid hist) =
      hist @ posted_request no_ssl token ''getChatAdministrators'' 30
        (get_chat_administrators_body cid) \<and>
    snd (get_chat_members_count net (sender_new no_ssl token ua)
        cid hist) =
      hist @ posted_request no_ssl token ''getChatMembersCount'' 30
        (get_chat_members_count_body cid) \<and>
    snd (get_chat_member net (sender_new no_ssl token ua)
        cid uid hist) =
      hist @ posted_request no_ssl token ''getChatMember'' 30
        (get_chat_member_body (cid, uid)) \<and>
    snd (answer_callback_query net (sender_new no_ssl token ua)
        query_id content show_alert link cache_time hist) =
      hist @ posted_request no_ssl token ''answerCallbackQuery'' 30
        (answer_callback_query_body (query_id, content, show_alert, link, cache_time))"
  using send_chat_action_call.request_log [OF TrueI assms, of net no_ssl ua
      "(cid, action)" hist]
    get_file_call.request_log [OF TrueI assms, of net no_ssl ua
      "fid" hist]
    kick_chat_member_call.request_log [OF TrueI assms, of net no_ssl ua
      "(cid, uid, until_date)" hist]
    unban_chat_member_call.request_log [OF TrueI assms, of net no_ssl ua
      "(cid, uid)" hist]
    restrict_chat_member_call.request_log [OF TrueI assms, of net no_ssl ua
      "(cid, uid, until_date, messages, media, other, previews)" hist]
    promote_chat_member_call.request_log [OF TrueI assms, of net no_ssl ua
      "(cid, uid, info, post, edit, remove, invite, restrict, pin, promote)" hist]
    delete_chat_photo_call.request_log [OF TrueI assms, of net no_ssl ua
      "cid" hist]
    set_chat_title_call.request_log [OF TrueI assms, of net no_ssl ua
      "(cid, title)" hist]
    set_chat_description_call.request_log [OF TrueI assms, of net no_ssl ua
      "(cid, description)" hist]
    pin_chat_message_call.request_log [OF TrueI assms, of net no_ssl ua
      "(cid, mid, disable_notification)" hist]
    unpin_chat_message_call.request_log [OF TrueI assms, of net no_ssl ua
      "cid" hist]
    leave_chat_call.request_log [OF TrueI assms, of net no_ssl ua
      "cid" hist]
    get_chat_call.request_log [OF TrueI assms, of net no_ssl ua
      "cid" hist]
    get_chat_administrators_call.request_log [OF TrueI assms, of net no_ssl ua
      "cid" hist]
    get_chat_members_count_call.request_log [OF TrueI assms, of net no_ssl ua
      "cid" hist]
    get_chat_member_call.request_log [OF TrueI assms, of net no_ssl ua
      "(cid, uid)" hist]
    answer_callback_query_call.request_log [OF TrueI assms, of net no_ssl ua
      "(query_id, content, show_alert, link, cache_time)" hist]
  by simp

theorem administration_requests_witness:
  "\<exists>body. snd (pin_chat_message echo_network (sender_new False ''42:ab'' ''Bot'') (Chat_name ''@news'') 12 True []) =
     [api_request False ''42:ab'' ''pinChatMessage'' 30 body]"
proof -
  have plain: "list_all path_char ''42:ab''" by code_simp
  have "utf8_json (pin_chat_message_body (Chat_name ''@news'', 12, True))" by code_simp
  then obtain body where "posted_request False ''42:ab'' ''pinChatMessage'' 30
      (pin_chat_message_body (Chat_name ''@news'', 12, True)) = [api_request False ''42:ab'' ''pinChatMessage'' 30 body]"
    by (rule posted_one)
  with administration_requests [OF plain, where net = echo_network and no_ssl = False and ua = "''Bot''" and
      hist = "[]" and cid = "Chat_name ''@news''" and mid = 12 and disable_notification = True]
  have "snd (pin_chat_message echo_network (sender_new False ''42:ab'' ''Bot'') (Chat_name ''@news'') 12 True []) =
      [api_request False ''42:ab'' ''pinChatMessage'' 30 body]" by simp
  then show ?thesis by blast
qed

text \<open>C39: \<open>get_chat_member\<close> returns nothing for the member Telegram describes: the decoder looks for the
  status under \<open>type\<close>, while the Bot API sends it under \<open>status\<close>. A reply whose text is an object with a
  result without the member \<open>type\<close> is read as no member, even though the request succeeded.\<close>

theorem get_chat_member_returns_nothing:
  assumes "list_all path_char token" and "utf8_json (get_chat_member_body (cid, uid))"
    and "\<And>rs. net rs = Reply 200 reply"
    and "json_text (JObject [(''ok'', JBool True), (''result'', JObject m)]) reply"
    and "map_of m ''type'' = None"
  shows "fst (get_chat_member net (sender_new no_ssl token ua) cid uid hist) = Inr None"
proof -
  let ?j = "JObject [(''ok'', JBool True), (''result'', JObject m)]"
  have valid: "valid_json ?j" using assms(4) by (rule json_text_valid)
  from assms(5) have dec: "chat_member_from_json (JObject m) = Inl (key_not_found ''type'')"
    by (intro chat_member_needs_type) simp_all
  have none: "read_reply (make_optional_from_json chat_member_from_json) ?j = Inr None"
    by (rule chat_member_decoder.read_reply_incomplete [OF valid _ _ _ dec]) simp_all
  with get_chat_member_call.answers [OF TrueI assms(1,2,3,4), where no_ssl = no_ssl and ua = ua and hist = hist]
  show ?thesis by simp
qed

theorem get_chat_member_returns_nothing_witness:
  "fst (get_chat_member (\<lambda>_. Reply 200 (ok_reply (JObject [(''status'', JString ''member'')])))
      (sender_new False ''42:ab'' ''Bot'') (Chat_number 7) 9 []) = Inr None"
proof -
  have plain: "list_all path_char ''42:ab''" by code_simp
  have "utf8_json (get_chat_member_body (Chat_number 7, 9))" by code_simp
  moreover have "valid_json (JObject [(''status'', JString ''member'')])" by code_simp
  from ok_reply_text [OF this] have "json_text (JObject [(''ok'', JBool True),
      (''result'', JObject [(''status'', JString ''member'')])]) (ok_reply (JObject [(''status'', JString ''member'')]))"
    by simp
  ultimately show ?thesis
    using get_chat_member_returns_nothing [OF plain, where no_ssl = False and ua = "''Bot''" and hist = "[]" and
      net = "\<lambda>_. Reply 200 (ok_reply (JObject [(''status'', JString ''member'')]))"]
    by simp
qed

end
