(* ===== verification/Listener.thy ===== *)
theory Listener
  imports Types_Query
begin

section \<open>The listener base: callbacks and their dispatch\<close>

text \<open>
  \<open>listeners/base.h\<close>. A callback is code of the bot: a function on the bot's world \<open>'w\<close> that may throw.
  A \<open>std::function\<close> is an option, empty after \<open>unset\<close>. \<open>execute_callbacks\<close> is the sequence of guarded
  calls of the source; its specification is the list of events an update stands for (\<open>events\<close>) and the
  delivery of one event (\<open>deliver\<close>). A callback does not exchange the callbacks of the listener that is
  running it.
\<close>

subsection \<open>Callbacks\<close>

type_synonym 'w action = "'w \<Rightarrow> unit result \<times> 'w"

type_synonym ('a, 'w) callback = "'a \<Rightarrow> 'w action"

definition skip :: "'w action" where
  "skip w = (Inr (), w)"

definition andthen :: "'w action \<Rightarrow> 'w action \<Rightarrow> 'w action" where
  "andthen a b w = (case a w of (Inl e, w') \<Rightarrow> (Inl e, w') | (Inr u, w') \<Rightarrow> b w')"

text \<open>\<open>try ... catch(std::exception \&e)\<close> around a call: anything else goes through.\<close>

definition guarded :: "'w action \<Rightarrow> 'w action" where
  "guarded a w = (case a w of (Inl e, w') \<Rightarrow> (if is_std_exception e then Inr () else Inl e, w') | r \<Rightarrow> r)"

record 'w listener =
  callback_raw :: "(string, 'w) callback option"
  callback_json :: "(json, 'w) callback option"
  callback_message :: "(message, 'w) callback option"
  callback_message_json :: "(json, 'w) callback option"
  callback_edited :: "(message, 'w) callback option"
  callback_edited_json :: "(json, 'w) callback option"
  callback_inline_json :: "(json, 'w) callback option"
  callback_chosen_inline_json :: "(json, 'w) callback option"
  callback_query_callback :: "(callback_query, 'w) callback option"
  callback_query_callback_json :: "(json, 'w) callback option"
  num_threads :: "32 word"

definition thread_number_chosen_automatically :: "32 word" where
  "thread_number_chosen_automatically = 0"

text \<open>\<open>cores\<close> is what \<open>std::thread::hardware_concurrency()\<close> returns, which may be 0.\<close>

definition set_num_threads :: "32 word \<Rightarrow> 32 word \<Rightarrow> 'w listener \<Rightarrow> 'w listener" where
  "set_num_threads cores new_num_threads l = l\<lparr>num_threads :=
     (if new_num_threads = thread_number_chosen_automatically
      then (if cores = 0 then 1 else cores) else new_num_threads)\<rparr>"

definition get_num_threads :: "'w listener \<Rightarrow> 32 word" where
  "get_num_threads l = num_threads l"

definition listener_new :: "32 word \<Rightarrow> 'w listener" where
  "listener_new cores = set_num_threads cores thread_number_chosen_automatically
     \<lparr>callback_raw = Some (\<lambda>_. skip), callback_json = Some (\<lambda>_. skip),
      callback_message = Some (\<lambda>_. skip), callback_message_json = Some (\<lambda>_. skip),
      callback_edited = Some (\<lambda>_. skip), callback_edited_json = Some (\<lambda>_. skip),
      callback_inline_json = Some (\<lambda>_. skip), callback_chosen_inline_json = Some (\<lambda>_. skip),
      callback_query_callback = Some (\<lambda>_. skip), callback_query_callback_json = Some (\<lambda>_. skip),
      num_threads = thread_number_chosen_automatically\<rparr>"

text \<open>The setters; \<open>func\<close> may be an empty function.\<close>

definition set_callback_raw :: "(string, 'w) callback option \<Rightarrow> 'w listener \<Rightarrow> 'w listener" where
  "set_callback_raw func l = l\<lparr>callback_raw := func\<rparr>"

definition set_callback_json :: "(json, 'w) callback option \<Rightarrow> 'w listener \<Rightarrow> 'w listener" where
  "set_callback_json func l = l\<lparr>callback_json := func\<rparr>"

definition set_callback_message :: "(message, 'w) callback option \<Rightarrow> 'w listener \<Rightarrow> 'w listener" where
  "set_callback_message func l = l\<lparr>callback_message := func\<rparr>"

definition set_callback_message_json :: "(json, 'w) callback option \<Rightarrow> 'w listener \<Rightarrow> 'w listener" where
  "set_callback_message_json func l = l\<lparr>callback_message_json := func\<rparr>"

definition set_callback_edited :: "(message, 'w) callback option \<Rightarrow> 'w listener \<Rightarrow> 'w listener" where
  "set_callback_edited func l = l\<lparr>callback_edited := func\<rparr>"

definition set_callback_edited_json :: "(json, 'w) callback option \<Rightarrow> 'w listener \<Rightarrow> 'w listener" where
  "set_callback_edited_json func l = l\<lparr>callback_edited_json := func\<rparr>"

definition set_callback_inline_json :: "(json, 'w) callback option \<Rightarrow> 'w listener \<Rightarrow> 'w listener" where
  "set_callback_inline_json func l = l\<lparr>callback_inline_json := func\<rparr>"

definition set_callback_chosen_inline_json ::
    "(json, 'w) callback option \<Rightarrow> 'w listener \<Rightarrow> 'w listener" where
  "set_callback_chosen_inline_json func l = l\<lparr>callback_chosen_inline_json := func\<rparr>"

definition set_callback_query_callback ::
    "(callback_query, 'w) callback option \<Rightarrow> 'w listener \<Rightarrow> 'w listener" where
  "set_callback_query_callback func l = l\<lparr>callback_query_callback := func\<rparr>"

definition set_callback_query_callback_json ::
    "(json, 'w) callback option \<Rightarrow> 'w listener \<Rightarrow> 'w listener" where
  "set_callback_query_callback_json func l = l\<lparr>callback_query_callback_json := func\<rparr>"

text \<open>The functions that unset them.\<close>

definition unset_callback_raw :: "'w listener \<Rightarrow> 'w listener" where
  "unset_callback_raw l = l\<lparr>callback_raw := None\<rparr>"

definition unset_callback_json :: "'w listener \<Rightarrow> 'w listener" where
  "unset_callback_json l = l\<lparr>callback_json := None\<rparr>"

definition unset_callback_message_json :: "'w listener \<Rightarrow> 'w listener" where
  "unset_callback_message_json l = l\<lparr>callback_message_json := None\<rparr>"

definition unset_callback_message_native :: "'w listener \<Rightarrow> 'w listener" where
  "unset_callback_message_native l = l\<lparr>callback_message := None\<rparr>"

definition unset_callback_message :: "'w listener \<Rightarrow> 'w listener" where
  "unset_callback_message l = unset_callback_message_native (unset_callback_message_json l)"

definition unset_callback_edited_json :: "'w listener \<Rightarrow> 'w listener" where
  "unset_callback_edited_json l = l\<lparr>callback_edited_json := None\<rparr>"

definition unset_callback_edited_native :: "'w listener \<Rightarrow> 'w listener" where
  "unset_callback_edited_native l = l\<lparr>callback_edited := None\<rparr>"

definition unset_callback_edited :: "'w listener \<Rightarrow> 'w listener" where
  "unset_callback_edited l = unset_callback_edited_native (unset_callback_edited_json l)"

definition unset_callback_inline_json :: "'w listener \<Rightarrow> 'w listener" where
  "unset_callback_inline_json l = l\<lparr>callback_inline_json := None\<rparr>"

definition unset_callback_inline_native :: "'w listener \<Rightarrow> 'w listener" where
  "unset_callback_inline_native l = l"

definition unset_callback_inline :: "'w listener \<Rightarrow> 'w listener" where
  "unset_callback_inline l = unset_callback_inline_native (unset_callback_inline_json l)"

definition unset_callback_chosen_inline_json :: "'w listener \<Rightarrow> 'w listener" where
  "unset_callback_chosen_inline_json l = l\<lparr>callback_chosen_inline_json := None\<rparr>"

definition unset_callback_chosen_inline_native :: "'w listener \<Rightarrow> 'w listener" where
  "unset_callback_chosen_inline_native l = l"

definition unset_callback_chosen_inline :: "'w listener \<Rightarrow> 'w listener" where
  "unset_callback_chosen_inline l =
     unset_callback_chosen_inline_native (unset_callback_chosen_inline_json l)"

definition unset_callback_query_callback_json :: "'w listener \<Rightarrow> 'w listener" where
  "unset_callback_query_callback_json l = l\<lparr>callback_query_callback_json := None\<rparr>"

definition unset_callback_query_callback_native :: "'w listener \<Rightarrow> 'w listener" where
  "unset_callback_query_callback_native l = l\<lparr>callback_query_callback := None\<rparr>"

definition unset_callback_query_callback :: "'w listener \<Rightarrow> 'w listener" where
  "unset_callback_query_callback l =
     unset_callback_query_callback_native (unset_callback_query_callback_json l)"

definition unset_callbacks :: "'w listener \<Rightarrow> 'w listener" where
  "unset_callbacks l =
     unset_callback_query_callback (unset_callback_chosen_inline (unset_callback_inline
       (unset_callback_edited (unset_callback_message (unset_callback_json
         (unset_callback_raw l))))))"

lemmas unset_defs = unset_callback_raw_def unset_callback_json_def unset_callback_message_def
  unset_callback_message_json_def unset_callback_message_native_def unset_callback_edited_def
  unset_callback_edited_json_def unset_callback_edited_native_def unset_callback_inline_def
  unset_callback_inline_json_def unset_callback_inline_native_def unset_callback_chosen_inline_def
  unset_callback_chosen_inline_json_def unset_callback_chosen_inline_native_def
  unset_callback_query_callback_def unset_callback_query_callback_json_def
  unset_callback_query_callback_native_def unset_callbacks_def

subsection \<open>Dispatch\<close>

text \<open>One guarded call: only if the callback is set and the update has the member.\<close>

definition call_json :: "(json, 'w) callback option \<Rightarrow> string \<Rightarrow> json \<Rightarrow> 'w action" where
  "call_json cb key tree =
     (case cb of
        None \<Rightarrow> skip
      | Some f \<Rightarrow> guarded (
          if json_contains tree key then
            (case json_at tree key of Inl e \<Rightarrow> (\<lambda>w. (Inl e, w)) | Inr v \<Rightarrow> f v)
          else skip))"

definition call_native ::
    "(json \<Rightarrow> string \<Rightarrow> 'a result) \<Rightarrow> ('a, 'w) callback option \<Rightarrow> string \<Rightarrow> json \<Rightarrow> 'w action" where
  "call_native from_json_path cb key tree =
     (case cb of
        None \<Rightarrow> skip
      | Some f \<Rightarrow> guarded (
          if json_contains tree key then
            (case from_json_path tree key of Inl e \<Rightarrow> (\<lambda>w. (Inl e, w)) | Inr x \<Rightarrow> f x)
          else skip))"

definition execute_callbacks :: "'w listener \<Rightarrow> json \<Rightarrow> 'w action" where
  "execute_callbacks l tree =
     andthen (case callback_json l of None \<Rightarrow> skip | Some f \<Rightarrow> guarded (f tree))
     (andthen (call_json (callback_message_json l) ''message'' tree)
     (andthen (call_native message_from_json_path (callback_message l) ''message'' tree)
     (andthen (call_json (callback_edited_json l) ''edited_message'' tree)
     (andthen (call_native message_from_json_path (callback_edited l) ''edited_message'' tree)
     (andthen (call_json (callback_inline_json l) ''inline_query'' tree)
     (andthen (call_json (callback_chosen_inline_json l) ''chosen_inline_result'' tree)
     (andthen (call_json (callback_query_callback_json l) ''callback_query'' tree)
       (call_native callback_query_from_json_path (callback_query_callback l) ''callback_query''
          tree))))))))"

subsection \<open>The events of an update\<close>

datatype event =
    Ev_update json
  | Ev_message_json json
  | Ev_message message
  | Ev_edited_json json
  | Ev_edited message
  | Ev_inline_json json
  | Ev_chosen_inline_json json
  | Ev_query_json json
  | Ev_query callback_query

definition event_json :: "'c option \<Rightarrow> (json \<Rightarrow> event) \<Rightarrow> json option \<Rightarrow> event list" where
  "event_json cb mk mem =
     (case (cb, mem) of (Some f, Some v) \<Rightarrow> [mk v] | _ \<Rightarrow> [])"

definition event_native ::
    "(json \<Rightarrow> 'a result) \<Rightarrow> 'c option \<Rightarrow> ('a \<Rightarrow> event) \<Rightarrow> json option \<Rightarrow> event list" where
  "event_native from_json cb mk mem =
     (case (cb, mem) of
        (Some f, Some v) \<Rightarrow> (case from_json v of Inr x \<Rightarrow> [mk x] | Inl e \<Rightarrow> [])
      | _ \<Rightarrow> [])"

definition events :: "'w listener \<Rightarrow> json \<Rightarrow> event list" where
  "events l tree =
     (if callback_json l = None then [] else [Ev_update tree]) @
     event_json (callback_message_json l) Ev_message_json (json_get tree ''message'') @
     event_native message_from_json (callback_message l) Ev_message (json_get tree ''message'') @
     event_json (callback_edited_json l) Ev_edited_json (json_get tree ''edited_message'') @
     event_native message_from_json (callback_edited l) Ev_edited (json_get tree ''edited_message'') @
     event_json (callback_inline_json l) Ev_inline_json (json_get tree ''inline_query'') @
     event_json (callback_chosen_inline_json l) Ev_chosen_inline_json
       (json_get tree ''chosen_inline_result'') @
     event_json (callback_query_callback_json l) Ev_query_json (json_get tree ''callback_query'') @
     event_native callback_query_from_json (callback_query_callback l) Ev_query
       (json_get tree ''callback_query'')"

definition call :: "('a, 'w) callback option \<Rightarrow> 'a \<Rightarrow> 'w action" where
  "call cb x = (case cb of None \<Rightarrow> skip | Some f \<Rightarrow> guarded (f x))"

fun deliver :: "'w listener \<Rightarrow> event \<Rightarrow> 'w action" where
  "deliver l (Ev_update j) = call (callback_json l) j"
| "deliver l (Ev_message_json j) = call (callback_message_json l) j"
| "deliver l (Ev_message m) = call (callback_message l) m"
| "deliver l (Ev_edited_json j) = call (callback_edited_json l) j"
| "deliver l (Ev_edited m) = call (callback_edited l) m"
| "deliver l (Ev_inline_json j) = call (callback_inline_json l) j"
| "deliver l (Ev_chosen_inline_json j) = call (callback_chosen_inline_json l) j"
| "deliver l (Ev_query_json j) = call (callback_query_callback_json l) j"
| "deliver l (Ev_query q) = call (callback_query_callback l) q"

fun deliver_all :: "'w listener \<Rightarrow> event list \<Rightarrow> 'w action" where
  "deliver_all l [] = skip"
| "deliver_all l (ev # evs) = andthen (deliver l ev) (deliver_all l evs)"

text \<open>Decoding an update does not convert a floating-point number that does not fit its integer type.\<close>

definition defined_update :: "json \<Rightarrow> bool" where
  "defined_update tree \<longleftrightarrow>
     (\<forall>k v e. k \<in> {''message'', ''edited_message''} \<and> json_get tree k = Some v \<and>
        message_from_json v = Inl e \<longrightarrow> is_std_exception e) \<and>
     (\<forall>v e. json_get tree ''callback_query'' = Some v \<and> callback_query_from_json v = Inl e \<longrightarrow>
        is_std_exception e)"

lemma andthen_skip [simp]: "andthen skip a = a" "andthen a skip = a"
  by (auto simp: fun_eq_iff andthen_def skip_def split: prod.split sum.split)

lemma andthen_assoc: "andthen (andthen a b) c = andthen a (andthen b c)"
  by (auto simp: fun_eq_iff andthen_def split: prod.split sum.split)

lemma guarded_skip [simp]: "guarded skip = skip"
  by (simp add: fun_eq_iff guarded_def skip_def)

lemma guarded_throw: "is_std_exception e \<Longrightarrow> guarded (\<lambda>w. (Inl e, w)) = skip"
  by (simp add: fun_eq_iff guarded_def skip_def)

lemma deliver_all_append: "deliver_all l (evs @ evs') = andthen (deliver_all l evs) (deliver_all l evs')"
  by (induction evs) (simp_all add: andthen_assoc)

lemma call_json_events:
  assumes "\<And>v. deliver l (mk v) = call cb v"
  shows "call_json cb key tree = deliver_all l (event_json cb mk (json_get tree key))"
  by (cases cb; cases "json_get tree key")
    (simp_all add: call_json_def event_json_def json_contains_iff assms call_def)

lemma call_native_events:
  assumes "\<And>x. deliver l (mk x) = call cb x"
    and "\<And>t k. from_json_path t k = bindE (json_at t k) from_json"
    and "\<And>v e. json_get tree key = Some v \<Longrightarrow> from_json v = Inl e \<Longrightarrow> is_std_exception e"
  shows "call_native from_json_path cb key tree =
    deliver_all l (event_native from_json cb mk (json_get tree key))"
proof (cases cb)
  case None
  then show ?thesis by (simp add: call_native_def event_native_def)
next
  case (Some f)
  show ?thesis
  proof (cases "json_get tree key")
    case None
    with Some show ?thesis by (simp add: call_native_def event_native_def json_contains_iff)
  next
    case (Some v)
    note v = this
    show ?thesis
    proof (cases "from_json v")
      case (Inl e)
      with assms(3) v have "is_std_exception e" by blast
      with Inl v \<open>cb = Some f\<close> show ?thesis
        by (simp add: call_native_def event_native_def json_contains_iff assms(2) guarded_throw)
    next
      case (Inr x)
      with v \<open>cb = Some f\<close> show ?thesis
        by (simp add: call_native_def event_native_def json_contains_iff assms(1,2) call_def)
    qed
  qed
qed

lemma execute_callbacks_events:
  assumes "defined_update tree"
  shows "execute_callbacks l tree = deliver_all l (events l tree)"
proof -
  have msg: "\<And>v e. json_get tree ''message'' = Some v \<Longrightarrow> message_from_json v = Inl e \<Longrightarrow>
      is_std_exception e"
    and edited: "\<And>v e. json_get tree ''edited_message'' = Some v \<Longrightarrow> message_from_json v = Inl e \<Longrightarrow>
      is_std_exception e"
    and query: "\<And>v e. json_get tree ''callback_query'' = Some v \<Longrightarrow>
      callback_query_from_json v = Inl e \<Longrightarrow> is_std_exception e"
    using assms by (auto simp: defined_update_def)
  have json: "(case callback_json l of None \<Rightarrow> skip | Some f \<Rightarrow> guarded (f tree)) =
      deliver_all l (if callback_json l = None then [] else [Ev_update tree])"
    by (simp add: call_def split: option.split)
  note js = call_json_events [where l = l and tree = tree]
  note natives = call_native_events [where l = l and tree = tree and cb = "callback_message l" and
      mk = Ev_message and from_json = message_from_json and from_json_path = message_from_json_path,
      OF _ _ msg]
    call_native_events [where l = l and tree = tree and cb = "callback_edited l" and
      mk = Ev_edited and from_json = message_from_json and from_json_path = message_from_json_path,
      OF _ _ edited]
    call_native_events [where l = l and tree = tree and cb = "callback_query_callback l" and
      mk = Ev_query and from_json = callback_query_from_json and
      from_json_path = callback_query_from_json_path, OF _ _ query]
  show ?thesis
    by (simp add: execute_callbacks_def events_def deliver_all_append json natives
        message_from_json_path_def callback_query_from_json_path_def
        js [where cb = "callback_message_json l" and mk = Ev_message_json]
        js [where cb = "callback_edited_json l" and mk = Ev_edited_json]
        js [where cb = "callback_inline_json l" and mk = Ev_inline_json]
        js [where cb = "callback_chosen_inline_json l" and mk = Ev_chosen_inline_json]
        js [where cb = "callback_query_callback_json l" and mk = Ev_query_json])
qed

subsection \<open>The interface to the transports\<close>

text \<open>What a transport relies on when it hands an update over: no standard exception comes back.\<close>

locale update_sink =
  fixes handle :: "json \<Rightarrow> 'w action"
  assumes handle_throws: "handle tree w = (Inl e, w') \<Longrightarrow> \<not> is_std_exception e"

lemma guarded_throws: "guarded a w = (Inl e, w') \<Longrightarrow> \<not> is_std_exception e"
  by (auto simp: guarded_def split: prod.splits sum.splits if_splits)

lemma andthen_throws:
  assumes "\<And>w e w'. a w = (Inl e, w') \<Longrightarrow> \<not> is_std_exception e"
    and "\<And>w e w'. b w = (Inl e, w') \<Longrightarrow> \<not> is_std_exception e"
    and "andthen a b w = (Inl e, w')"
  shows "\<not> is_std_exception e"
  using assms by (auto simp: andthen_def split: prod.splits sum.splits)

lemma call_throws:
  "call_json cb k t w = (Inl e, w') \<Longrightarrow> \<not> is_std_exception e"
  "call_native fj nb k t w = (Inl e, w') \<Longrightarrow> \<not> is_std_exception e"
  by (auto simp: call_json_def call_native_def skip_def split: option.splits dest: guarded_throws)

interpretation callbacks: update_sink "execute_callbacks l" for l :: "'w listener"
proof
  fix tree w e w'
  have first: "(case callback_json l of None \<Rightarrow> skip | Some f \<Rightarrow> guarded (f tree)) w = (Inl e, w') \<Longrightarrow>
      \<not> is_std_exception e" for w :: 'w and e w'
    by (auto simp: skip_def split: option.splits dest: guarded_throws)
  assume "execute_callbacks l tree w = (Inl e, w')"
  then show "\<not> is_std_exception e"
    unfolding execute_callbacks_def
    by (rule andthen_throws [rotated 2]) (erule first call_throws andthen_throws [rotated 2])+
qed

subsection \<open>Properties\<close>

text \<open>C4: Dispatch follows the specification: the callbacks run in the fixed order of the event list,
  each at most once, the raw JSON of a member before its decoded form; a member that does not decode
  gives its JSON event only; a callback that is not set, or whose member is missing, is not run; an
  exception of one callback does not keep the later ones from running.\<close>

theorem execute_callbacks_delivers:
  assumes "defined_update tree"
  shows "execute_callbacks l tree w = deliver_all l (events l tree) w"
  using assms by (simp add: execute_callbacks_events)

definition log_callbacks :: "string list listener" where
  "log_callbacks = (listener_new 4)
     \<lparr>callback_json := Some (\<lambda>j w. (Inl (Std_exception ''bot''), w @ [''update''])),
      callback_message_json := Some (\<lambda>j w. (Inr (), w @ [''message json''])),
      callback_message := Some (\<lambda>m w. (Inr (), w @ [''message'']))\<rparr>"

theorem execute_callbacks_delivers_witness:
  "execute_callbacks log_callbacks (JObject [(''message'', JObject []), (''update_id'', JUint 5)]) [] =
     (Inr (), [''update'', ''message json''])"
proof -
  let ?t = "JObject [(''message'', JObject []), (''update_id'', JUint 5)]"
  have dec: "message_from_json (JObject []) = Inl (key_not_found ''message_id'')"
    by (subst message_from_json.simps) (simp add: at_int64_def json_at_def)
  then have "defined_update ?t" by (auto simp: defined_update_def)
  from execute_callbacks_delivers [OF this, of log_callbacks "[]"] dec show ?thesis
    by (simp add: events_def event_json_def event_native_def log_callbacks_def listener_new_def
        set_num_threads_def andthen_def call_def guarded_def skip_def)
qed

text \<open>After \<open>unset_callbacks\<close> an update runs no callback at all, the raw callback is empty too, and
  the number of threads is unchanged.\<close>

lemma unset_callbacks_silences:
  "execute_callbacks (unset_callbacks l) tree = skip \<and> callback_raw (unset_callbacks l) = None \<and>
   num_threads (unset_callbacks l) = num_threads l"
  by (simp add: unset_defs execute_callbacks_def call_json_def call_native_def)

text \<open>The number of threads is never zero: not after construction, whatever the hardware reports, and
  not after any \<open>set_num_threads\<close>; a number the caller chooses other than 0 is kept.\<close>

lemma threads_never_zero:
  "get_num_threads (listener_new cores) \<noteq> 0 \<and> get_num_threads (set_num_threads cores n l) \<noteq> 0 \<and>
   get_num_threads (set_num_threads cores n l) =
     (if n = 0 then (if cores = 0 then 1 else cores) else n)"
  by (simp add: get_num_threads_def listener_new_def set_num_threads_def
      thread_number_chosen_automatically_def)

end
