(* ===== verification/Poll.thy ===== *)
theory Poll
  imports Sender Listener
begin

section \<open>The long-polling listener\<close>

text \<open>
  \<open>listeners/poll.h\<close>: one listener that asks for updates with \<open>getUpdates\<close>, keeps the offset that
  acknowledges what it has received, and hands every update to the callbacks, at once when it runs on one
  thread, to a pool otherwise (the pool is Boost.Asio's; here its queue). \<open>poll_cycle\<close> is one turn of the
  loop with its check; other threads act between the turns through \<open>poll_stop\<close>, \<open>poll_stop_all\<close> and the
  signal handler.
\<close>

subsection \<open>State\<close>

record 'w poll =
  poll_base :: "'w listener"
  poll_sender :: sender
  poll_timeout :: "32 word"

definition poll_timeout_default :: "32 word" where
  "poll_timeout_default = 60 * 60"

definition poll_new :: "32 word \<Rightarrow> sender \<Rightarrow> 32 word \<Rightarrow> 'w poll" where
  "poll_new cores this_sender this_poll_timeout =
     \<lparr>poll_base = listener_new cores, poll_sender = this_sender, poll_timeout = this_poll_timeout\<rparr>"

definition plural :: "32 word \<Rightarrow> string" where
  "plural value = (if value = 1 then '''' else ''s'')"

text \<open>The loop's variables: the offset, the bot's world, and the updates posted to the pool.\<close>

record 'w batch =
  offset :: "32 word"
  bot :: 'w
  posted :: "json list"

datatype loop_phase = RUNNING | FINISHED | ABORTED cxx_error

record 'w poll_state =
  keep_running :: bool
  keep_running_global :: bool
  signal_handler_is_set :: bool
  phase :: loop_phase
  requests :: "request list"
  batch :: "'w batch"

subsection \<open>Stopping\<close>

definition poll_stop :: "'w poll_state \<Rightarrow> 'w poll_state" where
  "poll_stop s = s\<lparr>keep_running := False\<rparr>"

definition poll_stop_all :: "'w poll_state \<Rightarrow> 'w poll_state" where
  "poll_stop_all s = s\<lparr>keep_running_global := False\<rparr>"

definition set_signal_handler :: "'w poll_state \<Rightarrow> 'w poll_state" where
  "set_signal_handler s = s\<lparr>signal_handler_is_set := True\<rparr>"

definition unset_signal_handler :: "'w poll_state \<Rightarrow> 'w poll_state" where
  "unset_signal_handler s = s\<lparr>signal_handler_is_set := False\<rparr>"

definition is_signal_handler_set :: "'w poll_state \<Rightarrow> bool" where
  "is_signal_handler_set s = signal_handler_is_set s"

definition signal_handler :: "'w poll_state \<Rightarrow> 'w poll_state" where
  "signal_handler s = unset_signal_handler (poll_stop_all s)"

subsection \<open>One turn of the loop\<close>

definition get_updates_tree :: "32 word \<Rightarrow> 32 word \<Rightarrow> json result" where
  "get_updates_tree off timeout = run_stmts
     [put_int ''offset'' (scast off),
      json_put ''timeout'' (JUint (ucast timeout))] JNull"

text \<open>\<open>offset = std::max(update_id + 1, offset)\<close> for a nonzero identifier; the signed addition overflows
  for the largest one.\<close>

definition advance :: "32 word \<Rightarrow> 32 word \<Rightarrow> 32 word result" where
  "advance off update_id =
     (if update_id \<noteq> 0 then
        (if sint update_id = 2 ^ 31 - 1 then Inl (Undefined ''signed integer overflow'')
         else Inr (if sint (update_id + 1) < sint off then off else update_id + 1))
      else Inr off)"

fun process_results ::
    "(json \<Rightarrow> 'w action) \<Rightarrow> bool \<Rightarrow> json list \<Rightarrow> 'w batch \<Rightarrow> unit result \<times> 'w batch" where
  "process_results handle single [] b = (Inr (), b)"
| "process_results handle single (it # its) b =
     (case bindE (json_cindex it ''update_id'') get_int32 of
        Inl e \<Rightarrow> (Inl e, b)
      | Inr update_id \<Rightarrow>
          (case advance (offset b) update_id of
             Inl e \<Rightarrow> (Inl e, b)
           | Inr off \<Rightarrow>
               if single then
                 (case handle it (bot b) of
                    (Inl e, w) \<Rightarrow> (Inl e, b\<lparr>offset := off, bot := w\<rparr>)
                  | (Inr u, w) \<Rightarrow> process_results handle single its (b\<lparr>offset := off, bot := w\<rparr>))
               else process_results handle single its (b\<lparr>offset := off, posted := posted b @ [it]\<rparr>)))"

text \<open>The body of the loop: the result, the requests and the variables it leaves.\<close>

definition poll_once ::
    "network \<Rightarrow> 'w poll \<Rightarrow> request list \<Rightarrow> 'w batch \<Rightarrow> unit result \<times> request list \<times> 'w batch" where
  "poll_once net p hist b =
     (case api_bind (api_lift (get_updates_tree (offset b) (poll_timeout p))) (\<lambda>tree.
             send_json net (poll_sender p) ''getUpdates'' tree (poll_timeout p)) hist of
        (Inl e, hist') \<Rightarrow> (Inl e, hist', b)
      | (Inr reply, hist') \<Rightarrow>
          (case json_index reply ''result'' of
             Inl e \<Rightarrow> (Inl e, hist', b)
           | Inr results \<Rightarrow>
               (case process_results (execute_callbacks (poll_base p))
                       (num_threads (poll_base p) = 1) (json_elements results) b of
                  (r, b') \<Rightarrow> (r, hist', b'))))"

text \<open>A standard exception of the body stops all listeners; the loop goes on to its check. Any other
  exception leaves \<open>run\<close>.\<close>

definition poll_body :: "network \<Rightarrow> 'w poll \<Rightarrow> 'w poll_state \<Rightarrow> 'w poll_state" where
  "poll_body net p s =
     (case poll_once net p (requests s) (batch s) of
        (r, hist, b) \<Rightarrow>
          let s' = s\<lparr>requests := hist, batch := b\<rparr>
          in case r of
               Inr u \<Rightarrow> s'
             | Inl e \<Rightarrow> if is_std_exception e then poll_stop_all s' else s'\<lparr>phase := ABORTED e\<rparr>)"

text \<open>The loop condition tests and sets both flags, the second one only when the first was set.\<close>

definition poll_cycle :: "network \<Rightarrow> 'w poll \<Rightarrow> 'w poll_state \<Rightarrow> 'w poll_state" where
  "poll_cycle net p s =
     (if phase s \<noteq> RUNNING then s
      else if \<not> keep_running s then unset_signal_handler (s\<lparr>keep_running := True, phase := FINISHED\<rparr>)
      else if \<not> keep_running_global s then
        unset_signal_handler (s\<lparr>keep_running_global := True, phase := FINISHED\<rparr>)
      else poll_body net p s)"

definition poll_run_start :: "'w \<Rightarrow> request list \<Rightarrow> 'w poll_state" where
  "poll_run_start w hist =
     \<lparr>keep_running = True, keep_running_global = True, signal_handler_is_set = True,
      phase = RUNNING, requests = hist, batch = \<lparr>offset = 0, bot = w, posted = []\<rparr>\<rparr>"

text \<open>What can happen to a running listener.\<close>

inductive poll_moves :: "network \<Rightarrow> 'w poll \<Rightarrow> 'w poll_state \<Rightarrow> 'w poll_state \<Rightarrow> bool"
  for net :: network and p :: "'w poll" where
  cycle: "poll_moves net p s (poll_cycle net p s)"
| stop: "poll_moves net p s (poll_stop s)"
| stop_all: "poll_moves net p s (poll_stop_all s)"
| signal: "signal_handler_is_set s \<Longrightarrow> poll_moves net p s (signal_handler s)"

inductive_cases poll_movesE: "poll_moves net p s s'"

subsection \<open>The offset\<close>

definition update_id :: "json \<Rightarrow> 32 word result" where
  "update_id it = bindE (json_cindex it ''update_id'') get_int32"

lemma sint_max: "sint (x :: 32 word) \<le> 2 ^ 31 - 1"
  using sint_less [of x] by simp

lemma sint_add_one:
  assumes "sint (x :: 32 word) \<noteq> 2 ^ 31 - 1"
  shows "sint (x + 1) = sint x + 1"
proof -
  have "sint x < 2 ^ 31 - 1" using sint_max [of x] assms by linarith
  moreover have "- (2 ^ 31) \<le> sint x" using sint_ge [of x] by simp
  ultimately show ?thesis
    by (simp add: sint_word_ariths signed_take_bit_int_eq_self)
qed

lemma advance_bounds:
  assumes "advance off i = Inr off'"
  shows "sint off \<le> sint off'" and "i \<noteq> 0 \<Longrightarrow> sint i < sint off'"
  using assms sint_add_one [of i] by (auto simp: advance_def split: if_splits)

lemma process_results_offset:
  assumes "process_results handle single its b = (r, b')"
  shows "sint (offset b) \<le> sint (offset b')"
  using assms
proof (induction its arbitrary: b)
  case (Cons it its)
  then show ?case
    by (auto simp: split: sum.splits prod.splits if_splits dest!: advance_bounds(1))
      (fastforce dest: order_trans)+
qed simp

lemma process_results_Cons_Inr:
  assumes "process_results handle single (it # its) b = (Inr (), b')"
  obtains i off b1 where "update_id it = Inr i" "advance (offset b) i = Inr off" "offset b1 = off"
    "process_results handle single its b1 = (Inr (), b')"
proof -
  from assms obtain i off where i: "update_id it = Inr i" "advance (offset b) i = Inr off"
    by (auto simp: update_id_def split: sum.splits)
  show thesis
  proof (cases single)
    case True
    with assms i obtain u w where "handle it (bot b) = (Inr u, w)"
      "process_results handle single its (b\<lparr>offset := off, bot := w\<rparr>) = (Inr (), b')"
      by (auto simp: update_id_def split: sum.splits prod.splits)
    with i show thesis by (intro that [of i off "b\<lparr>offset := off, bot := w\<rparr>"]) simp_all
  next
    case False
    with assms i show thesis
      by (intro that [of i off "b\<lparr>offset := off, posted := posted b @ [it]\<rparr>"])
        (simp_all add: update_id_def)
  qed
qed

lemma process_results_acknowledges:
  assumes "process_results handle single its b = (Inr (), b')" and "it \<in> set its"
  shows "\<exists>i. update_id it = Inr i \<and> (i \<noteq> 0 \<longrightarrow> sint i < sint (offset b'))"
  using assms
proof (induction its arbitrary: b)
  case (Cons x its)
  from Cons.prems(1) obtain i off b1 where st: "update_id x = Inr i" "advance (offset b) i = Inr off"
    "offset b1 = off" "process_results handle single its b1 = (Inr (), b')"
    by (rule process_results_Cons_Inr)
  show ?case
  proof (cases "it = x")
    case True
    with st process_results_offset [OF st(4)] advance_bounds(2) [OF st(2)] show ?thesis by auto
  next
    case False
    with Cons.prems(2) Cons.IH [OF st(4)] show ?thesis by simp
  qed
qed simp

subsection \<open>Delivery\<close>

fun handle_all :: "(json \<Rightarrow> 'w action) \<Rightarrow> json list \<Rightarrow> 'w action" where
  "handle_all handle [] = skip"
| "handle_all handle (it # its) = andthen (handle it) (handle_all handle its)"

lemma process_results_single:
  assumes "process_results handle True its b = (Inr (), b')"
  shows "handle_all handle its (bot b) = (Inr (), bot b')" and "posted b' = posted b"
proof -
  from assms have "handle_all handle its (bot b) = (Inr (), bot b') \<and> posted b' = posted b"
  proof (induction its arbitrary: b)
    case (Cons it its)
    then obtain i off u w where st: "update_id it = Inr i" "advance (offset b) i = Inr off"
      "handle it (bot b) = (Inr u, w)"
      "process_results handle True its (b\<lparr>offset := off, bot := w\<rparr>) = (Inr (), b')"
      by (auto simp: update_id_def split: sum.splits prod.splits)
    from Cons.IH [OF st(4)] st(3) show ?case by (simp add: andthen_def)
  qed (simp add: skip_def)
  then show "handle_all handle its (bot b) = (Inr (), bot b')" "posted b' = posted b" by simp_all
qed

lemma process_results_posted:
  assumes "process_results handle False its b = (Inr (), b')"
  shows "posted b' = posted b @ its" and "bot b' = bot b"
proof -
  from assms have "posted b' = posted b @ its \<and> bot b' = bot b"
  proof (induction its arbitrary: b)
    case (Cons it its)
    then obtain i off where "process_results handle False its
        (b\<lparr>offset := off, posted := posted b @ [it]\<rparr>) = (Inr (), b')"
      by (auto split: sum.splits)
    from Cons.IH [OF this] show ?case by simp
  qed simp
  then show "posted b' = posted b @ its" "bot b' = bot b" by simp_all
qed

text \<open>An update the loop can read: it has an identifier below the largest one.\<close>

definition readable :: "json \<Rightarrow> bool" where
  "readable it \<longleftrightarrow> (case update_id it of Inr i \<Rightarrow> sint i \<noteq> 2 ^ 31 - 1 | Inl e \<Rightarrow> False)"

lemma readable_advance:
  assumes "readable it"
  obtains i off' where "update_id it = Inr i" "advance off i = Inr off'"
proof -
  from assms obtain i where i: "update_id it = Inr i" "sint i \<noteq> 2 ^ 31 - 1"
    by (auto simp: readable_def split: sum.splits)
  then have "\<exists>off'. advance off i = Inr off'" by (simp add: advance_def)
  with i that show thesis by blast
qed

lemma process_results_posts:
  assumes "list_all readable its"
  shows "fst (process_results handle False its b) = Inr ()"
  using assms
proof (induction its arbitrary: b)
  case (Cons it its)
  from Cons.prems have "readable it" by simp
  then obtain i off where "update_id it = Inr i" "advance (offset b) i = Inr off"
    by (rule readable_advance)
  with Cons show ?case by (simp add: update_id_def)
qed simp

context update_sink
begin

lemma process_results_throws:
  assumes "list_all readable its" and "process_results handle single its b = (Inl e, b')"
  shows "\<not> is_std_exception e"
  using assms
proof (induction its arbitrary: b)
  case (Cons it its)
  from Cons.prems(1) have "readable it" by simp
  then obtain i off where i: "update_id it = Inr i" "advance (offset b) i = Inr off"
    by (rule readable_advance)
  show ?case
  proof (cases single)
    case True
    with Cons i show ?thesis
      by (auto simp: update_id_def split: sum.splits prod.splits dest: handle_throws)
  next
    case False
    with Cons i show ?thesis by (simp add: update_id_def)
  qed
qed simp

end

text \<open>
  Batches served one after the other by a server that honours the offset, as the Bot API documents it: an
  update whose identifier is below the offset of the request is not returned again, and the
  identifiers of one reply are distinct and nonzero.
\<close>

definition honours :: "32 word \<Rightarrow> json list \<Rightarrow> bool" where
  "honours off its \<longleftrightarrow> distinct (map update_id its) \<and>
     (\<forall>it \<in> set its. \<exists>i. update_id it = Inr i \<and> i \<noteq> 0 \<and> sint off \<le> sint i)"

inductive served :: "(json \<Rightarrow> 'w action) \<Rightarrow> bool \<Rightarrow> 'w batch \<Rightarrow> json list \<Rightarrow> 'w batch \<Rightarrow> bool"
  for handle :: "json \<Rightarrow> 'w action" and single :: bool and b :: "'w batch" where
  start: "served handle single b [] b"
| reply: "served handle single b its b1 \<Longrightarrow> honours (offset b1) fresh \<Longrightarrow>
    process_results handle single fresh b1 = (Inr (), b2) \<Longrightarrow> served handle single b (its @ fresh) b2"

inductive_cases servedE: "served handle single b its b'"

lemma served_invariant:
  assumes "served handle single b its b'"
  shows "distinct (map update_id its) \<and>
    (\<forall>it \<in> set its. \<exists>i. update_id it = Inr i \<and> sint i < sint (offset b'))"
  using assms
proof (induction rule: served.induct)
  case (reply its b1 fresh b2)
  have grow: "sint (offset b1) \<le> sint (offset b2)" using reply.hyps(3) by (rule process_results_offset)
  have old: "\<exists>i. update_id it = Inr i \<and> sint i < sint (offset b1)" if "it \<in> set its" for it
    using reply.IH that by blast
  have new: "\<exists>i. update_id it = Inr i \<and> sint (offset b1) \<le> sint i \<and> sint i < sint (offset b2)"
    if "it \<in> set fresh" for it
    using process_results_acknowledges [OF reply.hyps(3) that] reply.hyps(2) that
    unfolding honours_def by fastforce
  have "update_id x \<noteq> update_id y" if "x \<in> set its" "y \<in> set fresh" for x y
    using old [OF that(1)] new [OF that(2)] by auto
  then have "set (map update_id its) \<inter> set (map update_id fresh) = {}" by auto
  moreover have "distinct (map update_id fresh)" using reply.hyps(2) by (simp add: honours_def)
  moreover have "\<exists>i. update_id it = Inr i \<and> sint i < sint (offset b2)" if "it \<in> set its" for it
    using old [OF that] grow by auto
  moreover have "\<exists>i. update_id it = Inr i \<and> sint i < sint (offset b2)" if "it \<in> set fresh" for it
    using new [OF that] by blast
  ultimately show ?case using reply.IH by auto
qed simp

lemma served_delivers:
  assumes "served handle True b its b'"
  shows "handle_all handle its (bot b) = (Inr (), bot b')"
  using assms
proof (induction rule: served.induct)
  case start
  then show ?case by (simp add: skip_def)
next
  case (reply its b1 fresh b2)
  have "handle_all handle (xs @ ys) = andthen (handle_all handle xs) (handle_all handle ys)" for xs ys
    by (induction xs) (simp_all add: andthen_assoc)
  with reply.IH process_results_single(1) [OF reply.hyps(3)] show ?case by (simp add: andthen_def)
qed

subsection \<open>The loop\<close>

definition get_updates_body :: "32 word \<times> 32 word \<Rightarrow> json" where
  "get_updates_body = (\<lambda>(off, timeout). mk_object
     [(''offset'', Some (JInt (scast off))), (''timeout'', Some (JUint (ucast timeout)))])"

lemma get_updates_tree_body: "get_updates_tree off timeout = Inr (get_updates_body (off, timeout))"
  unfolding get_updates_tree_def get_updates_body_def prod.case
  by (rule fills_object) (rule fills_intros sets_put | simp)+

lemma poll_once_requests:
  assumes "list_all path_char token" and "json_dump (- 1) (get_updates_body (offset b, poll_timeout p)) = Inr body"
    and "poll_sender p = sender_new no_ssl token ua"
    and "poll_once net p hist b = (r, hist', b')"
  shows "hist' = hist @ [api_request no_ssl token ''getUpdates'' (poll_timeout p) body]"
proof -
  have "list_all path_char ''getUpdates''" by code_simp
  from assms(4) send_json_one_request [OF assms(1) this assms(2), of net no_ssl ua "poll_timeout p" hist]
  show ?thesis
    by (auto simp: poll_once_def get_updates_tree_body assms(3) split: sum.splits prod.splits)
qed

lemma send_json_log: "\<exists>rs. snd (send_json net s m t timeout hist) = hist @ rs"
  by (auto simp: send_json_def api_bind_def api_lift_def api_post_def split: sum.split prod.split)

lemma poll_once_extends:
  assumes "poll_once net p hist b = (r, hist', b')"
  shows "(\<exists>rs. hist' = hist @ rs) \<and> sint (offset b) \<le> sint (offset b')"
proof -
  obtain r0 log0 where s: "send_json net (poll_sender p) ''getUpdates''
      (get_updates_body (offset b, poll_timeout p)) (poll_timeout p) hist = (r0, log0)"
    by (rule prod.exhaust)
  with send_json_log [of net "poll_sender p" "''getUpdates''"
      "get_updates_body (offset b, poll_timeout p)" "poll_timeout p" hist]
  have "\<exists>rs. log0 = hist @ rs" by simp
  with assms s show ?thesis
    by (auto simp: poll_once_def get_updates_tree_body split: sum.splits prod.splits
        dest: process_results_offset)
qed

lemma poll_cycle_extends:
  "(\<exists>rs. requests (poll_cycle net p s) = requests s @ rs) \<and>
   sint (offset (batch s)) \<le> sint (offset (batch (poll_cycle net p s)))"
proof -
  obtain r hist b where once: "poll_once net p (requests s) (batch s) = (r, hist, b)"
    by (metis prod.exhaust)
  from poll_once_extends [OF this] once show ?thesis
    by (auto simp: poll_cycle_def poll_body_def Let_def unset_signal_handler_def poll_stop_all_def
        split: sum.splits)
qed

lemmas poll_flag_defs = poll_stop_def poll_stop_all_def signal_handler_def unset_signal_handler_def
  set_signal_handler_def is_signal_handler_set_def

lemma poll_cycle_ended: "phase s \<noteq> RUNNING \<Longrightarrow> poll_cycle net p s = s"
  by (simp add: poll_cycle_def)

subsection \<open>Properties\<close>

text \<open>C3: The offset never goes back and acknowledges everything received: after a reply has been processed,
  the identifier of each of its updates is below the offset of the next request. On one thread the
  updates have then been handed to the callbacks one after the other in the order of the reply; on
  several they have been posted to the pool in that order.\<close>

theorem reply_is_acknowledged:
  assumes "process_results handle single its b = (Inr (), b')"
  shows "sint (offset b) \<le> sint (offset b') \<and>
    list_all (\<lambda>it. \<exists>i. update_id it = Inr i \<and> (i = 0 \<or> sint i < sint (offset b'))) its \<and>
    (if single then handle_all handle its (bot b) = (Inr (), bot b')
     else posted b' = posted b @ its \<and> bot b' = bot b)"
proof (intro conjI)
  show "sint (offset b) \<le> sint (offset b')" using assms by (rule process_results_offset)
  show "list_all (\<lambda>it. \<exists>i. update_id it = Inr i \<and> (i = 0 \<or> sint i < sint (offset b'))) its"
    unfolding list_all_iff using process_results_acknowledges [OF assms] by blast
  show "if single then handle_all handle its (bot b) = (Inr (), bot b')
     else posted b' = posted b @ its \<and> bot b' = bot b"
    using assms process_results_single(1) process_results_posted by (cases single) auto
qed

definition update5 :: json where
  "update5 = JObject [(''update_id'', JUint 5)]"

theorem reply_is_acknowledged_witness:
  "\<exists>b'. process_results (\<lambda>_. skip) True [update5] \<lparr>offset = 0, bot = (), posted = []\<rparr> = (Inr (), b') \<and>
     (5::int) < sint (offset b')"
proof -
  have run: "process_results (\<lambda>_. skip) True [update5] \<lparr>offset = 0, bot = (), posted = []\<rparr> =
      (Inr (), \<lparr>offset = 6, bot = (), posted = []\<rparr>)"
    by (simp add: update5_def json_cindex_def advance_def skip_def)
  from reply_is_acknowledged [OF run] have "(5::int) < 6"
    by (simp add: update_id_def update5_def json_cindex_def)
  with run show ?thesis by simp
qed

text \<open>C2: Every update is handled at most once. Against a server that honours the offset, the updates of
  all the replies processed since \<open>run\<close> started have pairwise different identifiers, and on one thread the
  callbacks have seen exactly these updates, in the order received.\<close>

theorem updates_handled_once:
  assumes "served handle True b its b'"
  shows "distinct (map update_id its) \<and> handle_all handle its (bot b) = (Inr (), bot b')"
  using served_invariant [OF assms] served_delivers [OF assms] by blast

theorem updates_handled_once_witness:
  "\<exists>b'. served (\<lambda>_. skip) True \<lparr>offset = 0, bot = (), posted = []\<rparr> [update5] b' \<and>
     handle_all (\<lambda>_. skip) [update5] () = (Inr (), bot b')"
proof -
  let ?b = "\<lparr>offset = 0, bot = (), posted = []\<rparr>"
  have id: "update_id update5 = Inr 5" by (simp add: update_id_def update5_def json_cindex_def)
  have run: "process_results (\<lambda>_. skip) True [update5] ?b =
      (Inr (), \<lparr>offset = 6, bot = (), posted = []\<rparr>)"
    by (simp add: update5_def json_cindex_def advance_def skip_def)
  have "honours (offset ?b) [update5]" by (simp add: honours_def id)
  from served.reply [OF served.start this run]
  have "served (\<lambda>_. skip) True ?b [update5] \<lparr>offset = 6, bot = (), posted = []\<rparr>" by simp
  from this updates_handled_once [OF this] show ?thesis by auto
qed

text \<open>C13: A running listener only moves forward, whatever other threads and signals do: along every
  sequence of turns, stops and signals its offset never decreases, requests are only added to those
  already sent, and once it has left the loop it never sends another request nor changes its offset.\<close>

theorem poll_moves_forward:
  assumes "(poll_moves net p)\<^sup>*\<^sup>* s s'"
  shows "sint (offset (batch s)) \<le> sint (offset (batch s')) \<and>
    (\<exists>rs. requests s' = requests s @ rs) \<and>
    (phase s \<noteq> RUNNING \<longrightarrow> phase s' = phase s \<and> requests s' = requests s \<and> batch s' = batch s)"
  using assms
proof (induction rule: rtranclp_induct)
  case (step s1 s2)
  from step.hyps(2) consider "s2 = poll_cycle net p s1"
    | "batch s2 = batch s1" "requests s2 = requests s1" "phase s2 = phase s1"
    by (cases rule: poll_moves.cases) (auto simp: poll_flag_defs)
  then show ?case
  proof cases
    case 1
    with step.IH poll_cycle_extends [of net p s1] show ?thesis
      by (auto simp: poll_cycle_ended intro: order_trans)
  qed (use step.IH in simp)
qed simp

definition idle_poll :: "unit poll" where
  "idle_poll = poll_new 1 (sender_new False ''42:ab'' ''Bot'') poll_timeout_default"

theorem poll_moves_forward_witness:
  "sint (offset (batch (poll_stop (poll_run_start () [])))) \<ge> 0"
proof -
  have "(poll_moves echo_network idle_poll)\<^sup>*\<^sup>* (poll_run_start () []) (poll_stop (poll_run_start () []))"
    by (intro r_into_rtranclp poll_moves.stop)
  from poll_moves_forward [OF this] show ?thesis by (simp add: poll_run_start_def)
qed

text \<open>C14: \<open>stop\<close>, \<open>stop_all\<close> and the first ctrl-c end the loop at its next check, without another request
  and with the signal handler removed. The check sets the flag it found cleared again: after \<open>stop_all\<close>
  the listener leaves the global flag set, so that it is the only one to see it.\<close>

theorem stop_ends_loop:
  assumes "phase s = RUNNING" and "keep_running s" and "keep_running_global s"
  shows "poll_cycle net p (poll_stop s) =
      s\<lparr>phase := FINISHED, signal_handler_is_set := False\<rparr> \<and>
    poll_cycle net p (poll_stop_all s) = s\<lparr>phase := FINISHED, signal_handler_is_set := False\<rparr> \<and>
    poll_cycle net p (signal_handler s) = s\<lparr>phase := FINISHED, signal_handler_is_set := False\<rparr>"
  using assms by (simp add: poll_cycle_def poll_flag_defs)

theorem stop_ends_loop_witness:
  "phase (poll_cycle echo_network idle_poll (poll_stop_all (poll_run_start () []))) = FINISHED"
proof -
  have "phase (poll_run_start () []) = RUNNING" "keep_running (poll_run_start () [])"
    "keep_running_global (poll_run_start () [])"
    by (simp_all add: poll_run_start_def)
  from stop_ends_loop [OF this, of echo_network idle_poll] show ?thesis by simp
qed

text \<open>A \<open>getUpdates\<close> that fails ends the run: when the body of the loop throws a standard exception
  (no reply, a status other than 200, a reply that is not an object, an update without a readable
  identifier), the listener stops after that one request, keeping the offset it had reached; there is
  no retry.\<close>

lemma failed_poll_ends_run:
  assumes "phase s = RUNNING" and "keep_running s" and "keep_running_global s"
    and "poll_once net p (requests s) (batch s) = (Inl e, hist, b)" and "is_std_exception e"
  shows "poll_cycle net p (poll_cycle net p s) =
    s\<lparr>phase := FINISHED, signal_handler_is_set := False, requests := hist, batch := b\<rparr>"
  using assms by (simp add: poll_cycle_def poll_body_def poll_flag_defs)

definition dead_network :: network where
  "dead_network = (\<lambda>_. No_reply ''timeout'')"

lemma get_updates_sent:
  obtains body where "json_dump (- 1) (get_updates_body a) = Inr body"
proof -
  have "utf8_json (get_updates_body a)" by (cases a) (simp add: get_updates_body_def utf8_json_mk_object utf8_valid_ascii)
  then show ?thesis using that json_dump_cases [of "get_updates_body a" "- 1"] by (auto simp: dumps_iff_def)
qed

lemma failed_poll_ends_run_witness:
  "phase (poll_cycle dead_network idle_poll (poll_cycle dead_network idle_poll
     (poll_run_start () []))) = FINISHED"
proof -
  have plain: "list_all path_char ''42:ab''" "list_all path_char ''getUpdates''" by code_simp+
  obtain body where dump: "json_dump (- 1) (get_updates_body (0, 3600)) = Inr body" by (rule get_updates_sent)
  let ?s = "poll_run_start () []"
  have "poll_once dead_network idle_poll (requests ?s) (batch ?s) =
      (Inl (unable_to_open (api_url False ''42:ab'' ''getUpdates'') ''timeout''),
       [api_request False ''42:ab'' ''getUpdates'' 3600 body], \<lparr>offset = 0, bot = (), posted = []\<rparr>)"
    using send_json_one_request [OF plain dump, where no_ssl = False and ua = "''Bot''" and timeout = 3600
      and hist = "[]"]
    by (simp add: poll_once_def get_updates_tree_body idle_poll_def poll_new_def poll_run_start_def
        poll_timeout_default_def handle_reply_def dead_network_def)
  from failed_poll_ends_run [OF _ _ _ this] show ?thesis
    by (simp add: poll_run_start_def unable_to_open_def)
qed

text \<open>A callback's standard exception does not stop the polling: when the reply is an object whose
  updates all have readable identifiers, the turn leaves both flags set, whatever the callbacks throw;
  it leaves the loop only for an object thrown that is not a standard exception, or undefined
  behaviour.\<close>

lemma callbacks_do_not_stop_polling:
  assumes "phase s = RUNNING" and "keep_running s" and "keep_running_global s"
    and "send_json net (poll_sender p) ''getUpdates''
      (get_updates_body (offset (batch s), poll_timeout p)) (poll_timeout p) (requests s) =
      (Inr (JObject m), hist)"
    and "map_of m ''result'' = Some (JArray its)" and "list_all readable its"
  shows "keep_running (poll_cycle net p s) \<and> keep_running_global (poll_cycle net p s) \<and>
    (phase (poll_cycle net p s) = RUNNING \<or>
     (\<exists>e. phase (poll_cycle net p s) = ABORTED e \<and> \<not> is_std_exception e))"
proof -
  obtain r b where pr: "process_results (execute_callbacks (poll_base p))
      (num_threads (poll_base p) = 1) its (batch s) = (r, b)"
    by (rule prod.exhaust)
  with assms(4,5) have once: "poll_once net p (requests s) (batch s) = (r, hist, b)"
    by (simp add: poll_once_def get_updates_tree_body json_index_def)
  show ?thesis
  proof (cases r)
    case (Inl e)
    with pr have "\<not> is_std_exception e" using callbacks.process_results_throws [OF assms(6)] by blast
    with Inl assms once show ?thesis by (simp add: poll_cycle_def poll_body_def)
  next
    case (Inr u)
    with assms once show ?thesis by (simp add: poll_cycle_def poll_body_def)
  qed
qed

definition update_network :: network where
  "update_network = (\<lambda>_. Reply 200 (ok_reply (JArray [update5])))"

lemma callbacks_do_not_stop_polling_witness:
  "keep_running_global (poll_cycle update_network idle_poll (poll_run_start () []))"
proof -
  let ?s = "poll_run_start () []"
  have plain: "list_all path_char ''42:ab''" "list_all path_char ''getUpdates''" by code_simp+
  obtain body where dump: "json_dump (- 1) (get_updates_body (0, 3600)) = Inr body" by (rule get_updates_sent)
  have flags: "phase ?s = RUNNING" "keep_running ?s" "keep_running_global ?s"
    by (simp_all add: poll_run_start_def)
  have "valid_json (JArray [update5])" by (simp add: update5_def utf8_valid_ascii obj_sorted_def)
  from ok_reply_text [OF this] have
    "json_text (JObject [(''ok'', JBool True), (''result'', JArray [update5])]) (ok_reply (JArray [update5]))"
    by (simp add: update5_def)
  from handle_reply_text [OF this] have send: "send_json update_network (poll_sender idle_poll) ''getUpdates''
      (get_updates_body (offset (batch ?s), poll_timeout idle_poll)) (poll_timeout idle_poll) (requests ?s) =
      (Inr (JObject [(''ok'', JBool True), (''result'', JArray [update5])]),
       [api_request False ''42:ab'' ''getUpdates'' 3600 body])"
    using send_json_one_request [OF plain dump, where no_ssl = False and ua = "''Bot''" and timeout = 3600
      and hist = "[]"]
    by (simp add: idle_poll_def poll_new_def poll_run_start_def poll_timeout_default_def update_network_def)
  have "readable update5" by (simp add: readable_def update_id_def update5_def json_cindex_def)
  then have "list_all readable [update5]" by simp
  from callbacks_do_not_stop_polling [OF flags send _ this] show ?thesis by simp
qed

end
