(* ===== verification/Pollers.thy ===== *)
theory Pollers
  imports Prelude
begin

section \<open>Several polling listeners\<close>

text \<open>
  The flags of several \<open>listener::poll\<close> objects that run at the same time (\<open>listeners/poll.h\<close>): every
  listener has its own flag, all share the global flag and the state of the signal handler. A step is
  one thing a listener does (it enters \<open>run\<close>, tests the loop condition, finishes a poll, catches a
  standard exception of it, or is left by any other exception) or another thread does to it (\<open>stop\<close>, \<open>stop_all\<close>, a signal). What a poll transfers is in
  \<open>Poll\<close>.
\<close>

datatype poller_phase = IDLE | CHECKING | POLLING | DONE

record pollers =
  local_flag :: "nat \<Rightarrow> bool"
  poller_phase :: "nat \<Rightarrow> poller_phase"
  global_flag :: bool
  handler_set :: bool

datatype poller_event =
    Enter nat
  | Check nat
  | Poll_ok nat
  | Poll_throws nat
  | Poll_aborts nat
  | Stop nat
  | Stop_all
  | Signal

inductive pollers_step :: "pollers \<Rightarrow> poller_event \<Rightarrow> pollers \<Rightarrow> bool" where
  enter: "poller_phase s i = IDLE \<or> poller_phase s i = DONE \<Longrightarrow>
    pollers_step s (Enter i)
      (s\<lparr>local_flag := (local_flag s)(i := True), global_flag := True, handler_set := True,
         poller_phase := (poller_phase s)(i := CHECKING)\<rparr>)"
| check_go: "poller_phase s i = CHECKING \<Longrightarrow> local_flag s i \<Longrightarrow> global_flag s \<Longrightarrow>
    pollers_step s (Check i) (s\<lparr>poller_phase := (poller_phase s)(i := POLLING)\<rparr>)"
| check_local: "poller_phase s i = CHECKING \<Longrightarrow> \<not> local_flag s i \<Longrightarrow>
    pollers_step s (Check i)
      (s\<lparr>local_flag := (local_flag s)(i := True), handler_set := False,
         poller_phase := (poller_phase s)(i := DONE)\<rparr>)"
| check_global: "poller_phase s i = CHECKING \<Longrightarrow> local_flag s i \<Longrightarrow> \<not> global_flag s \<Longrightarrow>
    pollers_step s (Check i)
      (s\<lparr>global_flag := True, handler_set := False, poller_phase := (poller_phase s)(i := DONE)\<rparr>)"
| poll_ok: "poller_phase s i = POLLING \<Longrightarrow>
    pollers_step s (Poll_ok i) (s\<lparr>poller_phase := (poller_phase s)(i := CHECKING)\<rparr>)"
| poll_throws: "poller_phase s i = POLLING \<Longrightarrow>
    pollers_step s (Poll_throws i)
      (s\<lparr>global_flag := False, poller_phase := (poller_phase s)(i := CHECKING)\<rparr>)"
| poll_aborts: "poller_phase s i = POLLING \<Longrightarrow>
    pollers_step s (Poll_aborts i) (s\<lparr>poller_phase := (poller_phase s)(i := DONE)\<rparr>)"
| stop: "pollers_step s (Stop i) (s\<lparr>local_flag := (local_flag s)(i := False)\<rparr>)"
| stop_all: "pollers_step s Stop_all (s\<lparr>global_flag := False\<rparr>)"
| signal: "handler_set s \<Longrightarrow> pollers_step s Signal (s\<lparr>global_flag := False, handler_set := False\<rparr>)"

inductive_cases pollers_stepE:
  "pollers_step s (Check i) s'" "pollers_step s (Poll_ok i) s'" "pollers_step s Stop_all s'"

inductive pollers_run :: "pollers \<Rightarrow> poller_event list \<Rightarrow> pollers \<Rightarrow> bool" where
  nil: "pollers_run s [] s"
| step: "pollers_step s e s' \<Longrightarrow> pollers_run s' es s'' \<Longrightarrow> pollers_run s (e # es) s''"

inductive_cases pollers_runE: "pollers_run s (e # es) s'" "pollers_run s [] s'"

text \<open>The loop of the listeners, undisturbed.\<close>

fun quiet :: "poller_event \<Rightarrow> bool" where
  "quiet (Check i) = True"
| "quiet (Poll_ok i) = True"
| "quiet e = False"

definition finished :: "pollers \<Rightarrow> nat set" where
  "finished s = {i. poller_phase s i = DONE}"

text \<open>Without a cleared flag of their own, the listeners that finish are at most as many as the one
  clearing of the global flag that is still pending.\<close>

lemma quiet_step:
  assumes "pollers_step s e s'" and "quiet e" and "\<And>i. local_flag s i"
  shows "(\<forall>i. local_flag s' i) \<and>
    (finished s' = finished s \<and> global_flag s' = global_flag s \<or>
     (\<exists>i. finished s' = insert i (finished s) \<and> \<not> global_flag s \<and> global_flag s'))"
  using assms by (cases rule: pollers_step.cases) (auto simp: finished_def split: if_splits)

lemma quiet_run:
  assumes "pollers_run s es s'" and "list_all quiet es" and "\<And>i. local_flag s i"
  shows "finished s' = finished s \<or> (\<exists>i. finished s' = insert i (finished s) \<and> \<not> global_flag s)"
  using assms
proof (induction rule: pollers_run.induct)
  case (step s e s1 es s')
  from step.prems(1) have e: "quiet e" "list_all quiet es" by simp_all
  from quiet_step [OF step.hyps(1) e(1) step.prems(2)] have
    loc: "\<And>i. local_flag s1 i" and
    cases: "finished s1 = finished s \<and> global_flag s1 = global_flag s \<or>
      (\<exists>i. finished s1 = insert i (finished s) \<and> \<not> global_flag s \<and> global_flag s1)" by blast+
  from cases step.IH [OF e(2) loc] show ?case by auto
qed simp

lemma quiet_run_append:
  "pollers_run s es s' \<Longrightarrow> pollers_run s' es' s'' \<Longrightarrow> pollers_run s (es @ es') s''"
  by (induction rule: pollers_run.induct) (auto intro: pollers_run.step)

text \<open>C15: One \<open>stop_all\<close> stops at most one listener. After it, and as long as nobody clears a flag again and
  no poll fails, at most one of the listeners that were running has left its loop, however many there
  are and however they are scheduled: the check that sees the cleared flag sets it again. The
  comment promises that all of them stop.\<close>

theorem stop_all_stops_one:
  assumes "\<And>i. local_flag s i" and "pollers_run s (Stop_all # es) s'" and "list_all quiet es"
  shows "\<exists>i. finished s' \<subseteq> insert i (finished s)"
proof -
  from assms(2) obtain s1 where s1: "pollers_step s Stop_all s1" "pollers_run s1 es s'"
    by (auto elim: pollers_runE)
  from s1(1) have "s1 = s\<lparr>global_flag := False\<rparr>" by (auto elim: pollers_stepE)
  with assms(1) have "\<And>i. local_flag s1 i" "finished s1 = finished s" by (simp_all add: finished_def)
  with quiet_run [OF s1(2) assms(3)] show ?thesis by auto
qed

definition two_pollers :: "nat \<Rightarrow> poller_phase" where
  "two_pollers i = (if i < 2 then CHECKING else IDLE)"

definition both_running :: pollers where
  "both_running = \<lparr>local_flag = \<lambda>_. True, poller_phase = two_pollers, global_flag = True,
     handler_set = True\<rparr>"

theorem stop_all_stops_one_witness:
  "\<exists>s'. pollers_run both_running [Stop_all, Check 0, Check 1] s' \<and>
     poller_phase s' 0 = DONE \<and> poller_phase s' 1 = POLLING \<and> (\<exists>i. finished s' \<subseteq> {i})"
proof -
  let ?s1 = "both_running\<lparr>global_flag := False\<rparr>"
  let ?s2 = "?s1\<lparr>global_flag := True, handler_set := False, poller_phase := (poller_phase ?s1)(0 := DONE)\<rparr>"
  let ?s3 = "?s2\<lparr>poller_phase := (poller_phase ?s2)(1 := POLLING)\<rparr>"
  have "pollers_step ?s1 (Check 0) ?s2"
    by (rule pollers_step.check_global) (simp_all add: both_running_def two_pollers_def)
  moreover have "pollers_step ?s2 (Check 1) ?s3"
    by (rule pollers_step.check_go) (simp_all add: both_running_def two_pollers_def)
  ultimately have run: "pollers_run both_running [Stop_all, Check 0, Check 1] ?s3"
    by (blast intro: pollers_run.intros pollers_step.stop_all)
  have "local_flag both_running i" for i by (simp add: both_running_def)
  from stop_all_stops_one [OF this run] have "\<exists>i. finished ?s3 \<subseteq> insert i (finished both_running)"
    by simp
  moreover have "finished both_running = {}" by (simp add: finished_def both_running_def two_pollers_def)
  ultimately show ?thesis using run by (intro exI [of _ ?s3]) simp
qed

text \<open>\<open>stop\<close> is local. A listener that was stopped leaves its loop at its next check, and stopping it
  never makes another listener leave: while no flag but its own is cleared, the others keep running.\<close>

lemma stop_is_local:
  assumes "\<And>j. j \<noteq> i \<Longrightarrow> local_flag s j" and "global_flag s" and "pollers_run s es s'"
    and "list_all (\<lambda>e. quiet e \<or> e = Stop i) es"
  shows "finished s' \<subseteq> insert i (finished s) \<and> global_flag s' \<and>
    (poller_phase s' i = CHECKING \<and> \<not> local_flag s' i \<longrightarrow>
       (\<forall>s''. pollers_step s' (Check i) s'' \<longrightarrow> poller_phase s'' i = DONE))"
proof -
  have "finished s' \<subseteq> insert i (finished s) \<and> global_flag s' \<and> (\<forall>j. j \<noteq> i \<longrightarrow> local_flag s' j)"
    using assms(3,4,1,2)
  proof (induction rule: pollers_run.induct)
    case (step s e s1 es s')
    from step.hyps(1) step.prems have "finished s1 \<subseteq> insert i (finished s) \<and> global_flag s1 \<and>
        (\<forall>j. j \<noteq> i \<longrightarrow> local_flag s1 j)"
      by (cases rule: pollers_step.cases) (auto simp: finished_def split: if_splits)
    with step.IH step.prems(1) show ?case by auto
  qed auto
  moreover have "poller_phase s'' i = DONE"
    if "\<not> local_flag s' i" "pollers_step s' (Check i) s''" for s''
    using that(2,1) by (auto elim: pollers_stepE)
  ultimately show ?thesis by blast
qed

lemma stop_is_local_witness:
  "finished (both_running\<lparr>local_flag := (\<lambda>_. True)(1 := False)\<rparr>) \<subseteq> {1}"
proof -
  have flags: "\<And>j. j \<noteq> 1 \<Longrightarrow> local_flag both_running j" "global_flag both_running"
    by (simp_all add: both_running_def)
  have "pollers_run both_running [Stop 1] (both_running\<lparr>local_flag := (local_flag both_running)(1 := False)\<rparr>)"
    by (rule pollers_run.step [OF pollers_step.stop pollers_run.nil])
  from stop_is_local [OF flags this]
  have "finished (both_running\<lparr>local_flag := (local_flag both_running)(1 := False)\<rparr>)
      \<subseteq> insert 1 (finished both_running)" by simp
  then show ?thesis by (simp add: finished_def both_running_def two_pollers_def)
qed

end
