(* ===== verification/Fcgi_Spec.thy ===== *)
theory Fcgi_Spec
  imports Http_Parse Machine
begin

unbundle bit_operations_syntax

section \<open>The records of FastCGI\<close>

text \<open>
  \<open>boost/cgi/fcgi/specification.hpp\<close> and the error codes of \<open>fcgi/error.hpp\<close> and \<open>common/error.hpp\<close>. A record
  has a header of eight bytes: version, type, request id, length of the content, length of the padding; the
  header buffer is a string of that length. \<open>boost::uint16_t\<close> is a 16-bit word, in which the length of content
  and padding together wraps round.
\<close>

subsection \<open>Constants\<close>

datatype request_types =
    BEGIN_REQUEST | ABORT_REQUEST | END_REQUEST | PARAMS | STDIN | STDOUT | STDERR | DATA
  | GET_VALUES | GET_VALUES_RESULT | UNKNOWN_TYPE | Other_type nat

fun type_code :: "request_types \<Rightarrow> nat" where
  "type_code BEGIN_REQUEST = 1"
| "type_code ABORT_REQUEST = 2"
| "type_code END_REQUEST = 3"
| "type_code PARAMS = 4"
| "type_code STDIN = 5"
| "type_code STDOUT = 6"
| "type_code STDERR = 7"
| "type_code DATA = 8"
| "type_code GET_VALUES = 9"
| "type_code GET_VALUES_RESULT = 10"
| "type_code UNKNOWN_TYPE = 11"
| "type_code (Other_type n) = n"

text \<open>The cast of a byte to the enumeration; \<open>Other_type\<close> is a value that has no name.\<close>

definition type_of_code :: "nat \<Rightarrow> request_types" where
  "type_of_code n =
     (case List.find (\<lambda>t. type_code t = n)
         [BEGIN_REQUEST, ABORT_REQUEST, END_REQUEST, PARAMS, STDIN, STDOUT, STDERR, DATA, GET_VALUES,
          GET_VALUES_RESULT, UNKNOWN_TYPE] of
        Some t \<Rightarrow> t
      | None \<Rightarrow> Other_type n)"

lemma type_of_type_code [simp]: "(\<And>n. t \<noteq> Other_type n) \<Longrightarrow> type_of_code (type_code t) = t"
  by (cases t) (auto simp: type_of_code_def)

datatype status_types = REQUEST_COMPLETE | CANT_MPX_CONN | OVERLOADED | UNKNOWN_ROLE

fun status_types_code :: "status_types \<Rightarrow> nat" where
  "status_types_code REQUEST_COMPLETE = 0"
| "status_types_code CANT_MPX_CONN = 1"
| "status_types_code OVERLOADED = 2"
| "status_types_code UNKNOWN_ROLE = 3"

definition max_packet_size :: nat where
  "max_packet_size = 65535"

subsection \<open>Writing and reading a header\<close>

text \<open>The cast of a number to \<open>unsigned char\<close>; \<open>char_of\<close> takes the number modulo 256.\<close>

definition header_reset :: "request_types \<Rightarrow> 16 word \<Rightarrow> nat \<Rightarrow> string" where
  "header_reset t i len =
     [CHR 0x01, char_of (type_code t), char_of (unat i div 256), char_of (unat i),
      char_of (len div 256), char_of len, CHR 0x00, CHR 0x00]"

definition header_bytes :: "nat \<Rightarrow> nat \<Rightarrow> string \<Rightarrow> 16 word" where
  "header_bytes i j h = word_of_nat (of_char (h ! i) * 256 + of_char (h ! j))"

definition get_type :: "string \<Rightarrow> request_types" where
  "get_type h = type_of_code (of_char (h ! 1))"

definition get_request_id :: "string \<Rightarrow> 16 word" where
  "get_request_id h = header_bytes 2 3 h"

definition get_content_length :: "string \<Rightarrow> 16 word" where
  "get_content_length h = header_bytes 4 5 h"

definition get_padding_length :: "string \<Rightarrow> 16 word" where
  "get_padding_length h = word_of_nat (of_char (h ! 6))"

definition get_length :: "string \<Rightarrow> 16 word" where
  "get_length h = get_content_length h + get_padding_length h"

lemma length_header_reset [simp]: "length (header_reset t i len) = 8"
  by (simp add: header_reset_def)

lemma header_reset_type [simp]:
  "(\<And>n. t \<noteq> Other_type n) \<Longrightarrow> get_type (header_reset t i len) = t"
  by (cases t) (auto simp: get_type_def header_reset_def type_of_code_def)

lemma header_reset_id [simp]: "get_request_id (header_reset t i len) = i"
proof -
  have "unat i < 65536" using unsigned_less [of i, where 'a = nat] by simp
  then have "unat i div 256 mod 256 * 256 + unat i mod 256 = unat i"
    by (simp add: div_mult_mod_eq)
  then show ?thesis by (simp add: get_request_id_def header_bytes_def header_reset_def)
qed

lemma header_reset_content [simp]: "len < 65536 \<Longrightarrow> get_content_length (header_reset t i len) = word_of_nat len"
proof -
  assume "len < 65536"
  then have "len div 256 mod 256 * 256 + len mod 256 = len" by (simp add: div_mult_mod_eq)
  then show ?thesis by (simp add: get_content_length_def header_bytes_def header_reset_def)
qed

lemma header_reset_length [simp]:
  "len < 65536 \<Longrightarrow> get_length (header_reset t i len) = word_of_nat len"
proof -
  assume "len < 65536"
  moreover have "get_padding_length (header_reset t i len) = 0"
    by (simp add: get_padding_length_def header_reset_def)
  ultimately show ?thesis by (simp add: get_length_def)
qed

text \<open>The bodies of a record that begins and of one that ends a request.\<close>

definition begin_request_role :: "string \<Rightarrow> nat" where
  "begin_request_role b = of_char (b ! 0) * 256 + of_char (b ! 1)"

definition begin_request_flags :: "string \<Rightarrow> nat" where
  "begin_request_flags b = of_char (b ! 2)"

definition end_request_body :: "64 word \<Rightarrow> status_types \<Rightarrow> string" where
  "end_request_body app p =
     map (\<lambda>k. char_of (unat (drop_bit k app))) [24, 16, 8, 0] @
     [char_of (status_types_code p), CHR 0x00, CHR 0x00, CHR 0x00]"

lemma length_end_request_body [simp]: "length (end_request_body app p) = 8"
  by (simp add: end_request_body_def)

subsection \<open>Error codes\<close>

datatype fcgi_errors =
    Bad_header_type | Bad_request_id | Couldnt_write_complete_packet | Client_closed
  | Abort_request_record_recieved_for_invalid_request | Multiplexed_request_incoming | Duplicate_request
  | Accepting_on_an_open_request | Invalid_socket | Unable_to_duplicate_handle | Failed_to_redirect_stdin
  | Unsupported_handle_type | Invalid_form_type | Broken_pipe | Bad_read | Bad_write | Client_not_open
  | Multiplexing_not_supported | Already_closed | Eof

definition fcgi_message :: "fcgi_errors \<Rightarrow> string" where
  "fcgi_message e =
     (case e of
        Client_closed \<Rightarrow> ''You are trying to read from or write to a closed client.''
      | Multiplexed_request_incoming \<Rightarrow> ''A new request is pending on this connection (ie. it is '' @
          ''multiplexed). This isn'' @ [CHR 0x27] @ ''t handled for now. **FIXME**''
      | Accepting_on_an_open_request \<Rightarrow> ''You called async_accept before closing a request.''
      | Already_closed \<Rightarrow> ''The client has already been closed.''
      | Multiplexing_not_supported \<Rightarrow> ''Multiplexing connections are not yet fully supported.''
      | Unable_to_duplicate_handle \<Rightarrow>
          ''A call to DuplicateHandle failed while trying to duplicate the FastCGI HANDLE.''
      | Failed_to_redirect_stdin \<Rightarrow>
          ''A call to SetStdHandle failed while trying to redirect the FastCGI HANDLE.''
      | Unsupported_handle_type \<Rightarrow>
          ''An unsupported connection type was used to communicate with the FastCGI application.''
      | _ \<Rightarrow> ''An unknown FastCGI error occurred.'')"

datatype cgi_errors =
    Cgi_client_closed | Cgi_duplicate_request | Cgi_accepting_on_an_open_request | Cgi_invalid_socket
  | Cgi_invalid_form_type | Cgi_broken_pipe | Cgi_bad_read | Cgi_bad_write | Cgi_client_not_open | Cgi_eof
  | Multipart_form_boundary_not_found | Multipart_meta_data_not_terminated | No_boundary_marker
  | Cgi_already_closed | Max_post_exceeded

definition cgi_message :: "cgi_errors \<Rightarrow> string" where
  "cgi_message e =
     (case e of
        Cgi_client_closed \<Rightarrow> ''Attempting to read from or write to a client that has been'' @ '' closed.''
      | Cgi_accepting_on_an_open_request \<Rightarrow>
          [CHR 0x60] @ ''async_accept'' @ [CHR 0x60] @ '' called with an open request (ie. it should be'' @
          '' closed first).''
      | Multipart_form_boundary_not_found \<Rightarrow> ''The first multipart form boundary was not found.''
      | No_boundary_marker \<Rightarrow> ''Expected a boundary marker for a multipart form, but did not'' @ '' find it.''
      | Cgi_invalid_form_type \<Rightarrow> ''The CONTENT_TYPE for form data wasn'' @ [CHR 0x27] @ ''t recognised.''
      | Cgi_eof \<Rightarrow> ''End of File.''
      | Cgi_duplicate_request \<Rightarrow> ''FastCGI: new request received with a duplicate id.''
      | Max_post_exceeded \<Rightarrow> ''The content length of the file upload is larger than maximum'' @
          '' allowed by the BOOST_CGI_POST_MAX macro.''
      | Cgi_already_closed \<Rightarrow> ''Trying to close a request that has already been closed.''
      | _ \<Rightarrow> ''(CGI) BOOM!!!'')"

text \<open>A \<open>boost::system::error_code\<close> of this part of the program. A code of the system is its message.\<close>

datatype cgi_code = No_error | Fcgi_error fcgi_errors | Cgi_error cgi_errors | System_code string

definition code_message :: "cgi_code \<Rightarrow> string" where
  "code_message e =
     (case e of
        No_error \<Rightarrow> ''Success''
      | Fcgi_error f \<Rightarrow> fcgi_message f
      | Cgi_error c \<Rightarrow> cgi_message c
      | System_code s \<Rightarrow> s)"

subsection \<open>Name and value pairs\<close>

text \<open>\<open>detail::param_length\<close>: one byte below 128, else four bytes with the highest bit set. Sizes are cut to
  32 bits.\<close>

definition param_length :: "string \<Rightarrow> string" where
  "param_length s =
     (let n = take_bit 32 (length s)
      in if n < 128 then [char_of n]
         else [char_of (n div 2 ^ 24 OR 0x80), char_of (n div 2 ^ 16), char_of (n div 2 ^ 8), char_of n])"

end
