(* ===== verification/Form_Parser.thy ===== *)
theory Form_Parser
  imports Fcgi_Spec
begin

section \<open>The data of a request\<close>

text \<open>
  How Boost.CGI takes the variables of a request apart: \<open>detail/url_decode.ipp\<close>, \<open>detail/extract_params.hpp\<close> and
  the form parser of \<open>common/form_parser.hpp\<close> and \<open>impl/form_parser.ipp\<close>. What it uses of Boost itself is in the
  record \<open>boost_env\<close>: \<open>lexical_cast\<close> to \<open>std::size_t\<close>, the tokenizer that keeps its separators and empty tokens,
  \<open>trim_if\<close> with a set of characters, the time as it is printed, and the most bytes \<open>write\<close> passes on at once.
\<close>

record boost_env =
  lexical_size :: "string \<Rightarrow> 64 word option"
  tokens :: "string \<Rightarrow> string \<Rightarrow> string list"
  trim_any :: "string \<Rightarrow> string \<Rightarrow> string"
  clock :: string
  max_transfer :: nat

subsection \<open>The maps\<close>

text \<open>Names are compared without case (\<open>ichar_traits\<close>). The environment is a map; its subscript makes an empty
  entry for a name it does not have, which no read can tell from none. A \<open>multimap\<close> is the list of its
  entries in the order they were inserted.\<close>

definition toupper :: "char \<Rightarrow> char" where
  "toupper c = (if CHR ''a'' \<le> c \<and> c \<le> CHR ''z'' then char_of (of_char c - 32 :: nat) else c)"

type_synonym env_map = "string \<rightharpoonup> string"

definition name_key :: "string \<Rightarrow> string" where
  "name_key s = map toupper s"

definition env_value :: "env_map \<Rightarrow> string \<Rightarrow> string" where
  "env_value env k = (case env (name_key k) of Some v \<Rightarrow> v | None \<Rightarrow> [])"

definition env_put :: "string \<Rightarrow> string \<Rightarrow> env_map \<Rightarrow> env_map" where
  "env_put k v env = env(name_key (c_str k) \<mapsto> v)"

subsection \<open>Percent decoding\<close>

definition isxdigit :: "char \<Rightarrow> bool" where
  "isxdigit c \<longleftrightarrow> isdigit c \<or> (CHR ''a'' \<le> c \<and> c \<le> CHR ''f'') \<or> (CHR ''A'' \<le> c \<and> c \<le> CHR ''F'')"

definition isalpha :: "char \<Rightarrow> bool" where
  "isalpha c \<longleftrightarrow> isupper c \<or> (CHR ''a'' \<le> c \<and> c \<le> CHR ''z'')"

definition hex_part :: "char \<Rightarrow> int" where
  "hex_part c = (if isalpha c then (of_char c AND 0xDF) - 0x41 + 10 else of_char c - 0x30)"

definition hex_to_char :: "char \<Rightarrow> char \<Rightarrow> char" where
  "hex_to_char c1 c2 = char_of (nat ((push_bit 4 (hex_part c1) + hex_part c2) mod 256))"

fun url_decode :: "string \<Rightarrow> string" where
  "url_decode [] = []"
| "url_decode (c # s) =
     (if c = CHR '' '' then url_decode s
      else if c = CHR ''+'' then CHR '' '' # url_decode s
      else if c = CHR ''%'' then
        (case s of
           a # b # r \<Rightarrow> if isxdigit a \<and> isxdigit b then hex_to_char a b # url_decode r else CHR ''%'' # url_decode s
         | _ \<Rightarrow> CHR ''%'' # url_decode s)
      else c # url_decode s)"

subsection \<open>Query strings\<close>

definition blank_char :: "char \<Rightarrow> bool" where
  "blank_char c \<longleftrightarrow> c \<in> set [CHR '' '', CHR 0x0C, CHR 0x0A, CHR 0x0D, CHR 0x09, CHR 0x0B]"

text \<open>The loop over the tokens, with the name and the current token.\<close>

fun extract_loop :: "bool \<Rightarrow> string list \<Rightarrow> string \<Rightarrow> string \<Rightarrow> (string \<times> string) list \<Rightarrow> (string \<times> string) list" where
  "extract_loop decode [] name cur dest =
     (if name \<noteq> [] then dest @ [(c_str name, cur)]
      else if cur \<noteq> [] then dest @ [(c_str cur, [])]
      else dest)"
| "extract_loop decode (tok # ts) name cur dest =
     (if tok = ''='' then
        extract_loop decode ts (if dropWhile blank_char cur \<noteq> [] then dropWhile blank_char cur else cur) [] dest
      else if tok = ''&'' \<or> tok = '';'' then
        extract_loop decode ts [] []
          (dest @ [if name = [] then (c_str cur, []) else (c_str name, cur)])
      else extract_loop decode ts name (if decode then url_decode tok else tok) dest)"

definition extract_params ::
    "boost_env \<Rightarrow> string \<Rightarrow> string \<Rightarrow> bool \<Rightarrow> (string \<times> string) list \<Rightarrow> (string \<times> string) list" where
  "extract_params bo seps input decode dest =
     (if input = [] then dest else extract_loop decode (tokens bo seps input) [] [] dest)"

subsection \<open>Positions in a string\<close>

text \<open>\<open>std::string::find\<close> and \<open>substr\<close> with positions of 64 bits; \<open>npos\<close> is the largest.\<close>

definition npos :: "64 word" where
  "npos = - 1"

definition std_find :: "string \<Rightarrow> string \<Rightarrow> 64 word \<Rightarrow> 64 word" where
  "std_find pat s pos =
     (if unat pos \<le> length s then
        (case find_string pat (drop (unat pos) s) of Some k \<Rightarrow> pos + word_of_nat k | None \<Rightarrow> npos)
      else npos)"

definition std_substr :: "string \<Rightarrow> 64 word \<Rightarrow> 64 word \<Rightarrow> string result" where
  "std_substr s pos n =
     (if unat pos \<le> length s then Inr (take (unat n) (drop (unat pos) s))
      else Inl (Std_exception ''std::out_of_range''))"

subsection \<open>Forms\<close>

record upload =
  upload_name :: string
  upload_filename :: string
  upload_path :: string
  upload_content :: string

record form_context =
  ctx_content_type :: string
  ctx_content_length :: string
  ctx_buffer :: string
  ctx_bytes_left :: "64 word"
  ctx_data :: "(string \<times> string) list"
  ctx_uploads :: "upload list"
  ctx_stdin_parsed :: bool
  ctx_random_string :: string
  ctx_boundaries :: "string list"

definition lexical_cast_size :: "boost_env \<Rightarrow> string \<Rightarrow> (64 word) result" where
  "lexical_cast_size bo s =
     (case lexical_size bo s of Some n \<Rightarrow> Inr n | None \<Rightarrow> Inl (Std_exception ''bad_lexical_cast''))"

definition parse_json_form :: "boost_env \<Rightarrow> form_context \<Rightarrow> form_context result" where
  "parse_json_form bo x =
     (if ctx_buffer x = [] then Inr (x\<lparr>ctx_data := ctx_data x @ [(''POSTDATA'', [])]\<rparr>)
      else
        bindE (if ctx_content_length x = [] then Inr 0 else lexical_cast_size bo (ctx_content_length x)) (\<lambda>n.
          Inr (x\<lparr>ctx_data := ctx_data x @ [(''POSTDATA'', take (unat n) (ctx_buffer x))]\<rparr>)))"

text \<open>A URL-encoded form: the text and the name read so far. At \<open>=\<close> the two are exchanged.\<close>

fun url_encoded_loop :: "string \<Rightarrow> string \<Rightarrow> string \<Rightarrow> (string \<times> string) list \<Rightarrow> (string \<times> string) list" where
  "url_encoded_loop [] val name dest = (if name \<noteq> [] then dest @ [(c_str name, val)] else dest)"
| "url_encoded_loop (c # s) val name dest =
     (if c = CHR '' '' then url_encoded_loop s val name dest
      else if c = CHR ''+'' then url_encoded_loop s (val @ '' '') name dest
      else if c = CHR ''%'' then
        (case s of
           a # b # r \<Rightarrow>
             if isxdigit a \<and> isxdigit b then url_encoded_loop r (val @ [hex_to_char a b]) name dest
             else url_encoded_loop s (val @ ''%'') name dest
         | _ \<Rightarrow> url_encoded_loop s (val @ ''%'') name dest)
      else if c = CHR ''='' then url_encoded_loop s name val dest
      else if c = CHR ''&'' then url_encoded_loop s [] [] (dest @ [(c_str name, val)])
      else url_encoded_loop s (val @ [c]) name dest)"

definition parse_url_encoded_form :: "form_context \<Rightarrow> form_context" where
  "parse_url_encoded_form x =
     (if ctx_buffer x = [] then x else x\<lparr>ctx_data := url_encoded_loop (ctx_buffer x) [] [] (ctx_data x)\<rparr>)"

subsection \<open>Forms in several parts\<close>

definition parse_boundary_marker :: "boost_env \<Rightarrow> form_context \<Rightarrow> (cgi_code \<times> form_context) result" where
  "parse_boundary_marker bo x =
     bindE (std_substr (ctx_content_type x) (std_find ''boundary='' (ctx_content_type x) 0 + 9) npos) (\<lambda>m.
       let marker = trim_any bo ([CHR '' '', CHR 0x09, CHR 0x0A, CHR 0x0B, CHR 0x0C, CHR 0x0D]) m
       in if marker = [] then Inr (Cgi_error No_boundary_marker, x)
          else Inr (No_error, x\<lparr>ctx_boundaries := marker # ctx_boundaries x\<rparr>))"

text \<open>\<open>front\<close> of an empty list is undefined.\<close>

definition front_marker :: "form_context \<Rightarrow> string result" where
  "front_marker x =
     (case ctx_boundaries x of m # _ \<Rightarrow> Inr (''--'' @ m) | [] \<Rightarrow> Inl (Undefined ''front of an empty list''))"

text \<open>Whether the marker was found or not, the error code is cleared at the end.\<close>

definition move_to_start_of_first_part :: "form_context \<Rightarrow> (cgi_code \<times> form_context) result" where
  "move_to_start_of_first_part x =
     bindE (front_marker x) (\<lambda>m.
       let marker = m @ crlf; pos = std_find marker (ctx_buffer x) 0
       in Inr (No_error,
            if pos = npos then x else x\<lparr>ctx_buffer := drop (unat pos + length marker) (ctx_buffer x)\<rparr>))"

definition trim_quotes :: "boost_env \<Rightarrow> string \<Rightarrow> string" where
  "trim_quotes bo s = trim_any bo [CHR 0x22, CHR '' ''] s"

text \<open>The value of a part, and the upload when it has a file name: \<open>meta\<close> is the head of the part, \<open>next\<close> the
  position of the marker behind it.\<close>

definition part_value ::
    "boost_env \<Rightarrow> form_context \<Rightarrow> string \<Rightarrow> string \<Rightarrow> 64 word \<Rightarrow> 64 word \<Rightarrow> (string \<times> upload list) result" where
  "part_value bo x meta name pos2 nxt =
     (let pos5 = std_find crlf meta 0; pos6 = std_find ''filename='' meta pos2;
          len = word_of_nat (length meta); content = std_substr (ctx_buffer x) (len + 4) (nxt - len - 4)
      in if pos6 = npos then bindE content (\<lambda>v. Inr (v, []))
         else
           bindE (std_substr meta (pos6 + 9) (pos5 - pos6 - 9)) (\<lambda>f.
             let filename = trim_quotes bo f
             in if filename = [] then Inr (filename, [])
                else bindE content (\<lambda>c.
                  Inr (filename, [\<lparr>upload_name = name, upload_filename = filename,
                    upload_path = ''../uploads/'' @ trim_any bo ('':~.|/'' @ [CHR 0x5C]) filename @ ''.'' @ ctx_random_string x @
                      ''.'' @ clock bo,
                    upload_content = c\<rparr>]))))"

definition parse_form_part :: "boost_env \<Rightarrow> form_context \<Rightarrow> (cgi_code \<times> form_context) result" where
  "parse_form_part bo x =
     bindE (front_marker x) (\<lambda>marker.
       let buf = ctx_buffer x; fin = std_find (crlf @ crlf) buf 0
       in if fin = npos then Inr (Cgi_error Multipart_meta_data_not_terminated, x)
          else
            bindE (std_substr buf 0 fin) (\<lambda>meta.
              let pos1 = std_find ''isposition:'' meta 0; pos2 = std_find '';'' meta pos1;
                  at = std_find ''name='' meta 0; pos4 = std_find '';'' meta at;
                  pos3 = (if at = npos then std_find crlf meta 0 else at);
                  nxt = std_find (crlf @ marker) buf fin
              in bindE (std_substr meta (pos3 + 5) (pos4 - pos3 - 5)) (\<lambda>f.
                 bindE (std_substr meta (pos1 + 11) (pos2 - pos1 - 11)) (\<lambda>_.
                 bindE (part_value bo x meta (trim_quotes bo f) pos2 nxt) (\<lambda>(v, ups).
                   let rest = drop (unat (nxt + word_of_nat (length marker) + 2)) buf;
                       last = (take 2 rest = ''--'')
                   in Inr (No_error, x\<lparr>ctx_buffer := drop 2 rest,
                        ctx_bytes_left := (if last \<or> rest = [] then 0 else ctx_bytes_left x),
                        ctx_data := ctx_data x @ [(c_str (trim_quotes bo f), v)],
                        ctx_uploads := ctx_uploads x @ ups,
                        ctx_stdin_parsed := (ctx_stdin_parsed x \<or> last)\<rparr>))))))"

lemma std_find_Nil: "pat \<noteq> [] \<Longrightarrow> std_find pat [] pos = npos"
  by (simp add: std_find_def)

lemma parse_form_part_shorter:
  assumes "parse_form_part bo x = Inr (No_error, x')"
  shows "length (ctx_buffer x') < length (ctx_buffer x)"
proof -
  have fin: "std_find (crlf @ crlf) (ctx_buffer x) 0 \<noteq> npos"
    using assms by (auto simp: parse_form_part_def Let_def bindE_eq_Inr_iff)
  then have "ctx_buffer x \<noteq> []" by (auto simp: std_find_Nil crlf_def)
  moreover obtain k where "ctx_buffer x' = drop 2 (drop k (ctx_buffer x))"
    using assms fin by (auto simp: parse_form_part_def Let_def bindE_eq_Inr_iff simp del: drop_drop)
  ultimately show ?thesis by (cases "ctx_buffer x") auto
qed

text \<open>The loop over the parts.\<close>

function parse_form_parts :: "boost_env \<Rightarrow> form_context \<Rightarrow> (cgi_code \<times> form_context) result" where
  "parse_form_parts bo x =
     (if ctx_stdin_parsed x then Inr (No_error, x)
      else bindE (parse_form_part bo x) (\<lambda>(ec, x').
        if ec \<noteq> No_error then Inr (ec, x') else parse_form_parts bo x'))"
  by pat_completeness auto
termination
  by (relation "measure (\<lambda>(_, x). length (ctx_buffer x))") (auto dest: parse_form_part_shorter)

declare parse_form_parts.simps [simp del]

definition parse_multipart_form :: "boost_env \<Rightarrow> form_context \<Rightarrow> (cgi_code \<times> form_context) result" where
  "parse_multipart_form bo x =
     bindE (parse_boundary_marker bo x) (\<lambda>(_, x1).
       bindE (move_to_start_of_first_part x1) (\<lambda>(_, x2). parse_form_parts bo x2))"

text \<open>The choice by the content type. An error code from before stays, except that a multipart form clears it.\<close>

definition form_parse :: "boost_env \<Rightarrow> form_context \<Rightarrow> cgi_code \<Rightarrow> (cgi_code \<times> form_context) result" where
  "form_parse bo x ec =
     (let has = (\<lambda>t. std_find t (ctx_content_type x) 0 \<noteq> npos)
      in if has ''application/json'' then bindE (parse_json_form bo x) (\<lambda>x'. Inr (ec, x'))
         else if has ''application/x-www-form-urlencoded'' then Inr (ec, parse_url_encoded_form x)
         else if has ''multipart/form-data'' then parse_multipart_form bo x
         else Inr (ec, x))"

end
