(* ===== verification/Fcgi_Request.thy ===== *)
theory Fcgi_Request
  imports Form_Parser
begin

section \<open>Loading a FastCGI request\<close>

text \<open>
  \<open>boost/cgi/impl/fcgi_request_service.ipp\<close> with the parts of \<open>common/request_base.hpp\<close>, \<open>basic_client.hpp\<close> and
  \<open>basic_request.hpp\<close> it uses. The record \<open>fcgi_impl\<close> is the implementation of a request with its client and its
  connection: the bytes that are still to come from the web server, the error a read meets behind them, and the
  bytes sent. A result of \<open>None\<close> is a call that never returns. Handlers of other requests, which
  \<open>read_header\<close> may run while it waits, are left out.
\<close>

datatype client_status =
    Status_none | Status_constructed | Status_params_read | Status_stdin_read | Status_end_request_sent | Status_closed

fun client_status_code :: "client_status \<Rightarrow> nat" where
  "client_status_code Status_none = 0"
| "client_status_code Status_constructed = 1"
| "client_status_code Status_params_read = 2"
| "client_status_code Status_stdin_read = 3"
| "client_status_code Status_end_request_sent = 4"
| "client_status_code Status_closed = 5"

record fcgi_impl =
  conn_open :: bool
  arriving :: string
  read_end :: cgi_code
  sent_bytes :: string
  write_error :: cgi_code
  impl_id :: "16 word"
  async_requests :: "16 word"
  request_role :: nat
  header_buf :: string
  param_buffer :: string
  post_buffer :: string
  env_vars :: env_map
  get_vars :: "(string \<times> string) list"
  post_vars :: "(string \<times> string) list"
  cookie_vars :: "(string \<times> string) list"
  upload_vars :: "upload list"
  stdin_parsed :: bool
  all_done :: bool
  request_status :: "32 word"
  bytes_left :: "64 word"
  client_request_id :: "16 word"
  client_state :: client_status
  keep_connection :: bool
  total_sent_bytes :: "64 word"
  total_sent_packets :: "64 word"

definition no_header :: string where
  "no_header = replicate 8 (CHR 0x00)"

text \<open>A request as it is constructed, on an open connection with the bytes \<open>inp\<close> to come, and accepted.\<close>

definition fcgi_impl_new :: "string \<Rightarrow> cgi_code \<Rightarrow> fcgi_impl" where
  "fcgi_impl_new inp e =
     \<lparr>conn_open = True, arriving = inp, read_end = e, sent_bytes = [], write_error = No_error, impl_id = 0,
      async_requests = 1, request_role = 0, header_buf = no_header, param_buffer = [], post_buffer = [],
      env_vars = (\<lambda>_. None), get_vars = [], post_vars = [], cookie_vars = [], upload_vars = [],
      stdin_parsed = False, all_done = False, request_status = 1, bytes_left = 0, client_request_id = - 1,
      client_state = Status_none, keep_connection = False, total_sent_bytes = 0, total_sent_packets = 0\<rparr>"

text \<open>\<open>clear\<close> keeps the connection and whether to keep it.\<close>

definition fcgi_clear :: "fcgi_impl \<Rightarrow> fcgi_impl" where
  "fcgi_clear s = s\<lparr>impl_id := 0, request_role := 0, param_buffer := [], post_buffer := [],
     env_vars := (\<lambda>_. None), get_vars := [], post_vars := [], cookie_vars := [], upload_vars := [],
     stdin_parsed := False, all_done := False, request_status := 0, client_request_id := - 1,
     client_state := Status_none\<rparr>"

subsection \<open>Sequencing\<close>

type_synonym 'a outcome = "'a result option"

definition bindO :: "'a outcome \<Rightarrow> ('a \<Rightarrow> 'b outcome) \<Rightarrow> 'b outcome" where
  "bindO m f = (case m of None \<Rightarrow> None | Some (Inl e) \<Rightarrow> Some (Inl e) | Some (Inr x) \<Rightarrow> f x)"

lemma bindO_simps [simp]:
  "bindO None f = None" "bindO (Some (Inl e)) f = Some (Inl e)" "bindO (Some (Inr x)) f = f x"
  by (simp_all add: bindO_def)

lemma bindO_eq_Inr_iff: "bindO m f = Some (Inr y) \<longleftrightarrow> (\<exists>x. m = Some (Inr x) \<and> f x = Some (Inr y))"
  by (auto simp: bindO_def split: option.split sum.split)

lemma bindO_cong [fundef_cong]:
  assumes "m = m'" and "\<And>x. m' = Some (Inr x) \<Longrightarrow> f x = f' x"
  shows "bindO m f = bindO m' f'"
  using assms by (auto simp: bindO_def split: option.split sum.split)

subsection \<open>The socket\<close>

definition closed_code :: cgi_code where
  "closed_code = System_code ''Bad file descriptor''"

definition socket_write :: "string \<Rightarrow> fcgi_impl \<Rightarrow> cgi_code \<times> fcgi_impl" where
  "socket_write b s =
     (if \<not> conn_open s then (closed_code, s)
      else if write_error s \<noteq> No_error then (write_error s, s)
      else (No_error, s\<lparr>sent_bytes := sent_bytes s @ b\<rparr>))"

text \<open>\<open>read_header\<close> runs the event loop until the header buffer is no longer zero, or an error was reported: a header
  of eight zeros is waited for for ever, and of a header that arrives in pieces the first is taken for all, while
  the read that is under way still refers to the variables of the call.\<close>

definition read_header :: "fcgi_impl \<Rightarrow> (cgi_code \<times> fcgi_impl) outcome" where
  "read_header s =
     (let h = take 8 (arriving s); s0 = s\<lparr>header_buf := no_header\<rparr>
      in if \<not> conn_open s then Some (Inr (closed_code, s0))
         else if length h = 8 then
           (if h = no_header then None
            else Some (Inr (No_error, s\<lparr>header_buf := h, arriving := drop 8 (arriving s)\<rparr>)))
         else if set h \<subseteq> {CHR 0x00} then
           (if read_end s = No_error then None else Some (Inr (read_end s, s0\<lparr>arriving := []\<rparr>)))
         else Some (Inl (Undefined ''header read in pieces'')))"

text \<open>\<open>read_body\<close>: the buffer was made of zeros before.\<close>

definition read_body :: "nat \<Rightarrow> fcgi_impl \<Rightarrow> (string \<times> cgi_code) \<times> fcgi_impl" where
  "read_body n s =
     (if \<not> conn_open s then ((replicate n (CHR 0x00), closed_code), s)
      else
        let b = take n (arriving s)
        in ((b @ replicate (n - length b) (CHR 0x00), if length b = n then No_error else read_end s),
            s\<lparr>arriving := drop n (arriving s)\<rparr>))"

lemma read_header_shorter:
  "read_header s = Some (Inr (No_error, s')) \<Longrightarrow> length (arriving s') + 8 = length (arriving s)"
  by (auto simp: read_header_def Let_def closed_code_def split: if_splits)

lemma read_body_shorter: "read_body n s = (r, s') \<Longrightarrow> length (arriving s') \<le> length (arriving s)"
  by (auto simp: read_body_def Let_def split: if_splits)

subsection \<open>The records of a request\<close>

text \<open>\<open>process_params\<close>: a length of one byte or of four; what is left when a length is cut off is ignored, but
  whether name and value are in the buffer is not checked.\<close>

definition param_number :: "string \<Rightarrow> (nat \<times> string) option" where
  "param_number b =
     (if (of_char (b ! 0) :: nat) div 128 = 0 then Some (of_char (b ! 0), drop 1 b)
      else if length b < 4 then None
      else Some ((of_char (b ! 0) mod 128) * 2 ^ 24 + of_char (b ! 1) * 2 ^ 16 + of_char (b ! 2) * 2 ^ 8 +
        of_char (b ! 3), drop 4 b))"

lemma param_number_shorter: "param_number b = Some (n, r) \<Longrightarrow> b \<noteq> [] \<Longrightarrow> length r < length b"
  by (cases b) (auto simp: param_number_def split: if_splits)

function params_loop :: "string \<Rightarrow> env_map \<Rightarrow> env_map result" where
  "params_loop b env =
     (if b = [] then Inr env
      else case param_number b of
        None \<Rightarrow> Inr env
      | Some (n, b1) \<Rightarrow>
          if b1 = [] then Inr env
          else case param_number b1 of
            None \<Rightarrow> Inr env
          | Some (d, b2) \<Rightarrow>
              if b2 = [] then Inr env
              else if length b2 < n + d then Inl (Undefined ''parameters read behind the record'')
              else params_loop (drop (n + d) b2) (env_put (take n b2) (take d (drop n b2)) env))"
  by pat_completeness auto
termination
  by (relation "measure (\<lambda>(b, _). length b)") (auto dest!: param_number_shorter)

declare params_loop.simps [simp del]

definition process_params :: "string \<Rightarrow> fcgi_impl \<Rightarrow> (cgi_code \<times> fcgi_impl) result" where
  "process_params b s =
     (if b = [] then Inr (No_error, s\<lparr>client_state := Status_params_read\<rparr>)
      else bindE (params_loop b (env_vars s)) (\<lambda>env. Inr (No_error, s\<lparr>env_vars := env\<rparr>)))"

definition process_stdin :: "string \<Rightarrow> fcgi_impl \<Rightarrow> cgi_code \<times> fcgi_impl" where
  "process_stdin b s = (No_error, if b = [] then s\<lparr>client_state := Status_stdin_read\<rparr> else s)"

definition process_abort_request :: "16 word \<Rightarrow> fcgi_impl \<Rightarrow> cgi_code \<times> fcgi_impl" where
  "process_abort_request i s =
     (No_error, if i = get_request_id (header_buf s) then s\<lparr>request_status := 65\<rparr> else s)"

text \<open>\<open>parse_header\<close>: \<open>None\<close> is the indeterminate truth value: there is a body to read.\<close>

definition parse_header :: "fcgi_impl \<Rightarrow> bool option \<times> fcgi_impl" where
  "parse_header s =
     (case get_type (header_buf s) of
        BEGIN_REQUEST \<Rightarrow> (None, s)
      | DATA \<Rightarrow> (None, s)
      | GET_VALUES \<Rightarrow> (None, s)
      | STDIN \<Rightarrow>
          if get_length (header_buf s) = 0 then (Some True, s\<lparr>client_state := Status_stdin_read\<rparr>) else (None, s)
      | PARAMS \<Rightarrow>
          if get_length (header_buf s) = 0 then (Some True, s\<lparr>client_state := Status_params_read\<rparr>) else (None, s)
      | ABORT_REQUEST \<Rightarrow> (Some False, s)
      | _ \<Rightarrow> (Some True, s))"

definition begin_request_helper :: "fcgi_impl \<Rightarrow> (cgi_code \<times> fcgi_impl) outcome" where
  "begin_request_helper s =
     bindO (read_header (s\<lparr>client_request_id := get_request_id (header_buf s)\<rparr>)) (\<lambda>(ec, s1).
       if ec \<noteq> No_error then Some (Inr (ec, s1))
       else Some (Inr (ec, s1\<lparr>request_role := begin_request_role (header_buf s1),
         client_state := Status_constructed, keep_connection := odd (begin_request_flags (header_buf s1))\<rparr>)))"

definition process_begin_request :: "fcgi_impl \<Rightarrow> (cgi_code \<times> fcgi_impl) outcome" where
  "process_begin_request s =
     (if client_request_id s = 0 then begin_request_helper s else Some (Inr (No_error, s)))"

definition parse_body :: "string \<Rightarrow> fcgi_impl \<Rightarrow> (cgi_code \<times> fcgi_impl) outcome" where
  "parse_body b s =
     (case get_type (header_buf s) of
        BEGIN_REQUEST \<Rightarrow> process_begin_request s
      | ABORT_REQUEST \<Rightarrow> Some (Inr (process_abort_request (get_request_id (header_buf s)) s))
      | PARAMS \<Rightarrow> Some (process_params b s)
      | STDIN \<Rightarrow> Some (Inr (process_stdin b s))
      | _ \<Rightarrow> Some (Inr (No_error, s)))"

lemma parse_body_shorter:
  "parse_body b s = Some (Inr (ec, s')) \<Longrightarrow> length (arriving s') \<le> length (arriving s)"
  by (auto simp: parse_body_def process_begin_request_def begin_request_helper_def process_abort_request_def
      process_params_def process_stdin_def bindO_eq_Inr_iff bindE_eq_Inr_iff read_header_def Let_def
      split: request_types.splits if_splits)

text \<open>The body of the current record is read to the end of a buffer, of the parameters or of the posted data, and
  handled there. It has the length of content and padding.\<close>

definition read_record :: "bool \<Rightarrow> fcgi_impl \<Rightarrow> (cgi_code \<times> fcgi_impl) outcome" where
  "read_record post s =
     (case read_body (unat (get_length (header_buf s))) s of ((b, ec), s1) \<Rightarrow>
        let s2 = (if post then s1\<lparr>post_buffer := post_buffer s1 @ b\<rparr> else s1\<lparr>param_buffer := param_buffer s1 @ b\<rparr>)
        in if ec \<noteq> No_error then Some (Inr (ec, s2)) else parse_body b s2)"

definition parse_packet :: "fcgi_impl \<Rightarrow> (cgi_code \<times> fcgi_impl) outcome" where
  "parse_packet s =
     bindO (read_header s) (\<lambda>(ec, s1).
       if ec \<noteq> No_error then Some (Inr (ec, s1))
       else case parse_header s1 of
         (Some True, s2) \<Rightarrow> Some (Inr (No_error, s2))
       | (Some False, s2) \<Rightarrow> Some (Inr (Fcgi_error Bad_header_type, s2))
       | (None, s2) \<Rightarrow> if get_length (header_buf s2) = 0 then Some (Inr (No_error, s2)) else read_record True s2)"

lemma parse_header_arriving: "parse_header s = (r, s') \<Longrightarrow> arriving s' = arriving s"
  by (auto simp: parse_header_def split: request_types.splits if_splits)

lemma read_record_shorter:
  "read_record post s = Some (Inr (ec, s')) \<Longrightarrow> length (arriving s') \<le> length (arriving s)"
  by (auto simp: read_record_def Let_def split: prod.splits if_splits
      dest!: parse_body_shorter read_body_shorter)

lemma parse_packet_shorter:
  assumes "parse_packet s = Some (Inr (No_error, s'))"
  shows "length (arriving s') < length (arriving s)"
proof -
  obtain s1 where s1: "read_header s = Some (Inr (No_error, s1))"
    using assms by (auto simp: parse_packet_def bindO_eq_Inr_iff split: if_splits)
  obtain r s2 where s2: "parse_header s1 = (r, s2)" by (metis surj_pair)
  have "length (arriving s') \<le> length (arriving s2)"
    using assms s1 s2 by (auto simp: parse_packet_def split: option.splits bool.splits if_splits
        dest: read_record_shorter)
  with read_header_shorter [OF s1] parse_header_arriving [OF s2] show ?thesis by simp
qed

text \<open>The loop \<open>load\<close> and \<open>close\<close> share: packets until standard input has ended.\<close>

function read_stdin :: "cgi_code \<Rightarrow> fcgi_impl \<Rightarrow> (cgi_code \<times> fcgi_impl) outcome" where
  "read_stdin ec s =
     (if ec = No_error \<and> client_status_code (client_state s) < client_status_code Status_stdin_read \<and>
        request_status s \<noteq> 64 then
        bindO (parse_packet s) (\<lambda>(ec', s'). if ec' \<noteq> No_error then Some (Inr (ec', s')) else read_stdin ec' s')
      else Some (Inr (ec, s)))"
  by pat_completeness auto
termination
  by (relation "measure (\<lambda>(_, s). length (arriving s))") (auto dest: parse_packet_shorter)

declare read_stdin.simps [simp del]

text \<open>The environment: records until one that needs no body, which ends it whatever its type.\<close>

function read_env_vars :: "fcgi_impl \<Rightarrow> (cgi_code \<times> fcgi_impl) outcome" where
  "read_env_vars s =
     (if request_status s AND 4 \<noteq> 0 then Some (Inr (No_error, s))
      else bindO (read_header s) (\<lambda>(ec, s1).
        if ec \<noteq> No_error then Some (Inr (ec, s1))
        else case parse_header s1 of
          (Some True, s2) \<Rightarrow>
            Some (Inr (No_error, s2\<lparr>request_status := request_status s2 OR 4, client_state := Status_params_read\<rparr>))
        | (Some False, s2) \<Rightarrow> Some (Inr (Fcgi_error Bad_header_type, s2))
        | (None, s2) \<Rightarrow>
            if get_length (header_buf s2) = 0 then Some (Inr (Fcgi_error Couldnt_write_complete_packet, s2))
            else bindO (read_record False s2) (\<lambda>(ec, s3).
              if ec \<noteq> No_error then Some (Inr (ec, s3)) else read_env_vars s3)))"
  by pat_completeness auto
termination
proof (relation "measure (\<lambda>s. length (arriving s))", goal_cases)
  case 2
  then show ?case
    by (auto dest!: read_header_shorter parse_header_arriving [OF sym] read_record_shorter)
qed simp

declare read_env_vars.simps [simp del]

subsection \<open>Management records\<close>

text \<open>The answer to a query of values, in the order of the map. The body of the query is not read.\<close>

definition get_values_result :: "16 word \<Rightarrow> string" where
  "get_values_result n =
     concat (map (\<lambda>(k, v). param_length k @ param_length v @ k @ v)
       [(''FCGI_MAX_CONNS'', ''1''), (''FCGI_MAX_REQS'', decimal (unat n)),
        (''FCGI_MPXS_CONNS'', if n \<noteq> 0 then ''1'' else ''0'')])"

definition process_get_values :: "16 word \<Rightarrow> fcgi_impl \<Rightarrow> cgi_code \<times> fcgi_impl" where
  "process_get_values i s =
     (let vals = get_values_result (async_requests s)
      in socket_write (header_reset GET_VALUES_RESULT i (length vals) @ vals) s)"

definition handle_admin_request :: "fcgi_impl \<Rightarrow> cgi_code \<times> fcgi_impl" where
  "handle_admin_request s =
     (if get_type (header_buf s) = GET_VALUES then process_get_values (get_request_id (header_buf s)) s
      else (No_error, s))"

lemma handle_admin_arriving: "handle_admin_request s = (ec, s') \<Longrightarrow> arriving s' = arriving s"
  by (auto simp: handle_admin_request_def process_get_values_def socket_write_def Let_def split: if_splits)

subsection \<open>Loading\<close>

text \<open>The first loop of \<open>load\<close>: headers until a request begins.\<close>

function load_begin :: "fcgi_impl \<Rightarrow> (cgi_code \<times> fcgi_impl) outcome" where
  "load_begin s =
     bindO (read_header s) (\<lambda>(ec, s1).
       if ec \<noteq> No_error then Some (Inr (ec, s1))
       else if get_request_id (header_buf s1) = 0 then
         (case handle_admin_request s1 of
            (ec', s2) \<Rightarrow> if ec' \<noteq> No_error then Some (Inr (ec', s2)) else load_begin s2)
       else if impl_id s1 \<noteq> 0 \<and> impl_id s1 \<noteq> get_request_id (header_buf s1) then
         Some (Inr (Fcgi_error Multiplexing_not_supported, s1))
       else if get_type (header_buf s1) = BEGIN_REQUEST then
         bindO (read_header (s1\<lparr>impl_id := get_request_id (header_buf s1),
             client_request_id := get_request_id (header_buf s1)\<rparr>)) (\<lambda>(ec, s2).
           if ec \<noteq> No_error then Some (Inr (ec, s2))
           else Some (Inr (No_error, s2\<lparr>request_role := begin_request_role (header_buf s2),
             keep_connection := odd (begin_request_flags (header_buf s2))\<rparr>)))
       else load_begin s1)"
  by pat_completeness auto
termination
  by (relation "measure (\<lambda>s. length (arriving s))") (auto dest!: read_header_shorter handle_admin_arriving [OF sym])

declare load_begin.simps [simp del]

text \<open>\<open>client_.close()\<close> and the close of the connection, when no request was found.\<close>

definition give_up :: "fcgi_impl \<Rightarrow> fcgi_impl" where
  "give_up s = s\<lparr>conn_open := False, request_status := 66, client_state := Status_closed\<rparr>"

definition parse_get_vars :: "boost_env \<Rightarrow> fcgi_impl \<Rightarrow> fcgi_impl" where
  "parse_get_vars bo s =
     (if request_status s AND 8 = 0 then
        s\<lparr>get_vars := extract_params bo ''=&'' (env_value (env_vars s) ''QUERY_STRING'') True (get_vars s),
          request_status := request_status s OR 8\<rparr>
      else s)"

definition parse_cookie_vars :: "boost_env \<Rightarrow> string \<Rightarrow> fcgi_impl \<Rightarrow> fcgi_impl" where
  "parse_cookie_vars bo key s =
     (if request_status s AND 32 = 0 then
        s\<lparr>cookie_vars := extract_params bo ''=;'' (env_value (env_vars s) key) False (cookie_vars s),
          request_status := request_status s OR 32\<rparr>
      else s)"

definition form_context_of :: "fcgi_impl \<Rightarrow> form_context" where
  "form_context_of s =
     \<lparr>ctx_content_type = env_value (env_vars s) ''CONTENT_TYPE'',
      ctx_content_length = env_value (env_vars s) ''CONTENT_LENGTH'', ctx_buffer = post_buffer s,
      ctx_bytes_left = bytes_left s, ctx_data = post_vars s, ctx_uploads = upload_vars s,
      ctx_stdin_parsed = stdin_parsed s, ctx_random_string = env_value (env_vars s) ''REMOTE_ADDR'',
      ctx_boundaries = []\<rparr>"

definition parse_post_vars :: "boost_env \<Rightarrow> cgi_code \<Rightarrow> fcgi_impl \<Rightarrow> (cgi_code \<times> fcgi_impl) result" where
  "parse_post_vars bo ec s =
     bindE (lexical_cast_size bo (env_value (env_vars s) ''CONTENT_LENGTH'')) (\<lambda>n.
       let s1 = s\<lparr>bytes_left := n\<rparr>
       in if request_status s AND 16 \<noteq> 0 then Inr (ec, s1)
          else bindE (form_parse bo (form_context_of s1) ec) (\<lambda>(ec', x).
            Inr (ec', s1\<lparr>post_buffer := ctx_buffer x, post_vars := ctx_data x, upload_vars := ctx_uploads x,
              stdin_parsed := ctx_stdin_parsed x, request_status := request_status s OR 16,
              bytes_left := ctx_bytes_left x\<rparr>)))"

text \<open>What \<open>load\<close> does once a request has begun; \<open>opts\<close> are the flags of \<open>parse_options.hpp\<close>.\<close>

definition load_vars :: "boost_env \<Rightarrow> 32 word \<Rightarrow> fcgi_impl \<Rightarrow> (cgi_code \<times> fcgi_impl) outcome" where
  "load_vars bo opts s =
     bindO (if opts AND 1 \<noteq> 0 then read_env_vars s else Some (Inr (No_error, s))) (\<lambda>(ec, s1).
       let verb = env_value (env_vars s1) ''REQUEST_METHOD'';
           cookies = (\<lambda>s. if opts AND 8 \<noteq> 0 then parse_cookie_vars bo ''HTTP_COOKIE'' s else s)
       in if verb = ''GET'' then
            (let s2 = parse_get_vars bo s1
             in Some (Inr (ec, if ec \<noteq> No_error then s2 else cookies s2)))
          else if (verb = ''POST'' \<or> verb = ''PUT'') \<and> opts AND 4 \<noteq> 0 then
            bindO (read_stdin ec s1) (\<lambda>(ec2, s2).
              bindO (Some (parse_post_vars bo ec2 s2)) (\<lambda>(ec3, s3).
                Some (Inr (ec3, if ec3 \<noteq> No_error then s3 else cookies s3))))
          else Some (Inr (ec, cookies s1)))"

text \<open>A connection that is not open is reported in the value of \<open>load\<close>, which \<open>basic_request::load\<close> does not
  look at, and not in the error code.\<close>

definition fcgi_load :: "boost_env \<Rightarrow> 32 word \<Rightarrow> fcgi_impl \<Rightarrow> (cgi_code \<times> fcgi_impl) outcome" where
  "fcgi_load bo opts s =
     (let s0 = s\<lparr>client_state := Status_constructed\<rparr>
      in if \<not> conn_open s then Some (Inr (No_error, s0))
         else bindO (load_begin s0) (\<lambda>(ec, s1).
           if ec \<noteq> No_error then Some (Inr (ec, give_up s1)) else load_vars bo opts s1))"

definition parse_form :: "32 word" where
  "parse_form = 7"

end
