(* ===== verification/Fcgi_Wire.thy ===== *)
theory Fcgi_Wire
  imports Fcgi_Request
begin

section \<open>What a web server sends\<close>

text \<open>
  The FastCGI protocol, as a specification: the records a web server sends for one request, and what
  \<open>Fcgi_Request\<close> makes of them.
\<close>

definition server_header :: "request_types \<Rightarrow> 16 word \<Rightarrow> nat \<Rightarrow> nat \<Rightarrow> string" where
  "server_header t i len pad =
     [CHR 0x01, char_of (type_code t), char_of (unat i div 256), char_of (unat i),
      char_of (len div 256), char_of len, char_of pad, CHR 0x00]"

definition server_record :: "request_types \<Rightarrow> 16 word \<Rightarrow> string \<Rightarrow> string \<Rightarrow> string" where
  "server_record t i content pad = server_header t i (length content) (length pad) @ content @ pad"

text \<open>Pairs of names and values, and the environment they make.\<close>

definition pair_bytes :: "string \<times> string \<Rightarrow> string" where
  "pair_bytes = (\<lambda>(k, v). param_length k @ param_length v @ k @ v)"

definition pairs_bytes :: "(string \<times> string) list \<Rightarrow> string" where
  "pairs_bytes ps = concat (map pair_bytes ps)"

definition put_pairs :: "(string \<times> string) list \<Rightarrow> env_map \<Rightarrow> env_map" where
  "put_pairs ps env = fold (\<lambda>(k, v). env_put k v) ps env"

definition pair_ok :: "string \<times> string \<Rightarrow> bool" where
  "pair_ok = (\<lambda>(k, v). k \<noteq> [] \<and> length k < 2 ^ 31 \<and> length v < 2 ^ 31)"

text \<open>A request: each record of parameters has whole pairs and padding of zeros, of which there are \<open>z\<close>; each
  record of standard input has bytes and padding.\<close>

type_synonym params_record = "(string \<times> string) list \<times> nat"
type_synonym stdin_record = "string \<times> string"

definition params_bytes :: "16 word \<Rightarrow> params_record \<Rightarrow> string" where
  "params_bytes i = (\<lambda>(ps, z). server_record PARAMS i (pairs_bytes ps) (replicate z (CHR 0x00)))"

definition params_ok :: "params_record \<Rightarrow> bool" where
  "params_ok = (\<lambda>(ps, z). ps \<noteq> [] \<and> list_all pair_ok ps \<and> z < 256 \<and> length (pairs_bytes ps) + z < 65536)"

definition stdin_bytes :: "16 word \<Rightarrow> stdin_record \<Rightarrow> string" where
  "stdin_bytes i = (\<lambda>(c, pad). server_record STDIN i c pad)"

definition stdin_ok :: "stdin_record \<Rightarrow> bool" where
  "stdin_ok = (\<lambda>(c, pad). c \<noteq> [] \<and> length pad < 256 \<and> length c + length pad < 65536)"

definition begin_body :: "nat \<Rightarrow> nat \<Rightarrow> string" where
  "begin_body role flags = [char_of (role div 256), char_of role, char_of flags] @ replicate 5 (CHR 0x00)"

definition server_request ::
    "16 word \<Rightarrow> nat \<Rightarrow> nat \<Rightarrow> params_record list \<Rightarrow> stdin_record list \<Rightarrow> string" where
  "server_request i role flags prs chunks =
     server_record BEGIN_REQUEST i (begin_body role flags) [] @
     concat (map (params_bytes i) prs) @ server_record PARAMS i [] [] @
     concat (map (stdin_bytes i) chunks) @ server_record STDIN i [] []"

subsection \<open>Headers\<close>

lemma length_server_header [simp]: "length (server_header t i len pad) = 8"
  by (simp add: server_header_def)

lemma server_header_not_zero [simp]: "server_header t i len pad \<noteq> no_header"
proof
  assume "server_header t i len pad = no_header"
  then have "hd (server_header t i len pad) = hd no_header" by simp
  then show False by (simp add: server_header_def no_header_def)
qed

lemma server_header_type [simp]:
  "(\<And>n. t \<noteq> Other_type n) \<Longrightarrow> get_type (server_header t i len pad) = t"
  by (cases t) (auto simp: get_type_def server_header_def type_of_code_def)

lemma server_header_id [simp]: "get_request_id (server_header t i len pad) = i"
  using header_reset_id [of t i len] by (simp add: get_request_id_def header_bytes_def header_reset_def server_header_def)

lemma server_header_length [simp]:
  "len + pad < 65536 \<Longrightarrow> pad < 256 \<Longrightarrow> get_length (server_header t i len pad) = word_of_nat (len + pad)"
  using header_reset_content [of len t i]
  by (simp add: get_length_def get_content_length_def get_padding_length_def header_bytes_def header_reset_def
      server_header_def)

lemma read_header_record:
  "conn_open s \<Longrightarrow> arriving s = server_header t i len pad @ r \<Longrightarrow>
   read_header s = Some (Inr (No_error, s\<lparr>header_buf := server_header t i len pad, arriving := r\<rparr>))"
  by (simp add: read_header_def Let_def)

lemma unat_small: "n < 65536 \<Longrightarrow> unat (word_of_nat n :: 16 word) = n"
  by (simp add: unsigned_of_nat take_bit_nat_eq_self)

lemma read_body_exact:
  "conn_open s \<Longrightarrow> arriving s = b @ r \<Longrightarrow> length b = n \<Longrightarrow> read_body n s = ((b, No_error), s\<lparr>arriving := r\<rparr>)"
  by (simp add: read_body_def Let_def)

subsection \<open>Pairs\<close>

lemma or_128: "m < 128 \<Longrightarrow> m OR 128 = m + (128 :: nat)"
proof -
  have "list_all (\<lambda>m. m OR 128 = m + (128 :: nat)) [0..<128]" by code_simp
  then show "m < 128 \<Longrightarrow> m OR 128 = m + (128 :: nat)" by (simp add: list_all_iff)
qed

lemma four_bytes:
  "n div 2 ^ 24 * 2 ^ 24 + n div 2 ^ 16 mod 256 * 2 ^ 16 + n div 2 ^ 8 mod 256 * 2 ^ 8 + n mod 256 = (n :: nat)"
proof -
  have pow: "(2 :: nat) ^ 24 = 16777216" "(2 :: nat) ^ 16 = 65536" "(2 :: nat) ^ 8 = 256" by simp_all
  have b: "n div 65536 = n div 256 div 256" and c: "n div 16777216 = n div 65536 div 256"
    using div_mult2_eq [of n 256 256] div_mult2_eq [of n 65536 256]
    by (simp_all only: numeral_times_numeral semiring_norm)
  have "n = n div 256 * 256 + n mod 256" "n div 256 = n div 65536 * 256 + n div 256 mod 256"
    "n div 65536 = n div 16777216 * 256 + n div 65536 mod 256"
    unfolding b c by (rule div_mult_mod_eq [symmetric])+
  then show ?thesis unfolding pow by linarith
qed

lemma param_number_length:
  assumes "length s < 2 ^ 31"
  shows "param_number (param_length s @ r) = Some (length s, r)"
proof -
  have n: "take_bit 32 (length s) = length s" using assms by (simp add: take_bit_nat_eq_self)
  show ?thesis
  proof (cases "length s < 128")
    case True
    then show ?thesis by (simp add: param_length_def n param_number_def Let_def)
  next
    case False
    have "length s div 2 ^ 24 < 128" using assms by simp
    moreover from this have "(length s div 2 ^ 24 + 128) div 128 = 1" "(length s div 2 ^ 24 + 128) mod 256 = length s div 2 ^ 24 + 128"
      "(length s div 2 ^ 24 + 128) mod 128 = length s div 2 ^ 24"
      by simp_all
    ultimately show ?thesis
      using False four_bytes [of "length s"]
      by (simp add: param_length_def n param_number_def Let_def or_128)
  qed
qed

lemma params_loop_pair:
  assumes "pair_ok p"
  shows "params_loop (pair_bytes p @ r) env = params_loop r (put_pairs [p] env)"
proof -
  obtain k v where p: "p = (k, v)" by (rule prod.exhaust)
  with assms have "k \<noteq> []" "length k < 2 ^ 31" "length v < 2 ^ 31" by (simp_all add: pair_ok_def)
  then show ?thesis
    using param_number_length [of k "param_length v @ k @ v @ r"] param_number_length [of v "k @ v @ r"]
    by (subst params_loop.simps) (auto simp: p pair_bytes_def put_pairs_def param_length_def Let_def)
qed

lemma params_loop_pairs:
  "list_all pair_ok ps \<Longrightarrow> params_loop (pairs_bytes ps @ r) env = params_loop r (put_pairs ps env)"
  by (induction ps arbitrary: env) (simp_all add: pairs_bytes_def put_pairs_def params_loop_pair)

text \<open>Padding of zeros is read as empty pairs, which at most set the variable without a name.\<close>

lemma params_loop_zeros:
  "\<exists>env'. params_loop (replicate z (CHR 0x00)) env = Inr env' \<and> (\<forall>k. k \<noteq> [] \<longrightarrow> env_value env' k = env_value env k)"
proof (induction z arbitrary: env rule: less_induct)
  case (less z)
  show ?case
  proof (cases "z < 3")
    case True
    then consider "z = 0" | "z = 1" | "z = 2" by linarith
    then have "params_loop (replicate z (CHR 0x00)) env = Inr env"
      by cases (subst params_loop.simps, simp add: param_number_def numeral_2_eq_2)+
    then show ?thesis by blast
  next
    case False
    then obtain y where z: "z = Suc (Suc (Suc y))" by (metis Suc_le_D not_less_eq_eq numeral_3_eq_3 not_less)
    have "params_loop (replicate z (CHR 0x00)) env = params_loop (replicate (Suc y) (CHR 0x00)) (env_put [] [] env)"
      by (subst params_loop.simps) (simp add: z param_number_def)
    moreover obtain env' where "params_loop (replicate (Suc y) (CHR 0x00)) (env_put [] [] env) = Inr env'"
      and "\<forall>k. k \<noteq> [] \<longrightarrow> env_value env' k = env_value (env_put [] [] env) k"
      using less.IH [of "Suc y" "env_put [] [] env"] z by auto
    moreover have "env_value (env_put [] [] env) k = env_value env k" if "k \<noteq> []" for k
      using that by (simp add: env_value_def env_put_def name_key_def c_str_def)
    ultimately show ?thesis by auto
  qed
qed

subsection \<open>Records\<close>

lemma read_record_bytes:
  assumes "conn_open s" and "header_buf s = server_header t i (length c) (length pad)"
    and "arriving s = c @ pad @ r" and "length c + length pad < 65536" and "length pad < 256"
  shows "read_record post s = parse_body (c @ pad)
    (if post then s\<lparr>arriving := r, post_buffer := post_buffer s @ c @ pad\<rparr>
     else s\<lparr>arriving := r, param_buffer := param_buffer s @ c @ pad\<rparr>)"
proof -
  have "read_body (length c + length pad) s = ((c @ pad, No_error), s\<lparr>arriving := r\<rparr>)"
    using assms by (intro read_body_exact) simp_all
  with assms show ?thesis by (simp add: read_record_def unat_small del: of_nat_add)
qed

lemma pairs_bytes_nonempty: "ps \<noteq> [] \<Longrightarrow> pairs_bytes ps \<noteq> []"
  by (cases ps) (auto simp: pairs_bytes_def pair_bytes_def param_length_def Let_def)

lemma word_of_small_0_iff: "n < 65536 \<Longrightarrow> word_of_nat n = (0 :: 16 word) \<longleftrightarrow> n = 0"
  using unat_small [of n] by (cases "n = 0") auto

lemma read_env_params_step:
  assumes "conn_open s" and "arriving s = params_bytes i (ps, z) @ r" and "params_ok (ps, z)"
    and "request_status s AND 4 = 0"
  obtains h pb env where "read_env_vars s =
      read_env_vars (s\<lparr>header_buf := h, arriving := r, param_buffer := pb, env_vars := env\<rparr>)"
    and "\<forall>k. k \<noteq> [] \<longrightarrow> env_value env k = env_value (put_pairs ps (env_vars s)) k"
proof -
  let ?c = "pairs_bytes ps" and ?pad = "replicate z (CHR 0x00)"
  let ?h = "server_header PARAMS i (length ?c) (length ?pad)"
  let ?s1 = "s\<lparr>header_buf := ?h, arriving := ?c @ ?pad @ r\<rparr>"
  let ?s2 = "s\<lparr>header_buf := ?h, arriving := r, param_buffer := param_buffer s @ ?c @ ?pad\<rparr>"
  from assms(3) have ok: "ps \<noteq> []" "list_all pair_ok ps" "z < 256" "length ?c + z < 65536"
    by (simp_all add: params_ok_def)
  have head: "read_header s = Some (Inr (No_error, ?s1))"
    using assms(1,2) by (intro read_header_record) (simp_all add: params_bytes_def server_record_def)
  have "get_length ?h \<noteq> 0"
    using ok pairs_bytes_nonempty [OF ok(1)] by (simp add: word_of_small_0_iff del: of_nat_add)
  then have type: "parse_header ?s1 = (None, ?s1)" by (simp add: parse_header_def)
  obtain env where env: "params_loop ?pad (put_pairs ps (env_vars s)) = Inr env"
    "\<forall>k. k \<noteq> [] \<longrightarrow> env_value env k = env_value (put_pairs ps (env_vars s)) k"
    using params_loop_zeros [of z "put_pairs ps (env_vars s)"] by blast
  have "read_record False ?s1 = parse_body (?c @ ?pad) ?s2"
    using ok assms(1) read_record_bytes [of ?s1 PARAMS i ?c ?pad r False] by simp
  also have "\<dots> = Some (Inr (No_error, ?s2\<lparr>env_vars := env\<rparr>))"
    using ok env pairs_bytes_nonempty [OF ok(1)] params_loop_pairs [OF ok(2)]
    by (simp add: parse_body_def process_params_def)
  finally have "read_env_vars s = read_env_vars (?s2\<lparr>env_vars := env\<rparr>)"
    using head type \<open>get_length ?h \<noteq> 0\<close> assms(4) by (subst read_env_vars.simps) simp
  with env(2) show ?thesis by (intro that [where h = ?h and pb = "param_buffer s @ ?c @ ?pad" and env = env]) simp_all
qed

text \<open>All parameter records, up to the empty one.\<close>

definition request_pairs :: "params_record list \<Rightarrow> (string \<times> string) list" where
  "request_pairs prs = concat (map fst prs)"

lemma put_pairs_agree:
  "\<forall>k. k \<noteq> [] \<longrightarrow> env_value env k = env_value env' k \<Longrightarrow>
   k \<noteq> [] \<longrightarrow> env_value (put_pairs ps env) k = env_value (put_pairs ps env') k"
proof (induction ps arbitrary: env env')
  case (Cons p ps)
  have "\<forall>k. k \<noteq> [] \<longrightarrow> env_value (put_pairs [p] env) k = env_value (put_pairs [p] env') k"
    using Cons.prems by (auto simp: put_pairs_def env_put_def env_value_def split: prod.split)
  from Cons.IH [OF this] show ?case by (simp add: put_pairs_def)
qed (simp add: put_pairs_def)

lemma read_env_records:
  assumes "list_all params_ok prs" and "conn_open s" and "request_status s AND 4 = 0"
    and "arriving s = concat (map (params_bytes i) prs) @ server_record PARAMS i [] [] @ r"
  shows "\<exists>h pb env. read_env_vars s = Some (Inr (No_error, s\<lparr>header_buf := h, arriving := r, param_buffer := pb,
      env_vars := env, request_status := request_status s OR 4, client_state := Status_params_read\<rparr>)) \<and>
    (\<forall>k. k \<noteq> [] \<longrightarrow> env_value env k = env_value (put_pairs (request_pairs prs) (env_vars s)) k)"
  using assms
proof (induction prs arbitrary: s)
  case Nil
  let ?h = "server_header PARAMS i 0 0"
  have "read_header s = Some (Inr (No_error, s\<lparr>header_buf := ?h, arriving := r\<rparr>))"
    using Nil.prems by (intro read_header_record) (simp_all add: server_record_def)
  then have "read_env_vars s = Some (Inr (No_error, s\<lparr>header_buf := ?h, arriving := r,
      param_buffer := param_buffer s, env_vars := env_vars s, request_status := request_status s OR 4,
      client_state := Status_params_read\<rparr>))"
    using Nil.prems by (subst read_env_vars.simps) (simp add: parse_header_def)
  then show ?case by (intro exI conjI) (assumption, simp add: put_pairs_def request_pairs_def)
next
  case (Cons pz prs)
  obtain ps z where pz: "pz = (ps, z)" by (rule prod.exhaust)
  let ?r = "concat (map (params_bytes i) prs) @ server_record PARAMS i [] [] @ r"
  from Cons.prems pz obtain h pb env where step: "read_env_vars s =
      read_env_vars (s\<lparr>header_buf := h, arriving := ?r, param_buffer := pb, env_vars := env\<rparr>)"
    and env: "\<forall>k. k \<noteq> [] \<longrightarrow> env_value env k = env_value (put_pairs ps (env_vars s)) k"
    by (auto elim!: read_env_params_step [of s i ps z ?r])
  have "request_pairs (pz # prs) = ps @ request_pairs prs" by (simp add: request_pairs_def pz)
  then have "env_value (put_pairs (request_pairs prs) env) k =
      env_value (put_pairs (request_pairs (pz # prs)) (env_vars s)) k" if "k \<noteq> []" for k
    using put_pairs_agree [OF env] that by (simp add: put_pairs_def)
  with Cons.IH [of "s\<lparr>header_buf := h, arriving := ?r, param_buffer := pb, env_vars := env\<rparr>"] Cons.prems step
  show ?case by auto
qed

subsection \<open>The body\<close>

definition stdin_content :: "stdin_record list \<Rightarrow> string" where
  "stdin_content chunks = concat (map (\<lambda>(c, pad). c @ pad) chunks)"

lemma parse_packet_stdin:
  assumes "stdin_ok (c, pad)" and "conn_open s" and "arriving s = stdin_bytes i (c, pad) @ r"
  shows "\<exists>h. parse_packet s = Some (Inr (No_error, s\<lparr>header_buf := h, arriving := r,
    post_buffer := post_buffer s @ c @ pad\<rparr>))"
proof -
  let ?h = "server_header STDIN i (length c) (length pad)"
  let ?s1 = "s\<lparr>header_buf := ?h, arriving := c @ pad @ r\<rparr>"
  from assms(1) have ok: "c \<noteq> []" "length pad < 256" "length c + length pad < 65536"
    by (simp_all add: stdin_ok_def)
  have "read_header s = Some (Inr (No_error, ?s1))"
    using assms by (intro read_header_record) (simp_all add: stdin_bytes_def server_record_def)
  moreover have "get_length ?h \<noteq> 0" using ok by (simp add: word_of_small_0_iff del: of_nat_add)
  moreover have "read_record True ?s1 = Some (Inr (No_error, s\<lparr>header_buf := ?h, arriving := r,
      post_buffer := post_buffer s @ c @ pad\<rparr>))"
    using ok assms(2) read_record_bytes [of ?s1 STDIN i c pad r True]
    by (simp add: parse_body_def process_stdin_def)
  ultimately have "parse_packet s = Some (Inr (No_error, s\<lparr>header_buf := ?h, arriving := r,
      post_buffer := post_buffer s @ c @ pad\<rparr>))"
    by (simp add: parse_packet_def parse_header_def)
  then show ?thesis by blast
qed

lemma read_stdin_records:
  assumes "list_all stdin_ok chunks" and "conn_open s" and "client_state s = Status_params_read"
    and "request_status s \<noteq> 64"
    and "arriving s = concat (map (stdin_bytes i) chunks) @ server_record STDIN i [] [] @ r"
  shows "\<exists>h. read_stdin No_error s = Some (Inr (No_error, s\<lparr>header_buf := h, arriving := r,
    post_buffer := post_buffer s @ stdin_content chunks, client_state := Status_stdin_read\<rparr>))"
  using assms
proof (induction chunks arbitrary: s)
  case Nil
  let ?h = "server_header STDIN i 0 0"
  have "read_header s = Some (Inr (No_error, s\<lparr>header_buf := ?h, arriving := r\<rparr>))"
    using Nil.prems by (intro read_header_record) (simp_all add: server_record_def)
  then have "parse_packet s = Some (Inr (No_error, s\<lparr>header_buf := ?h, arriving := r,
      client_state := Status_stdin_read\<rparr>))"
    by (simp add: parse_packet_def parse_header_def)
  then have "read_stdin No_error s = Some (Inr (No_error, s\<lparr>header_buf := ?h, arriving := r,
      client_state := Status_stdin_read\<rparr>))"
    using Nil.prems by (subst read_stdin.simps) (simp add: read_stdin.simps [of No_error "s\<lparr>header_buf := _, arriving := _, client_state := _\<rparr>"])
  then show ?case by (intro exI [of _ ?h]) (simp add: stdin_content_def)
next
  case (Cons cp chunks)
  obtain c pad where cp: "cp = (c, pad)" by (rule prod.exhaust)
  let ?r = "concat (map (stdin_bytes i) chunks) @ server_record STDIN i [] [] @ r"
  from Cons.prems cp parse_packet_stdin [of c pad s i ?r] obtain h where
    h: "parse_packet s = Some (Inr (No_error, s\<lparr>header_buf := h, arriving := ?r,
      post_buffer := post_buffer s @ c @ pad\<rparr>))" by auto
  with Cons.prems have "read_stdin No_error s = read_stdin No_error (s\<lparr>header_buf := h, arriving := ?r,
      post_buffer := post_buffer s @ c @ pad\<rparr>)"
    by (subst read_stdin.simps) simp
  with Cons.IH [of "s\<lparr>header_buf := h, arriving := ?r, post_buffer := post_buffer s @ c @ pad\<rparr>"] Cons.prems
  show ?case by (auto simp: stdin_content_def cp)
qed

subsection \<open>The whole request\<close>

lemma load_begin_record:
  assumes "conn_open s" and "impl_id s = 0" and "i \<noteq> 0" and "0 < role" and "role < 65536" and "flags < 256"
    and "arriving s = server_record BEGIN_REQUEST i (begin_body role flags) [] @ r"
  shows "load_begin s = Some (Inr (No_error, s\<lparr>header_buf := begin_body role flags, arriving := r,
    impl_id := i, client_request_id := i, request_role := role, keep_connection := odd flags\<rparr>))"
proof -
  let ?h = "server_header BEGIN_REQUEST i 8 0" and ?b = "begin_body role flags"
  have eight: "length ?b = 8" by (simp add: begin_body_def)
  have "read_header s = Some (Inr (No_error, s\<lparr>header_buf := ?h, arriving := ?b @ r\<rparr>))"
    using assms eight by (intro read_header_record) (simp_all add: server_record_def)
  moreover have "?b \<noteq> no_header"
  proof
    assume "?b = no_header"
    then have "?b ! 0 = no_header ! 0" "?b ! 1 = no_header ! 1" by simp_all
    then have "role div 256 mod 256 = 0" "role mod 256 = 0"
      by (simp_all add: begin_body_def no_header_def char_of_eq_iff take_bit_eq_mod)
    moreover have "role div 256 mod 256 * 256 + role mod 256 = role" using assms by (simp add: div_mult_mod_eq)
    ultimately show False using assms by simp
  qed
  moreover have "role div 256 mod 256 * 256 + role mod 256 = role" using assms by (simp add: div_mult_mod_eq)
  ultimately show ?thesis
    using assms eight
    by (subst load_begin.simps)
      (simp add: read_header_def Let_def begin_request_role_def begin_request_flags_def begin_body_def)
qed

lemma form_parse_keeps_body:
  assumes "std_find ''multipart/form-data'' (ctx_content_type x) 0 = npos"
    and "lexical_size bo (ctx_content_length x) = Some n"
  shows "\<exists>x'. form_parse bo x ec = Inr (ec, x') \<and> ctx_buffer x' = ctx_buffer x"
  using assms
  by (auto simp: form_parse_def parse_json_form_def parse_url_encoded_form_def lexical_cast_size_def Let_def)

text \<open>The environment a request describes.\<close>

definition request_env :: "params_record list \<Rightarrow> env_map" where
  "request_env prs = put_pairs (request_pairs prs) (\<lambda>_. None)"

text \<open>The request is a POST with a length, and no form in several parts.\<close>

definition post_ok :: "boost_env \<Rightarrow> env_map \<Rightarrow> bool" where
  "post_ok bo env \<longleftrightarrow> env_value env ''REQUEST_METHOD'' = ''POST'' \<and>
     lexical_size bo (env_value env ''CONTENT_LENGTH'') \<noteq> None \<and>
     std_find ''multipart/form-data'' (env_value env ''CONTENT_TYPE'') 0 = npos"

text \<open>The state behind the last record, before the variables of the body are parsed.\<close>

lemma request_is_read:
  assumes "i \<noteq> 0" and "0 < role" and "role < 65536" and "flags < 256"
    and prs: "list_all params_ok prs" and chunks: "list_all stdin_ok chunks"
    and verb: "env_value (request_env prs) ''REQUEST_METHOD'' = ''POST''"
    and s: "s = fcgi_impl_new (server_request i role flags prs chunks @ rest) e"
  obtains s' where "fcgi_load bo parse_form s = Some (parse_post_vars bo No_error s')"
    and "\<forall>k. k \<noteq> [] \<longrightarrow> env_value (env_vars s') k = env_value (request_env prs) k"
    and "post_buffer s' = stdin_content chunks" and "client_request_id s' = i" and "arriving s' = rest"
    and "conn_open s'" and "sent_bytes s' = []" and "write_error s' = No_error"
    and "client_state s' = Status_stdin_read" and "keep_connection s' = odd flags"
    and "request_status s' AND 16 = 0"
proof -
  let ?r2 = "concat (map (stdin_bytes i) chunks) @ server_record STDIN i [] [] @ rest"
  let ?r1 = "concat (map (params_bytes i) prs) @ server_record PARAMS i [] [] @ ?r2"
  let ?s0 = "s\<lparr>client_state := Status_constructed\<rparr>"
  define s1 where "s1 = ?s0\<lparr>header_buf := begin_body role flags, arriving := ?r1,
    impl_id := i, client_request_id := i, request_role := role, keep_connection := odd flags\<rparr>"
  have head: "load_begin ?s0 = Some (Inr (No_error, s1))"
    unfolding s1_def using assms
    by (intro load_begin_record) (simp_all add: fcgi_impl_new_def server_request_def)
  obtain h pb env where env: "read_env_vars s1 = Some (Inr (No_error, s1\<lparr>header_buf := h, arriving := ?r2,
      param_buffer := pb, env_vars := env, request_status := request_status s1 OR 4,
      client_state := Status_params_read\<rparr>))"
    "\<forall>k. k \<noteq> [] \<longrightarrow> env_value env k = env_value (request_env prs) k"
    using read_env_records [OF prs, of s1 i ?r2] by (auto simp: s1_def s fcgi_impl_new_def request_env_def)
  define s2 where "s2 = s1\<lparr>header_buf := h, arriving := ?r2, param_buffer := pb, env_vars := env,
    request_status := request_status s1 OR 4, client_state := Status_params_read\<rparr>"
  obtain h' where stdin: "read_stdin No_error s2 = Some (Inr (No_error, s2\<lparr>header_buf := h', arriving := rest,
      post_buffer := post_buffer s2 @ stdin_content chunks, client_state := Status_stdin_read\<rparr>))"
    using read_stdin_records [OF chunks, of s2 i rest] by (auto simp: s2_def s1_def s fcgi_impl_new_def)
  define s3 where "s3 = s2\<lparr>header_buf := h', arriving := rest,
    post_buffer := post_buffer s2 @ stdin_content chunks, client_state := Status_stdin_read\<rparr>"
  have verb2: "env_value (env_vars s2) ''REQUEST_METHOD'' = ''POST''" using verb env(2) by (simp add: s2_def)
  have same: "bindO (Some r) (\<lambda>(ec3, s3). Some (Inr (ec3, if ec3 \<noteq> No_error then s3 else s3))) = Some r"
    for r :: "(cgi_code \<times> fcgi_impl) result"
    by (cases r) auto
  have "fcgi_load bo parse_form s = Some (parse_post_vars bo No_error s3)"
    using head env(1) stdin verb2 same
    by (simp add: fcgi_load_def load_vars_def parse_form_def Let_def s fcgi_impl_new_def flip: s2_def s3_def)
  then show thesis
    by (rule that) (use env(2) in \<open>simp_all add: s3_def s2_def s1_def s fcgi_impl_new_def\<close>)
qed

lemma request_is_loaded:
  assumes "i \<noteq> 0" and "0 < role" and "role < 65536" and "flags < 256"
    and prs: "list_all params_ok prs" and chunks: "list_all stdin_ok chunks"
    and post: "post_ok bo (request_env prs)"
    and s: "s = fcgi_impl_new (server_request i role flags prs chunks @ rest) e"
  obtains s' where "fcgi_load bo parse_form s = Some (Inr (No_error, s'))"
    and "\<forall>k. k \<noteq> [] \<longrightarrow> env_value (env_vars s') k = env_value (request_env prs) k"
    and "post_buffer s' = stdin_content chunks" and "client_request_id s' = i" and "arriving s' = rest"
    and "conn_open s'" and "sent_bytes s' = []" and "write_error s' = No_error"
    and "client_state s' = Status_stdin_read" and "keep_connection s' = odd flags"
proof -
  have verb: "env_value (request_env prs) ''REQUEST_METHOD'' = ''POST''" using post by (simp add: post_ok_def)
  obtain s3 where s3: "fcgi_load bo parse_form s = Some (parse_post_vars bo No_error s3)"
      "\<forall>k. k \<noteq> [] \<longrightarrow> env_value (env_vars s3) k = env_value (request_env prs) k"
      "post_buffer s3 = stdin_content chunks" "client_request_id s3 = i" "arriving s3 = rest"
      "conn_open s3" "sent_bytes s3 = []" "write_error s3 = No_error"
      "client_state s3 = Status_stdin_read" "keep_connection s3 = odd flags" "request_status s3 AND 16 = 0"
    by (rule request_is_read [OF assms(1-4) prs chunks verb s])
  from post s3(2) obtain n where n: "lexical_size bo (env_value (env_vars s3) ''CONTENT_LENGTH'') = Some n"
    and type: "std_find ''multipart/form-data'' (env_value (env_vars s3) ''CONTENT_TYPE'') 0 = npos"
    by (auto simp: post_ok_def)
  let ?s3 = "s3\<lparr>bytes_left := n\<rparr>"
  obtain x where x: "form_parse bo (form_context_of ?s3) No_error = Inr (No_error, x)" "ctx_buffer x = post_buffer s3"
    using form_parse_keeps_body [of "form_context_of ?s3" bo n No_error] n type
    by (auto simp: form_context_of_def)
  let ?s4 = "?s3\<lparr>post_buffer := ctx_buffer x, post_vars := ctx_data x, upload_vars := ctx_uploads x,
    stdin_parsed := ctx_stdin_parsed x, request_status := request_status s3 OR 16, bytes_left := ctx_bytes_left x\<rparr>"
  have "parse_post_vars bo No_error s3 = Inr (No_error, ?s4)"
    using n x s3(11) by (simp add: parse_post_vars_def lexical_cast_size_def Let_def)
  with s3(1) have "fcgi_load bo parse_form s = Some (Inr (No_error, ?s4))" by simp
  then show thesis by (rule that) (use s3 x(2) in simp_all)
qed

text \<open>A POST without a number for the length of its body: the conversion throws.\<close>

lemma request_without_length:
  assumes "i \<noteq> 0" and "0 < role" and "role < 65536" and "flags < 256"
    and "list_all params_ok prs" and "list_all stdin_ok chunks"
    and "env_value (request_env prs) ''REQUEST_METHOD'' = ''POST''"
    and "lexical_size bo (env_value (request_env prs) ''CONTENT_LENGTH'') = None"
  shows "\<exists>e'. fcgi_load bo parse_form (fcgi_impl_new (server_request i role flags prs chunks @ rest) e) = Some (Inl e') \<and>
    is_std_exception e'"
proof -
  obtain s3 where "fcgi_load bo parse_form (fcgi_impl_new (server_request i role flags prs chunks @ rest) e) =
      Some (parse_post_vars bo No_error s3)"
    and "\<forall>k. k \<noteq> [] \<longrightarrow> env_value (env_vars s3) k = env_value (request_env prs) k"
    by (rule request_is_read [OF assms(1-7) refl])
  with assms(8) show ?thesis by (simp add: parse_post_vars_def lexical_cast_size_def)
qed

text \<open>A connection that is closed before a request has begun.\<close>

lemma closed_connection_gives_up:
  assumes "e \<noteq> No_error"
  obtains s' where "fcgi_load bo parse_form (fcgi_impl_new [] e) = Some (Inr (e, s'))" and "\<not> conn_open s'"
proof -
  let ?s = "fcgi_impl_new [] e\<lparr>client_state := Status_constructed\<rparr>"
  have "read_header ?s = Some (Inr (e, ?s))"
    using assms by (simp add: read_header_def fcgi_impl_new_def no_header_def)
  then have "load_begin ?s = Some (Inr (e, ?s))" using assms by (subst load_begin.simps) simp
  then have "fcgi_load bo parse_form (fcgi_impl_new [] e) = Some (Inr (e, give_up ?s))"
    using assms by (simp add: fcgi_load_def fcgi_impl_new_def)
  then show thesis by (rule that) (simp add: give_up_def)
qed

end
