(* ===== verification/Fcgi_Response.thy ===== *)
theory Fcgi_Response
  imports Fcgi_Wire
begin

section \<open>Answering a FastCGI request\<close>

text \<open>
  \<open>boost/cgi/impl/response.ipp\<close> (the headers and the body of a response), \<open>fcgi/client.hpp\<close> (packets), \<open>close\<close> of
  \<open>fcgi_request_service.ipp\<close> and \<open>common/commit.hpp\<close>. A sequence of buffers is a list of strings. \<open>asio_write\<close> is
  Asio's loop around \<open>write_some\<close>: it passes on at most \<open>max_transfer\<close> bytes, and takes as many bytes for written
  as \<open>write_some\<close> returns.
\<close>

subsection \<open>The response\<close>

record cgi_response =
  resp_headers :: "string list"
  resp_body :: string
  resp_status :: nat
  headers_terminated :: bool
  resp_charset :: string

definition response_new :: "nat \<Rightarrow> cgi_response" where
  "response_new sc = \<lparr>resp_headers = [], resp_body = [], resp_status = sc, headers_terminated = False,
     resp_charset = ''ISO-8859-1''\<rparr>"

definition set_header :: "string \<Rightarrow> cgi_response \<Rightarrow> cgi_response" where
  "set_header v r = r\<lparr>resp_headers := resp_headers r @ [v @ crlf]\<rparr>"

definition set_header_value :: "string \<Rightarrow> string \<Rightarrow> cgi_response \<Rightarrow> cgi_response" where
  "set_header_value n v r = r\<lparr>resp_headers := resp_headers r @ [n @ '': '' @ v @ crlf]\<rparr>"

definition content_type_of :: "string \<Rightarrow> string" where
  "content_type_of str = ''Content-type'' @ '': '' @ str"

text \<open>Streaming a header into a response, where an empty one ends the headers, and streaming text.\<close>

definition response_set :: "string \<Rightarrow> cgi_response \<Rightarrow> cgi_response" where
  "response_set content r = (if content = [] then r\<lparr>headers_terminated := True\<rparr> else set_header content r)"

definition response_text :: "string \<Rightarrow> cgi_response \<Rightarrow> cgi_response" where
  "response_text t r = r\<lparr>resp_body := resp_body r @ t\<rparr>"

definition has_header_value :: "string \<Rightarrow> cgi_response \<Rightarrow> bool" where
  "has_header_value n r = list_ex (\<lambda>h. length n < length h \<and> take (length n) h = n) (resp_headers r)"

definition add_charset :: "string \<Rightarrow> string \<Rightarrow> string" where
  "add_charset cs h =
     (if name_key (c_str (take 12 h)) = name_key ''Content-type'' then
        take (length h - 2) h @ ''; charset='' @ cs @ drop (length h - 2) h
      else h)"

definition prepare_headers :: "cgi_response \<Rightarrow> string list \<times> cgi_response" where
  "prepare_headers r =
     (let r1 = (if resp_headers r = [] then r\<lparr>resp_headers := [''Content-type: text/plain'' @ crlf]\<rparr> else r);
          r2 = (if has_header_value ''Status'' r1 then r1
                else set_header_value ''Status'' (decimal (resp_status r1)) r1);
          hs = (if headers_terminated r2 then resp_headers r2 else resp_headers r2 @ [crlf]);
          hs' = map (add_charset (resp_charset r2)) hs
      in (hs', r2\<lparr>resp_headers := hs', headers_terminated := True\<rparr>))"

subsection \<open>Packets\<close>

text \<open>\<open>prepare_buffer\<close>: the content of the next packet. A buffer that does not fit is left for the next packet, unless
  the packet is empty: then a part of it is taken.\<close>

fun prepare_buffer :: "nat \<Rightarrow> string list \<Rightarrow> string" where
  "prepare_buffer used [] = []"
| "prepare_buffer used (b # bs) =
     (if max_packet_size < used + length b then (if used = 0 then take (min (length b) 65500) b else [])
      else b @ prepare_buffer (used + length b) bs)"

text \<open>\<open>handle_write\<close>: the size without the header is compared to that in the header; the caller's number of bytes
  is not changed by that, as it was passed by value.\<close>

definition handle_write :: "string \<Rightarrow> nat \<Rightarrow> cgi_code \<Rightarrow> fcgi_impl \<Rightarrow> cgi_code \<times> fcgi_impl" where
  "handle_write h n ec s =
     (if ec = No_error \<and> word_of_nat n - 8 \<noteq> (ucast (get_content_length h) :: 64 word)
      then Fcgi_error Couldnt_write_complete_packet else ec,
      s\<lparr>total_sent_bytes := total_sent_bytes s + word_of_nat n, total_sent_packets := total_sent_packets s + 1\<rparr>)"

definition write_some :: "string list \<Rightarrow> fcgi_impl \<Rightarrow> (nat \<times> cgi_code) \<times> fcgi_impl" where
  "write_some bufs s =
     (let content = prepare_buffer 0 bufs; h = header_reset STDOUT (client_request_id s) (length content)
      in case socket_write (h @ content) s of
        (ec, s1) \<Rightarrow>
          let n = (if ec = No_error then length (h @ content) else 0)
          in (case handle_write h n ec s1 of (ec', s2) \<Rightarrow> ((n, ec'), s2)))"

fun buffers_take :: "nat \<Rightarrow> string list \<Rightarrow> string list" where
  "buffers_take n [] = []"
| "buffers_take n (b # bs) = (if n = 0 then [] else take n b # buffers_take (n - length b) bs)"

fun buffers_drop :: "nat \<Rightarrow> string list \<Rightarrow> string list" where
  "buffers_drop n [] = []"
| "buffers_drop n (b # bs) = (if length b \<le> n then buffers_drop (n - length b) bs else drop n b # bs)"

lemma concat_buffers_take [simp]: "concat (buffers_take n bs) = take n (concat bs)"
  by (induction bs arbitrary: n) auto

lemma concat_buffers_drop [simp]: "concat (buffers_drop n bs) = drop n (concat bs)"
  by (induction bs arbitrary: n) auto

lemma write_some_amount: "write_some bufs s = ((n, No_error), s') \<Longrightarrow> 8 \<le> n"
  by (auto simp: write_some_def Let_def handle_write_def split: prod.splits if_splits)

function asio_write :: "nat \<Rightarrow> string list \<Rightarrow> fcgi_impl \<Rightarrow> cgi_code \<times> fcgi_impl" where
  "asio_write m bufs s =
     (if concat bufs = [] then (No_error, s)
      else case write_some (buffers_take m bufs) s of
        ((n, ec), s1) \<Rightarrow> if ec \<noteq> No_error then (ec, s1) else asio_write m (buffers_drop n bufs) s1)"
  by pat_completeness auto
termination
proof (relation "measure (\<lambda>(_, bufs, _). length (concat bufs))", goal_cases)
  case (2 m bufs s x s1 n ec)
  then have "8 \<le> n" by (metis write_some_amount)
  with 2 show ?case by (auto simp del: concat_eq_Nil_conv simp: less_imp_diff_less)
qed simp

declare asio_write.simps [simp del]

subsection \<open>Sending and closing\<close>

definition response_send :: "boost_env \<Rightarrow> cgi_response \<Rightarrow> fcgi_impl \<Rightarrow> cgi_code \<times> cgi_response \<times> fcgi_impl" where
  "response_send bo r s =
     (let (ec, r1, s1) =
          (if headers_terminated r then (No_error, r, s)
           else case prepare_headers r of (hs, r1) \<Rightarrow>
             (case asio_write (max_transfer bo) hs s of (ec, s1) \<Rightarrow> (ec, r1, s1)))
      in if resp_body r1 = [] then (ec, r1, s1)
         else case asio_write (max_transfer bo) [resp_body r1] s1 of (ec, s2) \<Rightarrow> (ec, r1, s2))"

definition client_close :: "64 word \<Rightarrow> cgi_code \<Rightarrow> fcgi_impl \<Rightarrow> cgi_code \<times> fcgi_impl" where
  "client_close app ec s =
     (if \<not> conn_open s then (Cgi_error Cgi_already_closed, s)
      else
        let (ec1, s1) =
          (if client_status_code Status_constructed < client_status_code (client_state s) \<and>
              client_status_code (client_state s) < client_status_code Status_end_request_sent then
             socket_write (header_reset END_REQUEST (client_request_id s) 8 @ end_request_body app REQUEST_COMPLETE) s
           else (ec, s))
        in (ec1, s1\<lparr>conn_open := (ec1 = No_error \<longrightarrow> keep_connection s1), client_state := Status_closed\<rparr>))"

text \<open>\<open>close\<close> of the service: the rest of standard input is read first. The value is the program's status.\<close>

definition fcgi_close :: "int \<Rightarrow> cgi_code \<Rightarrow> fcgi_impl \<Rightarrow> (int \<times> cgi_code \<times> fcgi_impl) outcome" where
  "fcgi_close st ec s =
     bindO (read_stdin ec s) (\<lambda>(ec1, s1).
       case client_close (word_of_int st) ec1 (s1\<lparr>all_done := True\<rparr>) of
         (ec2, s2) \<Rightarrow> Some (Inr (st, ec2, s2\<lparr>request_status := 66\<rparr>)))"

text \<open>\<open>commit\<close> in its throwing form. Its third argument is the status of the program, for the web server; the status
  of the response is the one in the response.\<close>

definition commit_response :: "boost_env \<Rightarrow> cgi_response \<Rightarrow> int \<Rightarrow> fcgi_impl \<Rightarrow> (int \<times> fcgi_impl) outcome" where
  "commit_response bo r st s =
     (case response_send bo r s of (ec, r1, s1) \<Rightarrow>
        bindO (if ec \<noteq> No_error then Some (Inr (- 1, ec, s1)) else fcgi_close st ec s1) (\<lambda>(ret, ec2, s2).
          if ec2 \<noteq> No_error then Some (Inl (System_error (code_message ec2))) else Some (Inr (ret, s2))))"

subsection \<open>What the web server reads\<close>

text \<open>The protocol's view of the answer to request \<open>i\<close>: the content of its \<open>STDOUT\<close> records up to the record that
  ends it, and the status in that.\<close>

function server_reads :: "16 word \<Rightarrow> string \<Rightarrow> (string \<times> nat) option" where
  "server_reads i b =
     (if length b < 8 then None
      else
        let n = unat (get_content_length b); c = take n (drop 8 b);
            r = drop (8 + n + unat (get_padding_length b)) b
        in if get_request_id b \<noteq> i then None
           else if get_type b = STDOUT then map_option (apfst ((@) c)) (server_reads i r)
           else if get_type b = END_REQUEST \<and> length c = 8 then
             Some ([], of_char (c ! 0) * 2 ^ 24 + of_char (c ! 1) * 2 ^ 16 + of_char (c ! 2) * 2 ^ 8 + of_char (c ! 3))
           else None)"
  by pat_completeness auto
termination
  by (relation "measure (\<lambda>(_, b). length b)") auto

declare server_reads.simps [simp del]

lemma header_reset_append [simp]:
  "get_type (header_reset t i n @ r) = get_type (header_reset t i n)"
  "get_request_id (header_reset t i n @ r) = get_request_id (header_reset t i n)"
  "get_content_length (header_reset t i n @ r) = get_content_length (header_reset t i n)"
  "get_padding_length (header_reset t i n @ r) = 0"
  by (simp_all add: get_type_def get_request_id_def get_content_length_def get_padding_length_def header_bytes_def
      header_reset_def)

lemma server_reads_stdout:
  assumes "length c < 65536"
  shows "server_reads i (header_reset STDOUT i (length c) @ c @ r) = map_option (apfst ((@) c)) (server_reads i r)"
  using assms by (subst server_reads.simps) (simp add: unat_small Let_def)

lemma server_reads_end:
  assumes "st < 2 ^ 32"
  shows "server_reads i (header_reset END_REQUEST i 8 @ end_request_body (word_of_nat st) REQUEST_COMPLETE) = Some ([], st)"
proof -
  let ?w = "word_of_nat st :: 64 word"
  have w: "unat ?w = st" using assms by (simp add: unsigned_of_nat take_bit_nat_eq_self)
  have byte: "unat (drop_bit k ?w) = st div 2 ^ k" for k
  proof -
    have "unat (drop_bit k ?w) = drop_bit k (unat ?w)" by (rule unat_drop_bit_eq)
    then show ?thesis by (simp add: w drop_bit_eq_div)
  qed
  have "st div 2 ^ 24 mod 256 = st div 2 ^ 24" using assms by simp
  then have "(of_char (end_request_body ?w REQUEST_COMPLETE ! 0) :: nat) = st div 2 ^ 24"
    "(of_char (end_request_body ?w REQUEST_COMPLETE ! 1) :: nat) = st div 2 ^ 16 mod 256"
    "(of_char (end_request_body ?w REQUEST_COMPLETE ! 2) :: nat) = st div 2 ^ 8 mod 256"
    "(of_char (end_request_body ?w REQUEST_COMPLETE ! 3) :: nat) = st mod 256"
    using byte [of 24] byte [of 16] byte [of 8] byte [of 0] by (simp_all add: end_request_body_def)
  with four_bytes [of st] show ?thesis
    by (subst server_reads.simps) (simp add: unat_small Let_def)
qed

subsection \<open>Packets on the wire\<close>

lemma prepare_buffer_length: "u \<le> max_packet_size \<Longrightarrow> u + length (prepare_buffer u bs) \<le> max_packet_size"
proof (induction bs arbitrary: u)
  case (Cons b bs)
  show ?case
  proof (cases "max_packet_size < u + length b")
    case True
    with Cons.prems show ?thesis by (simp add: max_packet_size_def)
  next
    case False
    then have "u + length b + length (prepare_buffer (u + length b) bs) \<le> max_packet_size" by (intro Cons.IH) simp
    with False show ?thesis by simp
  qed
qed simp

lemma prepare_buffer_all: "u + length (concat bs) \<le> max_packet_size \<Longrightarrow> prepare_buffer u bs = concat bs"
  by (induction bs arbitrary: u) auto

text \<open>\<open>with_packets s p\<close>: the state after the bytes \<open>p\<close> were sent.\<close>

definition with_packets :: "fcgi_impl \<Rightarrow> string \<Rightarrow> fcgi_impl \<Rightarrow> bool" where
  "with_packets s p s' \<longleftrightarrow> s' = s\<lparr>sent_bytes := sent_bytes s @ p,
     total_sent_bytes := total_sent_bytes s', total_sent_packets := total_sent_packets s'\<rparr>"

lemma write_some_packet:
  assumes "conn_open s" and "write_error s = No_error"
  shows "\<exists>s'. write_some bufs s = ((8 + length (prepare_buffer 0 bufs), No_error), s') \<and>
    with_packets s (header_reset STDOUT (client_request_id s) (length (prepare_buffer 0 bufs)) @ prepare_buffer 0 bufs) s'"
proof -
  have "length (prepare_buffer 0 bufs) < 65536"
    using prepare_buffer_length [of 0 bufs] by (simp add: max_packet_size_def)
  then show ?thesis
    using assms
    by (auto simp: write_some_def handle_write_def socket_write_def with_packets_def Let_def unsigned_of_nat take_bit_nat_eq_self)
qed

text \<open>Asio is told of eight bytes more than it gave: they are those of the header. What is left of a buffer for
  the next packet has lost its first eight bytes. \<open>received m t\<close> is what arrives of the buffer \<open>t\<close>.\<close>

definition packet_size :: "nat \<Rightarrow> nat \<Rightarrow> nat" where
  "packet_size m n = (if max_packet_size < min m n then 65500 else min m n)"

function received :: "nat \<Rightarrow> string \<Rightarrow> string" where
  "received m t =
     (if t = [] then []
      else take (packet_size m (length t)) t @ received m (drop (packet_size m (length t) + 8) t))"
  by pat_completeness auto
termination
  by (relation "measure (\<lambda>(_, t). length t)") auto

declare received.simps [simp del]

lemma received_all: "length t \<le> m \<Longrightarrow> length t \<le> max_packet_size \<Longrightarrow> received m t = t"
  by (subst received.simps) (simp add: packet_size_def received.simps [of m "[]"])

lemma received_less:
  assumes "packet_size m (length t) < length t"
  shows "length (received m t) < length t"
proof -
  have le: "length (received m u) \<le> length u" for u
    by (induction m u rule: received.induct) (subst received.simps, auto)
  let ?k = "packet_size m (length t)"
  have "received m t = take ?k t @ received m (drop (?k + 8) t)"
    using assms by (subst received.simps) auto
  moreover have "length (received m (drop (?k + 8) t)) \<le> length t - (?k + 8)" using le [of "drop (?k + 8) t"] by simp
  ultimately show ?thesis using assms by simp
qed

lemma with_packets_trans: "with_packets s p s1 \<Longrightarrow> with_packets s1 q s2 \<Longrightarrow> with_packets s (p @ q) s2"
  by (cases s, cases s1, cases s2) (simp add: with_packets_def)

lemma with_packets_Nil: "with_packets s [] s"
  by (cases s) (simp add: with_packets_def)

lemma with_packets_keeps:
  "with_packets s p s' \<Longrightarrow> conn_open s' = conn_open s \<and> write_error s' = write_error s \<and>
    client_request_id s' = client_request_id s"
  by (cases s, cases s') (simp add: with_packets_def)

lemma server_reads_packets_Nil: "map_option (apfst ((@) [])) r = r"
  by (cases r) auto

lemma prepare_buffer_single: "prepare_buffer 0 (buffers_take m [t]) = take (packet_size m (length t)) t"
  by (cases "m = 0") (auto simp: packet_size_def max_packet_size_def min_def)

lemma asio_write_one:
  assumes "conn_open s" and "write_error s = No_error" and "0 < m"
  shows "\<exists>p s'. asio_write m [t] s = (No_error, s') \<and> with_packets s p s' \<and>
    (\<forall>r. server_reads (client_request_id s) (p @ r) =
      map_option (apfst ((@) (received m t))) (server_reads (client_request_id s) r))"
  using assms
proof (induction "length t" arbitrary: t s rule: less_induct)
  case less
  show ?case
  proof (cases "t = []")
    case True
    then show ?thesis
      by (intro exI [of _ "[]"] exI [of _ s])
        (simp add: asio_write.simps received.simps server_reads_packets_Nil with_packets_Nil)
  next
    case False
    let ?i = "client_request_id s" and ?k = "packet_size m (length t)"
    let ?c = "take ?k t" and ?d = "drop (?k + 8) t"
    let ?p = "header_reset STDOUT ?i (length ?c) @ ?c"
    obtain s1 where s1: "write_some (buffers_take m [t]) s = ((8 + length ?c, No_error), s1)" "with_packets s ?p s1"
      using write_some_packet [OF less.prems(1,2), of "buffers_take m [t]"] unfolding prepare_buffer_single by blast
    have "?k \<le> length t" "?k < 65536" by (auto simp: packet_size_def max_packet_size_def)
    then have "concat (buffers_drop (8 + length ?c) [t]) = ?d" by (simp add: add.commute)
    have same: "asio_write m bufs s1 = asio_write m [concat bufs] s1" if "bufs = [] \<or> (\<exists>d. bufs = [d])" for bufs
      using that asio_write.simps [of m "[]" s1] asio_write.simps [of m "[[]]" s1] by auto
    have "asio_write m [t] s = asio_write m (buffers_drop (8 + length ?c) [t]) s1"
      using s1 False by (subst asio_write.simps) simp
    also have "\<dots> = asio_write m [?d] s1"
      using same [of "buffers_drop (8 + length ?c) [t]"] \<open>concat (buffers_drop _ _) = ?d\<close> by auto
    finally have step: "asio_write m [t] s = asio_write m [?d] s1" .
    have "length ?d < length t" using False by auto
    from less.hyps [OF this, of s1] with_packets_keeps [OF s1(2)] less.prems obtain p s' where
      rest: "asio_write m [?d] s1 = (No_error, s')" "with_packets s1 p s'"
        "\<forall>r. server_reads ?i (p @ r) = map_option (apfst ((@) (received m ?d))) (server_reads ?i r)"
      by auto
    have reads: "server_reads ?i ((?p @ p) @ r) = map_option (apfst ((@) (received m t))) (server_reads ?i r)" for r
      using server_reads_stdout [of ?c ?i "p @ r"] \<open>?k < 65536\<close> rest(3) False
      by (subst received.simps) (simp add: option.map_comp apfst_def map_prod_def comp_def case_prod_unfold)
    show ?thesis
    proof (intro exI conjI allI)
      show "asio_write m [t] s = (No_error, s')" by (simp only: step rest(1))
      show "with_packets s (?p @ p) s'" by (rule with_packets_trans [OF s1(2) rest(2)])
    qed (rule reads)
  qed
qed

text \<open>Buffers that fit into one packet arrive as they are.\<close>

lemma asio_write_small:
  assumes "conn_open s" and "write_error s = No_error" and "concat bufs \<noteq> []"
    and "length (concat bufs) \<le> m" and "length (concat bufs) \<le> max_packet_size"
  shows "\<exists>p s'. asio_write m bufs s = (No_error, s') \<and> with_packets s p s' \<and>
    (\<forall>r. server_reads (client_request_id s) (p @ r) =
      map_option (apfst ((@) (concat bufs))) (server_reads (client_request_id s) r))"
proof -
  let ?c = "concat bufs" and ?i = "client_request_id s"
  let ?p = "header_reset STDOUT ?i (length ?c) @ ?c"
  have "prepare_buffer 0 (buffers_take m bufs) = ?c"
    using assms(4,5) prepare_buffer_all [of 0 "buffers_take m bufs"] by simp
  then obtain s1 where s1: "write_some (buffers_take m bufs) s = ((8 + length ?c, No_error), s1)" "with_packets s ?p s1"
    using write_some_packet [OF assms(1,2), of "buffers_take m bufs"] by metis
  have "concat (buffers_drop (8 + length ?c) bufs) = []" by simp
  then have "asio_write m (buffers_drop (8 + length ?c) bufs) s1 = (No_error, s1)"
    by (subst asio_write.simps) (simp del: concat_eq_Nil_conv concat_buffers_drop)
  with s1 assms(3) have "asio_write m bufs s = (No_error, s1)"
    by (subst asio_write.simps) (simp del: concat_eq_Nil_conv)
  moreover have "server_reads ?i (?p @ r) = map_option (apfst ((@) ?c)) (server_reads ?i r)" for r
    using server_reads_stdout [of ?c ?i r] assms(5) by (simp add: max_packet_size_def)
  ultimately show ?thesis using s1(2) by blast
qed

subsection \<open>A committed response\<close>

lemma prepare_headers_body: "resp_body (snd (prepare_headers r)) = resp_body r"
  by (simp add: prepare_headers_def set_header_value_def Let_def)

lemma prepare_headers_nonempty:
  assumes "\<not> headers_terminated r"
  shows "concat (fst (prepare_headers r)) \<noteq> []"
proof -
  have "add_charset (resp_charset r) crlf \<in> set (fst (prepare_headers r))"
    using assms by (simp add: prepare_headers_def set_header_value_def Let_def)
  moreover have "add_charset cs crlf \<noteq> []" for cs by (simp add: add_charset_def crlf_def)
  ultimately show ?thesis by auto
qed

lemma response_send_received:
  assumes "conn_open s" and "write_error s = No_error" and "\<not> headers_terminated r"
    and "length (concat (fst (prepare_headers r))) \<le> min (max_transfer bo) max_packet_size" and "0 < max_transfer bo"
  shows "\<exists>p r1 s'. response_send bo r s = (No_error, r1, s') \<and> with_packets s p s' \<and>
    (\<forall>q. server_reads (client_request_id s) (p @ q) =
      map_option (apfst ((@) (concat (fst (prepare_headers r)) @ received (max_transfer bo) (resp_body r))))
        (server_reads (client_request_id s) q))"
proof -
  let ?hs = "fst (prepare_headers r)" and ?r1 = "snd (prepare_headers r)" and ?i = "client_request_id s"
    and ?m = "max_transfer bo" and ?b = "resp_body r"
  obtain p1 s1 where one: "asio_write ?m ?hs s = (No_error, s1)" "with_packets s p1 s1"
      "\<forall>q. server_reads ?i (p1 @ q) = map_option (apfst ((@) (concat ?hs))) (server_reads ?i q)"
    using asio_write_small [OF assms(1,2) prepare_headers_nonempty [OF assms(3)], of ?m] assms(4)
    unfolding min.bounded_iff by blast
  obtain p2 s2 where two: "asio_write ?m [?b] s1 = (No_error, s2)" "with_packets s1 p2 s2"
      "\<forall>q. server_reads ?i (p2 @ q) = map_option (apfst ((@) (received ?m ?b))) (server_reads ?i q)"
    using asio_write_one [of s1 ?m ?b] with_packets_keeps [OF one(2)] assms(1,2,5) by auto
  have "asio_write ?m [?b] s1 = (No_error, s1)" if "?b = []" using that by (simp add: asio_write.simps)
  then have "response_send bo r s = (No_error, ?r1, s2)"
    using one(1) two(1) assms(3) prepare_headers_body [of r]
    by (auto simp: response_send_def case_prod_unfold Let_def)
  moreover have "with_packets s (p1 @ p2) s2" using one(2) two(2) by (rule with_packets_trans)
  moreover have "server_reads ?i ((p1 @ p2) @ q) =
      map_option (apfst ((@) (concat ?hs @ received ?m ?b))) (server_reads ?i q)" for q
    using one(3) two(3) by (simp add: option.map_comp comp_def apfst_def map_prod_def case_prod_unfold)
  ultimately show ?thesis by blast
qed

lemma commit_received:
  assumes "conn_open s" and "write_error s = No_error" and "client_state s = Status_stdin_read"
    and "\<not> headers_terminated r" and "st < 2 ^ 31" and "0 < max_transfer bo"
    and "length (concat (fst (prepare_headers r))) \<le> min (max_transfer bo) max_packet_size"
  obtains s' p where "commit_response bo r (int st) s = Some (Inr (int st, s'))"
    and "sent_bytes s' = sent_bytes s @ p" and "post_buffer s' = post_buffer s"
    and "conn_open s' = keep_connection s" and "arriving s' = arriving s" and "all_done s'"
    and "server_reads (client_request_id s) p =
      Some (concat (fst (prepare_headers r)) @ received (max_transfer bo) (resp_body r), st)"
proof -
  let ?i = "client_request_id s" and ?out = "concat (fst (prepare_headers r)) @ received (max_transfer bo) (resp_body r)"
  let ?e = "header_reset END_REQUEST ?i 8 @ end_request_body (word_of_nat st) REQUEST_COMPLETE"
  obtain p r1 s1 where send: "response_send bo r s = (No_error, r1, s1)" "with_packets s p s1"
      "\<forall>q. server_reads ?i (p @ q) = map_option (apfst ((@) ?out)) (server_reads ?i q)"
    using response_send_received [OF assms(1,2,4,7,6)] by blast
  let ?s2 = "s1\<lparr>all_done := True, sent_bytes := sent_bytes s1 @ ?e, conn_open := keep_connection s1,
    client_state := Status_closed, request_status := 66\<rparr>"
  have same: "conn_open s1" "write_error s1 = No_error" "client_state s1 = Status_stdin_read" "client_request_id s1 = ?i"
      "sent_bytes s1 = sent_bytes s @ p" "post_buffer s1 = post_buffer s" "keep_connection s1 = keep_connection s"
      "arriving s1 = arriving s"
    using send(2) assms(1-3) by (cases s, cases s1, simp add: with_packets_def)+
  then have "fcgi_close (int st) No_error s1 = Some (Inr (int st, No_error, ?s2))"
    by (simp add: fcgi_close_def read_stdin.simps client_close_def socket_write_def Let_def)
  then have "commit_response bo r (int st) s = Some (Inr (int st, ?s2))"
    by (simp add: commit_response_def send(1))
  moreover have "server_reads ?i (p @ ?e) = Some (?out, st)"
    using send(3) server_reads_end [of st ?i] assms(5) by simp
  ultimately show thesis using same by (intro that [of ?s2 "p @ ?e"]) simp_all
qed

text \<open>On a connection that was closed, the commit throws.\<close>

lemma asio_write_closed:
  assumes "\<not> conn_open s" and "concat bufs \<noteq> []"
  shows "\<exists>s'. asio_write m bufs s = (closed_code, s') \<and> \<not> conn_open s'"
  using assms
  by (subst asio_write.simps)
    (simp add: write_some_def socket_write_def handle_write_def closed_code_def Let_def del: concat_eq_Nil_conv)

lemma commit_closed:
  assumes "\<not> conn_open s" and "\<not> headers_terminated r"
  shows "commit_response bo r st s = Some (Inl (System_error (code_message closed_code)))"
proof -
  let ?m = "max_transfer bo" and ?hs = "fst (prepare_headers r)" and ?b = "resp_body r"
  obtain s1 where s1: "asio_write ?m ?hs s = (closed_code, s1)" "\<not> conn_open s1"
    using asio_write_closed [OF assms(1) prepare_headers_nonempty [OF assms(2)]] by blast
  have "\<exists>s2. asio_write ?m [?b] s1 = (closed_code, s2)" if "?b \<noteq> []"
    using asio_write_closed [OF s1(2), of "[?b]"] that by auto
  then have "\<exists>r1 s2. response_send bo r s = (closed_code, r1, s2)"
    using s1(1) assms(2) prepare_headers_body [of r]
    by (auto simp: response_send_def case_prod_unfold Let_def)
  then show ?thesis by (auto simp: commit_response_def closed_code_def)
qed

subsection \<open>Properties\<close>


definition sample_boost :: boost_env where
  "sample_boost = \<lparr>lexical_size = (\<lambda>s. if s = ''2'' then Some 2 else None), tokens = (\<lambda>_ _. []),
     trim_any = (\<lambda>_ s. s), clock = [], max_transfer = 65536\<rparr>"

definition sample_connected :: fcgi_impl where
  "sample_connected = fcgi_impl_new [] No_error\<lparr>client_request_id := 1, client_state := Status_stdin_read\<rparr>"

lemma sample_headers:
  "concat (fst (prepare_headers (response_text t (response_new 200)))) =
     ''Content-type: text/plain; charset=ISO-8859-1'' @ crlf @ ''Status: 200'' @ crlf @ crlf"
proof -
  have "concat (fst (prepare_headers (response_new 200))) =
      ''Content-type: text/plain; charset=ISO-8859-1'' @ crlf @ ''Status: 200'' @ crlf @ crlf"
    by code_simp
  moreover have "fst (prepare_headers (response_text t (response_new 200))) = fst (prepare_headers (response_new 200))"
    by (simp add: prepare_headers_def response_text_def set_header_value_def has_header_value_def Let_def)
  ultimately show ?thesis by simp
qed


end
