(* ===== verification/Fcgi.thy ===== *)
theory Fcgi
  imports Listener Json_Wire Fcgi_Response
begin

section \<open>The FastCGI listener\<close>

text \<open>
  \<open>listeners/fcgi.h\<close>: the request handler behind a web hook, over the requests of Boost.CGI (\<open>Fcgi_Request\<close>,
  \<open>Fcgi_Response\<close>), and the part of \<open>fcgi/acceptor_service_impl.hpp\<close> that calls it. The listener runs on one thread.
  The result of a handler is the program's status with the request; the world \<open>'w\<close> is that of the callbacks.
\<close>

definition html_response :: cgi_response where
  "html_response = response_set (content_type_of ''text/html'') (response_new 200)"

definition handle_request ::
    "boost_env \<Rightarrow> 'w listener \<Rightarrow> fcgi_impl \<Rightarrow> 'w \<Rightarrow> (int \<times> fcgi_impl) outcome \<times> 'w" where
  "handle_request bo l s w =
     (case fcgi_load bo parse_form s of
        None \<Rightarrow> (None, w)
      | Some (Inl e) \<Rightarrow> (Some (Inl e), w)
      | Some (Inr (ec, s1)) \<Rightarrow>
          if ec \<noteq> No_error then
            (commit_response bo (response_text (code_message ec) (response_text ''Request parsing error: '' html_response))
               500 s1, w)
          else if env_value (env_vars s1) ''REQUEST_METHOD'' \<noteq> ''POST'' then
            (commit_response bo (response_text ''Bad request.'' html_response) 400 s1, w)
          else
            (case json_read (post_buffer s1) JNull of (tree, e) \<Rightarrow>
               if e \<noteq> None then
                 (commit_response bo (response_text ''Received unparseable JSON'' html_response) 400 s1, w)
               else
                 (case commit_response bo (response_text ''OK'' html_response) 200 s1 of
                    Some (Inr (result, s2)) \<Rightarrow>
                      (case andthen (case callback_raw l of None \<Rightarrow> skip | Some f \<Rightarrow> f (post_buffer s2))
                          (execute_callbacks l tree) w of
                         (Inl e, w') \<Rightarrow> (Some (Inl e), w')
                       | (Inr u, w') \<Rightarrow> (Some (Inr (result, s2)), w'))
                  | r \<Rightarrow> (r, w))))"

text \<open>The wrapper starts the next accept after the handler returned; \<open>n\<close> counts the accepts that are under way.\<close>

definition handle_request_async ::
    "boost_env \<Rightarrow> 'w listener \<Rightarrow> nat \<Rightarrow> fcgi_impl \<Rightarrow> 'w \<Rightarrow> (int \<times> fcgi_impl \<times> nat) outcome \<times> 'w" where
  "handle_request_async bo l n s w =
     (case handle_request bo l s w of (r, w') \<Rightarrow> (bindO r (\<lambda>(result, s'). Some (Inr (result, s', Suc n))), w'))"

subsection \<open>The acceptor\<close>

definition request_is_open :: "fcgi_impl \<Rightarrow> bool" where
  "request_is_open s \<longleftrightarrow> \<not> all_done s \<and> 1 \<le> unat (request_status s) \<and> unat (request_status s) \<le> 65 \<and> conn_open s"

text \<open>\<open>handle_accept\<close>: a request that the handler left open is closed, and every one is cleared for the next accept.\<close>

definition handle_accept ::
    "boost_env \<Rightarrow> 'w listener \<Rightarrow> nat \<Rightarrow> fcgi_impl \<Rightarrow> 'w \<Rightarrow> (fcgi_impl \<times> nat) outcome \<times> 'w" where
  "handle_accept bo l n s w =
     (case handle_request_async bo l n (s\<lparr>request_status := 1\<rparr>) w of
        (r, w') \<Rightarrow>
          (bindO r (\<lambda>(st, s1, n').
             bindO (if request_is_open s1 then fcgi_close st No_error s1 else Some (Inr (st, No_error, s1)))
               (\<lambda>(st', ec, s2).
                  if ec \<noteq> No_error then Some (Inl (System_error (code_message ec)))
                  else Some (Inr (fcgi_clear s2, n')))), w'))"

text \<open>The service on one thread. The requests are those the acceptor hands out, in that order; when there are no more
  it waits, and without an accept under way \<open>run\<close> has nothing left to do. An exception leaves it, which \<open>fcgi::run\<close>
  prints. Next to how it ends are the requests that were served.\<close>

datatype service_end = Waiting | Returned | Stuck | Thrown cxx_error

fun serve ::
    "boost_env \<Rightarrow> 'w listener \<Rightarrow> nat \<Rightarrow> fcgi_impl list \<Rightarrow> 'w \<Rightarrow> service_end \<times> fcgi_impl list \<times> 'w" where
  "serve bo l 0 ss w = (Returned, [], w)"
| "serve bo l (Suc n) [] w = (Waiting, [], w)"
| "serve bo l (Suc n) (s # ss) w =
     (case handle_accept bo l n s w of
        (None, w') \<Rightarrow> (Stuck, [], w')
      | (Some (Inl e), w') \<Rightarrow> (Thrown e, [], w')
      | (Some (Inr (s', n')), w') \<Rightarrow> (case serve bo l n' ss w' of (r, served, w'') \<Rightarrow> (r, s' # served, w'')))"

definition fcgi_run :: "boost_env \<Rightarrow> 'w listener \<Rightarrow> fcgi_impl list \<Rightarrow> 'w \<Rightarrow> service_end \<times> fcgi_impl list \<times> 'w" where
  "fcgi_run bo l ss w =
     (case serve bo l 2 ss w of
        (Thrown e, served, w') \<Rightarrow> (if is_undefined e then Thrown e else Returned, served, w')
      | r \<Rightarrow> r)"

subsection \<open>Answers\<close>

definition html_headers :: string where
  "html_headers = ''Content-type: text/html; charset=ISO-8859-1'' @ crlf @ ''Status: 200'' @ crlf @ crlf"

lemma html_response_simps [simp]:
  "headers_terminated (response_text t r) = headers_terminated r" "\<not> headers_terminated html_response"
  "resp_body (response_text t r) = resp_body r @ t" "resp_body html_response = []"
  by (simp_all add: response_text_def html_response_def response_set_def set_header_def response_new_def
      content_type_of_def)

lemma html_response_headers [simp]:
  "fst (prepare_headers (response_text t r)) = fst (prepare_headers r)"
  "concat (fst (prepare_headers html_response)) = html_headers"
proof -
  show "fst (prepare_headers (response_text t r)) = fst (prepare_headers r)"
    by (simp add: prepare_headers_def response_text_def set_header_value_def has_header_value_def Let_def)
  show "concat (fst (prepare_headers html_response)) = html_headers" by code_simp
qed

lemma html_headers_length [simp]: "length html_headers = 60"
  by code_simp

subsection \<open>A request of Telegram\<close>

text \<open>\<open>web_post bo i keep body rest s\<close>: a request \<open>i\<close> as a web server sends it, on a new connection, a POST whose
  standard input is \<open>body\<close>; the server asks to keep the connection or not, and \<open>rest\<close> is what it sends next.\<close>

definition web_post :: "boost_env \<Rightarrow> 16 word \<Rightarrow> bool \<Rightarrow> string \<Rightarrow> string \<Rightarrow> fcgi_impl \<Rightarrow> bool" where
  "web_post bo i keep body rest s \<longleftrightarrow>
     (\<exists>role flags prs chunks e. i \<noteq> 0 \<and> 0 < role \<and> role < 65536 \<and> flags < 256 \<and> odd flags = keep \<and>
        list_all params_ok prs \<and> list_all stdin_ok chunks \<and> stdin_content chunks = body \<and>
        post_ok bo (request_env prs) \<and> s = fcgi_impl_new (server_request i role flags prs chunks @ rest) e)"

text \<open>The reply of the listener, and what it does once the reply is out.\<close>

definition reply_body :: "string \<Rightarrow> string" where
  "reply_body body = (if snd (json_read body JNull) = None then ''OK'' else ''Received unparseable JSON'')"

definition program_status :: "string \<Rightarrow> nat" where
  "program_status body = (if snd (json_read body JNull) = None then 200 else 400)"

definition run_raw :: "'w listener \<Rightarrow> string \<Rightarrow> 'w action" where
  "run_raw l body = (case callback_raw l of None \<Rightarrow> skip | Some f \<Rightarrow> f body)"

definition run_callbacks :: "'w listener \<Rightarrow> string \<Rightarrow> 'w action" where
  "run_callbacks l body =
     (case json_read body JNull of (tree, e) \<Rightarrow>
        if e = None then andthen (run_raw l body) (execute_callbacks l tree) else skip)"

lemma fcgi_commit:
  assumes "conn_open s" and "write_error s = No_error" and "client_state s = Status_stdin_read"
    and "60 \<le> max_transfer bo" and "st < 2 ^ 31" and "length t \<le> 60"
  obtains s' p where "commit_response bo (response_text t html_response) (int st) s = Some (Inr (int st, s'))"
    and "sent_bytes s' = sent_bytes s @ p" and "post_buffer s' = post_buffer s" and "conn_open s' = keep_connection s"
    and "arriving s' = arriving s" and "all_done s'"
    and "server_reads (client_request_id s) p = Some (html_headers @ t, st)"
proof -
  let ?r = "response_text t html_response"
  have "received (max_transfer bo) t = t"
    using assms(4,6) by (intro received_all) (simp_all add: max_packet_size_def)
  moreover have "\<not> headers_terminated ?r" "0 < max_transfer bo"
    "length (concat (fst (prepare_headers ?r))) \<le> min (max_transfer bo) max_packet_size"
    using assms(4) by (simp_all add: max_packet_size_def)
  from commit_received [OF assms(1-3) this(1) assms(5) this(2,3)] obtain s' p where
    "commit_response bo ?r (int st) s = Some (Inr (int st, s'))"
    "sent_bytes s' = sent_bytes s @ p" "post_buffer s' = post_buffer s" "conn_open s' = keep_connection s"
    "arriving s' = arriving s" "all_done s'"
    "server_reads (client_request_id s) p =
      Some (concat (fst (prepare_headers ?r)) @ received (max_transfer bo) (resp_body ?r), st)" .
  ultimately show thesis by (intro that [of s' p]) simp_all
qed

text \<open>\<open>answered bo body s s2\<close>: the handler loads the request, answers it, and is then in the state \<open>s2\<close>.\<close>

definition answered :: "boost_env \<Rightarrow> string \<Rightarrow> fcgi_impl \<Rightarrow> fcgi_impl \<Rightarrow> bool" where
  "answered bo body s s2 \<longleftrightarrow>
     (\<exists>s1. fcgi_load bo parse_form s = Some (Inr (No_error, s1)) \<and> post_buffer s1 = body \<and>
        env_value (env_vars s1) ''REQUEST_METHOD'' = ''POST'' \<and> post_buffer s2 = body \<and>
        commit_response bo (response_text (reply_body body) html_response) (int (program_status body)) s1 =
          Some (Inr (int (program_status body), s2)))"

lemma web_post_answered:
  assumes "web_post bo i keep body rest s" and "60 \<le> max_transfer bo"
  obtains s2 where "answered bo body s s2"
    and "server_reads i (sent_bytes s2) = Some (html_headers @ reply_body body, program_status body)"
    and "conn_open s2 = keep" and "arriving s2 = rest" and "all_done s2"
proof -
  from assms(1) obtain role flags prs chunks e where p: "i \<noteq> 0" "0 < role" "role < 65536" "flags < 256"
      "list_all params_ok prs" "list_all stdin_ok chunks" "post_ok bo (request_env prs)"
      "s = fcgi_impl_new (server_request i role flags prs chunks @ rest) e"
    and keep: "odd flags = keep" and body: "stdin_content chunks = body"
    unfolding web_post_def by blast
  from request_is_loaded [OF p] obtain s1 where load: "fcgi_load bo parse_form s = Some (Inr (No_error, s1))"
    and env: "\<forall>k. k \<noteq> [] \<longrightarrow> env_value (env_vars s1) k = env_value (request_env prs) k"
    and s1: "post_buffer s1 = body" "client_request_id s1 = i" "arriving s1 = rest" "conn_open s1"
      "sent_bytes s1 = []" "write_error s1 = No_error" "client_state s1 = Status_stdin_read"
      "keep_connection s1 = keep"
    unfolding keep body by metis
  have verb: "env_value (env_vars s1) ''REQUEST_METHOD'' = ''POST''" using env p(7) by (simp add: post_ok_def)
  have "program_status body < 2 ^ 31" "length (reply_body body) \<le> 60"
    by (simp_all add: program_status_def reply_body_def)
  from fcgi_commit [OF s1(4,6,7) assms(2) this] s1 obtain s2
    where c: "commit_response bo (response_text (reply_body body) html_response) (int (program_status body)) s1 =
        Some (Inr (int (program_status body), s2))"
      and s2: "server_reads i (sent_bytes s2) = Some (html_headers @ reply_body body, program_status body)"
        "post_buffer s2 = body" "conn_open s2 = keep" "arriving s2 = rest" "all_done s2"
    by (metis append_Nil)
  from load s1(1) verb s2(2) c have "answered bo body s s2" unfolding answered_def by blast
  then show thesis using s2(1,3-5) by (rule that)
qed

lemma answered_handled:
  assumes "answered bo body s s2"
  shows "handle_request bo l s w =
    (case run_callbacks l body w of
       (Inl e, w') \<Rightarrow> (Some (Inl e), w')
     | (Inr u, w') \<Rightarrow> (Some (Inr (int (program_status body), s2)), w'))"
proof -
  from assms obtain s1 where s1: "fcgi_load bo parse_form s = Some (Inr (No_error, s1))" "post_buffer s1 = body"
      "env_value (env_vars s1) ''REQUEST_METHOD'' = ''POST''" "post_buffer s2 = body"
    and c: "commit_response bo (response_text (reply_body body) html_response) (int (program_status body)) s1 =
        Some (Inr (int (program_status body), s2))"
    unfolding answered_def by blast
  show ?thesis
  proof (cases "snd (json_read body JNull)")
    case None
    then obtain tree where "json_read body JNull = (tree, None)" by (metis prod.collapse)
    with c show ?thesis
      by (simp add: handle_request_def s1 reply_body_def program_status_def run_callbacks_def run_raw_def
          split: option.split sum.split prod.split)
  next
    case (Some x)
    then obtain tree where "json_read body JNull = (tree, Some x)" by (metis prod.collapse)
    with c show ?thesis
      by (simp add: handle_request_def s1 reply_body_def program_status_def run_callbacks_def skip_def)
  qed
qed

subsection \<open>Serving\<close>

lemma fcgi_impl_new_accepted: "fcgi_impl_new b e\<lparr>request_status := 1\<rparr> = fcgi_impl_new b e"
  by (simp add: fcgi_impl_new_def)

lemma web_post_accepted: "web_post bo i keep body rest s \<Longrightarrow> s\<lparr>request_status := 1\<rparr> = s"
  by (auto simp: web_post_def fcgi_impl_new_accepted)

lemma accept_web_post:
  assumes "web_post bo i keep body rest s" and "60 \<le> max_transfer bo"
  shows "\<exists>s'. handle_accept bo l n s w =
    (case run_callbacks l body w of
       (Inl e, w') \<Rightarrow> (Some (Inl e), w')
     | (Inr u, w') \<Rightarrow> (Some (Inr (fcgi_clear s', Suc n)), w'))"
proof -
  from web_post_answered [OF assms] obtain s' where s': "answered bo body s s'" "all_done s'" by metis
  obtain r w' where run: "run_callbacks l body w = (r, w')" by (rule prod.exhaust)
  have "\<not> request_is_open s'" using s'(2) by (simp add: request_is_open_def)
  then show ?thesis
    using run
    by (cases r)
      (auto simp: handle_accept_def handle_request_async_def web_post_accepted [OF assms(1)] answered_handled [OF s'(1)])
qed

text \<open>The raw callback throws nothing but what is no standard exception.\<close>

definition raw_throws_no_std :: "'w listener \<Rightarrow> bool" where
  "raw_throws_no_std l \<longleftrightarrow>
     (\<forall>f x w e w'. callback_raw l = Some f \<and> f x w = (Inl e, w') \<longrightarrow> \<not> is_std_exception e)"

lemma run_callbacks_throws:
  assumes "run_callbacks l body w = (Inl e, w')"
    and "raw_throws_no_std l"
  shows "\<not> is_std_exception e"
proof -
  have raw: "\<not> is_std_exception e'" if "run_raw l body w = (Inl e', w'')" for e' w''
    using that assms(2) by (auto simp: raw_throws_no_std_def run_raw_def skip_def split: option.splits)
  show ?thesis
    using assms(1) raw
    by (auto simp: run_callbacks_def andthen_def skip_def split: prod.splits sum.splits if_splits
        dest: callbacks.handle_throws)
qed

text \<open>Posts alone never end the service.\<close>

lemma serve_posts:
  assumes "60 \<le> max_transfer bo" and "list_all (\<lambda>s. \<exists>i keep body rest. web_post bo i keep body rest s) ss"
    and "raw_throws_no_std l"
  shows "case serve bo l (Suc n) ss w of (r, served, w') \<Rightarrow>
    r = Waiting \<and> length served = length ss \<or> (\<exists>e. r = Thrown e \<and> \<not> is_std_exception e)"
  using assms(2)
proof (induction ss arbitrary: w)
  case (Cons s ss)
  then obtain i keep body rest where "web_post bo i keep body rest s" by auto
  from accept_web_post [OF this assms(1), of l n w] obtain s' where s': "handle_accept bo l n s w =
      (case run_callbacks l body w of
         (Inl e, w') \<Rightarrow> (Some (Inl e), w')
       | (Inr u, w') \<Rightarrow> (Some (Inr (fcgi_clear s', Suc n)), w'))" by blast
  obtain r w' where run: "run_callbacks l body w = (r, w')" by (rule prod.exhaust)
  show ?case
  proof (cases r)
    case (Inl e)
    with run have "\<not> is_std_exception e" using run_callbacks_throws [OF _ assms(3)] by blast
    with s' run Inl show ?thesis by simp
  next
    case (Inr u)
    then show ?thesis using s' run Cons.IH [of w'] Cons.prems by (auto split: prod.splits)
  qed
qed simp

lemma run_thrown:
  assumes "handle_accept bo l 1 s w = (Some (Inl e), w')" and "\<not> is_undefined e"
  shows "fcgi_run bo l (s # ss) w = (Returned, [], w')"
  using assms by (simp add: fcgi_run_def numeral_2_eq_2)

lemma accept_thrown:
  assumes "handle_request bo l (s\<lparr>request_status := 1\<rparr>) w = (Some (Inl e), w')"
  shows "handle_accept bo l n s w = (Some (Inl e), w')"
  using assms by (simp add: handle_accept_def handle_request_async_def)

text \<open>A post that does not tell the length of its body.\<close>

definition lengthless_post :: "boost_env \<Rightarrow> fcgi_impl \<Rightarrow> bool" where
  "lengthless_post bo s \<longleftrightarrow>
     (\<exists>i role flags prs chunks rest e. i \<noteq> 0 \<and> 0 < role \<and> role < 65536 \<and> flags < 256 \<and>
        list_all params_ok prs \<and> list_all stdin_ok chunks \<and>
        env_value (request_env prs) ''REQUEST_METHOD'' = ''POST'' \<and>
        lexical_size bo (env_value (request_env prs) ''CONTENT_LENGTH'') = None \<and>
        s = fcgi_impl_new (server_request i role flags prs chunks @ rest) e)"

lemma std_not_undefined: "is_std_exception e \<Longrightarrow> \<not> is_undefined e"
  by (cases e) (simp_all add: is_undefined_def)

lemma lengthless_post_ends:
  assumes "lengthless_post bo s"
  shows "fcgi_run bo l (s # ss) w = (Returned, [], w)"
proof -
  from assms obtain e where e: "fcgi_load bo parse_form s = Some (Inl e)" "is_std_exception e"
    and "s\<lparr>request_status := 1\<rparr> = s"
    unfolding lengthless_post_def using request_without_length fcgi_impl_new_accepted by metis
  then have "handle_accept bo l 1 s w = (Some (Inl e), w)"
    by (intro accept_thrown) (simp add: handle_request_def)
  then show ?thesis using std_not_undefined [OF e(2)] by (rule run_thrown)
qed

lemma closed_connection_ends:
  assumes "e \<noteq> No_error"
  shows "fcgi_run bo l (fcgi_impl_new [] e # ss) w = (Returned, [], w)"
proof -
  obtain s where s: "fcgi_load bo parse_form (fcgi_impl_new [] e) = Some (Inr (e, s))" "\<not> conn_open s"
    by (rule closed_connection_gives_up [OF assms])
  have "handle_accept bo l 1 (fcgi_impl_new [] e) w = (Some (Inl (System_error (code_message closed_code))), w)"
    using assms s(2) by (intro accept_thrown) (simp add: fcgi_impl_new_accepted handle_request_def s(1) commit_closed)
  then show ?thesis by (rule run_thrown) (simp add: is_undefined_def)
qed

subsection \<open>Properties\<close>


text \<open>A request as an example: two records of parameters, the second of them padded, and two of standard input.\<close>

definition sample_params :: "params_record list" where
  "sample_params = [([(''REQUEST_METHOD'', ''POST'')], 0), ([(''CONTENT_LENGTH'', ''2'')], 3)]"

definition sample_post :: "string \<Rightarrow> fcgi_impl" where
  "sample_post c = fcgi_impl_new (server_request 1 1 0 sample_params [(c, []), (''}'', [])] @ ''next'') No_error"

lemma sample_env:
  "env_value (request_env sample_params) ''REQUEST_METHOD'' = ''POST''"
  "env_value (request_env sample_params) ''CONTENT_LENGTH'' = ''2''"
  "env_value (request_env sample_params) ''CONTENT_TYPE'' = []"
  by code_simp+

lemma param_length_short: "length s < 128 \<Longrightarrow> param_length s = [char_of (length s)]"
  by (simp add: param_length_def take_bit_nat_eq_self Let_def)

lemma sample_params_ok: "list_all params_ok sample_params"
proof -
  have "length (pairs_bytes [(''REQUEST_METHOD'', ''POST'')]) = 20"
    "length (pairs_bytes [(''CONTENT_LENGTH'', ''2'')]) = 17"
    by (simp_all add: pairs_bytes_def pair_bytes_def param_length_short)
  then show ?thesis by (simp add: sample_params_def params_ok_def pair_ok_def)
qed

lemma sample_post_is_post: "c \<noteq> [] \<Longrightarrow> length c < 65536 \<Longrightarrow> web_post sample_boost 1 False (c @ ''}'') ''next'' (sample_post c)"
  unfolding web_post_def sample_post_def
  by (intro exI [of _ 1] exI [of _ 0] exI [of _ sample_params] exI [of _ "[(c, []), (''}'', [])]"] exI [of _ No_error])
    (simp add: sample_params_ok stdin_ok_def stdin_content_def post_ok_def sample_env sample_boost_def std_find_def)



definition lengthless_sample :: fcgi_impl where
  "lengthless_sample =
     fcgi_impl_new (server_request 1 1 0 [([(''REQUEST_METHOD'', ''POST'')], 0)] [] @ []) No_error"

lemma lengthless_sample_ok: "lengthless_post sample_boost lengthless_sample"
proof -
  have "env_value (request_env [([(''REQUEST_METHOD'', ''POST'')], 0)]) ''REQUEST_METHOD'' = ''POST''"
    "env_value (request_env [([(''REQUEST_METHOD'', ''POST'')], 0)]) ''CONTENT_LENGTH'' = []"
    by code_simp+
  moreover have "length (pairs_bytes [(''REQUEST_METHOD'', ''POST'')]) = 20"
    by (simp add: pairs_bytes_def pair_bytes_def param_length_short)
  ultimately show ?thesis
    unfolding lengthless_post_def lengthless_sample_def
    by (intro exI [of _ 1] exI [of _ 0] exI [of _ "[([(''REQUEST_METHOD'', ''POST'')], 0)]"] exI [of _ "[]"]
        exI [of _ No_error])
      (simp add: params_ok_def pair_ok_def sample_boost_def)
qed


end
