(* ===== verification/Spec2Isabelle.thy ===== *)
theory Spec2Isabelle
  imports Requests_Message Requests_Send Requests_Edit Requests_Admin Poll Pollers Fcgi File
begin

text \<open>
  LibTelegram is a header-only C++ library for Telegram bots. A bot creates a \<open>sender\<close>, which turns each
  call into one HTTPS request of the Bot API, and a listener, which receives updates and runs the bot's
  callbacks on them. This development models the library's own code and the parts of its bundled
  headers (\<open>json.hpp\<close>, \<open>urdl\<close>, \<open>boost/cgi\<close>) the library's behaviour rests on.

  \<^bold>\<open>How the parts interact.\<close> A request is a JSON tree built member by member (\<open>sender.h\<close>), with reply
  markup written into it by the classes under \<open>types/reply_markup\<close>. It is serialised and posted to the
  URL of its method (\<open>urdl\<close>); the reply is parsed into a tree, checked for \<open>ok\<close>, and its \<open>result\<close> is read
  by the \<open>from_json\<close> functions under \<open>types/\<close>, all of them compositions of the helpers in
  \<open>types/helpers\<close>. The polling listener (\<open>listeners/poll.h\<close>) asks the server for updates through the same
  sender and hands them to \<open>base::execute_callbacks\<close> (\<open>listeners/base.h\<close>), as the FastCGI listener
  (\<open>listeners/fcgi.h\<close>) does with the updates a web hook delivers.

  \<^bold>\<open>Theories and code.\<close>
  \<^item> \<open>Prelude\<close>: C++ exceptions as values (\<open>cxx_error\<close>), results \<open>cxx_error + 'a\<close> with \<open>bindE\<close> and
    \<open>traverse\<close>, the error classes (standard exception, \<open>out_of_range\<close>, type error, undefined behaviour).
  \<^item> \<open>Machine\<close>: IEEE floats as bit patterns in words; conversions between doubles, floats and integers.
  \<^item> \<open>Json\<close>: the values of \<open>json.hpp\<close>; \<open>at\<close>, both \<open>operator[]\<close>, \<open>push_back\<close>, \<open>get\<close>, \<open>contains\<close> with their
    exceptions. An object is the sorted association list of \<open>std::map\<close>.
  \<^item> JSON texts, again from \<open>json.hpp\<close>. Code: \<open>Utf8\<close> (the decoder automaton of the serializer), \<open>Dtoa\<close> (Grisu2 and
    \<open>to_chars\<close>), \<open>Dump\<close> (the class \<open>serializer\<close> and \<open>dump\<close>), \<open>Strtod\<close> (the C library functions the lexer converts
    numbers with), \<open>Lexer\<close> (the class \<open>lexer\<close>), \<open>Parser\<close> (the class \<open>parser\<close>, the handler that builds the value,
    \<open>operator>>\<close>). Specification: \<open>Json_Grammar\<close>, the grammar of RFC 8259 as the inductive relation \<open>json_text\<close>
    between values and texts. Proofs: \<open>Lexer_Facts\<close> (progress), \<open>Json_Text\<close> and \<open>Json_Complete\<close> (every text of the
    grammar is read), \<open>Json_Print\<close> and \<open>Json_Round\<close> (every value is written as a text of the grammar),
    \<open>Grisu_Digits\<close>, \<open>Grisu_Powers\<close>, \<open>Grisu\<close> (Grisu2 finds digits strictly between the half-way points to the
    neighbouring doubles), \<open>Float_Text\<close> and \<open>Float_Round\<close> (\<open>strtod\<close> gives the double back), \<open>Json_Valid\<close> (what
    kind of value the parser leaves), \<open>Json_Wire\<close> (both directions together).
  \<^item> \<open>Decode\<close>: the helpers \<open>make_optional_from_json\<close>, \<open>make_shared_from_json\<close> and
    \<open>make_optional_vector_from_json\<close>; the locales \<open>json_decoder\<close> (what a \<open>from_json\<close> may throw) and \<open>wire_type\<close>
    (it reads back what the wire holds), interpreted for every type of the library.
  \<^item> \<open>Types_Files\<close>, \<open>Types_Facts\<close>, \<open>Types_Message\<close>, \<open>Types_Query\<close>: one record or datatype per struct under
    \<open>types/\<close>, its decoder with the reads in the order of the source, and its wire format, a specification
    written from the member names (\<open>_to_wire\<close>, \<open>_keys\<close>, \<open>wf_\<close>).
  \<^item> \<open>Trees\<close>: statements that write members of a tree, and what a list of them leaves in it.
  \<^item> \<open>Markup\<close>: buttons, keyboards and the four reply markups.
  \<^item> \<open>Url\<close>: \<open>urdl::url\<close>: parsing, printing, port, path decoding, comparison.
  \<^item> The streams of \<open>urdl\<close>, which a download uses. \<open>Http_Parse\<close>: the two automata of \<open>detail/parsers.hpp\<close> for
    the status line and the headers, with the grammar of the status line. \<open>Options\<close>: \<open>option_set\<close> and the
    options of \<open>http.hpp\<close>, with the locale \<open>typed_store\<close>. \<open>Connection\<close>: what Asio and OpenSSL answer (the record
    \<open>asio\<close>), and \<open>detail/handshake.hpp\<close> with its check of the host name against the certificate; \<open>covers\<close> says which
    names a pattern covers. \<open>Http_Stream\<close>: \<open>detail/http_read_stream.hpp\<close>, blocking: the request, the reply, open,
    close and read. \<open>Read_Stream\<close>: \<open>read_stream.hpp\<close> and \<open>detail/file_read_stream.hpp\<close>: protocols and redirects.
    \<open>Async_Open\<close>: the coroutines (\<open>detail/coroutine.hpp\<close>, \<open>detail/connect.hpp\<close> and the \<open>async_\<close> halves of the
    others) as step functions that yield or call their handler. \<open>Istream\<close>: \<open>istreambuf\<close> and \<open>istream\<close>.
  \<^item> \<open>File\<close>: \<open>types/file.h\<close>: the download URL and the download through \<open>Istream\<close>.
  \<^item> \<open>Sender\<close>: one request: \<open>send_json\<close>, the treatment of a reply, the three ways a reply is read.
    \<open>Calls\<close>: what all request functions share, as the locale \<open>api_method\<close> with one interpretation per
    function. \<open>Requests_Message\<close>, \<open>Requests_Send\<close>, \<open>Requests_Edit\<close>, \<open>Requests_Admin\<close>: the public functions
    of \<open>sender\<close>, each as the statements that build its tree (\<open>_tree\<close>) and the call; \<open>_body\<close> is the object
    the specification asks for.
  \<^item> \<open>Listener\<close>: \<open>base.h\<close>. A callback is an effect on a state \<open>'w\<close> of the bot that may throw. The dispatch
    is proved to deliver the list \<open>events\<close> of the update.
  \<^item> \<open>Poll\<close>: one listener. \<open>poll_cycle\<close> is one turn of the loop of \<open>run\<close>, its condition included;
    \<open>poll_moves\<close> adds \<open>stop\<close>, \<open>stop_all\<close> and the signal handler at any moment.
    \<open>Pollers\<close>: any number of listeners, which share the global flag and the signal handler.
  \<^item> The FastCGI protocol of \<open>boost/cgi\<close>. \<open>Fcgi_Spec\<close>: record headers and bodies, error codes
    (\<open>fcgi/specification.hpp\<close>, the two \<open>error.hpp\<close>). \<open>Form_Parser\<close>: percent decoding, query strings and the three kinds
    of form. \<open>Fcgi_Request\<close>: loading a request (\<open>impl/fcgi_request_service.ipp\<close>); the record \<open>fcgi_impl\<close> is the request
    with its client and its connection. \<open>Fcgi_Response\<close>: headers, packets, closing and \<open>commit\<close>. Specification:
    \<open>Fcgi_Wire\<close>, the records a web server sends for one request (\<open>server_request\<close>) with the proof that they are loaded, and
    \<open>server_reads\<close> in \<open>Fcgi_Response\<close>, what it makes of the answer.
  \<^item> \<open>Fcgi\<close>: \<open>listeners/fcgi.h\<close>: the handler of a request and \<open>run\<close> on one thread, with the acceptor's \<open>handle_accept\<close>.
  \<^item> \<open>Spec2Isabelle\<close>: the properties that need several of these.

  \<^bold>\<open>What the lemmas show.\<close> Wire format: every decoder is total, throws only what the JSON accessors throw,
  and reads back its wire format whatever further members an object has. Requests: each call makes the
  requests its specification names, no more, with the body of its specification; long texts are split
  without loss. JSON: what \<open>dump\<close> writes is a text of the grammar and is read back, doubles bit for bit;
  it fails on ill-formed UTF-8 only; what the parser leaves is always a value \<open>dump\<close> accepts. Replies: which replies are values, which are nothing, which throw. Listeners: updates are
  handled in order, at most once, guarded; the offset never goes back; what ends a loop and what does not.
  Web hook: the records of a POST, however cut and padded, reach the callbacks as the update they carry, after the web
  server has got its answer; what of an answer arrives; what ends the listener.
  Streams: which status lines are accepted, that an encrypted connection is to the host of the URL, that the
  blocking open and the reads deliver the content of a reply however it is cut into pieces, that the coroutine
  makes the same exchange once it is connected, and that it never gets there: what it yields on is a
  synchronous call, so that \<open>istream\<close> opens no web address and \<open>file::download\<close> delivers nothing.

  \<^bold>\<open>Termination.\<close> There is no fuel. Decoding recurses into strictly smaller members
  (\<open>json_get_size\<close>), \<open>send_message\<close> into strictly shorter texts, the path decoder into the rest of its
  input, the loops of the lexer and the parser take characters from theirs (\<open>lex_left\<close>, \<open>parse_left\<close>). The
  loops of Grisu2 end only for the arguments they are meant for: they are partial functions, proved to
  return for every positive finite double. A status line takes bytes out of the reply, redirects of the
  blocking open count up to \<open>max_redirects\<close>, reads make the stream shorter; the redirects of the asynchronous
  open have no limit in the code, so \<open>run_coro\<close> and \<open>stream_async_open\<close> are partial functions, whose value is
  computed where a property needs it. The loops over FastCGI records take bytes from the connection; the one call
  that can wait for ever there, \<open>read_header\<close>, says so by the value \<open>None\<close>, and the properties state that the handler
  returns. The polling loop, which need not end, is a step function iterated by a step relation.

  \<^bold>\<open>Machine.\<close> x86-64 GNU, C locale, release build (assertions off): \<open>int\<close> has 32 bits, \<open>size_t\<close> 64. Fields are
  words of their width, and signed overflow (an update identifier of 2^31 - 1) is the error \<open>Undefined\<close>. A
  \<open>std::string\<close> is a list of bytes, and \<open>c_str\<close> cuts at the first NUL where the code passes a C string.

  \<^bold>\<open>Parameters.\<close> The argument \<open>network\<close> is what the sender gets from outside the library: the HTTPS exchange
  of \<open>httplib.h\<close>, as a function of all requests so far that gives no reply or a status and a body. \<open>hardware_concurrency\<close> is an argument likewise. The FastCGI listener
  takes what Boost itself does from the record \<open>boost_env\<close> (a conversion of text to a number, a tokenizer, trimming, the
  time, the most bytes of one write), and the bytes a web server sends from the request. Below the streams of \<open>urdl\<close> there are two: \<open>asio\<close>, which gives for every attempt to connect
  the answers of the resolver, the socket and the TLS library and the pieces in which the reply to a request
  arrives, and \<open>disk\<close>, the local files. The hypotheses made about them are
  named where they are used: that the server honours the offset (\<open>honours\<close>). The serializer and the parser
  are no parameters: requests and replies are the bytes the modelled code writes and reads.

  \<^bold>\<open>Not modelled.\<close> The third-party HTTP client (\<open>httplib.h\<close>), whose protocol I/O the library only calls. Of \<open>boost/cgi\<close>, the
  sockets, which of its requests the acceptor takes next, other requests served while \<open>read_header\<close> waits, the asynchronous
  load, sessions, and the other protocols (CGI, SCGI); of the listener, \<open>run\<close> with several threads. Of \<open>urdl\<close>, the allocation hooks of its handlers and a close
  that fails; its timers are two questions put to \<open>asio\<close>, whether a name is resolved in time and whether a
  handler posted to Asio's own threads runs before the caller's next step. Of \<open>json.hpp\<close>, the binary formats,
  iterators, patches and pointers, which nothing in the library uses. The worker threads of \<open>asio\<close>: an
  update posted to the pool is recorded in \<open>posted\<close>. Console output. The functions \<open>unset_callback_raw_json\<close>, \<open>unset_callback_raw_native\<close>,
  \<open>unset_callback_json_json\<close> and \<open>unset_callback_json_native\<close>, which have a declaration and no body.
\<close>

section \<open>Properties that span components\<close>

subsection \<open>What the decoders read\<close>

text \<open>A private chat and a message in it, for the examples.\<close>

definition sample_chat :: chat where
  "sample_chat = Chat 7 PRIVATE None (Some ''ann'') None None None None None None None"

definition sample_message :: message where
  "sample_message = Message 12 None 1500000000 sample_chat
     None None None None None None None None None None None None None None None None None
     None None None None None None None None None None None None None None None None"

lemma wf_sample: "wf_chat sample_chat" "wf_message sample_message"
  by (simp_all add: sample_chat_def sample_message_def)

text \<open>C1: A message is read back from the wire: from every object whose members with a Telegram name are
  those of the message \<open>m\<close>, whatever other members it has, \<open>message::from_json\<close> reads exactly \<open>m\<close>, through
  all the nested chats, messages, media and payments. The 32-bit optional numbers must fit, floats must
  survive the detour over double, and an optional vector may not be empty: the format cannot tell it
  from a missing one.\<close>

theorem message_reads_wire_format:
  assumes "wf_message m" and "is_object j"
    and "list_all (\<lambda>k. json_get j k = json_get (message_to_wire m) k) message_keys"
  shows "message_from_json j = Inr m"
  using assms by (intro message_wire.dec_fields) (simp_all add: list_all_iff)

theorem message_reads_wire_format_witness:
  "message_from_json (JObject [(''chat'', chat_to_wire sample_chat), (''date'', JUint 1500000000),
     (''message_id'', JUint 12), (''unknown'', JArray [])]) = Inr sample_message"
proof -
  have "list_all (\<lambda>k. json_get (JObject [(''chat'', chat_to_wire sample_chat),
      (''date'', JUint 1500000000), (''message_id'', JUint 12), (''unknown'', JArray [])]) k =
      json_get (message_to_wire sample_message) k) message_keys"
    by (simp add: message_keys_def sample_message_def JNumber_def)
  with wf_sample(2) show ?thesis by (intro message_reads_wire_format) simp_all
qed

text \<open>The same for a callback query and for a chat.\<close>

lemma query_and_chat_read_wire_format:
  assumes "is_object j"
  shows "(wf_callback_query q \<and>
      list_all (\<lambda>k. json_get j k = json_get (callback_query_to_wire q) k) callback_query_keys \<longrightarrow>
      callback_query_from_json j = Inr q) \<and>
    (wf_chat c \<and> list_all (\<lambda>k. json_get j k = json_get (chat_to_wire c) k) chat_keys \<longrightarrow>
      chat_from_json j = Inr c)"
  using callback_query_wire.dec_fields [OF _ assms, of q] chat_wire.dec_fields [OF _ assms, of c]
  by (auto simp: list_all_iff)

lemma query_and_chat_read_wire_format_witness:
  "chat_from_json (chat_to_wire sample_chat) = Inr sample_chat"
  using query_and_chat_read_wire_format [of "chat_to_wire sample_chat" undefined sample_chat]
    wf_sample(1) chat_wire.enc_object [of sample_chat]
  by (simp add: list_all_iff)

text \<open>C33: Every media type is read back from its wire format.\<close>

theorem media_round_trips:
  "(wf_photosize p \<longrightarrow> photosize_from_json (photosize_to_wire p) = Inr p) \<and>
   (wf_audio a \<longrightarrow> audio_from_json (audio_to_wire a) = Inr a) \<and>
   (wf_document d \<longrightarrow> document_from_json (document_to_wire d) = Inr d) \<and>
   (wf_video v \<longrightarrow> video_from_json (video_to_wire v) = Inr v) \<and>
   (wf_video_note n \<longrightarrow> video_note_from_json (video_note_to_wire n) = Inr n) \<and>
   (wf_voice o' \<longrightarrow> voice_from_json (voice_to_wire o') = Inr o') \<and>
   (wf_sticker s \<longrightarrow> sticker_from_json (sticker_to_wire s) = Inr s) \<and>
   (wf_sticker_set t \<longrightarrow> sticker_set_from_json (sticker_set_to_wire t) = Inr t) \<and>
   (wf_user_profile_photos u \<longrightarrow>
      user_profile_photos_from_json (user_profile_photos_to_wire u) = Inr u) \<and>
   (wf_file f \<longrightarrow> file_from_json (file_to_wire f) = Inr f)"
  by (simp add: photosize_wire.dec_enc audio_wire.dec_enc document_wire.dec_enc video_wire.dec_enc
      video_note_wire.dec_enc voice_wire.dec_enc sticker_wire.dec_enc sticker_set_wire.dec_enc
      user_profile_photos_wire.dec_enc file_wire.dec_enc)

definition sample_file :: telegram_file where
  "sample_file = \<lparr>file_file_id = ''A'', file_file_size = Some 10, file_file_path = None\<rparr>"

theorem media_round_trips_witness:
  "file_from_json (JObject [(''file_id'', JString ''A''), (''file_size'', JUint 10)]) = Inr sample_file"
proof -
  have "wf_file sample_file" by (simp add: wf_file_def sample_file_def fits32_def)
  moreover have "file_to_wire sample_file =
      JObject [(''file_id'', JString ''A''), (''file_size'', JUint 10)]"
    by (simp add: file_to_wire_def sample_file_def mk_object_def JNumber_def)
  ultimately show ?thesis using media_round_trips [where f = sample_file] by simp
qed

text \<open>C34: Every type for persons, places and payments is read back from its wire format.\<close>

theorem fact_round_trips:
  "(wf_user u \<longrightarrow> user_from_json (user_to_wire u) = Inr u) \<and>
   (wf_contact c \<longrightarrow> contact_from_json (contact_to_wire c) = Inr c) \<and>
   (wf_location l \<longrightarrow> location_from_json (location_to_wire l) = Inr l) \<and>
   (wf_venue v \<longrightarrow> venue_from_json (venue_to_wire v) = Inr v) \<and>
   (wf_invoice i \<longrightarrow> invoice_from_json (invoice_to_wire i) = Inr i) \<and>
   (wf_shipping_address a \<longrightarrow> shipping_address_from_json (shipping_address_to_wire a) = Inr a) \<and>
   (wf_order_info o' \<longrightarrow> order_info_from_json (order_info_to_wire o') = Inr o') \<and>
   (wf_successful_payment p \<longrightarrow> successful_payment_from_json (successful_payment_to_wire p) = Inr p)"
  by (simp add: user_wire.dec_enc contact_wire.dec_enc location_wire.dec_enc venue_wire.dec_enc
      invoice_wire.dec_enc shipping_address_wire.dec_enc order_info_wire.dec_enc
      successful_payment_wire.dec_enc)

definition sample_location :: location where
  "sample_location = \<lparr>location_latitude = 0x3F800000, location_longitude = 0\<rparr>"

theorem fact_round_trips_witness:
  "location_from_json (JObject [(''latitude'', JFloat 0x3FF0000000000000), (''longitude'', JFloat 0)]) =
     Inr sample_location"
proof -
  note fp = float_to_double_def double_to_float_def fp_decode_def fp_encode_def fp_emin_def
    fp_bias_def round_half_even_def bit_length_simps
  have wide: "float_to_double 0x3F800000 = 0x3FF0000000000000" "float_to_double 0 = 0"
    by (simp_all add: fp)
  moreover have "double_to_float 0x3FF0000000000000 = 0x3F800000" "double_to_float 0 = 0"
    by (simp_all add: fp)
  ultimately have "wf_location sample_location"
    by (simp add: wf_location_def sample_location_def float_exact_def)
  moreover have "location_to_wire sample_location =
      JObject [(''latitude'', JFloat 0x3FF0000000000000), (''longitude'', JFloat 0)]"
    by (simp add: location_to_wire_def sample_location_def mk_object_def JReal_def wide)
  ultimately show ?thesis using fact_round_trips [where l = sample_location] by simp
qed

text \<open>How an optional child message can fail: a child object without \<open>message_id\<close>, the first member that is read,
  is dropped without a word, and so is a missing one; an explicit null makes the read throw error 304; and no
  read of an optional child ever throws \<open>out_of_range\<close>. A child with \<open>message_id\<close> but other faults fails in the
  order in which its members are read.\<close>

lemma optional_children:
  assumes "json_get t k = Some (JObject m)" and "map_of m ''message_id'' = None"
    and "json_get t k' = Some JNull" and "is_object t" and "json_get t k'' = None"
  shows "make_optional_from_json message_from_json t k = Inr None \<and>
    make_optional_from_json message_from_json t k' =
      Inl (Type_error 304 (''cannot use at() with '' @ json_type_name JNull)) \<and>
    make_optional_from_json message_from_json t k'' = Inr None \<and>
    (case make_optional_from_json message_from_json t i of
       Inl e \<Rightarrow> \<not> is_out_of_range e
     | Inr x \<Rightarrow> True)"
proof (intro conjI)
  have "message_from_json (JObject m) = Inl (key_not_found ''message_id'')"
    using assms(2) by (subst message_from_json.simps) (simp add: readers_object)
  with assms(1) show "make_optional_from_json message_from_json t k = Inr None"
    by (rule message_wire.optional_incomplete)
  have "message_from_json JNull = Inl (Type_error 304 (''cannot use at() with '' @ json_type_name JNull))"
    by (rule message_wire.dec_not_object) simp
  with assms(3) show "make_optional_from_json message_from_json t k' =
      Inl (Type_error 304 (''cannot use at() with '' @ json_type_name JNull))"
    by (simp add: make_optional_from_json_def)
  show "make_optional_from_json message_from_json t k'' = Inr None"
    using assms(4,5) by (rule message_wire.optional_missing)
  show "case make_optional_from_json message_from_json t i of
       Inl e \<Rightarrow> \<not> is_out_of_range e | Inr x \<Rightarrow> True"
    by (auto split: sum.split simp: make_optional_from_json_def catch_eq_Inl_iff)
qed

lemma optional_children_witness:
  "make_optional_from_json message_from_json
     (JObject [(''pinned_message'', JNull), (''reply_to_message'', JObject [])]) ''reply_to_message'' =
   Inr None"
  using optional_children [where t = "JObject [(''pinned_message'', JNull), (''reply_to_message'', JObject [])]"
      and k = "''reply_to_message''" and k' = "''pinned_message''" and k'' = "''text''" and m = "[]"]
  by simp

text \<open>A vector that is read has one element per element of the array, in its order, each what the
  decoder makes of that element; in particular it is never empty.\<close>

lemma vectors_keep_order:
  assumes "make_optional_vector_from_json user_from_json t k = Inr (Some us)"
  shows "\<exists>js. json_get t k = Some (JArray js) \<and> us \<noteq> [] \<and> length us = length js \<and>
    list_all2 (\<lambda>j u. user_from_json j = Inr u) js us"
proof -
  obtain js where "json_get t k = Some (JArray js)" "us \<noteq> []" "length us = length js"
    "\<forall>i < length us. user_from_json (js ! i) = Inr (us ! i)"
    using user_wire.vector_length [OF assms] by blast
  then show ?thesis by (auto simp: list_all2_conv_all_nth)
qed

definition sample_user :: user where
  "sample_user = \<lparr>user_id = 9, user_is_bot = False, user_first_name = ''Ann'', user_last_name = None, user_username = None,
     user_language_code = None\<rparr>"

lemma vectors_keep_order_witness:
  "\<exists>js. json_get (JObject [(''new_chat_members'', JArray [user_to_wire sample_user])])
      ''new_chat_members'' = Some (JArray js) \<and> length [sample_user] = length js"
proof -
  have "user_from_json (user_to_wire sample_user) = Inr sample_user"
    by (rule user_wire.dec_enc) (simp add: wf_user_def sample_user_def)
  then have "make_optional_vector_from_json user_from_json
      (JObject [(''new_chat_members'', JArray [user_to_wire sample_user])]) ''new_chat_members'' =
    Inr (Some [sample_user])"
    by (simp add: make_optional_vector_from_json_def)
  from vectors_keep_order [OF this] show ?thesis by blast
qed

subsection \<open>What a request carries and a reply brings back\<close>

text \<open>C37: A reply markup of any of the four kinds writes the member \<open>reply_markup\<close> of a request and
  nothing else, succeeds on every request under construction that does not have it yet, and writes the
  object of its specification. A keyboard without rows is written as null, not as an empty array.\<close>

theorem markup_writes_one_member:
  assumes "is_tree t" and "json_get t ''reply_markup'' = None"
  shows "(\<exists>t'. reply_markup_get mk t = Inr t' \<and>
      json_get t' = (json_get t)(''reply_markup'' \<mapsto> reply_markup_json mk)) \<and>
    reply_markup_json (Inline_keyboard \<lparr>inline_keyboard_buttons = []\<rparr>) =
      JObject [(''inline_keyboard'', JNull)]"
proof
  obtain t' where "reply_markup_get mk t = Inr t'"
    using reply_markup_writer.get_succeeds [OF assms(2,1)] by blast
  with reply_markup_writer.get_frame [OF assms(2) this]
  show "\<exists>t'. reply_markup_get mk t = Inr t' \<and>
      json_get t' = (json_get t)(''reply_markup'' \<mapsto> reply_markup_json mk)"
    by blast
qed (simp add: inline_keyboard_json_def rows_json_def mk_object_def)

theorem markup_writes_one_member_witness:
  "\<exists>t'. reply_markup_get (Force_reply \<lparr>force_selective = SELECTIVE\<rparr>) (JObject [(''text'', JString ''hi'')]) =
      Inr t' \<and> json_get t' ''text'' = Some (JString ''hi'')"
proof -
  have "is_tree (JObject [(''text'', JString ''hi'')])"
    and "json_get (JObject [(''text'', JString ''hi'')]) ''reply_markup'' = None"
    by simp_all
  from markup_writes_one_member [OF this, of "Force_reply \<lparr>force_selective = SELECTIVE\<rparr>"]
  show ?thesis by auto
qed

text \<open>An inline button carries its label and exactly the one action it was made with: for the text
  actions the content under the member of that action, for a game null, for a payment true whatever the
  content. Asking for an action with a content of another kind throws \<open>bad_variant_access\<close>.\<close>

lemma inline_button_has_one_action:
  "bindE (inline_button label ty content) (\<lambda>b. inline_button_get b JNull) =
     (case (ty, content) of
        (BUTTON_URL, Content_string s) \<Rightarrow>
          Inr (JObject [(''text'', JString label), (''url'', JString s)])
      | (BUTTON_CALLBACK, Content_string s) \<Rightarrow>
          Inr (JObject [(''callback_data'', JString s), (''text'', JString label)])
      | (BUTTON_SWITCH, Content_string s) \<Rightarrow>
          Inr (JObject [(''switch_inline_query'', JString s), (''text'', JString label)])
      | (BUTTON_SWITCH_CURRENT, Content_string s) \<Rightarrow>
          Inr (JObject [(''switch_inline_query_current_chat'', JString s), (''text'', JString label)])
      | (BUTTON_GAME, Content_game g) \<Rightarrow>
          Inr (JObject [(''callback_game'', JNull), (''text'', JString label)])
      | (BUTTON_PAY, c) \<Rightarrow> Inr (JObject [(''pay'', JBool True), (''text'', JString label)])
      | _ \<Rightarrow> Inl Bad_variant_access)"
  by (cases ty; cases content)
    (simp_all add: inline_button_def inline_button_get_null inline_button_json_def mk_object_def)

text \<open>C5: A message the server returns reaches the caller, from the bytes of the reply: when the body of the
  reply to \<open>sendMessage\<close> is a JSON text of an object with \<open>ok\<close> true and the wire form of \<open>m\<close> as its
  result, a text of valid UTF-8 that fits into one message is sent once and the call returns \<open>m\<close>; what
  was sent is read back by a JSON parser as the request.\<close>

theorem sent_message_is_returned:
  assumes "list_all path_char token" and "utf8_valid content" and "content \<noteq> []" and "length content \<le> 4096"
    and "valid_json (chat_json cid)" and "pred_option valid_json (map_option reply_markup_json markup)"
    and "\<And>rs. net rs = Reply 200 (v @ reply @ v')" and "white v" and "white v'" and "json_text (JObject kvs) reply"
    and "map_of kvs ''ok'' = Some (JBool True)" and "map_of kvs ''result'' = Some (message_to_wire m)"
    and "wf_message m"
  shows "\<exists>body. send_message net (sender_new no_ssl token ua) cid content reply_to parse preview
      notification markup hist =
    (Inr (Some m), hist @ [api_request no_ssl token ''sendMessage'' 30 body]) \<and>
    json_read body JNull =
      (reread (send_message_body (cid, content, reply_to, parse, preview, notification, markup)), None)"
proof -
  let ?a = "(cid, content, reply_to, parse, preview, notification, markup)"
  have pre: "case ?a of (cid, content, _) \<Rightarrow> content \<noteq> [] \<and> length content \<le> message_length_limit"
    using assms(3,4) by (simp add: message_length_limit_def)
  have valid: "valid_json (send_message_body ?a)"
    using assms(2,5,6) by (rule send_message_body_valid)
  then obtain body where body: "json_dump (- 1) (send_message_body ?a) = Inr body" by (rule valid_json_printed)
  have "json_read (v @ reply @ v') JNull = (JObject kvs, None)"
    by (rule json_text_read [OF assms(10,8) white_number_ends [OF assms(9)]])
  moreover have "v @ reply @ v' \<noteq> []" using json_text_not_empty [OF assms(10)] by simp
  ultimately have "handle_reply u (Reply 200 (v @ reply @ v')) = Inr (JObject kvs)" for u
    by (simp add: handle_reply_def)
  moreover have "wf_json (JObject kvs)" using json_text_valid [OF assms(10)] by (simp only: valid_json_def)
  then have "read_reply (make_optional_from_json message_from_json) (JObject kvs) = Inr (Some m)"
    by (rule message_wire.read_reply_value [rotated])
      (use assms(11,12) message_wire.dec_enc [OF assms(13)] in simp_all)
  ultimately show ?thesis
    using send_message_call.sends_one [OF pre assms(1) body, where net = net and no_ssl = no_ssl and ua = ua and hist = hist]
      body_reads_back(2) [OF valid body] assms(7)
    by (intro exI [of _ body]) (simp add: default_poll_timeout_def)
qed

definition sample_reply :: "(string \<times> json) list" where
  "sample_reply = [(''ok'', JBool True), (''result'', message_to_wire sample_message)]"

theorem sent_message_is_returned_witness:
  "fst (send_message (\<lambda>_. Reply 200 (ok_reply (message_to_wire sample_message)))
     (sender_new False ''42:ab'' ''Bot'') (Chat_number 7) ''hi'' (- 1)
     parse_default preview_default notify_default None []) = Inr (Some sample_message)"
proof -
  have "valid_json (message_to_wire sample_message)" "reread (message_to_wire sample_message) = message_to_wire sample_message"
    by (simp_all add: sample_message_def sample_chat_def mk_object_def JNumber_def obj_sorted_def utf8_valid_ascii)
  with ok_reply_text [of "message_to_wire sample_message"]
  have reply: "json_text (JObject sample_reply) (ok_reply (message_to_wire sample_message))"
    by (simp add: sample_reply_def)
  have plain: "list_all path_char ''42:ab''" by code_simp
  have hi: "utf8_valid ''hi''" by code_simp
  have members: "map_of sample_reply ''ok'' = Some (JBool True)"
    "map_of sample_reply ''result'' = Some (message_to_wire sample_message)"
    by (simp_all add: sample_reply_def)
  have "\<exists>body. send_message (\<lambda>_. Reply 200 (ok_reply (message_to_wire sample_message)))
     (sender_new False ''42:ab'' ''Bot'') (Chat_number 7) ''hi'' (- 1)
     parse_default preview_default notify_default None [] =
       (Inr (Some sample_message), [] @ [api_request False ''42:ab'' ''sendMessage'' 30 body]) \<and>
     json_read body JNull = (reread (send_message_body (Chat_number 7, ''hi'', - 1, parse_default,
       preview_default, notify_default, None)), None)"
    by (rule sent_message_is_returned [OF plain hi _ _ _ _ _ _ _ reply members wf_sample(2), of _ _ _ "[]" "[]"]) simp_all
  then show ?thesis by auto
qed

text \<open>C19: What a reply holds never makes a call that reads a message, a chat, a file or a chat
  member throw: whatever bytes the server sends with status 200, when what the parser makes of them is an
  object, or nothing at all, such a call answers with a value or with nothing. The only reply contents that
  throw are those of another kind: with them every call throws a type error.\<close>

theorem reply_contents_do_not_throw:
  assumes "handle_reply u (Reply 200 body) = Inr j"
  shows "(is_tree j \<longrightarrow>
      (\<forall>e. read_reply (make_optional_from_json message_from_json) j = Inl e \<longrightarrow> is_undefined e) \<and>
      (\<forall>e. read_reply (make_optional_from_json chat_from_json) j = Inl e \<longrightarrow> is_undefined e) \<and>
      (\<forall>e. read_reply (make_optional_from_json file_from_json) j = Inl e \<longrightarrow> is_undefined e) \<and>
      (\<forall>e. read_reply (make_optional_from_json chat_member_from_json) j = Inl e \<longrightarrow>
        is_undefined e)) \<and>
    (\<not> is_tree j \<longrightarrow>
      (\<exists>e. is_type_error e \<and> read_bool_reply j = Inl e \<and>
        read_reply (make_optional_from_json message_from_json) j = Inl e))"
proof (intro conjI impI)
  assume "is_tree j"
  with handle_reply_valid [OF assms] show
    "\<forall>e. read_reply (make_optional_from_json message_from_json) j = Inl e \<longrightarrow> is_undefined e"
    "\<forall>e. read_reply (make_optional_from_json chat_from_json) j = Inl e \<longrightarrow> is_undefined e"
    "\<forall>e. read_reply (make_optional_from_json file_from_json) j = Inl e \<longrightarrow> is_undefined e"
    "\<forall>e. read_reply (make_optional_from_json chat_member_from_json) j = Inl e \<longrightarrow> is_undefined e"
    using message_wire.read_reply_silent chat_wire.read_reply_silent file_wire.read_reply_silent
      chat_member_decoder.read_reply_silent
    by blast+
next
  assume "\<not> is_tree j"
  then show "\<exists>e. is_type_error e \<and> read_bool_reply j = Inl e \<and>
      read_reply (make_optional_from_json message_from_json) j = Inl e"
    by (auto simp: read_reply_def read_bool_reply_def dest!: check_ok_not_tree)
qed

theorem reply_contents_do_not_throw_witness:
  "\<exists>e. is_type_error e \<and> read_bool_reply (fst (json_read ''[]'' JNull)) = Inl e"
proof -
  have "fst (json_read ''[]'' JNull) = JArray []" by code_simp
  then have "handle_reply url_empty (Reply 200 ''[]'') = Inr (JArray [])" by (simp add: handle_reply_def)
  from reply_contents_do_not_throw [OF this] \<open>fst (json_read ''[]'' JNull) = JArray []\<close> show ?thesis
    by (auto simp: is_tree_def)
qed

end
